(* ===== verification/Prelude.thy ===== *)
theory Prelude
  imports Main "HOL-Library.AList" "HOL-Library.Sublist"
begin

text \<open>
  What every component shares: the Rust string library, results, and bounded maps.

  A Rust \<open>String\<close> is its UTF-8 bytes, so it is a HOL \<open>string\<close> (a list of 8-bit characters):
  \<open>len()\<close> is \<open>length\<close>, and literals are ASCII. The operations that work on Unicode characters
  (\<open>trim\<close>, \<open>chars\<close>, \<open>is_whitespace\<close>, \<open>is_control\<close>) are written on the encodings: Rust
  guarantees valid UTF-8, where a multi-byte encoding matches at character boundaries only.
  A \<open>Result<T, E>\<close> is a sum with the error on the left. A \<open>HashMap\<close> that is counted, listed or
  iterated is an association list with distinct keys; its iteration order is not specified by
  Rust, so operations that depend on it take the choice as an argument.
\<close>

named_theorems rust_str \<open>characterisations of the string functions\<close>
named_theorems result_simps \<open>unfolding of result combinators\<close>

section \<open>Results\<close>

text \<open>The \<open>?\<close> operator and \<open>map_err\<close>.\<close>

fun try_bind :: "'e + 'a \<Rightarrow> ('a \<Rightarrow> 'e + 'b) \<Rightarrow> 'e + 'b" where
  "try_bind (Inl e) f = Inl e"
| "try_bind (Inr x) f = f x"

fun map_err :: "('e \<Rightarrow> 'f) \<Rightarrow> 'e + 'a \<Rightarrow> 'f + 'a" where
  "map_err f (Inl e) = Inl (f e)"
| "map_err f (Inr x) = Inr x"

fun is_ok :: "'e + 'a \<Rightarrow> bool" where
  "is_ok (Inl e) = False"
| "is_ok (Inr x) = True"

fun ok_or :: "'e \<Rightarrow> 'a option \<Rightarrow> 'e + 'a" where
  "ok_or e None = Inl e"
| "ok_or e (Some x) = Inr x"

text \<open>\<open>iter().map(f).collect::<Result<Vec<_>, _>>()\<close>: the first error wins.\<close>

fun collect_results :: "('a \<Rightarrow> 'e + 'b) \<Rightarrow> 'a list \<Rightarrow> 'e + 'b list" where
  "collect_results f [] = Inr []"
| "collect_results f (x # xs) =
     (case f x of Inl e \<Rightarrow> Inl e
      | Inr y \<Rightarrow> (case collect_results f xs of Inl e \<Rightarrow> Inl e | Inr ys \<Rightarrow> Inr (y # ys)))"

text \<open>\<open>iter().find_map(f)\<close>: the first \<open>Some\<close>.\<close>

fun find_map :: "('a \<Rightarrow> 'b option) \<Rightarrow> 'a list \<Rightarrow> 'b option" where
  "find_map f [] = None"
| "find_map f (x # xs) = (case f x of None \<Rightarrow> find_map f xs | Some y \<Rightarrow> Some y)"

fun or_else :: "'a option \<Rightarrow> 'a option \<Rightarrow> 'a option" where
  "or_else None y = y"
| "or_else (Some x) y = Some x"

fun option_filter :: "('a \<Rightarrow> bool) \<Rightarrow> 'a option \<Rightarrow> 'a option" where
  "option_filter p None = None"
| "option_filter p (Some x) = (if p x then Some x else None)"

fun unwrap_or :: "'a \<Rightarrow> 'a option \<Rightarrow> 'a" where
  "unwrap_or d None = d"
| "unwrap_or d (Some x) = x"

fun last_opt :: "'a list \<Rightarrow> 'a option" where
  "last_opt [] = None"
| "last_opt [x] = Some x"
| "last_opt (x # xs) = last_opt xs"

lemma try_bind_Inr [result_simps]: "try_bind r f = Inr y \<longleftrightarrow> (\<exists>x. r = Inr x \<and> f x = Inr y)"
  by (cases r) auto

lemma try_bind_Inl [result_simps]:
  "try_bind r f = Inl e \<longleftrightarrow> r = Inl e \<or> (\<exists>x. r = Inr x \<and> f x = Inl e)"
  by (cases r) auto

lemma map_err_Inr [result_simps]: "map_err f r = Inr y \<longleftrightarrow> r = Inr y"
  by (cases r) auto

lemma ok_or_Inr [result_simps]: "ok_or e x = Inr y \<longleftrightarrow> x = Some y"
  by (cases x) auto

lemma collect_results_Inr:
  "collect_results f xs = Inr ys \<longleftrightarrow> list_all2 (\<lambda>x y. f x = Inr y) xs ys"
proof (induction xs arbitrary: ys)
  case Nil
  then show ?case by auto
next
  case (Cons x xs)
  then show ?case
    by (cases ys; cases "f x"; cases "collect_results f xs") auto
qed

lemma collect_results_map:
  assumes "\<And>x. x \<in> set xs \<Longrightarrow> f (g x) = Inr x"
  shows "collect_results f (map g xs) = Inr xs"
  using assms by (induction xs) auto

lemma find_map_SomeE:
  assumes "find_map f xs = Some y"
  obtains x where "x \<in> set xs" "f x = Some y"
  using assms by (induction xs) (auto split: option.splits)

lemma find_map_None: "find_map f xs = None \<longleftrightarrow> (\<forall>x\<in>set xs. f x = None)"
  by (induction xs) (auto split: option.splits)

lemma or_else_None_iff [simp]: "or_else x y = None \<longleftrightarrow> x = None \<and> y = None"
  by (cases x) auto

lemma or_else_conv: "or_else x y = (case x of None \<Rightarrow> y | Some _ \<Rightarrow> x)"
  by (cases x) simp_all

lemma option_filter_conv: "option_filter p x = (case x of None \<Rightarrow> None | Some y \<Rightarrow> if p y then Some y else None)"
  by (cases x) simp_all

lemma last_opt_conv: "last_opt xs = (if xs = [] then None else Some (last xs))"
  by (induction xs rule: last_opt.induct) auto

section \<open>Byte-string functions\<close>

abbreviation nl :: char where "nl \<equiv> CHR 0x0A"
abbreviation cr :: char where "cr \<equiv> CHR 0x0D"

fun strip_prefix :: "'a list \<Rightarrow> 'a list \<Rightarrow> 'a list option" where
  "strip_prefix [] s = Some s"
| "strip_prefix (p # ps) [] = None"
| "strip_prefix (p # ps) (c # cs) = (if p = c then strip_prefix ps cs else None)"

definition starts_with :: "'a list \<Rightarrow> 'a list \<Rightarrow> bool" where
  "starts_with p s \<longleftrightarrow> strip_prefix p s \<noteq> None"

definition strip_suffix :: "'a list \<Rightarrow> 'a list \<Rightarrow> 'a list option" where
  "strip_suffix p s = map_option rev (strip_prefix (rev p) (rev s))"

definition ends_with :: "'a list \<Rightarrow> 'a list \<Rightarrow> bool" where
  "ends_with p s \<longleftrightarrow> strip_suffix p s \<noteq> None"

text \<open>\<open>str::find\<close>: the byte index of the first occurrence.\<close>

fun find_sub :: "'a list \<Rightarrow> 'a list \<Rightarrow> nat option" where
  "find_sub needle [] = (if needle = [] then Some 0 else None)"
| "find_sub needle (c # cs) =
     (if starts_with needle (c # cs) then Some 0 else map_option Suc (find_sub needle cs))"

definition str_contains :: "'a list \<Rightarrow> 'a list \<Rightarrow> bool" where
  "str_contains needle s \<longleftrightarrow> find_sub needle s \<noteq> None"

text \<open>\<open>str::split(c)\<close> and \<open>[..].join(sep)\<close>.\<close>

fun split_on :: "'a \<Rightarrow> 'a list \<Rightarrow> 'a list list" where
  "split_on c [] = [[]]"
| "split_on c (x # xs) =
     (if x = c then [] # split_on c xs
      else (case split_on c xs of [] \<Rightarrow> [[x]] | y # ys \<Rightarrow> (x # y) # ys))"

fun join_with :: "'a list \<Rightarrow> 'a list list \<Rightarrow> 'a list" where
  "join_with sep [] = []"
| "join_with sep [x] = x"
| "join_with sep (x # y # ys) = x @ sep @ join_with sep (y # ys)"

text \<open>\<open>str::split_once(c)\<close>: around the first \<open>c\<close>.\<close>

fun split_once :: "'a \<Rightarrow> 'a list \<Rightarrow> ('a list \<times> 'a list) option" where
  "split_once c [] = None"
| "split_once c (x # xs) =
     (if x = c then Some ([], xs)
      else map_option (\<lambda>(a, b). (x # a, b)) (split_once c xs))"

text \<open>
  \<open>str::lines\<close>: split after each newline, then drop that newline and a carriage return before
  it; the piece after the last newline is a line only when it is not empty.
\<close>

fun split_inclusive_nl :: "string \<Rightarrow> string list" where
  "split_inclusive_nl [] = []"
| "split_inclusive_nl (x # xs) =
     (if x = nl then [nl] # split_inclusive_nl xs
      else (case split_inclusive_nl xs of [] \<Rightarrow> [[x]] | y # ys \<Rightarrow> (x # y) # ys))"

definition line_content :: "string \<Rightarrow> string" where
  "line_content l =
     (case strip_suffix [nl] l of None \<Rightarrow> l
      | Some l' \<Rightarrow> (case strip_suffix [cr] l' of None \<Rightarrow> l' | Some l'' \<Rightarrow> l''))"

definition str_lines :: "string \<Rightarrow> string list" where
  "str_lines s = map line_content (split_inclusive_nl s)"


subsection \<open>Laws of the byte-string functions\<close>

lemma strip_prefix_Some [rust_str]: "strip_prefix p s = Some r \<longleftrightarrow> s = p @ r"
  by (induction p s rule: strip_prefix.induct) auto

lemma strip_prefix_append [simp]: "strip_prefix p (p @ r) = Some r"
  by (simp add: strip_prefix_Some)

lemma starts_with_iff [rust_str]: "starts_with p s \<longleftrightarrow> (\<exists>r. s = p @ r)"
  by (auto simp: starts_with_def strip_prefix_Some)

lemma strip_suffix_Some [rust_str]: "strip_suffix p s = Some r \<longleftrightarrow> s = r @ p"
  by (auto simp: strip_suffix_def strip_prefix_Some) (metis rev_append rev_rev_ident)

lemma strip_suffix_append [simp]: "strip_suffix p (r @ p) = Some r"
  by (simp add: strip_suffix_Some)

lemma ends_with_iff [rust_str]: "ends_with p s \<longleftrightarrow> (\<exists>r. s = r @ p)"
  by (auto simp: ends_with_def strip_suffix_Some)

lemma find_sub_Some:
  "find_sub n s = Some i \<Longrightarrow> i + length n \<le> length s \<and> s = take i s @ n @ drop (i + length n) s"
proof (induction n s arbitrary: i rule: find_sub.induct)
  case (1 n)
  then show ?case by (auto split: if_splits)
next
  case (2 n c cs)
  show ?case
  proof (cases "starts_with n (c # cs)")
    case True
    then obtain r where r: "c # cs = n @ r" by (auto simp: rust_str)
    from True "2.prems" have "i = 0" by simp
    moreover have "length n \<le> length (c # cs)" unfolding r by simp
    ultimately show ?thesis unfolding r by simp
  next
    case False
    with "2.prems" obtain j where "find_sub n cs = Some j" "i = Suc j" by auto
    with "2.IH" [OF False] show ?thesis by auto
  qed
qed

lemma find_sub_least:
  "find_sub n s = Some i \<Longrightarrow> j < i \<Longrightarrow> \<not> starts_with n (drop j s)"
proof (induction n s arbitrary: i j rule: find_sub.induct)
  case (1 n)
  then show ?case by (auto split: if_splits)
next
  case (2 n c cs)
  then show ?case by (cases j) (auto split: if_splits)
qed

lemma find_sub_None:
  "find_sub n s = None \<Longrightarrow> \<not> starts_with n (drop j s)"
proof (induction n s arbitrary: j rule: find_sub.induct)
  case (1 n)
  then show ?case by (auto simp: rust_str split: if_splits)
next
  case (2 n c cs)
  then show ?case by (cases j) (auto split: if_splits)
qed

lemma str_contains_iff [rust_str]: "str_contains n s \<longleftrightarrow> (\<exists>a b. s = a @ n @ b)"
proof
  assume "str_contains n s"
  then obtain i where "find_sub n s = Some i" by (auto simp: str_contains_def)
  then show "\<exists>a b. s = a @ n @ b" using find_sub_Some by blast
next
  assume "\<exists>a b. s = a @ n @ b"
  then obtain a b where s: "s = a @ n @ b" by blast
  show "str_contains n s"
  proof (rule ccontr)
    assume "\<not> str_contains n s"
    then have "find_sub n s = None" by (simp add: str_contains_def)
    from find_sub_None [OF this, of "length a"] s show False by (auto simp: rust_str)
  qed
qed

lemma str_contains_char [simp]: "str_contains [c] s \<longleftrightarrow> c \<in> set s"
  by (auto simp: str_contains_iff in_set_conv_decomp)

lemma find_sub_char: "c \<notin> set a \<Longrightarrow> find_sub [c] (a @ c # b) = Some (length a)"
  by (induction a) (auto simp: starts_with_def)

lemma find_sub_char_Some:
  assumes "find_sub [c] s = Some i"
  shows "s = take i s @ c # drop (Suc i) s" and "c \<notin> set (take i s)"
proof -
  show "s = take i s @ c # drop (Suc i) s" using find_sub_Some [OF assms] by simp
  show "c \<notin> set (take i s)"
  proof
    assume "c \<in> set (take i s)"
    then obtain j where j: "j < i" "j < length s" "s ! j = c"
      by (auto simp: in_set_conv_nth)
    then have "starts_with [c] (drop j s)"
      by (simp add: Cons_nth_drop_Suc [symmetric] starts_with_def)
    with find_sub_least [OF assms j(1)] show False by simp
  qed
qed

lemma split_on_nonempty [simp]: "split_on c s \<noteq> []"
  by (induction s) (auto split: list.splits)

lemma split_on_no_sep: "c \<notin> set s \<Longrightarrow> split_on c s = [s]"
  by (induction s) auto

lemma split_on_append: "c \<notin> set a \<Longrightarrow> split_on c (a @ c # b) = a # split_on c b"
  by (induction a) auto

lemma split_on_sep: "seg \<in> set (split_on c s) \<Longrightarrow> c \<notin> set seg"
proof (induction s arbitrary: seg)
  case Nil
  then show ?case by simp
next
  case (Cons x xs)
  then show ?case
    by (cases "split_on c xs") (auto split: if_splits)
qed

lemma join_with_Cons: "xs \<noteq> [] \<Longrightarrow> join_with sep (x # xs) = x @ sep @ join_with sep xs"
  by (cases xs) auto

lemma split_on_join_with:
  "xs \<noteq> [] \<Longrightarrow> (\<And>x. x \<in> set xs \<Longrightarrow> c \<notin> set x) \<Longrightarrow> split_on c (join_with [c] xs) = xs"
proof (induction xs)
  case Nil
  then show ?case by simp
next
  case (Cons x xs)
  then show ?case
    by (cases "xs = []") (auto simp: split_on_no_sep join_with_Cons split_on_append)
qed

lemma join_with_split_on: "join_with [c] (split_on c s) = s"
proof (induction s)
  case Nil
  then show ?case by simp
next
  case (Cons x xs)
  show ?case
  proof (cases "x = c")
    case True
    with Cons show ?thesis by (simp add: join_with_Cons)
  next
    case False
    obtain y ys where "split_on c xs = y # ys" by (cases "split_on c xs") auto
    with False Cons show ?thesis by (cases ys) auto
  qed
qed

section \<open>Characters of a UTF-8 string\<close>

text \<open>
  \<open>str::chars\<close> as the list of encodings: a byte \<open>10xxxxxx\<close> continues the character before it.
\<close>

definition is_cont_byte :: "char \<Rightarrow> bool" where
  "is_cont_byte c \<longleftrightarrow> digit7 c \<and> \<not> digit6 c"

fun chars :: "string \<Rightarrow> string list" where
  "chars [] = []"
| "chars (b # bs) =
     (case chars bs of [] \<Rightarrow> [[b]]
      | g # gs \<Rightarrow> if is_cont_byte (hd g) then (b # g) # gs else [b] # g # gs)"

text \<open>\<open>char::is_whitespace\<close>: the code points with the Unicode property \<open>White_Space\<close>.\<close>

definition whitespace_chars :: "string list" where
  "whitespace_chars =
     [[CHR 0x09], [CHR 0x0A], [CHR 0x0B], [CHR 0x0C], [CHR 0x0D], [CHR 0x20],
      [CHR 0xC2, CHR 0x85], [CHR 0xC2, CHR 0xA0], [CHR 0xE1, CHR 0x9A, CHR 0x80]]
     @ map (\<lambda>b. [CHR 0xE2, CHR 0x80, b])
         [CHR 0x80, CHR 0x81, CHR 0x82, CHR 0x83, CHR 0x84, CHR 0x85, CHR 0x86, CHR 0x87,
          CHR 0x88, CHR 0x89, CHR 0x8A, CHR 0xA8, CHR 0xA9, CHR 0xAF]
     @ [[CHR 0xE2, CHR 0x81, CHR 0x9F], [CHR 0xE3, CHR 0x80, CHR 0x80]]"

definition is_whitespace :: "string \<Rightarrow> bool" where
  "is_whitespace ch \<longleftrightarrow> ch \<in> set whitespace_chars"

text \<open>\<open>char::is_control\<close>: general category \<open>Cc\<close>, that is U+0000-U+001F and U+007F-U+009F.\<close>

fun is_control :: "string \<Rightarrow> bool" where
  "is_control [b] \<longleftrightarrow> (\<not> digit7 b \<and> \<not> digit6 b \<and> \<not> digit5 b) \<or> b = CHR 0x7F"
| "is_control [a, b] \<longleftrightarrow> a = CHR 0xC2 \<and> digit7 b \<and> \<not> digit6 b \<and> \<not> digit5 b"
| "is_control _ \<longleftrightarrow> False"

definition trim_start :: "string \<Rightarrow> string" where
  "trim_start s = concat (dropWhile is_whitespace (chars s))"

definition trim_end :: "string \<Rightarrow> string" where
  "trim_end s = concat (rev (dropWhile is_whitespace (rev (chars s))))"

definition trim :: "string \<Rightarrow> string" where
  "trim s = trim_end (trim_start s)"

lemma concat_chars [simp]: "concat (chars s) = s"
  by (induction s) (auto split: list.splits)

lemma chars_ne: "g \<in> set (chars s) \<Longrightarrow> g \<noteq> []"
proof (induction s arbitrary: g)
  case (Cons b bs)
  then show ?case by (cases "chars bs") (auto split: if_splits)
qed simp

lemma chars_eq_Nil [simp]: "chars s = [] \<longleftrightarrow> s = []"
  by (cases s) (auto split: list.splits)

lemma hd_chars: "s \<noteq> [] \<Longrightarrow> hd (hd (chars s)) = hd s"
  by (cases s) (auto split: list.splits)

text \<open>Splitting a string at a character boundary splits its characters.\<close>

definition char_boundary :: "string \<Rightarrow> bool" where
  "char_boundary s \<longleftrightarrow> (s = [] \<or> \<not> is_cont_byte (hd s))"

lemma chars_append:
  assumes "char_boundary b"
  shows "chars (a @ b) = chars a @ chars b"
proof (induction a)
  case Nil
  then show ?case by simp
next
  case (Cons x xs)
  show ?case
  proof (cases "xs = []")
    case True
    with assms hd_chars [of b] show ?thesis
      by (cases "b = []"; cases "chars b") (auto simp: char_boundary_def)
  next
    case False
    then obtain g gs where "chars xs = g # gs" by (cases "chars xs") auto
    with Cons show ?thesis by simp
  qed
qed

lemma trim_start_suffix: "\<exists>p. s = p @ trim_start s"
proof
  show "s = concat (takeWhile is_whitespace (chars s)) @ trim_start s"
    by (simp add: trim_start_def concat_append [symmetric] del: concat_append)
qed

lemma trim_end_prefix: "\<exists>q. s = trim_end s @ q"
proof
  have "concat (chars s) = trim_end s @ concat (rev (takeWhile is_whitespace (rev (chars s))))"
    by (simp add: trim_end_def concat_append [symmetric] rev_append [symmetric]
        del: concat_append rev_append concat_chars)
  then show "s = trim_end s @ concat (rev (takeWhile is_whitespace (rev (chars s))))"
    by simp
qed

lemma set_trim_subset: "set (trim s) \<subseteq> set s"
proof -
  obtain p where p: "s = p @ trim_start s" using trim_start_suffix by blast
  obtain q where q: "trim_start s = trim_end (trim_start s) @ q" using trim_end_prefix by blast
  have "set (trim_end (trim_start s)) \<subseteq> set (trim_start s)" by (subst (2) q) simp
  also have "\<dots> \<subseteq> set s" by (subst (2) p) simp
  finally show ?thesis by (simp add: trim_def)
qed

lemma trim_id:
  assumes "\<And>g. g \<in> set (chars s) \<Longrightarrow> \<not> is_whitespace g"
  shows "trim s = s"
proof -
  have 1: "dropWhile is_whitespace (chars s) = chars s"
    using assms by (cases "chars s") auto
  have 2: "dropWhile is_whitespace (rev (chars s)) = rev (chars s)"
    using assms by (cases "chars s" rule: rev_cases) auto
  have "trim_start s = s" unfolding trim_start_def 1 by simp
  then show ?thesis by (simp add: trim_def trim_end_def 2)
qed

text \<open>ASCII lower-casing, \<open>str::to_ascii_lowercase\<close>.\<close>

definition ascii_lower_char :: "char \<Rightarrow> char" where
  "ascii_lower_char c =
     (let n = of_char c :: nat in if 65 \<le> n \<and> n \<le> 90 then char_of (n + 32) else c)"

definition to_ascii_lowercase :: "string \<Rightarrow> string" where
  "to_ascii_lowercase s = map ascii_lower_char s"

definition is_ascii_digit :: "char \<Rightarrow> bool" where
  "is_ascii_digit c \<longleftrightarrow> (let n = of_char c :: nat in 48 \<le> n \<and> n \<le> 57)"

definition is_ascii_alphabetic :: "char \<Rightarrow> bool" where
  "is_ascii_alphabetic c \<longleftrightarrow>
     (let n = of_char c :: nat in 65 \<le> n \<and> n \<le> 90 \<or> 97 \<le> n \<and> n \<le> 122)"

definition is_ascii_alphanumeric :: "char \<Rightarrow> bool" where
  "is_ascii_alphanumeric c \<longleftrightarrow> is_ascii_alphabetic c \<or> is_ascii_digit c"

definition is_ascii_hexdigit :: "char \<Rightarrow> bool" where
  "is_ascii_hexdigit c \<longleftrightarrow>
     is_ascii_digit c \<or> (let n = of_char c :: nat in 65 \<le> n \<and> n \<le> 70 \<or> 97 \<le> n \<and> n \<le> 102)"

definition eq_ignore_ascii_case :: "string \<Rightarrow> string \<Rightarrow> bool" where
  "eq_ignore_ascii_case a b \<longleftrightarrow> to_ascii_lowercase a = to_ascii_lowercase b"

section \<open>Splitting at whitespace, replacing\<close>

text \<open>\<open>str::split_whitespace\<close>; \<open>w\<close> is the word being read.\<close>

fun split_whitespace_from :: "string \<Rightarrow> string list \<Rightarrow> string list" where
  "split_whitespace_from w [] = (if w = [] then [] else [w])"
| "split_whitespace_from w (ch # chs) =
     (if is_whitespace ch
      then (if w = [] then split_whitespace_from [] chs else w # split_whitespace_from [] chs)
      else split_whitespace_from (w @ ch) chs)"

definition split_whitespace :: "string \<Rightarrow> string list" where
  "split_whitespace s = split_whitespace_from [] (chars s)"

text \<open>\<open>str::split_once(char::is_whitespace)\<close>.\<close>

fun split_once_whitespace_from :: "string \<Rightarrow> string list \<Rightarrow> (string \<times> string) option" where
  "split_once_whitespace_from w [] = None"
| "split_once_whitespace_from w (ch # chs) =
     (if is_whitespace ch then Some (w, concat chs)
      else split_once_whitespace_from (w @ ch) chs)"

definition split_once_whitespace :: "string \<Rightarrow> (string \<times> string) option" where
  "split_once_whitespace s = split_once_whitespace_from [] (chars s)"

text \<open>\<open>str::replace\<close> for a non-empty pattern.\<close>

function str_replace :: "string \<Rightarrow> string \<Rightarrow> string \<Rightarrow> string" where
  "str_replace pat r s =
     (if pat = [] then s
      else case find_sub pat s of None \<Rightarrow> s
      | Some i \<Rightarrow> take i s @ r @ str_replace pat r (drop (i + length pat) s))"
  by pat_completeness auto
termination
proof (relation "measure (\<lambda>(_, _, s). length s)")
  fix pat r s :: string and i
  assume "pat \<noteq> []" "find_sub pat s = Some i"
  with find_sub_Some [of pat s i] show
    "((pat, r, drop (i + length pat) s), pat, r, s) \<in> measure (\<lambda>(_, _, s). length s)"
    by (cases pat) auto
qed simp

declare str_replace.simps [simp del]

lemma split_whitespace_from_ne: "w' \<in> set (split_whitespace_from w chs) \<Longrightarrow>
    (\<And>ch. ch \<in> set chs \<Longrightarrow> ch \<noteq> []) \<Longrightarrow> w' \<noteq> []"
  by (induction w chs rule: split_whitespace_from.induct) (auto split: if_splits)

section \<open>Unix paths\<close>

text \<open>\<open>Path::is_absolute\<close> and \<open>Path::join\<close> on Unix.\<close>

definition path_is_absolute :: "string \<Rightarrow> bool" where
  "path_is_absolute p \<longleftrightarrow> starts_with ''/'' p"

definition path_join :: "string \<Rightarrow> string \<Rightarrow> string" where
  "path_join base p =
     (if path_is_absolute p then p
      else if base = [] \<or> ends_with ''/'' base then base @ p
      else base @ ''/'' @ p)"

lemma path_join_absolute: "path_is_absolute base \<Longrightarrow> path_is_absolute (path_join base p)"
  by (cases base) (auto simp: path_join_def path_is_absolute_def starts_with_def split: if_splits)

end
