(* ===== verification/Bounded_Map.thy ===== *)
theory Bounded_Map
  imports Prelude
begin

text \<open>
  The soft-capped \<open>HashMap\<close>s of the environment manager. A map is an association list with distinct
  keys. Before inserting a new key into a full map the code removes \<open>map.keys().next()\<close>, some key
  that Rust does not specify: a chooser names the position of that key in the key list, and every
  law below holds for all choosers.
\<close>

type_synonym 'v hmap = "(string \<times> 'v) list"
type_synonym chooser = "string list \<Rightarrow> nat"

definition contains_key :: "string \<Rightarrow> 'v hmap \<Rightarrow> bool" where
  "contains_key k m \<longleftrightarrow> map_of m k \<noteq> None"

fun keys_next :: "chooser \<Rightarrow> 'v hmap \<Rightarrow> string option" where
  "keys_next pick [] = None"
| "keys_next pick m = Some (map fst m ! (pick (map fst m) mod length m))"

definition evict_for :: "chooser \<Rightarrow> nat \<Rightarrow> string \<Rightarrow> 'v hmap \<Rightarrow> 'v hmap" where
  "evict_for pick cap k m =
     (if length m \<ge> cap \<and> \<not> contains_key k m
      then (case keys_next pick m of None \<Rightarrow> m | Some oldest_key \<Rightarrow> AList.delete oldest_key m)
      else m)"

definition capped_insert :: "chooser \<Rightarrow> nat \<Rightarrow> string \<Rightarrow> 'v \<Rightarrow> 'v hmap \<Rightarrow> 'v hmap" where
  "capped_insert pick cap k v m = AList.update k v (evict_for pick cap k m)"

definition wf_map :: "nat \<Rightarrow> 'v hmap \<Rightarrow> bool" where
  "wf_map cap m \<longleftrightarrow> distinct (map fst m) \<and> length m \<le> cap"

lemma contains_key_iff: "contains_key k m \<longleftrightarrow> k \<in> fst ` set m"
  by (simp add: contains_key_def map_of_eq_None_iff)

lemma keys_next_in: "keys_next pick m = Some k \<Longrightarrow> k \<in> fst ` set m"
proof (cases m)
  case (Cons a m')
  assume "keys_next pick m = Some k"
  with Cons have k: "k = map fst m ! (pick (map fst m) mod length m)" by simp
  have "pick (map fst m) mod length m < length (map fst m)" using Cons by simp
  then have "k \<in> set (map fst m)" unfolding k by (rule nth_mem)
  then show ?thesis by simp
qed simp

lemma keys_next_None [simp]: "keys_next pick m = None \<longleftrightarrow> m = []"
  by (cases m) auto

lemma length_update:
  "length (AList.update k v m) = (if contains_key k m then length m else Suc (length m))"
  by (induction m) (auto simp: contains_key_def)

lemma length_delete:
  "distinct (map fst m) \<Longrightarrow> k \<in> fst ` set m \<Longrightarrow> Suc (length (AList.delete k m)) = length m"
  by (induction m) auto

lemma evict_for_distinct: "distinct (map fst m) \<Longrightarrow> distinct (map fst (evict_for pick cap k m))"
  by (auto simp: evict_for_def distinct_delete split: option.split)

lemma map_of_evict_for:
  "map_of (evict_for pick cap k m) j = map_of m j \<or> map_of (evict_for pick cap k m) j = None"
  by (auto simp: evict_for_def AList.delete_conv' split: option.split)

lemma map_of_evict_for_same:
  "map_of (evict_for pick cap k m) k = map_of m k"
proof (cases "contains_key k m")
  case False
  then have "map_of m k = None" by (simp add: contains_key_def)
  with map_of_evict_for [of pick cap k m k] show ?thesis by auto
qed (simp add: evict_for_def)

lemma evict_for_room: "length m < cap \<Longrightarrow> evict_for pick cap k m = m"
  by (simp add: evict_for_def)

lemma wf_map_update_evict:
  assumes "wf_map cap m" "0 < cap"
  shows "wf_map cap (AList.update k v (evict_for pick cap k m))"
proof (cases "length m \<ge> cap \<and> \<not> contains_key k m")
  case True
  with assms obtain j where j: "keys_next pick m = Some j" by (cases m) auto
  have "Suc (length (AList.delete j m)) = length m"
    using assms keys_next_in [OF j] by (intro length_delete) (auto simp: wf_map_def)
  with True j assms show ?thesis
    by (auto simp: evict_for_def wf_map_def length_update intro!: distinct_update distinct_delete)
next
  case False
  with assms show ?thesis
    by (auto simp: evict_for_def wf_map_def length_update intro!: distinct_update)
qed

lemma map_of_capped_insert_same: "map_of (capped_insert pick cap k v m) k = Some v"
  by (simp add: capped_insert_def update_conv')

lemma map_of_capped_insert_other:
  "j \<noteq> k \<Longrightarrow> map_of (capped_insert pick cap k v m) j = map_of m j \<or>
              map_of (capped_insert pick cap k v m) j = None"
  using map_of_evict_for [of pick cap k m j] by (auto simp: capped_insert_def update_conv')

lemma map_of_capped_insert_room:
  "length m < cap \<Longrightarrow> j \<noteq> k \<Longrightarrow> map_of (capped_insert pick cap k v m) j = map_of m j"
  by (simp add: capped_insert_def update_conv' evict_for_room)

lemma wf_map_capped_insert: "wf_map cap m \<Longrightarrow> 0 < cap \<Longrightarrow> wf_map cap (capped_insert pick cap k v m)"
  by (simp add: capped_insert_def wf_map_update_evict)

lemmas capped_insert_laws =
  map_of_capped_insert_same map_of_capped_insert_other map_of_capped_insert_room
  wf_map_capped_insert

section \<open>The contract of a capped store\<close>

text \<open>
  What the tools rely on: a value just written is read back, a write under one key never changes
  what another key reads except by evicting it, nothing is evicted while there is room, and the
  number of entries stays within the cap.
\<close>

locale capped_store =
  fixes put :: "string \<Rightarrow> 'v \<Rightarrow> 's \<Rightarrow> 's"
    and get :: "'s \<Rightarrow> string \<Rightarrow> 'v option"
    and entries :: "'s \<Rightarrow> nat"
    and ok :: "'s \<Rightarrow> bool"
    and cap :: nat
  assumes ok_put: "ok s \<Longrightarrow> ok (put k v s)"
    and get_put_same: "get (put k v s) k = Some v"
    and get_put_other: "j \<noteq> k \<Longrightarrow> get (put k v s) j = get s j \<or> get (put k v s) j = None"
    and get_put_room: "entries s < cap \<Longrightarrow> j \<noteq> k \<Longrightarrow> get (put k v s) j = get s j"
    and entries_bound: "ok s \<Longrightarrow> entries s \<le> cap"
begin

text \<open>Any sequence of writes: \<open>puts\<close> lists them in order.\<close>

definition run :: "(string \<times> 'v) list \<Rightarrow> 's \<Rightarrow> 's" where
  "run puts s = fold (\<lambda>(k, v). put k v) puts s"

lemma run_ok: "ok s \<Longrightarrow> ok (run puts s)"
  unfolding run_def by (induction puts arbitrary: s) (auto intro: ok_put)

lemma run_bound: "ok s \<Longrightarrow> entries (run puts s) \<le> cap"
  by (rule entries_bound [OF run_ok])

lemma run_snoc: "run (puts @ [(k, v)]) s = put k v (run puts s)"
  by (simp add: run_def)

lemma run_read:
  "get (run puts s) k = Some v \<Longrightarrow>
     get s k = Some v \<and> k \<notin> fst ` set puts \<or> map_of (rev puts) k = Some v"
proof (induction puts arbitrary: v rule: rev_induct)
  case Nil
  then show ?case by (simp add: run_def)
next
  case (snoc p puts)
  obtain j w where p: "p = (j, w)" by (cases p)
  show ?case
  proof (cases "j = k")
    case True
    with snoc.prems p get_put_same show ?thesis by (simp add: run_snoc)
  next
    case False
    with snoc.prems p get_put_other [of k j w "run puts s"]
    have "get (run puts s) k = Some v" by (auto simp: run_snoc)
    with snoc.IH False p show ?thesis by auto
  qed
qed

end

end
