(* ===== verification/Launcher.thy ===== *)
theory Launcher
  imports Prelude
begin

text \<open>
  The remote launcher of \<open>exec-server/src/provision/launcher.rs\<close>: hop validation, launcher ids,
  POSIX quoting and the synthesis of the argument vector that reaches the innermost hop.
  A launcher id is the environment id of a remote environment, so the id must parse back to the
  launcher; an argument vector crosses one login shell for every SSH hop, so quoting must survive
  each of them.
\<close>

section \<open>Hops and their validation\<close>

datatype hop = Docker string | Ssh string

definition id_segment :: "hop \<Rightarrow> string" where
  "id_segment h = (case h of Docker c \<Rightarrow> ''docker:'' @ c | Ssh t \<Rightarrow> ''ssh:'' @ t)"

definition MAX_HOP_VALUE_LEN :: nat where
  "MAX_HOP_VALUE_LEN = 256"

datatype hop_value_error =
    HopValueEmpty
  | HopValueTooLong nat
  | HopValueLeadingDash string
  | HopValueSeparator string
  | HopValueWhitespaceOrControl string

definition validate_hop_value :: "string \<Rightarrow> hop_value_error + unit" where
  "validate_hop_value s =
     (if s = [] then Inl HopValueEmpty
      else if length s > MAX_HOP_VALUE_LEN then Inl (HopValueTooLong (length s))
      else if starts_with ''-'' s then Inl (HopValueLeadingDash s)
      else if str_contains ''>'' s then Inl (HopValueSeparator s)
      else if list_ex (\<lambda>ch. is_control ch \<or> is_whitespace ch) (chars s)
        then Inl (HopValueWhitespaceOrControl s)
      else Inr ())"

fun hop_value :: "hop \<Rightarrow> string" where
  "hop_value (Docker c) = c"
| "hop_value (Ssh h) = h"

definition valid_hop :: "hop \<Rightarrow> bool" where
  "valid_hop h \<longleftrightarrow> validate_hop_value (hop_value h) = Inr ()"

section \<open>Launchers and their ids\<close>

record remote_launcher =
  hops :: "hop list"

definition docker_launcher :: "string \<Rightarrow> remote_launcher" where
  "docker_launcher c = \<lparr> hops = [Docker c] \<rparr>"

definition ssh_launcher :: "string \<Rightarrow> remote_launcher" where
  "ssh_launcher h = \<lparr> hops = [Ssh h] \<rparr>"

definition layered :: "hop list \<Rightarrow> remote_launcher" where
  "layered hs = \<lparr> hops = hs \<rparr>"

datatype launcher_id_error =
    LauncherIdEmpty
  | SegmentMissingColon string
  | SegmentEmptyValue string
  | SegmentBadValue hop_value_error
  | UnknownHopType string string

definition parse_id_segment :: "string \<Rightarrow> string \<Rightarrow> launcher_id_error + hop" where
  "parse_id_segment lid seg =
     (case find_sub '':'' seg of
        None \<Rightarrow> Inl (SegmentMissingColon seg)
      | Some colon \<Rightarrow>
          let kind = take colon seg; value = drop (colon + 1) seg in
          if value = [] then Inl (SegmentEmptyValue seg)
          else try_bind (map_err SegmentBadValue (validate_hop_value value)) (\<lambda>_.
            if kind = ''ssh'' then Inr (Ssh value)
            else if kind = ''docker'' then Inr (Docker value)
            else Inl (UnknownHopType kind lid)))"

definition from_id :: "string \<Rightarrow> launcher_id_error + remote_launcher" where
  "from_id lid =
     (if lid = [] then Inl LauncherIdEmpty
      else try_bind (collect_results (parse_id_segment lid) (split_on (CHR ''>'') lid))
             (\<lambda>hs. Inr \<lparr> hops = hs \<rparr>))"

definition with_appended_hop :: "remote_launcher \<Rightarrow> hop \<Rightarrow> remote_launcher" where
  "with_appended_hop l h = \<lparr> hops = hops l @ [h] \<rparr>"

definition launcher_id :: "remote_launcher \<Rightarrow> string" where
  "launcher_id l = join_with ''>'' (map id_segment (hops l))"

section \<open>Argument vectors\<close>

definition SSH_HARDENING_FLAGS :: "string list" where
  "SSH_HARDENING_FLAGS =
     [''-T'', ''-q'', ''-o'', ''BatchMode=yes'', ''-o'', ''StrictHostKeyChecking=accept-new'',
      ''-o'', ''LogLevel=ERROR'', ''-o'', ''ConnectTimeout=20'',
      ''-o'', ''ServerAliveInterval=15'', ''-o'', ''ServerAliveCountMax=2'']"

abbreviation sq :: char where "sq \<equiv> CHR 0x27"
abbreviation bslash :: char where "bslash \<equiv> CHR 0x5C"

text \<open>\<open>s.replace('\'', "'\\''")\<close> between two quotes.\<close>

definition posix_single_quote :: "string \<Rightarrow> string" where
  "posix_single_quote s =
     [sq] @ concat (map (\<lambda>c. if c = sq then [sq, bslash, sq, sq] else [c]) s) @ [sq]"

definition shell_join :: "string list \<Rightarrow> string" where
  "shell_join tokens = join_with '' '' (map posix_single_quote tokens)"

definition wrap_hop :: "string list \<Rightarrow> hop \<Rightarrow> string list" where
  "wrap_hop tokens h =
     (case h of
        Docker c \<Rightarrow> [''docker'', ''exec'', ''-i'', ''--'', c] @ tokens
      | Ssh t \<Rightarrow> [''ssh''] @ SSH_HARDENING_FLAGS @ [''--'', t] @ [shell_join tokens])"

definition fold_hops :: "hop list \<Rightarrow> string list \<Rightarrow> string list" where
  "fold_hops hs inner_tokens = foldl wrap_hop inner_tokens (rev hs)"

definition exec_argv :: "remote_launcher \<Rightarrow> string list \<Rightarrow> string list" where
  "exec_argv l inner = fold_hops (hops l) inner"

definition shell_argv :: "remote_launcher \<Rightarrow> string \<Rightarrow> string list" where
  "shell_argv l script = fold_hops (hops l) [''sh'', ''-c'', script]"

section \<open>What the transports do with an argument vector\<close>

text \<open>
  The reference semantics the synthesis is proved against. A login shell splits the command it
  gets into words: single quotes take everything up to the next quote, a backslash takes one
  character (and a backslash-newline pair vanishes), blanks separate, and any other character
  with a meaning to the shell makes the command something other than a plain list of words.
\<close>

definition shell_special :: "char \<Rightarrow> bool" where
  "shell_special c \<longleftrightarrow> c \<in> set ''|&;<>()$`*?[#~={}!%^'' \<or> c = CHR 0x22 \<or> c = nl \<or> c = cr"

definition shell_blank :: "char \<Rightarrow> bool" where
  "shell_blank c \<longleftrightarrow> c = CHR '' '' \<or> c = CHR 0x09"

datatype shell_state = Between | InWord string | InQuote string

fun shell_words :: "shell_state \<Rightarrow> string \<Rightarrow> string list option" where
  "shell_words Between [] = Some []"
| "shell_words (InWord w) [] = Some [w]"
| "shell_words (InQuote w) [] = None"
| "shell_words (InQuote w) (c # cs) =
     (if c = sq then shell_words (InWord w) cs else shell_words (InQuote (w @ [c])) cs)"
| "shell_words st (c # cs) =
     (let w = (case st of InWord w \<Rightarrow> w | _ \<Rightarrow> []) in
      if c = sq then shell_words (InQuote w) cs
      else if c = bslash then
        (case cs of [] \<Rightarrow> None
         | d # ds \<Rightarrow> if d = nl then shell_words st ds else shell_words (InWord (w @ [d])) ds)
      else if shell_blank c then
        (case st of InWord w \<Rightarrow> map_option (\<lambda>ws. w # ws) (shell_words Between cs)
         | _ \<Rightarrow> shell_words Between cs)
      else if shell_special c then None
      else shell_words (InWord (w @ [c])) cs)"

definition shell_parse :: "string \<Rightarrow> string list option" where
  "shell_parse cmd = shell_words Between cmd"

text \<open>
  One transport: it consumes its own program name and options up to \<open>--\<close>, then its target; Docker
  hands the remaining vector to \<open>execve\<close>, SSH joins it with spaces for the login shell.
\<close>

definition run_transport :: "hop \<Rightarrow> string list \<Rightarrow> string list option" where
  "run_transport h argv =
     (let after = tl (dropWhile (\<lambda>a. a \<noteq> ''--'') argv) in
      case (h, argv, after) of
        (Docker c, prog # _, target # rest) \<Rightarrow>
          if prog = ''docker'' \<and> target = c then Some rest else None
      | (Ssh t, prog # _, target # rest) \<Rightarrow>
          if prog = ''ssh'' \<and> target = t then shell_parse (join_with '' '' rest) else None
      | _ \<Rightarrow> None)"

fun run_transports :: "hop list \<Rightarrow> string list \<Rightarrow> string list option" where
  "run_transports [] argv = Some argv"
| "run_transports (h # hs) argv = Option.bind (run_transport h argv) (run_transports hs)"


section \<open>Quoting survives a login shell\<close>

text \<open>
  What a quoting function promises a shell: a quoted string is one word, and a blank after it
  separates that word from the rest of the command.
\<close>

locale shell_quoting =
  fixes quote :: "string \<Rightarrow> string"
    and words :: "string \<Rightarrow> string list option"
  assumes words_nil: "words [] = Some []"
    and words_quote: "words (quote s) = Some [s]"
    and words_quote_sep: "words (quote s @ '' '' @ rest) = map_option (\<lambda>ws. s # ws) (words rest)"
begin

lemma words_join_quoted: "words (join_with '' '' (map quote ts)) = Some ts"
proof (induction ts)
  case Nil
  then show ?case by (simp add: words_nil)
next
  case (Cons t ts)
  then show ?case
    by (cases "ts = []") (auto simp: join_with_Cons words_quote words_quote_sep [simplified])
qed

lemma join_quoted_inj:
  "join_with '' '' (map quote ts) = join_with '' '' (map quote us) \<Longrightarrow> ts = us"
  using words_join_quoted by (metis option.inject)

end

lemma shell_words_escaped:
  "shell_words (InQuote w)
     (concat (map (\<lambda>c. if c = sq then [sq, bslash, sq, sq] else [c]) s) @ sq # rest) =
   shell_words (InWord (w @ s)) rest"
  by (induction s arbitrary: w) auto

lemma shell_words_quoted:
  "shell_words Between (posix_single_quote s @ rest) = shell_words (InWord s) rest"
  by (simp add: posix_single_quote_def shell_words_escaped)

interpretation posix: shell_quoting posix_single_quote shell_parse
proof unfold_locales
  show "shell_parse [] = Some []"
    by (simp add: shell_parse_def)
  show "shell_parse (posix_single_quote s) = Some [s]" for s
    using shell_words_quoted [of s "[]"] by (simp add: shell_parse_def)
  show "shell_parse (posix_single_quote s @ '' '' @ rest) =
        map_option (\<lambda>ws. s # ws) (shell_parse rest)" for s rest
    using shell_words_quoted [of s "'' '' @ rest"]
    by (simp add: shell_parse_def shell_blank_def)
qed

lemma run_transport_wrap: "run_transport h (wrap_hop tokens h) = Some tokens"
  by (cases h)
    (simp_all add: run_transport_def wrap_hop_def SSH_HARDENING_FLAGS_def shell_join_def
      posix.words_join_quoted)

lemma fold_hops_Cons: "fold_hops (h # hs) inner = wrap_hop (fold_hops hs inner) h"
  by (simp add: fold_hops_def)

lemma run_transports_fold: "run_transports hs (fold_hops hs inner) = Some inner"
  by (induction hs)
    (simp_all add: fold_hops_Cons run_transport_wrap fold_hops_def [of "[]"])

section \<open>Ids determine launchers\<close>

lemma validate_hop_value_Inr:
  "validate_hop_value s = Inr () \<longleftrightarrow>
     s \<noteq> [] \<and> length s \<le> 256 \<and> hd s \<noteq> CHR ''-'' \<and> CHR ''>'' \<notin> set s \<and>
     (\<forall>ch\<in>set (chars s). \<not> is_control ch \<and> \<not> is_whitespace ch)"
  by (cases s) (auto simp: validate_hop_value_def MAX_HOP_VALUE_LEN_def starts_with_def list_ex_iff)

lemma valid_hopD:
  assumes "valid_hop h"
  shows "hop_value h \<noteq> []" "CHR ''>'' \<notin> set (hop_value h)"
  using assms by (simp_all add: valid_hop_def validate_hop_value_Inr)

lemma parse_id_segment_of_segment:
  assumes "valid_hop h"
  shows "parse_id_segment lid (id_segment h) = Inr h"
proof -
  have "find_sub '':'' (''docker'' @ CHR '':'' # v) = Some 6"
       "find_sub '':'' (''ssh'' @ CHR '':'' # v) = Some 3" for v
    by (simp_all add: starts_with_def)
  with assms valid_hopD [OF assms] show ?thesis
    by (cases h) (auto simp: parse_id_segment_def id_segment_def valid_hop_def)
qed

lemma parse_id_segment_Inr:
  assumes "parse_id_segment lid seg = Inr h"
  shows "id_segment h = seg" and "valid_hop h"
proof -
  from assms obtain i where i: "find_sub '':'' seg = Some i"
    by (auto simp: parse_id_segment_def split: option.splits)
  have seg: "seg = take i seg @ CHR '':'' # drop (Suc i) seg"
    by (rule find_sub_char_Some [OF i])
  from assms i have h: "validate_hop_value (drop (Suc i) seg) = Inr ()"
    "take i seg = ''ssh'' \<and> h = Ssh (drop (Suc i) seg) \<or>
     take i seg = ''docker'' \<and> h = Docker (drop (Suc i) seg)"
    by (auto simp: parse_id_segment_def Let_def result_simps split: if_splits)
  then show "valid_hop h" by (auto simp: valid_hop_def)
  from h(2) show "id_segment h = seg"
    by (subst seg) (auto simp: id_segment_def)
qed

lemma id_segment_no_sep: "valid_hop h \<Longrightarrow> CHR ''>'' \<notin> set (id_segment h)"
  by (cases h) (auto simp: id_segment_def dest: valid_hopD)

lemma id_segment_ne [simp]: "id_segment h \<noteq> []"
  by (cases h) (auto simp: id_segment_def)

lemma split_launcher_id:
  assumes "hops l \<noteq> []" "list_all valid_hop (hops l)"
  shows "split_on (CHR ''>'') (launcher_id l) = map id_segment (hops l)"
  unfolding launcher_id_def using assms
  by (intro split_on_join_with) (auto simp: list_all_iff dest: id_segment_no_sep)

lemma launcher_id_ne: "hops l \<noteq> [] \<Longrightarrow> launcher_id l \<noteq> []"
  by (cases "hops l"; cases "tl (hops l)") (auto simp: launcher_id_def)

lemma from_id_of_id:
  assumes "hops l \<noteq> []" "list_all valid_hop (hops l)"
  shows "from_id (launcher_id l) = Inr l"
proof -
  have "collect_results (parse_id_segment (launcher_id l)) (map id_segment (hops l)) = Inr (hops l)"
    using assms(2)
    by (intro collect_results_map) (auto simp: list_all_iff parse_id_segment_of_segment)
  then show ?thesis
    using assms launcher_id_ne by (simp add: from_id_def split_launcher_id)
qed

lemma from_id_Inr:
  assumes "from_id lid = Inr l"
  shows "launcher_id l = lid" "hops l \<noteq> []" "list_all valid_hop (hops l)"
proof -
  from assms obtain hs where l: "l = \<lparr> hops = hs \<rparr>"
    and c: "collect_results (parse_id_segment lid) (split_on (CHR ''>'') lid) = Inr hs"
    by (auto simp: from_id_def result_simps split: if_splits)
  have all2: "list_all2 (\<lambda>seg h. id_segment h = seg \<and> valid_hop h) (split_on (CHR ''>'') lid) hs"
    by (rule list_all2_mono [OF c [unfolded collect_results_Inr]])
      (simp add: parse_id_segment_Inr)
  then have "map id_segment hs = split_on (CHR ''>'') lid" and v: "list_all valid_hop hs"
    by (induction rule: list_all2_induct) auto
  then show "launcher_id l = lid"
    by (simp add: l launcher_id_def join_with_split_on)
  show "list_all valid_hop (hops l)" using v l by simp
  show "hops l \<noteq> []" using all2 l by auto
qed

section \<open>Properties\<close>

text \<open>
  C1. For every hop chain and every inner command, the argument vector built by \<open>exec_argv\<close> (and
  by \<open>shell_argv\<close> for a script) is delivered unchanged: when each transport consumes its layer,
  from the outermost to the innermost, and each SSH layer re-parses its argument with a login
  shell, the tokens that reach the innermost environment are exactly the inner command.
\<close>

theorem argv_reaches_innermost:
  "run_transports (hops l) (exec_argv l inner) = Some inner \<and>
   run_transports (hops l) (shell_argv l script) = Some [''sh'', ''-c'', script]"
  by (simp add: exec_argv_def shell_argv_def run_transports_fold)

text \<open>
  C2. \<open>from_id\<close> accepts an id exactly when it is the \<open>id()\<close> of the returned launcher, that launcher
  has at least one hop and all its hop values pass \<open>validate_hop_value\<close>: ids and validated
  launchers correspond one to one.
\<close>

theorem from_id_iff_launcher_id:
  "from_id lid = Inr l \<longleftrightarrow>
     lid = launcher_id l \<and> hops l \<noteq> [] \<and> list_all valid_hop (hops l)"
  using from_id_of_id from_id_Inr by metis

end
