(* ===== verification/EnvManager.thy ===== *)
theory EnvManager
  imports Bounded_Map Launcher "HOL-Library.List_Lexorder" "HOL-Library.Char_ord"
    "HOL-Library.Product_Lexorder" "HOL-Library.Multiset"
begin

text \<open>
  The environment registry of \<open>exec-server/src/environment.rs\<close> with the two providers that fill it
  at start-up (\<open>environment_provider.rs\<close>, \<open>environment_toml.rs\<close>). The manager is a record of the
  fields of \<open>EnvironmentManager\<close>; each method that takes a lock is one function from managers to
  managers, so an interleaving of tool calls is a sequence of these functions. Trait objects of an
  \<open>Environment\<close> (process backend, file system, HTTP client, info provider) are determined by its
  transport and are kept as the value \<open>backend\<close>.
\<close>

section \<open>Environments\<close>

text \<open>A \<open>Duration\<close> in nanoseconds; it is never negative.\<close>

type_synonym duration = int

abbreviation from_secs :: "int \<Rightarrow> duration" where
  "from_secs n \<equiv> n * 1000000000"

definition DEFAULT_REMOTE_EXEC_SERVER_CONNECT_TIMEOUT :: duration where
  "DEFAULT_REMOTE_EXEC_SERVER_CONNECT_TIMEOUT = from_secs 10"

definition DEFAULT_REMOTE_EXEC_SERVER_INITIALIZE_TIMEOUT :: duration where
  "DEFAULT_REMOTE_EXEC_SERVER_INITIALIZE_TIMEOUT = from_secs 10"

definition PROVISIONED_STDIO_INITIALIZE_TIMEOUT :: duration where
  "PROVISIONED_STDIO_INITIALIZE_TIMEOUT = from_secs 30"

record stdio_exec_server_command =
  cmd_program :: string
  cmd_args :: "string list"
  cmd_env :: "string hmap"
  cmd_cwd :: "string option"

text \<open>The provider and the identity of a Noise transport are opaque handles.\<close>

datatype exec_server_transport_params =
    WebSocketUrl string duration duration
  | NoiseRendezvous nat nat
  | StdioCommand stdio_exec_server_command duration

definition websocket_url :: "string \<Rightarrow> exec_server_transport_params" where
  "websocket_url url =
     WebSocketUrl url DEFAULT_REMOTE_EXEC_SERVER_CONNECT_TIMEOUT
       DEFAULT_REMOTE_EXEC_SERVER_INITIALIZE_TIMEOUT"

record exec_server_runtime_paths =
  codex_self_exe :: string
  codex_linux_sandbox_exe :: "string option"

datatype env_backend =
    LocalBackend "exec_server_runtime_paths option"
  | RemoteBackend exec_server_transport_params

record environment =
  env_exec_server_url :: "string option"
  env_remote_transport :: "exec_server_transport_params option"
  env_backend :: env_backend
  env_local_runtime_paths :: "exec_server_runtime_paths option"

definition environment_default_for_tests :: environment where
  "environment_default_for_tests =
     \<lparr> env_exec_server_url = None, env_remote_transport = None,
       env_backend = LocalBackend None, env_local_runtime_paths = None \<rparr>"

definition environment_local :: "exec_server_runtime_paths \<Rightarrow> environment" where
  "environment_local paths =
     \<lparr> env_exec_server_url = None, env_remote_transport = None,
       env_backend = LocalBackend (Some paths), env_local_runtime_paths = Some paths \<rparr>"

definition remote_with_transport ::
  "exec_server_transport_params \<Rightarrow> exec_server_runtime_paths option \<Rightarrow> environment" where
  "remote_with_transport transport paths =
     \<lparr> env_exec_server_url =
         (case transport of WebSocketUrl url _ _ \<Rightarrow> Some url
          | NoiseRendezvous _ _ \<Rightarrow> None | StdioCommand _ _ \<Rightarrow> None),
       env_remote_transport = Some transport,
       env_backend = RemoteBackend transport,
       env_local_runtime_paths = paths \<rparr>"

definition remote_inner :: "string \<Rightarrow> exec_server_runtime_paths option \<Rightarrow> environment" where
  "remote_inner url paths = remote_with_transport (websocket_url url) paths"

definition is_remote :: "environment \<Rightarrow> bool" where
  "is_remote e \<longleftrightarrow> env_remote_transport e \<noteq> None"

section \<open>Errors\<close>

datatype exec_server_error =
    LocalRequiresRuntimePaths
  | EnvironmentIdEmpty
  | EnvironmentIdReservedForManager
  | EnvironmentIdDuplicated string
  | DefaultNotConfigured string
  | DisabledUrl
  | UrlRequired
  | NoiseIdentityFailed string
  | DisabledModeHasNoEnvironment
  | ArgsRequireProgram string
  | ConnectTimeoutRequiresUrl string
  | ProgramEmpty string
  | ExactlyOneOfUrlOrProgram string
  | CwdMustBeAbsolute string
  | DefaultIdEmpty
  | IdSurroundingWhitespace string
  | IdReserved string
  | IdTooLong string
  | IdBadCharacter string
  | UrlEmpty
  | UrlBadScheme string
  | UrlInvalid string string
  | ConfigInspectFailed string
  | ConfigLoadFailed string

section \<open>Providers\<close>

definition LOCAL_ENVIRONMENT_ID :: string where "LOCAL_ENVIRONMENT_ID = ''local''"
definition REMOTE_ENVIRONMENT_ID :: string where "REMOTE_ENVIRONMENT_ID = ''remote''"

datatype environment_default = Disabled | EnvironmentId string

record environment_provider_snapshot =
  snap_environments :: "(string \<times> environment) list"
  snap_default :: environment_default
  snap_include_local :: bool

definition normalize_exec_server_url :: "string option \<Rightarrow> string option \<times> bool" where
  "normalize_exec_server_url u =
     (case map_option trim u of
        None \<Rightarrow> (None, False)
      | Some url \<Rightarrow>
          if url = [] then (None, False)
          else if eq_ignore_ascii_case url ''none'' then (None, True)
          else (Some url, False))"

definition create_inner ::
  "string option \<Rightarrow> exec_server_runtime_paths option \<Rightarrow> exec_server_error + environment" where
  "create_inner u paths =
     (let (url, disabled) = normalize_exec_server_url u in
      if disabled then Inl DisabledModeHasNoEnvironment
      else Inr (case url of
          Some url \<Rightarrow> remote_inner url paths
        | None \<Rightarrow> (case paths of Some p \<Rightarrow> environment_local p
                   | None \<Rightarrow> environment_default_for_tests)))"

definition snapshot_inner :: "string option \<Rightarrow> environment_provider_snapshot" where
  "snapshot_inner u =
     (let (url, disabled) = normalize_exec_server_url u;
          environments = (case url of None \<Rightarrow> []
            | Some url \<Rightarrow> [(REMOTE_ENVIRONMENT_ID, remote_inner url None)]);
          has_remote = list_ex (\<lambda>(i, _). i = REMOTE_ENVIRONMENT_ID) environments in
      \<lparr> snap_environments = environments,
        snap_default = (if disabled then Disabled
          else if has_remote then EnvironmentId REMOTE_ENVIRONMENT_ID
          else EnvironmentId LOCAL_ENVIRONMENT_ID),
        snap_include_local = (\<not> disabled \<and> \<not> has_remote) \<rparr>)"

subsection \<open>The configured provider\<close>

definition MAX_ENVIRONMENT_ID_LEN :: nat where "MAX_ENVIRONMENT_ID_LEN = 64"

record environment_toml =
  et_id :: string
  et_url :: "string option"
  et_program :: "string option"
  et_args :: "string list option"
  et_env :: "string hmap option"
  et_cwd :: "string option"
  et_connect_timeout :: "duration option"
  et_initialize_timeout :: "duration option"

record environments_toml =
  ets_default :: "string option"
  ets_include_local :: "bool option"
  ets_environments :: "environment_toml list"

record toml_environment_provider =
  tp_default :: environment_default
  tp_include_local :: bool
  tp_environments :: "(string \<times> exec_server_transport_params) list"

definition validate_environment_id :: "string \<Rightarrow> exec_server_error + unit" where
  "validate_environment_id i =
     (let trimmed_id = trim i in
      if trimmed_id = [] then Inl EnvironmentIdEmpty
      else if trimmed_id \<noteq> i then Inl (IdSurroundingWhitespace i)
      else if i = LOCAL_ENVIRONMENT_ID \<or> eq_ignore_ascii_case i ''none'' then Inl (IdReserved i)
      else if length i > MAX_ENVIRONMENT_ID_LEN then Inl (IdTooLong i)
      else if \<not> list_all (\<lambda>c. is_ascii_alphanumeric c \<or> c = CHR ''-'' \<or> c = CHR ''_'') i
        then Inl (IdBadCharacter i)
      else Inr ())"

text \<open>
  \<open>client_request url\<close> is what the WebSocket library's \<open>into_client_request\<close> answers: an error
  message or nothing.
\<close>

definition validate_websocket_url ::
  "(string \<Rightarrow> string option) \<Rightarrow> string \<Rightarrow> exec_server_error + string" where
  "validate_websocket_url client_request u =
     (let url = trim u in
      if url = [] then Inl UrlEmpty
      else if \<not> starts_with ''ws://'' url \<and> \<not> starts_with ''wss://'' url then Inl (UrlBadScheme url)
      else (case client_request url of Some err \<Rightarrow> Inl (UrlInvalid url err) | None \<Rightarrow> Inr url))"

definition normalize_stdio_cwd ::
  "string \<Rightarrow> string option \<Rightarrow> string option \<Rightarrow> exec_server_error + string option" where
  "normalize_stdio_cwd i cwd config_dir =
     (case cwd of None \<Rightarrow> Inr None
      | Some cwd \<Rightarrow>
          if path_is_absolute cwd then Inr (Some cwd)
          else (case config_dir of None \<Rightarrow> Inl (CwdMustBeAbsolute i)
                | Some dir \<Rightarrow> Inr (Some (path_join dir cwd))))"

definition parse_environment_toml ::
  "(string \<Rightarrow> string option) \<Rightarrow> string option \<Rightarrow> environment_toml
     \<Rightarrow> exec_server_error + string \<times> exec_server_transport_params" where
  "parse_environment_toml client_request config_dir item =
     (let i = et_id item in
      try_bind (validate_environment_id i) (\<lambda>_.
      if et_program item = None \<and> (et_args item \<noteq> None \<or> et_env item \<noteq> None \<or> et_cwd item \<noteq> None)
        then Inl (ArgsRequireProgram i)
      else if et_url item = None \<and> et_connect_timeout item \<noteq> None
        then Inl (ConnectTimeoutRequiresUrl i)
      else
        let connect_timeout =
              unwrap_or DEFAULT_REMOTE_EXEC_SERVER_CONNECT_TIMEOUT (et_connect_timeout item);
            initialize_timeout =
              unwrap_or DEFAULT_REMOTE_EXEC_SERVER_INITIALIZE_TIMEOUT (et_initialize_timeout item) in
        case (et_url item, et_program item) of
          (Some url, None) \<Rightarrow>
            try_bind (validate_websocket_url client_request url) (\<lambda>url.
              Inr (i, WebSocketUrl url connect_timeout initialize_timeout))
        | (None, Some program) \<Rightarrow>
            let program = trim program in
            if program = [] then Inl (ProgramEmpty i)
            else try_bind (normalize_stdio_cwd i (et_cwd item) config_dir) (\<lambda>cwd.
              Inr (i, StdioCommand
                \<lparr> cmd_program = program, cmd_args = unwrap_or [] (et_args item),
                  cmd_env = unwrap_or [] (et_env item), cmd_cwd = cwd \<rparr> initialize_timeout))
        | _ \<Rightarrow> Inl (ExactlyOneOfUrlOrProgram i)))"

definition normalize_default_environment_id ::
  "string option \<Rightarrow> bool \<Rightarrow> string list \<Rightarrow> exec_server_error + environment_default" where
  "normalize_default_environment_id d include_local ids =
     (case map_option trim d of
        None \<Rightarrow> Inr (if include_local then EnvironmentId LOCAL_ENVIRONMENT_ID else Disabled)
      | Some d \<Rightarrow>
          if d = [] then Inl DefaultIdEmpty
          else if \<not> eq_ignore_ascii_case d ''none'' \<and> d \<notin> set ids then Inl (DefaultNotConfigured d)
          else if eq_ignore_ascii_case d ''none'' then Inr Disabled
          else Inr (EnvironmentId d))"

text \<open>The loop of \<open>new_with_config_dir\<close>; \<open>ids\<close> is the set of ids seen so far.\<close>

fun parse_environments ::
  "(string \<Rightarrow> string option) \<Rightarrow> string option \<Rightarrow> string list \<Rightarrow> environment_toml list
     \<Rightarrow> exec_server_error + string list \<times> (string \<times> exec_server_transport_params) list" where
  "parse_environments client_request config_dir ids [] = Inr (ids, [])"
| "parse_environments client_request config_dir ids (item # items) =
     try_bind (parse_environment_toml client_request config_dir item) (\<lambda>(i, transport).
       if i \<in> set ids then Inl (EnvironmentIdDuplicated i)
       else try_bind (parse_environments client_request config_dir (i # ids) items)
              (\<lambda>(ids', parsed). Inr (ids', (i, transport) # parsed)))"

definition new_with_config_dir ::
  "(string \<Rightarrow> string option) \<Rightarrow> environments_toml \<Rightarrow> string option
     \<Rightarrow> exec_server_error + toml_environment_provider" where
  "new_with_config_dir client_request config config_dir =
     (let include_local = unwrap_or True (ets_include_local config);
          ids = (if include_local then [LOCAL_ENVIRONMENT_ID] else []) in
      try_bind (parse_environments client_request config_dir ids (ets_environments config))
        (\<lambda>(ids, parsed).
          try_bind (normalize_default_environment_id (ets_default config) include_local ids)
            (\<lambda>d. Inr \<lparr> tp_default = d, tp_include_local = include_local,
                        tp_environments = parsed \<rparr>)))"

definition toml_snapshot :: "toml_environment_provider \<Rightarrow> environment_provider_snapshot" where
  "toml_snapshot p =
     \<lparr> snap_environments = map (\<lambda>(i, t). (i, remote_with_transport t None)) (tp_environments p),
       snap_default = tp_default p,
       snap_include_local = tp_include_local p \<rparr>"

datatype environment_provider =
    DefaultEnvironmentProvider "string option"
  | TomlEnvironmentProvider toml_environment_provider

definition provider_snapshot :: "environment_provider \<Rightarrow> environment_provider_snapshot" where
  "provider_snapshot p =
     (case p of DefaultEnvironmentProvider u \<Rightarrow> snapshot_inner u
      | TomlEnvironmentProvider t \<Rightarrow> toml_snapshot t)"

text \<open>
  \<open>try_exists\<close> and \<open>load\<close> are the answers of the file system and of the TOML reader for
  \<open>environments.toml\<close>; \<open>env_url\<close> is the value of \<open>CODEX_EXEC_SERVER_URL\<close>.
\<close>

definition environment_provider_from_codex_home ::
  "(string \<Rightarrow> string option) \<Rightarrow> (string \<Rightarrow> string + bool) \<Rightarrow> (string \<Rightarrow> string + environments_toml)
     \<Rightarrow> string option \<Rightarrow> string \<Rightarrow> exec_server_error + environment_provider" where
  "environment_provider_from_codex_home client_request try_exists load env_url codex_home =
     (let path = path_join codex_home ''environments.toml'' in
      try_bind (map_err ConfigInspectFailed (try_exists path)) (\<lambda>present.
        if \<not> present then Inr (DefaultEnvironmentProvider env_url)
        else try_bind (map_err ConfigLoadFailed (load path)) (\<lambda>environments.
          try_bind (new_with_config_dir client_request environments (Some codex_home)) (\<lambda>p.
            Inr (TomlEnvironmentProvider p)))))"


section \<open>The manager\<close>

definition MAX_ENV_METADATA_ENTRIES :: nat where "MAX_ENV_METADATA_ENTRIES = 64"

record environment_metadata =
  meta_cwd :: string
  meta_shell :: "string option"

record environment_snapshot =
  es_environment_id :: string
  es_is_remote :: bool
  es_is_default :: bool
  es_metadata :: "environment_metadata option"

record environment_manager =
  mgr_default_environment :: "string option"
  mgr_environments :: "environment hmap"
  mgr_local_environment :: "environment option"
  mgr_local_runtime_paths :: "exec_server_runtime_paths option"
  mgr_env_metadata :: "environment_metadata hmap"
  mgr_thread_env_metadata :: "environment_metadata hmap hmap"
  mgr_last_launcher :: "remote_launcher hmap"
  mgr_last_environment_id :: "string hmap"
  mgr_thread_environment_ids :: "string list hmap"

definition without_environments :: environment_manager where
  "without_environments =
     \<lparr> mgr_default_environment = None, mgr_environments = [], mgr_local_environment = None,
       mgr_local_runtime_paths = None, mgr_env_metadata = [], mgr_thread_env_metadata = [],
       mgr_last_launcher = [], mgr_last_environment_id = [], mgr_thread_environment_ids = [] \<rparr>"

fun insert_environments ::
  "environment hmap \<Rightarrow> (string \<times> environment) list \<Rightarrow> exec_server_error + environment hmap" where
  "insert_environments m [] = Inr m"
| "insert_environments m ((i, e) # es) =
     (if i = [] then Inl EnvironmentIdEmpty
      else if i = LOCAL_ENVIRONMENT_ID then Inl EnvironmentIdReservedForManager
      else if contains_key i m then Inl (EnvironmentIdDuplicated i)
      else insert_environments (AList.update i e m) es)"

definition from_snapshot ::
  "environment_provider_snapshot \<Rightarrow> exec_server_runtime_paths option
     \<Rightarrow> exec_server_error + environment_manager" where
  "from_snapshot snapshot paths =
     try_bind (if snap_include_local snapshot
               then (case paths of None \<Rightarrow> Inl LocalRequiresRuntimePaths
                     | Some p \<Rightarrow> Inr (Some (environment_local p)))
               else Inr None) (\<lambda>local_environment.
     try_bind (insert_environments
                 (case local_environment of None \<Rightarrow> []
                  | Some e \<Rightarrow> [(LOCAL_ENVIRONMENT_ID, e)])
                 (snap_environments snapshot)) (\<lambda>environment_map.
     try_bind (case snap_default snapshot of
                 Disabled \<Rightarrow> Inr None
               | EnvironmentId i \<Rightarrow> if contains_key i environment_map then Inr (Some i)
                                   else Inl (DefaultNotConfigured i)) (\<lambda>default_environment.
     Inr (without_environments
       \<lparr> mgr_default_environment := default_environment,
         mgr_environments := environment_map,
         mgr_local_environment := local_environment,
         mgr_local_runtime_paths := paths \<rparr>))))"

definition from_codex_home ::
  "(string \<Rightarrow> string option) \<Rightarrow> (string \<Rightarrow> string + bool) \<Rightarrow> (string \<Rightarrow> string + environments_toml)
     \<Rightarrow> string option \<Rightarrow> string \<Rightarrow> exec_server_runtime_paths option
     \<Rightarrow> exec_server_error + environment_manager" where
  "from_codex_home client_request try_exists load env_url codex_home paths =
     try_bind (environment_provider_from_codex_home client_request try_exists load env_url codex_home)
       (\<lambda>p. from_snapshot (provider_snapshot p) paths)"

definition from_env ::
  "string option \<Rightarrow> exec_server_runtime_paths option \<Rightarrow> exec_server_error + environment_manager" where
  "from_env env_url paths = from_snapshot (snapshot_inner env_url) paths"

subsection \<open>Lookups\<close>

definition get_environment :: "environment_manager \<Rightarrow> string \<Rightarrow> environment option" where
  "get_environment m i = map_of (mgr_environments m) i"

definition default_environment :: "environment_manager \<Rightarrow> environment option" where
  "default_environment m = Option.bind (mgr_default_environment m) (get_environment m)"

definition default_environment_ids :: "environment_manager \<Rightarrow> string list" where
  "default_environment_ids m =
     (case mgr_default_environment m of None \<Rightarrow> []
      | Some d \<Rightarrow> d # filter (\<lambda>i. i \<noteq> d) (map fst (mgr_environments m)))"

definition try_local_environment :: "environment_manager \<Rightarrow> environment option" where
  "try_local_environment m = mgr_local_environment m"

definition default_or_local_environment :: "environment_manager \<Rightarrow> environment option" where
  "default_or_local_environment m = or_else (default_environment m) (try_local_environment m)"

text \<open>
  The comparator puts the default first and orders the rest by bytes, which is the order of the
  pairs (is not the default, id).
\<close>

definition environment_snapshots :: "environment_manager \<Rightarrow> environment_snapshot list" where
  "environment_snapshots m =
     (let d = mgr_default_environment m;
          entries = map (\<lambda>(i, e). (i, is_remote e)) (mgr_environments m);
          sorted_entries = sort_key (\<lambda>(i, _). (d \<noteq> Some i, i)) entries in
      map (\<lambda>(i, r). \<lparr> es_environment_id = i, es_is_remote = r, es_is_default = (d = Some i),
                      es_metadata = map_of (mgr_env_metadata m) i \<rparr>) sorted_entries)"

subsection \<open>Updates\<close>

text \<open>Each capped map makes its own unspecified eviction choice.\<close>

datatype evict_site =
    EnvMetadataMap | ThreadMetadataMap | ThreadMetadataEntries | LauncherMap
  | LastEnvironmentMap | ThreadIdsMap

type_synonym choosers = "evict_site \<Rightarrow> chooser"

definition upsert_environment ::
  "string \<Rightarrow> string \<Rightarrow> environment_manager \<Rightarrow> exec_server_error + environment_manager" where
  "upsert_environment i u m =
     (if i = [] then Inl EnvironmentIdEmpty
      else let (url, disabled) = normalize_exec_server_url (Some u) in
        if disabled then Inl DisabledUrl
        else (case url of None \<Rightarrow> Inl UrlRequired
          | Some url \<Rightarrow> Inr (m\<lparr> mgr_environments :=
              AList.update i (remote_inner url (mgr_local_runtime_paths m)) (mgr_environments m) \<rparr>)))"

definition upsert_noise_environment ::
  "(unit \<Rightarrow> string + nat) \<Rightarrow> string \<Rightarrow> nat \<Rightarrow> environment_manager
     \<Rightarrow> exec_server_error + environment_manager" where
  "upsert_noise_environment generate_identity i provider m =
     (if i = [] then Inl EnvironmentIdEmpty
      else try_bind (map_err NoiseIdentityFailed (generate_identity ())) (\<lambda>identity.
        Inr (m\<lparr> mgr_environments := AList.update i
               (remote_with_transport (NoiseRendezvous provider identity) (mgr_local_runtime_paths m))
               (mgr_environments m) \<rparr>)))"

definition upsert_stdio_environment ::
  "string \<Rightarrow> string \<Rightarrow> string list \<Rightarrow> string hmap \<Rightarrow> string option \<Rightarrow> environment_manager
     \<Rightarrow> exec_server_error + environment_manager" where
  "upsert_stdio_environment i program args env cwd m =
     (if i = [] then Inl EnvironmentIdEmpty
      else
        let command = \<lparr> cmd_program = program, cmd_args = args, cmd_env = env, cmd_cwd = cwd \<rparr>;
            transport = StdioCommand command PROVISIONED_STDIO_INITIALIZE_TIMEOUT in
        Inr (m\<lparr> mgr_environments := AList.update i
               (remote_with_transport transport (mgr_local_runtime_paths m)) (mgr_environments m) \<rparr>))"

definition set_environment_metadata ::
  "choosers \<Rightarrow> string \<Rightarrow> environment_metadata \<Rightarrow> environment_manager \<Rightarrow> environment_manager" where
  "set_environment_metadata picks i metadata m =
     m\<lparr> mgr_env_metadata :=
        capped_insert (picks EnvMetadataMap) MAX_ENV_METADATA_ENTRIES i metadata
          (mgr_env_metadata m) \<rparr>"

definition get_environment_metadata ::
  "environment_manager \<Rightarrow> string \<Rightarrow> environment_metadata option" where
  "get_environment_metadata m i = map_of (mgr_env_metadata m) i"

definition set_thread_environment_metadata ::
  "choosers \<Rightarrow> string \<Rightarrow> string \<Rightarrow> environment_metadata \<Rightarrow> environment_manager
     \<Rightarrow> environment_manager" where
  "set_thread_environment_metadata picks thread_key i metadata m =
     (let map1 = evict_for (picks ThreadMetadataMap) MAX_ENV_METADATA_ENTRIES thread_key
                   (mgr_thread_env_metadata m);
          entries = unwrap_or [] (map_of map1 thread_key) in
      m\<lparr> mgr_thread_env_metadata := AList.update thread_key
           (capped_insert (picks ThreadMetadataEntries) MAX_ENV_METADATA_ENTRIES i metadata entries)
           map1 \<rparr>)"

definition get_thread_environment_metadata_for_keys ::
  "environment_manager \<Rightarrow> string list \<Rightarrow> string \<Rightarrow> environment_metadata option" where
  "get_thread_environment_metadata_for_keys m thread_keys i =
     find_map (\<lambda>k. Option.bind (map_of (mgr_thread_env_metadata m) k) (\<lambda>es. map_of es i)) thread_keys"

definition set_last_launcher ::
  "choosers \<Rightarrow> string \<Rightarrow> remote_launcher \<Rightarrow> environment_manager \<Rightarrow> environment_manager" where
  "set_last_launcher picks thread_key l m =
     m\<lparr> mgr_last_launcher :=
        capped_insert (picks LauncherMap) MAX_ENV_METADATA_ENTRIES thread_key l (mgr_last_launcher m) \<rparr>"

definition get_last_launcher :: "environment_manager \<Rightarrow> string \<Rightarrow> remote_launcher option" where
  "get_last_launcher m thread_key = map_of (mgr_last_launcher m) thread_key"

definition clear_last_launcher :: "string \<Rightarrow> environment_manager \<Rightarrow> environment_manager" where
  "clear_last_launcher thread_key m =
     m\<lparr> mgr_last_launcher := AList.delete thread_key (mgr_last_launcher m) \<rparr>"

definition set_last_environment_id ::
  "choosers \<Rightarrow> string \<Rightarrow> string \<Rightarrow> environment_manager \<Rightarrow> environment_manager" where
  "set_last_environment_id picks thread_key i m =
     m\<lparr> mgr_last_environment_id :=
        capped_insert (picks LastEnvironmentMap) MAX_ENV_METADATA_ENTRIES thread_key i
          (mgr_last_environment_id m) \<rparr>"

definition get_last_environment_id :: "environment_manager \<Rightarrow> string \<Rightarrow> string option" where
  "get_last_environment_id m thread_key = map_of (mgr_last_environment_id m) thread_key"

text \<open>The per-thread list of ids: no duplicates, the first is dropped when it is full.\<close>

definition push_recent :: "string \<Rightarrow> string list \<Rightarrow> string list" where
  "push_recent i ids =
     (if i \<in> set ids then ids
      else (if length ids \<ge> MAX_ENV_METADATA_ENTRIES then tl ids else ids) @ [i])"

definition record_thread_environment_id ::
  "choosers \<Rightarrow> string \<Rightarrow> string \<Rightarrow> environment_manager \<Rightarrow> environment_manager" where
  "record_thread_environment_id picks thread_key i m =
     (let map1 = evict_for (picks ThreadIdsMap) MAX_ENV_METADATA_ENTRIES thread_key
                   (mgr_thread_environment_ids m) in
      m\<lparr> mgr_thread_environment_ids :=
         AList.update thread_key (push_recent i (unwrap_or [] (map_of map1 thread_key))) map1 \<rparr>)"

definition get_thread_environment_ids :: "environment_manager \<Rightarrow> string \<Rightarrow> string list" where
  "get_thread_environment_ids m thread_key =
     unwrap_or [] (map_of (mgr_thread_environment_ids m) thread_key)"


section \<open>The capped stores of the manager\<close>

end
