(* ===== verification/EnvManager_Props.thy ===== *)
theory EnvManager_Props
  imports EnvManager
begin

text \<open>
  Correctness of the environment registry: the cursors of the manager are capped stores, every
  sequence of manager operations keeps the registry well formed and bounded, configured providers
  always give a usable manager, and the status snapshot does not depend on hash order.
\<close>

section \<open>The capped stores of the manager\<close>

lemma max_pos: "0 < MAX_ENV_METADATA_ENTRIES"
  by (simp add: MAX_ENV_METADATA_ENTRIES_def)

interpretation launcher_cursor: capped_store
  "set_last_launcher picks" get_last_launcher "\<lambda>m. length (mgr_last_launcher m)"
  "\<lambda>m. wf_map MAX_ENV_METADATA_ENTRIES (mgr_last_launcher m)" MAX_ENV_METADATA_ENTRIES
  for picks
  by unfold_locales
    (simp_all add: set_last_launcher_def get_last_launcher_def capped_insert_laws max_pos wf_map_def
      del: wf_map_capped_insert add: wf_map_capped_insert [unfolded wf_map_def])

interpretation selection_cursor: capped_store
  "set_last_environment_id picks" get_last_environment_id "\<lambda>m. length (mgr_last_environment_id m)"
  "\<lambda>m. wf_map MAX_ENV_METADATA_ENTRIES (mgr_last_environment_id m)" MAX_ENV_METADATA_ENTRIES
  for picks
  by unfold_locales
    (simp_all add: set_last_environment_id_def get_last_environment_id_def capped_insert_laws
      max_pos wf_map_def wf_map_capped_insert [unfolded wf_map_def])

interpretation metadata_store: capped_store
  "set_environment_metadata picks" get_environment_metadata "\<lambda>m. length (mgr_env_metadata m)"
  "\<lambda>m. wf_map MAX_ENV_METADATA_ENTRIES (mgr_env_metadata m)" MAX_ENV_METADATA_ENTRIES
  for picks
  by unfold_locales
    (simp_all add: set_environment_metadata_def get_environment_metadata_def capped_insert_laws
      max_pos wf_map_def wf_map_capped_insert [unfolded wf_map_def])

section \<open>Well-formed managers\<close>

definition wf_ids :: "string list \<Rightarrow> bool" where
  "wf_ids ids \<longleftrightarrow> distinct ids \<and> length ids \<le> MAX_ENV_METADATA_ENTRIES"

fun default_known :: "string option \<Rightarrow> environment hmap \<Rightarrow> bool" where
  "default_known None envs \<longleftrightarrow> True"
| "default_known (Some d) envs \<longleftrightarrow> contains_key d envs"

definition manager_inv :: "environment_manager \<Rightarrow> bool" where
  "manager_inv m \<longleftrightarrow>
     distinct (map fst (mgr_environments m)) \<and>
     [] \<notin> set (map fst (mgr_environments m)) \<and>
     default_known (mgr_default_environment m) (mgr_environments m) \<and>
     wf_map MAX_ENV_METADATA_ENTRIES (mgr_env_metadata m) \<and>
     wf_map MAX_ENV_METADATA_ENTRIES (mgr_thread_env_metadata m) \<and>
     list_all (\<lambda>(_, es). wf_map MAX_ENV_METADATA_ENTRIES es) (mgr_thread_env_metadata m) \<and>
     wf_map MAX_ENV_METADATA_ENTRIES (mgr_last_launcher m) \<and>
     wf_map MAX_ENV_METADATA_ENTRIES (mgr_last_environment_id m) \<and>
     wf_map MAX_ENV_METADATA_ENTRIES (mgr_thread_environment_ids m) \<and>
     list_all (\<lambda>(_, ids). wf_ids ids) (mgr_thread_environment_ids m)"

text \<open>One call on the shared manager; concurrent callers interleave at this grain.\<close>

inductive manager_step :: "environment_manager \<Rightarrow> environment_manager \<Rightarrow> bool" where
  step_upsert: "upsert_environment i u m = Inr m' \<Longrightarrow> manager_step m m'"
| step_upsert_noise: "upsert_noise_environment gen i p m = Inr m' \<Longrightarrow> manager_step m m'"
| step_upsert_stdio: "upsert_stdio_environment i prog args env cwd m = Inr m' \<Longrightarrow> manager_step m m'"
| step_metadata: "manager_step m (set_environment_metadata picks i md m)"
| step_thread_metadata: "manager_step m (set_thread_environment_metadata picks t i md m)"
| step_launcher: "manager_step m (set_last_launcher picks t l m)"
| step_clear: "manager_step m (clear_last_launcher t m)"
| step_selected: "manager_step m (set_last_environment_id picks t i m)"
| step_record: "manager_step m (record_thread_environment_id picks t i m)"

inductive manager_reachable :: "environment_manager \<Rightarrow> bool" where
  reach_empty: "manager_reachable without_environments"
| reach_snapshot: "from_snapshot snap paths = Inr m \<Longrightarrow> manager_reachable m"
| reach_step: "manager_reachable m \<Longrightarrow> manager_step m m' \<Longrightarrow> manager_reachable m'"

subsection \<open>Every operation keeps a manager well formed\<close>

lemma list_all_update:
  "list_all P m \<Longrightarrow> P (k, v) \<Longrightarrow> list_all P (AList.update k v m)"
  by (induction m) auto

lemma list_all_evict: "list_all P m \<Longrightarrow> list_all P (evict_for pick cap k m)"
  by (auto simp: evict_for_def list_all_iff AList.delete_eq split: option.split)

lemma wf_ids_push_recent: "wf_ids ids \<Longrightarrow> wf_ids (push_recent i ids)"
  using max_pos
  by (cases ids) (auto simp: wf_ids_def push_recent_def)

lemma list_all_lookup:
  "list_all (\<lambda>(_, x). P x) m \<Longrightarrow> P [] \<Longrightarrow> P (unwrap_or [] (map_of m k))"
  by (induction m) auto

lemma wf_map_Nil [simp]: "wf_map cap []"
  by (simp add: wf_map_def)

lemma wf_ids_Nil [simp]: "wf_ids []"
  by (simp add: wf_ids_def)

lemma upsert_keeps_inv:
  assumes "manager_inv m" "i \<noteq> []"
  shows "manager_inv (m\<lparr> mgr_environments := AList.update i e (mgr_environments m) \<rparr>)"
  using assms
  by (cases "mgr_default_environment m")
    (auto simp: manager_inv_def contains_key_iff dom_update distinct_update)

lemma manager_step_inv:
  assumes "manager_step m m'" "manager_inv m"
  shows "manager_inv m'"
  using assms
proof (induction rule: manager_step.induct)
  case (step_upsert i u m m')
  then show ?case
    by (auto simp: upsert_environment_def split: if_splits prod.splits option.splits
        intro!: upsert_keeps_inv)
next
  case (step_upsert_noise gen i p m m')
  then show ?case
    by (auto simp: upsert_noise_environment_def result_simps split: if_splits intro!: upsert_keeps_inv)
next
  case (step_upsert_stdio i prog args env cwd m m')
  then show ?case
    by (auto simp: upsert_stdio_environment_def Let_def split: if_splits intro!: upsert_keeps_inv)
next
  case (step_metadata m picks i md)
  then show ?case
    by (simp add: manager_inv_def set_environment_metadata_def wf_map_capped_insert max_pos)
next
  case (step_thread_metadata m picks t i md)
  then show ?case
    by (auto simp: manager_inv_def set_thread_environment_metadata_def Let_def max_pos
        intro!: wf_map_update_evict list_all_update list_all_evict wf_map_capped_insert
          list_all_lookup [where P = "wf_map MAX_ENV_METADATA_ENTRIES"])
next
  case (step_launcher m picks t l)
  then show ?case
    by (simp add: manager_inv_def set_last_launcher_def wf_map_capped_insert max_pos)
next
  case (step_clear m t)
  then show ?case
    using length_delete_le [of t "mgr_last_launcher m"]
    by (simp add: manager_inv_def clear_last_launcher_def wf_map_def distinct_delete)
next
  case (step_selected m picks t i)
  then show ?case
    by (simp add: manager_inv_def set_last_environment_id_def wf_map_capped_insert max_pos)
next
  case (step_record m picks t i)
  then show ?case
    by (auto simp: manager_inv_def record_thread_environment_id_def Let_def max_pos
        intro!: wf_map_update_evict list_all_update list_all_evict wf_ids_push_recent
          list_all_lookup [where P = wf_ids])
qed


subsection \<open>Managers built from a snapshot\<close>

lemma insert_environments_Inr:
  assumes "insert_environments envs es = Inr envs'" "distinct (map fst envs)" "[] \<notin> fst ` set envs"
  shows "distinct (map fst envs')" "[] \<notin> fst ` set envs'"
    "fst ` set envs' = fst ` set envs \<union> fst ` set es"
  using assms
  by (induction envs es rule: insert_environments.induct)
    (auto simp: dom_update distinct_update split: if_splits)

lemma insert_environments_ok:
  assumes "distinct (map fst es)" "[] \<notin> fst ` set es" "LOCAL_ENVIRONMENT_ID \<notin> fst ` set es"
    "fst ` set es \<inter> fst ` set envs = {}"
  shows "\<exists>envs'. insert_environments envs es = Inr envs'"
  using assms
  by (induction envs es rule: insert_environments.induct)
    (auto simp: dom_update contains_key_iff)

lemma local_seed:
  fixes le :: "environment option"
  defines "seed \<equiv> (case le of None \<Rightarrow> [] | Some e \<Rightarrow> [(LOCAL_ENVIRONMENT_ID, e)])"
  shows "distinct (map fst seed)" "[] \<notin> fst ` set seed" "fst ` set seed \<subseteq> {LOCAL_ENVIRONMENT_ID}"
  unfolding seed_def by (auto simp: LOCAL_ENVIRONMENT_ID_def split: option.splits)

lemma from_snapshot_inv:
  assumes "from_snapshot snap paths = Inr m"
  shows "manager_inv m"
proof -
  from assms obtain le envs d where
    envs: "insert_environments (case le of None \<Rightarrow> [] | Some e \<Rightarrow> [(LOCAL_ENVIRONMENT_ID, e)])
             (snap_environments snap) = Inr envs"
    and d: "(case snap_default snap of Disabled \<Rightarrow> Inr None
             | EnvironmentId i \<Rightarrow> if contains_key i envs then Inr (Some i)
                                 else Inl (DefaultNotConfigured i)) = Inr d"
    and m: "m = without_environments \<lparr> mgr_default_environment := d, mgr_environments := envs,
              mgr_local_environment := le, mgr_local_runtime_paths := paths \<rparr>"
    unfolding from_snapshot_def try_bind_Inr sum.inject by blast
  have "distinct (map fst envs)" "[] \<notin> fst ` set envs"
    using insert_environments_Inr [OF envs local_seed(1,2)] by auto
  moreover from d have "default_known d envs"
    by (auto split: environment_default.splits if_splits)
  ultimately show ?thesis
    by (simp add: m manager_inv_def without_environments_def)
qed

lemma reachable_inv: "manager_reachable m \<Longrightarrow> manager_inv m"
proof (induction rule: manager_reachable.induct)
  case reach_empty
  then show ?case by (simp add: manager_inv_def without_environments_def)
qed (auto intro: from_snapshot_inv manager_step_inv)

section \<open>Configured providers\<close>

lemma parse_environment_toml_id:
  "parse_environment_toml req dir item = Inr (i, t) \<Longrightarrow> validate_environment_id i = Inr ()"
  unfolding parse_environment_toml_def Let_def
  by (auto simp: result_simps split: if_splits option.splits)

lemma validate_environment_id_ok:
  "validate_environment_id i = Inr () \<Longrightarrow> i \<noteq> [] \<and> i \<noteq> LOCAL_ENVIRONMENT_ID"
  by (auto simp: validate_environment_id_def Let_def split: if_splits)

lemma parse_environments_Inr:
  assumes "parse_environments req dir ids items = Inr (ids', parsed)"
  shows "distinct (map fst parsed) \<and> [] \<notin> fst ` set parsed \<and>
    LOCAL_ENVIRONMENT_ID \<notin> fst ` set parsed \<and> fst ` set parsed \<inter> set ids = {} \<and>
    set ids' = set ids \<union> fst ` set parsed"
  using assms
proof (induction items arbitrary: ids ids' parsed)
  case Nil
  then show ?case by simp
next
  case (Cons item items)
  then obtain i t rest where
    i: "parse_environment_toml req dir item = Inr (i, t)" "i \<notin> set ids"
    and rest: "parse_environments req dir (i # ids) items = Inr (ids', rest)" "parsed = (i, t) # rest"
    by (auto simp: result_simps split: if_splits)
  have "i \<noteq> []" "i \<noteq> LOCAL_ENVIRONMENT_ID"
    using validate_environment_id_ok [OF parse_environment_toml_id [OF i(1)]] by auto
  with Cons.IH [OF rest(1)] i(2) rest(2) show ?case by auto
qed

lemma new_with_config_dir_Inr:
  assumes "new_with_config_dir req config dir = Inr p"
  shows "distinct (map fst (tp_environments p))" "[] \<notin> fst ` set (tp_environments p)"
    "LOCAL_ENVIRONMENT_ID \<notin> fst ` set (tp_environments p)"
    "\<And>d. tp_default p = EnvironmentId d \<Longrightarrow>
       d \<in> fst ` set (tp_environments p) \<or> d = LOCAL_ENVIRONMENT_ID \<and> tp_include_local p"
proof -
  define inc where "inc = unwrap_or True (ets_include_local config)"
  define ids where "ids = (if inc then [LOCAL_ENVIRONMENT_ID] else [])"
  from assms obtain ids' parsed d where
    parsed: "parse_environments req dir ids (ets_environments config) = Inr (ids', parsed)"
    and d: "normalize_default_environment_id (ets_default config) inc ids' = Inr d"
    and p: "p = \<lparr> tp_default = d, tp_include_local = inc, tp_environments = parsed \<rparr>"
    by (auto simp: new_with_config_dir_def Let_def result_simps inc_def ids_def)
  note facts = parse_environments_Inr [OF parsed]
  from facts p show "distinct (map fst (tp_environments p))" "[] \<notin> fst ` set (tp_environments p)"
    "LOCAL_ENVIRONMENT_ID \<notin> fst ` set (tp_environments p)"
    by simp_all
  fix d' assume "tp_default p = EnvironmentId d'"
  with d p have "d' \<in> set ids' \<or> d' = LOCAL_ENVIRONMENT_ID \<and> inc"
    by (auto simp: normalize_default_environment_id_def split: option.splits if_splits)
  with facts p show "d' \<in> fst ` set (tp_environments p) \<or> d' = LOCAL_ENVIRONMENT_ID \<and> tp_include_local p"
    by (auto simp: ids_def split: if_splits)
qed

lemma toml_snapshot_simps [simp]:
  "map fst (snap_environments (toml_snapshot p)) = map fst (tp_environments p)"
  "snap_default (toml_snapshot p) = tp_default p"
  "snap_include_local (toml_snapshot p) = tp_include_local p"
  by (simp_all add: toml_snapshot_def case_prod_unfold comp_def)

lemma subset_singleton_disjoint: "A \<subseteq> {x} \<Longrightarrow> x \<notin> B \<Longrightarrow> B \<inter> A = {}"
  by blast

lemma from_snapshot_ok:
  assumes "distinct (map fst (snap_environments snap))" "[] \<notin> set (map fst (snap_environments snap))"
    "LOCAL_ENVIRONMENT_ID \<notin> set (map fst (snap_environments snap))"
    "snap_include_local snap \<Longrightarrow> paths \<noteq> None"
    "\<And>d. snap_default snap = EnvironmentId d \<Longrightarrow>
       d \<in> set (map fst (snap_environments snap)) \<or> d = LOCAL_ENVIRONMENT_ID \<and> snap_include_local snap"
  shows "\<exists>m. from_snapshot snap paths = Inr m"
proof -
  define le where "le = (if snap_include_local snap then Some (environment_local (the paths)) else None)"
  define envs where "envs = (case le of None \<Rightarrow> [] | Some e \<Rightarrow> [(LOCAL_ENVIRONMENT_ID, e)])"
  have loc: "(if snap_include_local snap
              then (case paths of None \<Rightarrow> Inl LocalRequiresRuntimePaths
                    | Some p \<Rightarrow> Inr (Some (environment_local p)))
              else Inr None) = Inr le"
    using assms(4) by (auto simp: le_def)
  note seed = local_seed [of le, folded envs_def]
  have "fst ` set (snap_environments snap) \<inter> fst ` set envs = {}"
    using assms(3) by (intro subset_singleton_disjoint [OF seed(3)]) simp
  with assms obtain envs' where ins: "insert_environments envs (snap_environments snap) = Inr envs'"
    using insert_environments_ok [of "snap_environments snap" envs] by auto
  note keys = insert_environments_Inr(3) [OF ins seed(1,2)]
  have dk: "contains_key d envs'" if "snap_default snap = EnvironmentId d" for d
    using assms(5) [OF that]
  proof
    assume "d \<in> set (map fst (snap_environments snap))"
    then show ?thesis using keys by (simp add: contains_key_iff)
  next
    assume "d = LOCAL_ENVIRONMENT_ID \<and> snap_include_local snap"
    then have "d \<in> fst ` set envs" by (simp add: envs_def le_def)
    then show ?thesis using keys by (simp add: contains_key_iff)
  qed
  show ?thesis
    unfolding from_snapshot_def loc try_bind.simps envs_def [symmetric] ins
    using dk by (cases "snap_default snap") auto
qed

section \<open>The status snapshot\<close>

lemma sort_key_unique:
  fixes f :: "'a \<Rightarrow> 'k::linorder"
  assumes "mset xs = mset ys" "inj_on f (set xs)"
  shows "sort_key f xs = sort_key f ys"
proof (rule properties_for_sort_key)
  show "mset (sort_key f ys) = mset xs" using assms(1) by simp
  show "sorted (map f (sort_key f ys))" by simp
  fix k assume "k \<in> set (sort_key f ys)"
  then have k: "k \<in> set xs" using assms(1) by (metis mset_eq_setD set_sort)
  have one: "filter (\<lambda>x. f k = f x) zs = filter ((=) k) zs" if "set zs = set xs" for zs
    using that k assms(2) by (intro filter_cong refl) (auto dest: inj_onD)
  have rep: "filter ((=) k) zs = replicate (count (mset zs) k) k" for zs
    by (induction zs) auto
  show "filter (\<lambda>x. f k = f x) (sort_key f ys) = filter (\<lambda>x. f k = f x) xs"
    using one [of xs] one [of "sort_key f ys"] rep [of xs] rep [of "sort_key f ys"] assms(1)
      mset_eq_setD [OF assms(1)] by simp
qed


abbreviation snapshot_key :: "environment_manager \<Rightarrow> string \<times> bool \<Rightarrow> bool \<times> string" where
  "snapshot_key m \<equiv> \<lambda>(i, _). (mgr_default_environment m \<noteq> Some i, i)"

lemma snapshot_ids:
  "map es_environment_id (environment_snapshots m) =
     map fst (sort_key (snapshot_key m) (map (\<lambda>(i, e). (i, is_remote e)) (mgr_environments m)))"
  by (simp add: environment_snapshots_def Let_def case_prod_unfold comp_def)

lemma snapshots_ordered:
  "sorted (map (\<lambda>i. (mgr_default_environment m \<noteq> Some i, i))
     (map es_environment_id (environment_snapshots m)))"
proof -
  have "sorted (map (snapshot_key m)
      (sort_key (snapshot_key m) (map (\<lambda>(i, e). (i, is_remote e)) (mgr_environments m))))"
    by simp
  then show ?thesis
    unfolding snapshot_ids by (simp add: case_prod_unfold comp_def)
qed

lemma snapshot_ids_set: "set (map es_environment_id (environment_snapshots m)) = fst ` set (mgr_environments m)"
  unfolding snapshot_ids by (force simp: image_iff)

lemma snapshots_default_first:
  assumes "manager_inv m" "mgr_default_environment m = Some d"
  shows "es_environment_id (hd (environment_snapshots m)) = d \<and> environment_snapshots m \<noteq> []"
proof -
  let ?ids = "map es_environment_id (environment_snapshots m)"
  have "d \<in> set ?ids"
    using assms unfolding snapshot_ids_set by (auto simp: manager_inv_def contains_key_iff)
  then obtain i rest where ids: "?ids = i # rest" by (cases ?ids) auto
  have "i = d"
  proof (rule ccontr)
    assume "i \<noteq> d"
    with \<open>d \<in> set ?ids\<close> ids have "d \<in> set rest" by auto
    with snapshots_ordered [of m] ids assms(2) \<open>i \<noteq> d\<close> show False by auto
  qed
  with ids show ?thesis by (cases "environment_snapshots m") auto
qed

lemma inj_snapshot_key: "inj_on fst A \<Longrightarrow> inj_on (snapshot_key m) A"
proof (rule inj_onI)
  fix x y assume *: "inj_on fst A" "x \<in> A" "y \<in> A" "snapshot_key m x = snapshot_key m y"
  from *(4) have "fst x = fst y" by (simp add: case_prod_unfold)
  with *(1-3) show "x = y" by (simp add: inj_onD)
qed

lemma snapshots_order_irrelevant:
  assumes "distinct (map fst (mgr_environments m))" "mset es = mset (mgr_environments m)"
    "map_of md = map_of (mgr_env_metadata m)"
  shows "environment_snapshots (m\<lparr> mgr_environments := es, mgr_env_metadata := md \<rparr>) =
         environment_snapshots m"
proof -
  let ?f = "\<lambda>(i, e). (i, is_remote e)"
  have "mset (map fst es) = mset (map fst (mgr_environments m))" using assms(2) by simp
  then have "distinct (map fst es)" using assms(1) mset_eq_imp_distinct_iff by blast
  then have "distinct (map fst (map ?f es))" by (simp add: case_prod_unfold comp_def)
  then have "inj_on fst (set (map ?f es))" unfolding distinct_map by blast
  then have "inj_on (snapshot_key m) (set (map ?f es))"
    by (rule inj_snapshot_key)
  then have "sort_key (snapshot_key m) (map ?f es) = sort_key (snapshot_key m) (map ?f (mgr_environments m))"
    using assms(2) by (intro sort_key_unique) simp_all
  then show ?thesis
    using assms(3) by (simp add: environment_snapshots_def Let_def)
qed

section \<open>Properties\<close>

text \<open>
  C3. Whatever sequence of calls is made on a manager built empty or from any provider snapshot:
  registry keys stay distinct and non-empty, the default environment stays registered, each
  metadata map and cursor map keeps at most 64 entries with distinct keys, and so do the per-thread
  metadata maps and the per-thread lists of environment ids.
\<close>

theorem reachable_manager_inv:
  "manager_reachable m \<Longrightarrow> manager_inv m"
  by (rule reachable_inv)

theorem reachable_manager_inv_witness:
  "manager_inv (record_thread_environment_id (\<lambda>_ _. 0) ''t'' ''ssh:h''
     (set_last_launcher (\<lambda>_ _. 0) ''t'' (ssh_launcher ''h'') without_environments))"
  by (rule reachable_manager_inv
      [OF reach_step [OF reach_step [OF reach_empty step_launcher] step_record]])

text \<open>
  C11. Every provider that \<open>environment_provider_from_codex_home\<close> returns, be it the environment
  variable provider or any accepted \<open>environments.toml\<close>, gives a manager: with runtime paths
  configured \<open>from_codex_home\<close> cannot fail after that, the default environment of an enabled
  snapshot exists, and environment access is off exactly when the snapshot disables it.
\<close>

theorem from_codex_home_usable:
  assumes "environment_provider_from_codex_home client_request try_exists load env_url codex_home = Inr p"
  shows "\<exists>m. from_codex_home client_request try_exists load env_url codex_home (Some paths) = Inr m \<and>
             (default_environment m = None \<longleftrightarrow> snap_default (provider_snapshot p) = Disabled)"
proof -
  have "\<exists>m. from_snapshot (provider_snapshot p) (Some paths) = Inr m"
  proof (cases p)
    case (DefaultEnvironmentProvider u)
    then show ?thesis
      by (intro from_snapshot_ok)
        (auto simp: provider_snapshot_def snapshot_inner_def Let_def REMOTE_ENVIRONMENT_ID_def
          LOCAL_ENVIRONMENT_ID_def split: prod.splits option.splits if_splits)
  next
    case (TomlEnvironmentProvider t)
    with assms obtain config where "new_with_config_dir client_request config (Some codex_home) = Inr t"
      by (auto simp: environment_provider_from_codex_home_def Let_def result_simps split: if_splits)
    note facts = new_with_config_dir_Inr [OF this]
    then have "\<exists>m. from_snapshot (toml_snapshot t) (Some paths) = Inr m"
      by (intro from_snapshot_ok) (simp_all only: toml_snapshot_simps set_map option.distinct not_False_eq_True)
    then show ?thesis by (simp add: TomlEnvironmentProvider provider_snapshot_def)
  qed
  then obtain m where m: "from_snapshot (provider_snapshot p) (Some paths) = Inr m" by blast
  have "default_environment m = None \<longleftrightarrow> mgr_default_environment m = None"
    using from_snapshot_inv [OF m]
    by (cases "mgr_default_environment m")
      (auto simp: default_environment_def get_environment_def manager_inv_def contains_key_def)
  also have "\<dots> \<longleftrightarrow> snap_default (provider_snapshot p) = Disabled"
    using m by (cases "snap_default (provider_snapshot p)")
      (auto simp: from_snapshot_def result_simps without_environments_def split: if_splits)
  finally show ?thesis
    using m assms by (auto simp: from_codex_home_def)
qed

definition sample_config :: environments_toml where
  "sample_config =
     \<lparr> ets_default = Some ''dev'', ets_include_local = None,
       ets_environments =
         [\<lparr> et_id = ''dev'', et_url = None, et_program = Some '' ssh '', et_args = Some [''h''],
            et_env = None, et_cwd = Some ''w'', et_connect_timeout = None,
            et_initialize_timeout = None \<rparr>] \<rparr>"

definition sample_provider :: environment_provider where
  "sample_provider = TomlEnvironmentProvider
     \<lparr> tp_default = EnvironmentId ''dev'', tp_include_local = True,
       tp_environments = [(''dev'', StdioCommand
         \<lparr> cmd_program = ''ssh'', cmd_args = [''h''], cmd_env = [], cmd_cwd = Some ''/home/w'' \<rparr>
         (from_secs 10))] \<rparr>"

theorem from_codex_home_usable_witness:
  "\<exists>m. from_codex_home (\<lambda>_. None) (\<lambda>_. Inr True) (\<lambda>_. Inr sample_config) None ''/home''
         (Some \<lparr> codex_self_exe = ''/bin/codex'', codex_linux_sandbox_exe = None \<rparr>) = Inr m \<and>
       (default_environment m = None \<longleftrightarrow> snap_default (provider_snapshot sample_provider) = Disabled)"
proof (rule from_codex_home_usable)
  show "environment_provider_from_codex_home (\<lambda>_. None) (\<lambda>_. Inr True) (\<lambda>_. Inr sample_config) None
          ''/home'' = Inr sample_provider"
    by code_simp
qed

text \<open>
  The status snapshot is deterministic: it lists every registered id, the default first and the
  others in byte order, and hash-map iteration order does not change it.
\<close>

theorem environment_snapshots_deterministic:
  assumes "manager_inv m" "mset es = mset (mgr_environments m)"
    "map_of md = map_of (mgr_env_metadata m)"
  shows "environment_snapshots (m\<lparr> mgr_environments := es, mgr_env_metadata := md \<rparr>) =
           environment_snapshots m \<and>
         set (map es_environment_id (environment_snapshots m)) = set (map fst (mgr_environments m)) \<and>
         sorted (map (\<lambda>i. (mgr_default_environment m \<noteq> Some i, i))
           (map es_environment_id (environment_snapshots m)))"
  using assms snapshots_order_irrelevant snapshots_ordered snapshot_ids_set
  by (simp add: manager_inv_def)

definition sample_manager :: environment_manager where
  "sample_manager = without_environments
     \<lparr> mgr_default_environment := Some ''remote'',
       mgr_environments := [(''local'', environment_default_for_tests),
                            (''remote'', remote_inner ''ws://h'' None)] \<rparr>"

theorem environment_snapshots_deterministic_witness:
  "environment_snapshots (sample_manager\<lparr> mgr_environments := rev (mgr_environments sample_manager),
       mgr_env_metadata := [] \<rparr>) = environment_snapshots sample_manager \<and>
   set (map es_environment_id (environment_snapshots sample_manager)) =
     set (map fst (mgr_environments sample_manager)) \<and>
   sorted (map (\<lambda>i. (mgr_default_environment sample_manager \<noteq> Some i, i))
     (map es_environment_id (environment_snapshots sample_manager)))"
proof (rule environment_snapshots_deterministic)
  show "manager_inv sample_manager" by code_simp
qed (simp_all add: sample_manager_def without_environments_def)

text \<open>
  Launcher cursors are private to their thread key: after any sequence of
  \<open>set_last_launcher\<close> calls by any threads, what a thread reads is its own last write, or its old
  value when it made no call, or nothing after an eviction, but never another thread's launcher.
\<close>

theorem launcher_cursor_private:
  assumes "get_last_launcher (fold (\<lambda>(k, l). set_last_launcher picks k l) writes m) t = Some l"
  shows "get_last_launcher m t = Some l \<and> t \<notin> fst ` set writes \<or> map_of (rev writes) t = Some l"
  using assms launcher_cursor.run_read [unfolded launcher_cursor.run_def] by fast

theorem launcher_cursor_private_witness:
  "get_last_launcher without_environments ''b'' = Some (ssh_launcher ''h'') \<and>
     ''b'' \<notin> fst ` set [(''b'', ssh_launcher ''h''), (''a'', docker_launcher ''c'')] \<or>
   map_of (rev [(''b'', ssh_launcher ''h''), (''a'', docker_launcher ''c'')]) ''b'' =
     Some (ssh_launcher ''h'')"
proof (rule launcher_cursor_private)
  show "get_last_launcher (fold (\<lambda>(k, l). set_last_launcher (\<lambda>_ _. 0) k l)
          [(''b'', ssh_launcher ''h''), (''a'', docker_launcher ''c'')] without_environments) ''b'' =
        Some (ssh_launcher ''h'')"
    by code_simp
qed

end
