(* ===== verification/Utf8.thy ===== *)
theory Utf8
  imports Prelude
begin

text \<open>
  UTF-8 decoding as the Rust library does it: \<open>str::from_utf8\<close> with its two kinds of failure
  (an invalid sequence of known length, an unexpected end) and \<open>String::from_utf8_lossy\<close>.
\<close>

section \<open>One decoding step\<close>

datatype utf8_step = U8Ok nat | U8Bad nat | U8Short

text \<open>Total length and the range of the second byte, for a lead byte above 0x7F.\<close>

definition lead_info :: "nat \<Rightarrow> (nat \<times> nat \<times> nat) option" where
  "lead_info b =
     (if b < 194 then None
      else if b \<le> 223 then Some (2, 128, 191)
      else if b = 224 then Some (3, 160, 191)
      else if b = 237 then Some (3, 128, 159)
      else if b \<le> 239 then Some (3, 128, 191)
      else if b = 240 then Some (4, 144, 191)
      else if b \<le> 243 then Some (4, 128, 191)
      else if b = 244 then Some (4, 128, 143)
      else None)"

definition byte_between :: "nat \<Rightarrow> nat \<Rightarrow> char \<Rightarrow> bool" where
  "byte_between lo hi c \<longleftrightarrow> lo \<le> of_char c \<and> of_char c \<le> hi"

definition utf8_step :: "char \<Rightarrow> string \<Rightarrow> utf8_step" where
  "utf8_step b bs =
     (if of_char b < (128 :: nat) then U8Ok 1
      else case lead_info (of_char b) of None \<Rightarrow> U8Bad 1
      | Some (n, lo, hi) \<Rightarrow>
          (case bs of [] \<Rightarrow> U8Short
           | b1 # bs1 \<Rightarrow>
               if \<not> byte_between lo hi b1 then U8Bad 1
               else if n = 2 then U8Ok 2
               else (case bs1 of [] \<Rightarrow> U8Short
                 | b2 # bs2 \<Rightarrow>
                     if \<not> byte_between 128 191 b2 then U8Bad 2
                     else if n = 3 then U8Ok 3
                     else (case bs2 of [] \<Rightarrow> U8Short
                       | b3 # _ \<Rightarrow> if byte_between 128 191 b3 then U8Ok 4 else U8Bad 3))))"

section \<open>Decoding a buffer\<close>

text \<open>
  \<open>str::from_utf8\<close>: the number of bytes that are valid, and what stops it: nothing, an invalid
  sequence of the given length (\<open>error_len = Some n\<close>), or the end of the buffer inside a character
  (\<open>error_len = None\<close>).
\<close>

datatype utf8_end = Utf8All | Utf8Invalid nat | Utf8Incomplete

function from_utf8 :: "string \<Rightarrow> nat \<times> utf8_end" where
  "from_utf8 [] = (0, Utf8All)"
| "from_utf8 (b # bs) =
     (case utf8_step b bs of
        U8Ok n \<Rightarrow> (let (k, e) = from_utf8 (drop (n - 1) bs) in (n + k, e))
      | U8Bad n \<Rightarrow> (0, Utf8Invalid n)
      | U8Short \<Rightarrow> (0, Utf8Incomplete))"
  by pat_completeness auto
termination by (relation "measure length") auto

definition valid_utf8 :: "string \<Rightarrow> bool" where
  "valid_utf8 s \<longleftrightarrow> snd (from_utf8 s) = Utf8All"

abbreviation replacement_char :: string where
  "replacement_char \<equiv> [CHR 0xEF, CHR 0xBF, CHR 0xBD]"

function from_utf8_lossy :: "string \<Rightarrow> string" where
  "from_utf8_lossy [] = []"
| "from_utf8_lossy (b # bs) =
     (case utf8_step b bs of
        U8Ok n \<Rightarrow> (b # take (n - 1) bs) @ from_utf8_lossy (drop (n - 1) bs)
      | U8Bad n \<Rightarrow> replacement_char @ from_utf8_lossy (drop (n - 1) bs)
      | U8Short \<Rightarrow> replacement_char)"
  by pat_completeness auto
termination by (relation "measure length") auto

section \<open>Facts about decoding\<close>

lemma utf8_step_Ok:
  assumes "utf8_step b bs = U8Ok n"
  shows "1 \<le> n" "n \<le> 4" "n - 1 \<le> length bs"
  using assms
  by (auto simp: utf8_step_def split: if_splits option.splits list.splits prod.splits)

lemma utf8_step_Ok_append: "utf8_step b bs = U8Ok n \<Longrightarrow> utf8_step b (bs @ cs) = U8Ok n"
  by (auto simp: utf8_step_def split: if_splits option.splits list.splits prod.splits)

lemma utf8_step_Bad_append: "utf8_step b bs = U8Bad n \<Longrightarrow> utf8_step b (bs @ cs) = U8Bad n"
  by (auto simp: utf8_step_def split: if_splits option.splits list.splits prod.splits)

lemma utf8_step_Ok_take: "utf8_step b bs = U8Ok n \<Longrightarrow> utf8_step b (take (n - 1) bs) = U8Ok n"
  by (auto simp: utf8_step_def numeral_eq_Suc
      split: if_splits option.splits list.splits prod.splits)

lemma from_utf8_le: "fst (from_utf8 s) \<le> length s"
proof (induction s rule: from_utf8.induct)
  case (2 b bs)
  show ?case
  proof (cases "utf8_step b bs")
    case (U8Ok n)
    with 2 [OF U8Ok] utf8_step_Ok [OF U8Ok] show ?thesis by (auto split: prod.splits)
  qed auto
qed simp

lemma from_utf8_lossy_valid: "valid_utf8 s \<Longrightarrow> from_utf8_lossy s = s"
proof (induction s rule: from_utf8_lossy.induct)
  case (2 b bs)
  then show ?case
    by (cases "utf8_step b bs") (auto simp: valid_utf8_def split: prod.splits)
qed simp

text \<open>Valid UTF-8: an ASCII byte is never inside a character.\<close>

lemma utf8_step_first: "utf8_step b bs = U8Ok n \<Longrightarrow> \<not> is_cont_byte b"
proof
  assume "utf8_step b bs = U8Ok n" "is_cont_byte b"
  then have "(of_char b :: nat) < 128 \<or> 194 \<le> (of_char b :: nat)"
    by (auto simp: utf8_step_def lead_info_def split: if_splits option.splits)
  moreover have "128 \<le> (of_char b :: nat) \<and> (of_char b :: nat) < 192"
    using \<open>is_cont_byte b\<close> by (cases b) (auto simp: is_cont_byte_def of_char_def split: if_splits)
  ultimately show False by auto
qed

lemma utf8_step_tail:
  assumes "utf8_step b bs = U8Ok n" "x \<in> set (take (n - 1) bs)"
  shows "128 \<le> (of_char x :: nat)"
  using assms
  by (auto simp: utf8_step_def lead_info_def byte_between_def numeral_eq_Suc
      split: if_splits option.splits list.splits prod.splits)

lemma utf8_step_ascii: "utf8_step b bs = U8Ok n \<Longrightarrow> of_char b < (128 :: nat) \<Longrightarrow> n = 1"
  by (simp add: utf8_step_def)

lemma valid_utf8_boundaries:
  "valid_utf8 s \<Longrightarrow> char_boundary s \<and> (s = a @ c # b \<longrightarrow> of_char c < (128 :: nat) \<longrightarrow> char_boundary b)"
proof (induction s arbitrary: a rule: from_utf8.induct)
  case 1
  then show ?case by (simp add: char_boundary_def)
next
  case (2 x xs)
  from "2.prems" obtain n where n: "utf8_step x xs = U8Ok n"
    by (auto simp: valid_utf8_def split: utf8_step.splits)
  with "2.prems" have v: "valid_utf8 (drop (n - 1) xs)"
    by (simp add: valid_utf8_def split: prod.splits)
  note IH = "2.IH" [OF n v]
  have "char_boundary (x # xs)" using utf8_step_first [OF n] by (simp add: char_boundary_def)
  moreover have "char_boundary b" if e: "x # xs = a @ c # b" and c: "of_char c < (128 :: nat)"
  proof (cases a)
    case Nil
    with e c utf8_step_ascii [OF n] IH show ?thesis by simp
  next
    case (Cons y as)
    with e have xs: "xs = as @ c # b" by simp
    have "\<not> length as < n - 1"
    proof
      assume "length as < n - 1"
      then have "c \<in> set (take (n - 1) xs)" by (auto simp: xs take_Cons')
      with utf8_step_tail [OF n] c show False by fastforce
    qed
    then have "drop (n - 1) xs = drop (n - 1) as @ c # b" by (simp add: xs)
    with IH c show ?thesis by blast
  qed
  ultimately show ?case by blast
qed

section \<open>Characters of a part of a string\<close>

lemma chars_parts: "chars s = gs @ hs \<Longrightarrow> chars (concat gs) = gs \<and> chars (concat hs) = hs"
proof (induction s arbitrary: gs)
  case (Cons b bs)
  show ?case
  proof (cases gs)
    case Nil
    with Cons.prems show ?thesis using concat_chars [of "b # bs"] by (simp del: chars.simps)
  next
    case gs: (Cons g gs')
    show ?thesis
    proof (cases "chars bs")
      case Nil
      with Cons.prems gs show ?thesis by auto
    next
      case c: (Cons k ks)
      show ?thesis
      proof (cases "is_cont_byte (hd k)")
        case True
        with Cons.prems gs c have "g = b # k" "chars bs = (k # gs') @ hs" by auto
        with Cons.IH [of "k # gs'"] True show ?thesis by (simp add: gs)
      next
        case False
        with Cons.prems gs c have "g = [b]" "chars bs = gs' @ hs" by auto
        moreover from c have "bs \<noteq> []" by auto
        ultimately show ?thesis using Cons.IH [of gs'] False c
          by (cases gs') (auto simp: gs)
      qed
    qed
  qed
qed simp

lemma chars_later_boundary: "chars s = gs @ hs \<Longrightarrow> gs \<noteq> [] \<Longrightarrow> char_boundary (concat hs)"
proof (induction s arbitrary: gs)
  case (Cons b bs)
  then obtain g gs' where gs: "gs = g # gs'" by (cases gs) auto
  show ?case
  proof (cases "chars bs")
    case Nil
    with Cons.prems gs show ?thesis by (auto simp: char_boundary_def)
  next
    case c: (Cons k ks)
    have k: "k \<noteq> []" using chars_ne [of k bs] c by auto
    show ?thesis
    proof (cases "is_cont_byte (hd k)")
      case True
      with Cons.prems gs c have "chars bs = (k # gs') @ hs" by auto
      then show ?thesis by (rule Cons.IH) simp
    next
      case False
      with Cons.prems gs c have "chars bs = gs' @ hs" by auto
      with Cons.IH [of gs'] c k False show ?thesis
        by (cases "gs' = []") (auto simp: char_boundary_def)
    qed
  qed
qed simp

section \<open>Decoding a concatenation\<close>

lemma from_utf8_append:
  "from_utf8 (a @ b) =
     (case from_utf8 a of
        (k, Utf8All) \<Rightarrow> (case from_utf8 b of (j, e) \<Rightarrow> (k + j, e))
      | (k, Utf8Invalid n) \<Rightarrow> (k, Utf8Invalid n)
      | (k, Utf8Incomplete) \<Rightarrow> (case from_utf8 (drop k a @ b) of (j, e) \<Rightarrow> (k + j, e)))"
proof (induction a rule: from_utf8.induct)
  case (2 x xs)
  show ?case
  proof (cases "utf8_step x xs")
    case (U8Ok n)
    note n = utf8_step_Ok [OF U8Ok]
    obtain k e where ke: "from_utf8 (drop (n - 1) xs) = (k, e)" by fastforce
    have A: "from_utf8 (x # xs) = (n + k, e)" using U8Ok ke by simp
    have B: "from_utf8 ((x # xs) @ b) = (case from_utf8 (drop (n - 1) xs @ b) of (j, e) \<Rightarrow> (n + j, e))"
      using utf8_step_Ok_append [OF U8Ok, of b] n(3) by simp
    have C: "drop (n + k) (x # xs) = drop k (drop (n - 1) xs)" using n(1) by (cases n) (auto simp: add.commute)
    note IH = 2 [OF U8Ok, unfolded ke prod.case]
    show ?thesis
    proof (cases e)
      case Utf8All
      obtain j e' where "from_utf8 b = (j, e')" by fastforce
      with IH Utf8All show ?thesis unfolding A B by simp
    next
      case (Utf8Invalid i)
      with IH show ?thesis unfolding A B by simp
    next
      case Utf8Incomplete
      obtain j e' where "from_utf8 (drop k (drop (n - 1) xs) @ b) = (j, e')" by fastforce
      with IH Utf8Incomplete show ?thesis unfolding A B prod.case C utf8_end.case by simp
    qed
  next
    case (U8Bad n)
    then show ?thesis by (simp add: utf8_step_Bad_append)
  next
    case U8Short
    then have "from_utf8 (x # xs) = (0, Utf8Incomplete)" by simp
    then show ?thesis by (simp del: from_utf8.simps)
  qed
next
  case 1
  show ?case by (cases "from_utf8 b") (simp del: from_utf8.simps(2))
qed

lemma from_utf8_split:
  "from_utf8 s = (k, e) \<Longrightarrow> from_utf8 (take k s) = (k, Utf8All) \<and> from_utf8 (drop k s) = (0, e)"
proof (induction s arbitrary: k rule: from_utf8.induct)
  case (2 x xs)
  show ?case
  proof (cases "utf8_step x xs")
    case (U8Ok n)
    note n = utf8_step_Ok [OF U8Ok]
    obtain j where j: "from_utf8 (drop (n - 1) xs) = (j, e)" "k = n + j" using "2.prems" U8Ok by (auto split: prod.splits)
    note IH = "2.IH" [OF U8Ok j(1)]
    obtain m where m: "n = Suc m" using n(1) by (cases n) auto
    have "take k (x # xs) = x # take m xs @ take j (drop m xs)" by (simp add: m j(2) take_add)
    moreover have "utf8_step x (take m xs @ take j (drop m xs)) = U8Ok n"
      using utf8_step_Ok_append [OF utf8_step_Ok_take [OF U8Ok]] by (simp add: m)
    moreover have "drop m (take m xs @ take j (drop m xs)) = take j (drop m xs)" using n(3) by (simp add: m)
    ultimately have "from_utf8 (take k (x # xs)) = (k, Utf8All)" using IH by (simp add: m j(2))
    moreover have "drop k (x # xs) = drop j (drop m xs)" by (simp add: m j(2) add.commute)
    ultimately show ?thesis using IH by (simp add: m)
  qed (use "2.prems" in auto)
qed simp

lemma valid_utf8_Nil [simp]: "valid_utf8 []"
  by (simp add: valid_utf8_def)

lemma valid_utf8_append: "valid_utf8 a \<Longrightarrow> valid_utf8 (a @ b) \<longleftrightarrow> valid_utf8 b"
  unfolding valid_utf8_def by (subst from_utf8_append) (auto split: prod.splits)

lemma valid_utf8_concat: "list_all valid_utf8 cs \<Longrightarrow> valid_utf8 (concat cs)"
  by (induction cs) (auto simp: valid_utf8_append)

lemma ascii_no_continuation:
  "of_char c < (128 :: nat) \<Longrightarrow> \<not> byte_between 128 191 c"
  "of_char c < (128 :: nat) \<Longrightarrow> lead_info b = Some (n, lo, hi) \<Longrightarrow> \<not> byte_between lo hi c"
  by (auto simp: byte_between_def lead_info_def split: if_splits)

lemma utf8_step_Short_ascii:
  "utf8_step x xs = U8Short \<Longrightarrow> of_char c < (128 :: nat) \<Longrightarrow> \<exists>n. utf8_step x (xs @ c # b) = U8Bad n"
  by (auto simp: utf8_step_def ascii_no_continuation split: if_splits option.splits list.splits prod.splits)

lemma valid_utf8_before_ascii:
  assumes "valid_utf8 (a @ c # b)" "of_char c < (128 :: nat)"
  shows "valid_utf8 a"
proof -
  obtain k e where ke: "from_utf8 a = (k, e)" by fastforce
  show ?thesis
  proof (cases e)
    case Utf8Incomplete
    then obtain x xs where d: "drop k a = x # xs" "utf8_step x xs = U8Short"
      using from_utf8_split [OF ke] utf8_step_Ok(1)
      by (cases "drop k a") (fastforce split: utf8_step.splits prod.splits)+
    then obtain n where "from_utf8 (drop k a @ c # b) = (0, Utf8Invalid n)"
      using utf8_step_Short_ascii [OF d(2) assms(2), of b] by auto
    with assms(1) ke Utf8Incomplete show ?thesis unfolding valid_utf8_def by (subst (asm) from_utf8_append) simp
  next
    case (Utf8Invalid n)
    with assms(1) ke show ?thesis unfolding valid_utf8_def by (subst (asm) from_utf8_append) simp
  qed (use ke in \<open>simp add: valid_utf8_def\<close>)
qed

end
