(* ===== verification/World.thy ===== *)
theory World
  imports Utf8
begin

text \<open>
  The outside world of the provisioning code: processes, HTTP, temporary files and environment
  variables. A run keeps the list of the events it caused; every answer of the world may depend on
  the whole history, so any (also stateful) environment is covered. An action is a function from
  the events so far to a result and the events afterwards.
\<close>

section \<open>Events and answers\<close>

datatype event =
    Spawn "string list" string
  | HttpGet string "string option"

type_synonym trace = "event list"

text \<open>A finished process has an exit code unless a signal ended it, and its output bytes.\<close>

datatype proc_outcome =
    SpawnFailed string
  | TimedOut
  | Exited "int option" string string

text \<open>A response has a status and a body read in chunks, possibly cut off by an error.\<close>

datatype http_outcome =
    SendFailed string
  | Response nat "string list" "string option"

text \<open>
  A write to the temporary file may fail after what was written so far; reading it back may fail
  after some number of bytes.
\<close>

record world =
  w_spawn :: "trace \<Rightarrow> proc_outcome"
  w_http :: "trace \<Rightarrow> http_outcome"
  w_env :: "string \<Rightarrow> string option"
  w_client_error :: "string option"
  w_temp_create_error :: "trace \<Rightarrow> string option"
  w_temp_write_error :: "trace \<Rightarrow> string \<Rightarrow> string option"
  w_temp_read_error :: "trace \<Rightarrow> (string \<times> nat) option"
  w_deadline_passed :: "trace \<Rightarrow> bool"
  w_sha256_hex :: "string \<Rightarrow> string"
  w_release_tag :: "string \<Rightarrow> string + string"
  w_host_version :: string

section \<open>Actions\<close>

type_synonym ('e, 'a) action = "trace \<Rightarrow> ('e + 'a) \<times> trace"

definition return_result :: "'e + 'a \<Rightarrow> ('e, 'a) action" where
  "return_result r = (\<lambda>tr. (r, tr))"

definition act_bind :: "('e, 'a) action \<Rightarrow> ('a \<Rightarrow> ('e, 'b) action) \<Rightarrow> ('e, 'b) action" where
  "act_bind m f = (\<lambda>tr. case m tr of (Inl e, tr') \<Rightarrow> (Inl e, tr') | (Inr x, tr') \<Rightarrow> f x tr')"

definition act_map_err :: "('e \<Rightarrow> 'f) \<Rightarrow> ('e, 'a) action \<Rightarrow> ('f, 'a) action" where
  "act_map_err g m = (\<lambda>tr. case m tr of (r, tr') \<Rightarrow> (map_err g r, tr'))"

definition spawn :: "world \<Rightarrow> string list \<Rightarrow> string \<Rightarrow> ('e, proc_outcome) action" where
  "spawn W argv stdin = (\<lambda>tr. let tr' = tr @ [Spawn argv stdin] in (Inr (w_spawn W tr'), tr'))"

definition http_get :: "world \<Rightarrow> string \<Rightarrow> string option \<Rightarrow> ('e, http_outcome) action" where
  "http_get W url token = (\<lambda>tr. let tr' = tr @ [HttpGet url token] in (Inr (w_http W tr'), tr'))"

definition check_error :: "('e \<Rightarrow> 'f) \<Rightarrow> (trace \<Rightarrow> 'e option) \<Rightarrow> ('f, unit) action" where
  "check_error g err =
     (\<lambda>tr. case err tr of Some e \<Rightarrow> (Inl (g e), tr) | None \<Rightarrow> (Inr (), tr))"

section \<open>Running a sequence\<close>

lemma act_bind_return:
  "act_bind (return_result r) f tr = (case r of Inl e \<Rightarrow> (Inl e, tr) | Inr x \<Rightarrow> f x tr)"
  by (simp add: act_bind_def return_result_def split: sum.split)

lemma act_bind_http:
  "act_bind (http_get W url token) f tr =
     f (w_http W (tr @ [HttpGet url token])) (tr @ [HttpGet url token])"
  by (simp add: act_bind_def http_get_def Let_def)

lemma act_bind_spawn:
  "act_bind (spawn W argv stdin) f tr =
     f (w_spawn W (tr @ [Spawn argv stdin])) (tr @ [Spawn argv stdin])"
  by (simp add: act_bind_def spawn_def Let_def)

lemma act_bind_check:
  "act_bind (check_error g err) f tr = (case err tr of Some e \<Rightarrow> (Inl (g e), tr) | None \<Rightarrow> f () tr)"
  by (simp add: act_bind_def check_error_def split: option.split)

lemma return_result_run: "return_result r tr = (r, tr)"
  by (simp add: return_result_def)

lemmas act_simps = return_result_run act_bind_return act_bind_http act_bind_spawn act_bind_check

lemma act_bind_eq:
  "act_bind m f tr = (r, tr') \<longleftrightarrow>
     (\<exists>e. m tr = (Inl e, tr') \<and> r = Inl e) \<or> (\<exists>x tr1. m tr = (Inr x, tr1) \<and> f x tr1 = (r, tr'))"
  by (auto simp: act_bind_def split: prod.split sum.split)

text \<open>An action is quiet when the processes it starts get no input.\<close>

definition silent :: "event \<Rightarrow> bool" where
  "silent ev \<longleftrightarrow> (case ev of Spawn _ stdin \<Rightarrow> stdin = [] | HttpGet _ _ \<Rightarrow> True)"

lemma silent_simps [simp]: "silent (Spawn argv stdin) \<longleftrightarrow> stdin = []" "silent (HttpGet url token)"
  by (simp_all add: silent_def)

definition quiet :: "('e, 'a) action \<Rightarrow> bool" where
  "quiet m \<longleftrightarrow> (\<forall>tr r tr'. m tr = (r, tr') \<longrightarrow> (\<exists>evs. tr' = tr @ evs \<and> list_all silent evs))"

lemma quietD: "quiet m \<Longrightarrow> m tr = (r, tr') \<Longrightarrow> \<exists>evs. tr' = tr @ evs \<and> list_all silent evs"
  unfolding quiet_def by blast

lemma quiet_bind [intro]:
  assumes "quiet m" "\<And>x. quiet (f x)"
  shows "quiet (act_bind m f)"
  unfolding quiet_def act_bind_eq
proof (intro allI impI, elim disjE exE conjE)
  fix tr r tr' e assume "m tr = (Inl e, tr')"
  with assms(1) show "\<exists>evs. tr' = tr @ evs \<and> list_all silent evs" by (rule quietD)
next
  fix tr r tr' x tr1 assume run: "m tr = (Inr x, tr1)" "f x tr1 = (r, tr')"
  obtain evs where "tr1 = tr @ evs" "list_all silent evs" using quietD [OF assms(1) run(1)] by blast
  moreover obtain more where "tr' = tr1 @ more" "list_all silent more" using quietD [OF assms(2) run(2)] by blast
  ultimately show "\<exists>evs. tr' = tr @ evs \<and> list_all silent evs" by (intro exI [of _ "evs @ more"]) simp
qed

lemma quiet_basic [intro]:
  "quiet (return_result r)" "quiet (http_get W url token)" "quiet (spawn W argv [])" "quiet (check_error g err)"
  by (auto simp: quiet_def return_result_def http_get_def spawn_def check_error_def Let_def split: option.splits)

text \<open>The one event that is not silent splits a trace in a unique way.\<close>

lemma split_at_loud:
  assumes "pre @ ev # post = before @ loud # after" "\<not> silent ev" "list_all silent before" "list_all silent after"
  shows "pre = before \<and> ev = loud \<and> post = after"
  using assms
proof (induction before arbitrary: pre)
  case Nil
  then show ?case by (cases pre) (auto simp: list_all_iff)
next
  case (Cons b before)
  then show ?case by (cases pre) auto
qed

end
