(* ===== verification/Provision.thy ===== *)
theory Provision
  imports Launcher World
begin

text \<open>
  Provisioning of a remote codex binary, \<open>exec-server/src/provision/\<close>: managed paths
  (\<open>paths.rs\<close>), target triples (\<open>triple.rs\<close>), version policies (\<open>version.rs\<close>), the probe
  (\<open>probe.rs\<close>) and download, verification and installation (\<open>install.rs\<close>). Processes, HTTP, SHA-256
  and the JSON reader of a GitHub release are answers of the world.
\<close>

section \<open>Errors and paths\<close>

datatype provision_error =
    UnsupportedPlatform string string
  | ProbeOutputParse string
  | LauncherIo string
  | LauncherNonZero int string
  | Http string
  | HttpClientBuild string
  | GitHubRateLimit nat
  | AssetNotFound string string
  | DigestMismatch string string string
  | AssetNotInSums string
  | LatestVersionResolve string
  | InvalidVersion string
  | VersionCheckFailed string string
  | InstallRequiredVersionFailed string provision_error
  | Timeout nat string
  | TempFileIo string

definition MANAGED_CODEX_ROOT_RELATIVE :: string where
  "MANAGED_CODEX_ROOT_RELATIVE = ''.codex-server/env-switch''"

definition MANAGED_CODEX_SYMLINK_RELATIVE :: string where
  "MANAGED_CODEX_SYMLINK_RELATIVE = ''.codex-server/env-switch/current/codex''"

definition managed_codex_path :: "string \<Rightarrow> string" where
  "managed_codex_path remote_home = remote_home @ ''/'' @ MANAGED_CODEX_SYMLINK_RELATIVE"

definition managed_current_dir :: "string \<Rightarrow> string" where
  "managed_current_dir remote_home = remote_home @ ''/'' @ MANAGED_CODEX_ROOT_RELATIVE @ ''/current''"

definition managed_release_dir :: "string \<Rightarrow> string \<Rightarrow> string" where
  "managed_release_dir remote_home version =
     remote_home @ ''/'' @ MANAGED_CODEX_ROOT_RELATIVE @ ''/releases/'' @ version"

text \<open>
  The literals compared with contain no letter that another code point lower-cases to, so ASCII
  lower-casing decides the same matches as \<open>to_lowercase\<close>.
\<close>

definition resolve_triple :: "string \<Rightarrow> string \<Rightarrow> provision_error + string" where
  "resolve_triple os arch =
     (let os_lower = to_ascii_lowercase os; arch_lower = to_ascii_lowercase arch in
      try_bind
        (if arch_lower = ''x86_64'' \<or> arch_lower = ''amd64'' then Inr ''x86_64''
         else if arch_lower = ''aarch64'' \<or> arch_lower = ''arm64'' then Inr ''aarch64''
         else Inl (UnsupportedPlatform os arch)) (\<lambda>canonical_arch.
      if os_lower = ''linux'' then Inr (canonical_arch @ ''-unknown-linux-musl'')
      else if os_lower = ''darwin'' then Inr (canonical_arch @ ''-apple-darwin'')
      else Inl (UnsupportedPlatform os arch)))"

section \<open>Version policies\<close>

datatype version_policy = Exact string | HostVersion | Latest

definition is_dev_version :: "string \<Rightarrow> bool" where
  "is_dev_version v \<longleftrightarrow> v = ''0.0.0'' \<or> str_contains ''-dev'' v"

definition normalize_version :: "string \<Rightarrow> string" where
  "normalize_version v = unwrap_or (trim v) (strip_prefix ''v'' (trim v))"

definition canonicalize_exact_version :: "string \<Rightarrow> provision_error + string" where
  "canonicalize_exact_version version =
     (let trimmed = trim version;
          version = unwrap_or trimmed
            (or_else (strip_prefix ''rust-v'' trimmed) (strip_prefix ''v'' trimmed)) in
      if version = [] then Inl (InvalidVersion ''version must not be empty'')
      else if list_ex (\<lambda>ch. is_control ch \<or> is_whitespace ch \<or> ch = ''/'' \<or> ch = [bslash]) (chars version)
        then Inl (InvalidVersion (''version `'' @ trimmed @ ''` contains an invalid character''))
      else Inr version)"

definition is_satisfied_by_existing :: "world \<Rightarrow> version_policy \<Rightarrow> string \<Rightarrow> bool" where
  "is_satisfied_by_existing W policy existing =
     (case policy of
        Exact v \<Rightarrow> (case canonicalize_exact_version v of Inl _ \<Rightarrow> False
                   | Inr version \<Rightarrow> normalize_version existing = version)
      | HostVersion \<Rightarrow> \<not> is_dev_version (w_host_version W) \<and>
                      normalize_version existing = normalize_version (w_host_version W)
      | Latest \<Rightarrow> False)"

definition github_token :: "world \<Rightarrow> string option" where
  "github_token W =
     option_filter (\<lambda>token. trim token \<noteq> [])
       (find_map (w_env W) [''GITHUB_TOKEN'', ''GH_TOKEN'', ''CODEX_GITHUB_TOKEN''])"

definition parse_latest_tag_name :: "world \<Rightarrow> string \<Rightarrow> provision_error + string" where
  "parse_latest_tag_name W json =
     (case w_release_tag W json of
        Inl e \<Rightarrow> Inl (LatestVersionResolve (''failed to parse GitHub releases JSON: '' @ e))
      | Inr tag_name \<Rightarrow>
          ok_or (LatestVersionResolve (''tag_name '' @ tag_name @ '' does not have expected rust-v prefix''))
            (option_filter (\<lambda>v. v \<noteq> []) (strip_prefix ''rust-v'' tag_name)))"

text \<open>\<open>error_for_status\<close>, and reading a whole body.\<close>

definition error_for_status :: "http_outcome \<Rightarrow> provision_error + unit" where
  "error_for_status r =
     (case r of SendFailed e \<Rightarrow> Inl (Http e)
      | Response status _ _ \<Rightarrow> if 400 \<le> status \<and> status < 600 then Inl (Http ''status'') else Inr ())"

definition read_body :: "http_outcome \<Rightarrow> provision_error + string" where
  "read_body r =
     try_bind (error_for_status r) (\<lambda>_.
       case r of SendFailed e \<Rightarrow> Inl (Http e)
       | Response _ chunks err \<Rightarrow> (case err of Some e \<Rightarrow> Inl (Http e) | None \<Rightarrow> Inr (concat chunks)))"

definition latest_rate_limit :: "http_outcome \<Rightarrow> provision_error + unit" where
  "latest_rate_limit r =
     (case r of SendFailed e \<Rightarrow> Inl (Http e)
      | Response status _ _ \<Rightarrow>
          if status = 403 \<or> status = 429 then Inl (GitHubRateLimit status) else Inr ())"

definition build_client :: "world \<Rightarrow> (provision_error, unit) action" where
  "build_client W = check_error HttpClientBuild (\<lambda>_. w_client_error W)"

definition resolve_latest_version :: "world \<Rightarrow> (provision_error, string) action" where
  "resolve_latest_version W =
     act_bind (build_client W) (\<lambda>_.
     act_bind (http_get W ''https://api.github.com/repos/openai/codex/releases/latest''
       (github_token W)) (\<lambda>response.
     act_bind (return_result (latest_rate_limit response)) (\<lambda>_.
     act_bind (return_result (read_body response)) (\<lambda>body.
     return_result (parse_latest_tag_name W (from_utf8_lossy body))))))"

definition resolve_version :: "world \<Rightarrow> version_policy \<Rightarrow> (provision_error, string) action" where
  "resolve_version W policy =
     (case policy of
        Exact v \<Rightarrow> return_result (canonicalize_exact_version v)
      | HostVersion \<Rightarrow>
          if is_dev_version (w_host_version W) then resolve_latest_version W
          else return_result (Inr (w_host_version W))
      | Latest \<Rightarrow> resolve_latest_version W)"

section \<open>The probe\<close>

record remote_probe =
  rp_os :: string
  rp_arch :: string
  rp_home :: string
  rp_existing :: "(string \<times> string) option"
  rp_shell :: "string option"

definition PROBE_SCRIPT :: string where
  \<open>PROBE_SCRIPT = concat (map (\<lambda>l. l @ [nl])
     ['''',
      ''set -e'',
      ''uname -s'',
      ''uname -m'',
      ''echo "$HOME"'',
      ''_codex_path="$HOME/__MANAGED_CODEX_SYMLINK_RELATIVE__"'',
      ''if [ ! -x "$_codex_path" ]; then'',
      ''  _codex_path=""'',
      ''fi'',
      ''if [ -n "$_codex_path" ]; then'',
      ''  echo "CODEX_PATH:$_codex_path"'',
      ''  _ver="$("$_codex_path" --version 2>/dev/null | sed -n 's/.* '' @ [bslash] @
        ''([0-9][0-9A-Za-z.+-]*'' @ [bslash] @ '')$/'' @ [bslash] @ ''1/p' | head -n 1)"'',
      ''  if [ -n "$_ver" ]; then'',
      ''    echo "CODEX_VERSION:$_ver"'',
      ''  fi'',
      ''fi'',
      ''_sh="$( { [ -n "$SHELL" ] && command -v "$SHELL"; } 2>/dev/null || command -v bash '' @
        ''2>/dev/null || command -v sh 2>/dev/null )"'',
      ''[ -n "$_sh" ] && echo "CODEX_SHELL:$_sh"''])\<close>

definition probe_script :: string where
  "probe_script =
     str_replace ''__MANAGED_CODEX_SYMLINK_RELATIVE__'' MANAGED_CODEX_SYMLINK_RELATIVE PROBE_SCRIPT"

text \<open>The field loop of \<open>parse_probe_output\<close>: later lines override earlier ones.\<close>

fun probe_fields ::
  "string option \<times> string option \<times> string option \<Rightarrow> string list
     \<Rightarrow> string option \<times> string option \<times> string option" where
  "probe_fields (path, version, shell) [] = (path, version, shell)"
| "probe_fields (path, version, shell) (line # ls) =
     (case strip_prefix ''CODEX_PATH:'' line of
        Some p \<Rightarrow> probe_fields (Some (trim p), version, shell) ls
      | None \<Rightarrow>
        (case strip_prefix ''CODEX_VERSION:'' line of
           Some v \<Rightarrow> probe_fields (path, Some (trim v), shell) ls
         | None \<Rightarrow>
           (case strip_prefix ''CODEX_SHELL:'' line of
              Some sh \<Rightarrow> probe_fields (path, version, Some (trim sh)) ls
            | None \<Rightarrow> probe_fields (path, version, shell) ls)))"

definition parse_probe_output :: "string \<Rightarrow> provision_error + remote_probe" where
  "parse_probe_output output =
     (case filter (\<lambda>l. trim l \<noteq> []) (str_lines output) of
        [] \<Rightarrow> Inl (ProbeOutputParse ''missing uname -s line'')
      | [_] \<Rightarrow> Inl (ProbeOutputParse ''missing uname -m line'')
      | [_, _] \<Rightarrow> Inl (ProbeOutputParse ''missing $HOME line'')
      | os # arch # home # ls \<Rightarrow>
          let home = trim home; (path, version, shell) = probe_fields (None, None, None) ls in
          Inr \<lparr> rp_os = trim os, rp_arch = trim arch, rp_home = home,
                rp_existing = (case (path, version) of
                    (Some p, Some v) \<Rightarrow> if p = managed_codex_path home then Some (p, v) else None
                  | _ \<Rightarrow> None),
                rp_shell = shell \<rparr>)"

text \<open>
  Running a launcher command: \<open>secs\<close> and \<open>context\<close> name the timeout. \<open>output.status.code()\<close> is
  absent when a signal ended the process.
\<close>

definition launcher_output :: "nat \<Rightarrow> string \<Rightarrow> proc_outcome \<Rightarrow> provision_error + string" where
  "launcher_output secs ctxt out =
     (case out of
        TimedOut \<Rightarrow> Inl (Timeout secs ctxt)
      | SpawnFailed e \<Rightarrow> Inl (LauncherIo e)
      | Exited code stdout stderr \<Rightarrow>
          if code = Some 0 then Inr stdout
          else Inl (LauncherNonZero (unwrap_or (- 1) code) (from_utf8_lossy stderr)))"

definition run_launcher ::
  "world \<Rightarrow> string list \<Rightarrow> string \<Rightarrow> (provision_error, proc_outcome) action" where
  "run_launcher W argv stdin =
     (if argv = [] then return_result (Inl (ProbeOutputParse ''empty launcher argv''))
      else spawn W argv stdin)"

definition probe :: "world \<Rightarrow> remote_launcher \<Rightarrow> (provision_error, remote_probe) action" where
  "probe W l =
     act_bind (run_launcher W (shell_argv l probe_script) []) (\<lambda>out.
     act_bind (return_result (launcher_output 20 ''remote probe'' out)) (\<lambda>stdout.
     return_result (parse_probe_output (from_utf8_lossy stdout))))"

section \<open>Download, verification, installation\<close>

record provisioned_codex =
  pc_codex_path :: string
  pc_version :: string
  pc_warning :: "string option"
  pc_shell :: "string option"

definition RELEASES_BASE :: string where
  "RELEASES_BASE = ''https://github.com/openai/codex/releases/download''"

definition check_github_response_status ::
  "http_outcome \<Rightarrow> string \<Rightarrow> string \<Rightarrow> provision_error + unit" where
  "check_github_response_status r triple version =
     (case r of SendFailed e \<Rightarrow> Inl (Http e)
      | Response status _ _ \<Rightarrow>
          if status = 404 then Inl (AssetNotFound triple version)
          else if status = 403 \<or> status = 429 then Inl (GitHubRateLimit status)
          else Inr ())"

fun sums_lines :: "string \<Rightarrow> string list \<Rightarrow> string option" where
  "sums_lines asset_name [] = None"
| "sums_lines asset_name (line # ls) =
     (let line = trim line in
      if line = [] then sums_lines asset_name ls
      else (case split_once_whitespace line of None \<Rightarrow> sums_lines asset_name ls
        | Some (hex, name) \<Rightarrow>
            if length hex = 64 \<and> list_all is_ascii_hexdigit hex \<and> trim name = asset_name
            then Some (to_ascii_lowercase hex)
            else sums_lines asset_name ls))"

definition parse_sha256sums :: "string \<Rightarrow> string \<Rightarrow> provision_error + string" where
  "parse_sha256sums sums asset_name =
     (if \<not> valid_utf8 sums then Inl (ProbeOutputParse ''SHA256SUMS is not UTF-8'')
      else ok_or (AssetNotInSums asset_name) (sums_lines asset_name (str_lines sums)))"

definition install_script :: "string \<Rightarrow> string \<Rightarrow> string" where
  "install_script remote_home version =
     (let release_dir = managed_release_dir remote_home version;
          release_dir_q = posix_single_quote release_dir;
          codex_bin_q = posix_single_quote (release_dir @ ''/bin/codex'');
          current_dir_q = posix_single_quote (managed_current_dir remote_home);
          symlink_q = posix_single_quote (managed_codex_path remote_home) in
      ''mkdir -p '' @ release_dir_q @ '' && '' @
      ''tar -xzf - -C '' @ release_dir_q @ '' && '' @
      ''chmod 0755 '' @ codex_bin_q @ '' && '' @
      ''mkdir -p '' @ current_dir_q @ '' && '' @
      ''ln -sf '' @ codex_bin_q @ '' '' @ symlink_q)"

definition asset_name_for :: "string \<Rightarrow> string" where
  "asset_name_for triple = ''codex-package-'' @ triple @ ''.tar.gz''"

definition release_url :: "string \<Rightarrow> string \<Rightarrow> string" where
  "release_url version file = RELEASES_BASE @ ''/rust-v'' @ version @ ''/'' @ file"

definition verify_digest :: "world \<Rightarrow> string \<Rightarrow> string \<Rightarrow> string \<Rightarrow> provision_error + unit" where
  "verify_digest W asset_name expected_hex archive =
     (let actual_hex = w_sha256_hex W archive in
      if actual_hex \<noteq> expected_hex then Inl (DigestMismatch asset_name expected_hex actual_hex)
      else Inr ())"

text \<open>
  The download loop: each chunk goes to the hasher and to the temporary file; \<open>acc\<close> is what both
  hold so far.
\<close>

fun download_chunks ::
  "(string \<Rightarrow> string option) \<Rightarrow> string \<Rightarrow> string list \<Rightarrow> string option \<Rightarrow> provision_error + string" where
  "download_chunks write_error acc [] None = Inr acc"
| "download_chunks write_error acc [] (Some e) = Inl (Http e)"
| "download_chunks write_error acc (chunk # chunks) err =
     (case write_error acc of Some e \<Rightarrow> Inl (TempFileIo e)
      | None \<Rightarrow> download_chunks write_error (acc @ chunk) chunks err)"

definition download_archive :: "world \<Rightarrow> http_outcome \<Rightarrow> (provision_error, string) action" where
  "download_archive W r =
     (\<lambda>tr. (try_bind (error_for_status r) (\<lambda>_.
        case r of SendFailed e \<Rightarrow> Inl (Http e)
        | Response _ chunks err \<Rightarrow> download_chunks (w_temp_write_error W tr) [] chunks err), tr))"

text \<open>
  Streaming the temporary file into the install command. When reading it back fails the child has
  received the bytes read so far.
\<close>

definition stream_archive ::
  "world \<Rightarrow> string list \<Rightarrow> string \<Rightarrow> (provision_error, unit) action" where
  "stream_archive W argv archive =
     (\<lambda>tr. case w_temp_read_error W tr of
        Some (e, n) \<Rightarrow>
          act_bind (run_launcher W argv (take n archive)) (\<lambda>out.
            return_result (case out of SpawnFailed e' \<Rightarrow> Inl (LauncherIo e')
                           | _ \<Rightarrow> Inl (TempFileIo e))) tr
      | None \<Rightarrow>
          act_bind (run_launcher W argv archive) (\<lambda>out.
          act_bind (return_result
            (launcher_output 300 ''install (download + remote extraction)'' out)) (\<lambda>_.
          return_result (Inr ()))) tr)"

definition install_remote_codex_inner ::
  "world \<Rightarrow> remote_launcher \<Rightarrow> string \<Rightarrow> string \<Rightarrow> string \<Rightarrow> (provision_error, unit) action" where
  "install_remote_codex_inner W l triple version remote_home =
     (let asset_name = asset_name_for triple in
      act_bind (build_client W) (\<lambda>_.
      act_bind (http_get W (release_url version ''codex-package_SHA256SUMS'') (github_token W)) (\<lambda>sums_response.
      act_bind (return_result (check_github_response_status sums_response triple version)) (\<lambda>_.
      act_bind (return_result (read_body sums_response)) (\<lambda>sums.
      act_bind (return_result (parse_sha256sums sums asset_name)) (\<lambda>expected_hex.
      act_bind (check_error TempFileIo (w_temp_create_error W)) (\<lambda>_.
      act_bind (http_get W (release_url version asset_name) (github_token W)) (\<lambda>archive_response.
      act_bind (return_result (check_github_response_status archive_response triple version)) (\<lambda>_.
      act_bind (download_archive W archive_response) (\<lambda>archive.
      act_bind (return_result (verify_digest W asset_name expected_hex archive)) (\<lambda>_.
      stream_archive W (shell_argv l (install_script remote_home version)) archive)))))))))))"

definition install_remote_codex ::
  "world \<Rightarrow> remote_launcher \<Rightarrow> string \<Rightarrow> string \<Rightarrow> string \<Rightarrow> (provision_error, unit) action" where
  "install_remote_codex W l triple version remote_home =
     (\<lambda>tr. case install_remote_codex_inner W l triple version remote_home tr of
        (r, tr') \<Rightarrow> if w_deadline_passed W tr'
                   then (Inl (Timeout 300 ''install (download + remote extraction)''), tr')
                   else (r, tr'))"

fun parse_version_lines :: "string list \<Rightarrow> string option" where
  "parse_version_lines [] = None"
| "parse_version_lines (line # ls) =
     (case option_filter (\<lambda>s. s \<noteq> [] \<and> is_ascii_digit (hd s)) (last_opt (split_whitespace line)) of
        Some ver \<Rightarrow> Some ver
      | None \<Rightarrow> parse_version_lines ls)"

definition parse_version_output :: "string \<Rightarrow> provision_error + string" where
  "parse_version_output output =
     ok_or (ProbeOutputParse (''could not parse version from: '' @ output))
       (parse_version_lines (str_lines output))"

definition verify_remote_version ::
  "world \<Rightarrow> remote_launcher \<Rightarrow> string \<Rightarrow> (provision_error, string) action" where
  "verify_remote_version W l codex_path =
     act_bind (run_launcher W (shell_argv l (posix_single_quote codex_path @ '' --version'')) []) (\<lambda>out.
     act_bind (return_result (launcher_output 20 (''verify '' @ codex_path @ '' --version'') out)) (\<lambda>stdout.
     return_result (parse_version_output (from_utf8_lossy stdout))))"

definition ensure_remote_codex ::
  "world \<Rightarrow> remote_launcher \<Rightarrow> version_policy \<Rightarrow> (provision_error, provisioned_codex) action" where
  "ensure_remote_codex W l desired =
     act_bind (probe W l) (\<lambda>p.
     act_bind (return_result (resolve_triple (rp_os p) (rp_arch p))) (\<lambda>triple.
     case option_filter (\<lambda>(_, v). is_satisfied_by_existing W desired v) (rp_existing p) of
       Some (path, v) \<Rightarrow>
         return_result (Inr \<lparr> pc_codex_path = path, pc_version = v, pc_warning = None,
                              pc_shell = rp_shell p \<rparr>)
     | None \<Rightarrow>
         act_bind (resolve_version W desired) (\<lambda>version.
         case option_filter (\<lambda>(_, v). normalize_version v = normalize_version version) (rp_existing p) of
           Some (path, v) \<Rightarrow>
             return_result (Inr \<lparr> pc_codex_path = path, pc_version = v, pc_warning = None,
                                  pc_shell = rp_shell p \<rparr>)
         | None \<Rightarrow>
             let codex_path = managed_codex_path (rp_home p) in
             act_bind (act_map_err (InstallRequiredVersionFailed version)
               (install_remote_codex W l triple version (rp_home p))) (\<lambda>_.
             act_bind (verify_remote_version W l codex_path) (\<lambda>installed_version.
             if installed_version \<noteq> version
             then return_result (Inl (VersionCheckFailed version installed_version))
             else return_result (Inr \<lparr> pc_codex_path = codex_path, pc_version = version,
                    pc_warning = None, pc_shell = rp_shell p \<rparr>))))))"

end
