(* ===== verification/Provision_Props.thy ===== *)
theory Provision_Props
  imports Provision
begin

text \<open>
  Correctness of provisioning: what is returned is the managed binary in a version the policy asks
  for, no unverified byte reaches the remote, an offline match needs no network, and no path can
  break out of the install script.
\<close>

section \<open>What an installation does\<close>

text \<open>A line of a \<open>SHA256SUMS\<close> file that lists a digest for a file: 64 digits, a space, the name.\<close>

definition digest_line :: "string \<Rightarrow> string \<Rightarrow> string \<Rightarrow> bool" where
  "digest_line file digest line \<longleftrightarrow>
     (case split_once_whitespace (trim line) of
        None \<Rightarrow> False
      | Some (hex, name) \<Rightarrow> trim name = file \<and> length hex = 64 \<and> to_ascii_lowercase hex = digest)"

definition lists_digest :: "string \<Rightarrow> string \<Rightarrow> string \<Rightarrow> bool" where
  "lists_digest sums file digest \<longleftrightarrow> list_ex (digest_line file digest) (str_lines sums)"

lemma sums_lines_lists: "sums_lines file ls = Some digest \<Longrightarrow> list_ex (digest_line file digest) ls"
proof (induction ls)
  case (Cons line ls)
  have "sums_lines file (line # ls) = sums_lines file ls \<or>
      (\<exists>d. sums_lines file (line # ls) = Some d \<and> digest_line file d line)"
    by (auto simp: digest_line_def Let_def split: option.splits)
  with Cons show ?case by auto
qed simp

lemma parse_sha256sums_lists: "parse_sha256sums sums file = Inr digest \<Longrightarrow> lists_digest sums file digest"
  by (auto simp: parse_sha256sums_def lists_digest_def ok_or_Inr sums_lines_lists split: if_splits)

lemma read_body_Inr:
  "read_body r = Inr body \<Longrightarrow> \<exists>status chunks. r = Response status chunks None \<and> body = concat chunks"
  by (auto simp: read_body_def error_for_status_def result_simps split: http_outcome.splits option.splits if_splits)

lemma download_chunks_Inr: "download_chunks we acc chunks err = Inr got \<Longrightarrow> err = None \<and> got = acc @ concat chunks"
  by (induction we acc chunks err rule: download_chunks.induct) (auto split: option.splits)

lemma download_archive_Inr:
  "download_archive W r tr = (Inr archive, tr') \<Longrightarrow>
   tr' = tr \<and> (\<exists>status chunks. r = Response status chunks None \<and> archive = concat chunks)"
  by (auto simp: download_archive_def result_simps dest!: download_chunks_Inr split: http_outcome.splits)

lemma download_archive_trace: "download_archive W r tr = (x, tr') \<Longrightarrow> tr' = tr"
  by (simp add: download_archive_def)

lemma stream_archive_trace:
  assumes "stream_archive W argv archive tr = (r, tr')"
  shows "tr' = tr \<or> (\<exists>n. tr' = tr @ [Spawn argv (take n archive)])"
proof (cases "w_temp_read_error W tr")
  case None
  with assms have "tr' = tr \<or> tr' = tr @ [Spawn argv (take (length archive) archive)]"
    by (auto simp: stream_archive_def run_launcher_def act_simps split: if_splits sum.splits)
  then show ?thesis by blast
next
  case (Some failed)
  then obtain e n where "w_temp_read_error W tr = Some (e, n)" by (cases failed) auto
  with assms have "tr' = tr \<or> tr' = tr @ [Spawn argv (take n archive)]"
    by (auto simp: stream_archive_def run_launcher_def act_simps split: if_splits)
  then show ?thesis by blast
qed

definition sums_url :: "string \<Rightarrow> string" where
  "sums_url version =
     ''https://github.com/openai/codex/releases/download/rust-v'' @ version @ ''/codex-package_SHA256SUMS''"

definition package_name :: "string \<Rightarrow> string" where
  "package_name triple = ''codex-package-'' @ triple @ ''.tar.gz''"

definition package_url :: "string \<Rightarrow> string \<Rightarrow> string" where
  "package_url version triple =
     ''https://github.com/openai/codex/releases/download/rust-v'' @ version @ ''/'' @ package_name triple"

lemma release_urls:
  "release_url version ''codex-package_SHA256SUMS'' = sums_url version"
  "release_url version (package_name triple) = package_url version triple" "asset_name_for triple = package_name triple"
  by (simp_all add: release_url_def sums_url_def package_url_def package_name_def asset_name_for_def RELEASES_BASE_def)

text \<open>
  What stands behind an archive: on the history \<open>tr\<close> the two files of the release were fetched, and
  the first lists, for the second, the digest of its content.
\<close>

definition fetched_package :: "world \<Rightarrow> trace \<Rightarrow> string \<Rightarrow> string \<Rightarrow> trace \<Rightarrow> string \<Rightarrow> bool" where
  "fetched_package W tr version triple tr' archive \<longleftrightarrow>
     (\<exists>token s1 sums s2 chunks.
        tr' = tr @ [HttpGet (sums_url version) token, HttpGet (package_url version triple) token] \<and>
        w_http W (tr @ [HttpGet (sums_url version) token]) = Response s1 sums None \<and>
        w_http W tr' = Response s2 chunks None \<and> archive = concat chunks \<and>
        lists_digest (concat sums) (package_name triple) (w_sha256_hex W archive))"

lemma install_inner_trace:
  assumes "install_remote_codex_inner W l triple version home tr = (r, tr')"
  shows "(\<exists>evs. tr' = tr @ evs \<and> list_all silent evs) \<or>
    (\<exists>tr1 archive n. fetched_package W tr version triple tr1 archive \<and>
       tr' = tr1 @ [Spawn (shell_argv l (install_script home version)) (take n archive)])"
proof -
  let ?g1 = "HttpGet (sums_url version) (github_token W)"
  let ?g2 = "HttpGet (package_url version triple) (github_token W)"
  let ?r1 = "w_http W (tr @ [?g1])" and ?tr2 = "tr @ [?g1, ?g2]"
  note run = assms [unfolded install_remote_codex_inner_def Let_def build_client_def release_urls act_simps append_assoc append.simps]
  consider "tr' = tr" | "tr' = tr @ [?g1]" | "tr' = ?tr2"
    | sums hex archive where "read_body ?r1 = Inr sums" "parse_sha256sums sums (package_name triple) = Inr hex"
      "download_archive W (w_http W ?tr2) ?tr2 = (Inr archive, ?tr2)"
      "verify_digest W (package_name triple) hex archive = Inr ()"
      "stream_archive W (shell_argv l (install_script home version)) archive ?tr2 = (r, tr')"
    using run by (auto simp: act_bind_eq split: sum.splits option.splits
        dest: download_archive_trace)
  then show ?thesis
  proof cases
    case 4
    obtain s1 c1 where body: "?r1 = Response s1 c1 None" "sums = concat c1" using read_body_Inr [OF 4(1)] by blast
    obtain s2 c2 where got: "w_http W ?tr2 = Response s2 c2 None" "archive = concat c2"
      using download_archive_Inr [OF 4(3)] by blast
    have "lists_digest sums (package_name triple) (w_sha256_hex W archive)"
      using parse_sha256sums_lists [OF 4(2)] 4(4) by (simp add: verify_digest_def Let_def split: if_splits)
    with body got have "fetched_package W tr version triple ?tr2 archive" by (auto simp: fetched_package_def)
    moreover have "\<exists>evs. ?tr2 = tr @ evs \<and> list_all silent evs" by (auto intro: exI [of _ "[?g1, ?g2]"])
    ultimately show ?thesis using stream_archive_trace [OF 4(5)] by metis
  qed (auto intro: exI [of _ "[]"] exI [of _ "[?g1]"] exI [of _ "[?g1, ?g2]"])
qed

lemma install_trace:
  assumes "install_remote_codex W l triple version home tr = (r, tr')"
  shows "(\<exists>evs. tr' = tr @ evs \<and> list_all silent evs) \<or>
    (\<exists>tr1 archive n. fetched_package W tr version triple tr1 archive \<and>
       tr' = tr1 @ [Spawn (shell_argv l (install_script home version)) (take n archive)])"
  using assms install_inner_trace [of W l triple version home tr]
  by (auto simp: install_remote_codex_def split: prod.splits if_splits)

lemma quiet_launcher: "quiet (run_launcher W argv [])"
  by (auto simp: run_launcher_def)

lemma quiet_probe: "quiet (probe W l)"
  unfolding probe_def by (intro quiet_bind quiet_launcher quiet_basic)

lemma quiet_verify: "quiet (verify_remote_version W l path)"
  unfolding verify_remote_version_def by (intro quiet_bind quiet_launcher quiet_basic)

lemma quiet_latest: "quiet (resolve_latest_version W)"
  unfolding resolve_latest_version_def build_client_def by (intro quiet_bind quiet_basic)

lemma quiet_resolve: "quiet (resolve_version W policy)"
  by (cases policy) (auto simp: resolve_version_def quiet_latest)

section \<open>What provisioning returns\<close>

lemma option_filter_Some: "option_filter P x = Some y \<longleftrightarrow> x = Some y \<and> P y"
  by (cases x) auto

lemma act_map_err_eq:
  "act_map_err g m tr = (Inr x, tr') \<longleftrightarrow> m tr = (Inr x, tr')"
  "act_map_err g m tr = (r, tr') \<Longrightarrow> \<exists>r0. m tr = (r0, tr')"
  by (auto simp: act_map_err_def map_err_Inr split: prod.splits)

lemma act_bind_map_err:
  "act_bind (act_map_err g m) f tr =
     (case m tr of (Inl e, tr') \<Rightarrow> (Inl (g e), tr') | (Inr x, tr') \<Rightarrow> f x tr')"
  by (simp add: act_bind_def act_map_err_def split: prod.split sum.split)

text \<open>The three stages after the probe: keep what was found, install, or first resolve the version.\<close>

definition reused :: "remote_probe \<Rightarrow> string \<times> string \<Rightarrow> provisioned_codex" where
  "reused p = (\<lambda>(path, v).
     \<lparr> pc_codex_path = path, pc_version = v, pc_warning = None, pc_shell = rp_shell p \<rparr>)"

definition install_stage ::
  "world \<Rightarrow> remote_launcher \<Rightarrow> string \<Rightarrow> remote_probe \<Rightarrow> string \<Rightarrow> (provision_error, provisioned_codex) action" where
  "install_stage W l triple p version =
     act_bind (act_map_err (InstallRequiredVersionFailed version)
       (install_remote_codex W l triple version (rp_home p))) (\<lambda>_.
     act_bind (verify_remote_version W l (managed_codex_path (rp_home p))) (\<lambda>installed_version.
     if installed_version \<noteq> version
     then return_result (Inl (VersionCheckFailed version installed_version))
     else return_result (Inr (reused p (managed_codex_path (rp_home p), version)))))"

definition version_stage ::
  "world \<Rightarrow> remote_launcher \<Rightarrow> string \<Rightarrow> remote_probe \<Rightarrow> string \<Rightarrow> (provision_error, provisioned_codex) action" where
  "version_stage W l triple p version =
     (case option_filter (\<lambda>(_, v). normalize_version v = normalize_version version) (rp_existing p) of
        Some found \<Rightarrow> return_result (Inr (reused p found))
      | None \<Rightarrow> install_stage W l triple p version)"

lemma ensure_run:
  "ensure_remote_codex W l desired =
     act_bind (probe W l) (\<lambda>p.
     act_bind (return_result (resolve_triple (rp_os p) (rp_arch p))) (\<lambda>triple.
     case option_filter (\<lambda>(_, v). is_satisfied_by_existing W desired v) (rp_existing p) of
       Some found \<Rightarrow> return_result (Inr (reused p found))
     | None \<Rightarrow> act_bind (resolve_version W desired) (version_stage W l triple p)))"
proof -
  have stage: "version_stage W l triple p = (\<lambda>version.
      case option_filter (\<lambda>(_, v). normalize_version v = normalize_version version) (rp_existing p) of
        Some found \<Rightarrow> return_result (Inr (reused p found))
      | None \<Rightarrow> install_stage W l triple p version)" for triple p
    by (rule ext) (rule version_stage_def)
  show ?thesis
    unfolding ensure_remote_codex_def stage install_stage_def reused_def Let_def case_prod_beta fst_conv snd_conv
    by (rule refl)
qed

lemma install_stage_trace:
  assumes "install_stage W l triple p version tr2 = (r, tr')"
  shows "\<exists>r0 tr3 evs. install_remote_codex W l triple version (rp_home p) tr2 = (r0, tr3) \<and>
    tr' = tr3 @ evs \<and> list_all silent evs"
proof -
  have "quiet (act_bind (verify_remote_version W l path) (\<lambda>installed_version.
      if installed_version \<noteq> version then return_result (Inl (e installed_version)) else return_result (Inr pc)))"
    for path e and pc :: provisioned_codex
    by (intro quiet_bind quiet_verify) auto
  note after = quietD [OF this]
  obtain r0 tr3 where i: "install_remote_codex W l triple version (rp_home p) tr2 = (r0, tr3)" by fastforce
  show ?thesis
  proof (cases r0)
    case (Inl e)
    with assms i have "tr' = tr3"
      by (simp add: install_stage_def act_bind_map_err)
    with i show ?thesis by (intro exI [of _ r0] exI [of _ tr3] exI [of _ "[]"]) simp
  next
    case (Inr u)
    with assms i have "act_bind (verify_remote_version W l (managed_codex_path (rp_home p))) (\<lambda>installed_version.
      if installed_version \<noteq> version
      then return_result (Inl (VersionCheckFailed version installed_version))
      else return_result (Inr (reused p (managed_codex_path (rp_home p), version)))) tr3 = (r, tr')"
      by (simp add: install_stage_def act_bind_map_err)
    from after [OF this] i show ?thesis by blast
  qed
qed

text \<open>After the probe: nothing is installed, or a version is resolved and installed.\<close>

lemma ensure_installs:
  assumes "ensure_remote_codex W l desired tr = (r, tr')" "probe W l tr = (Inr p, tr1)"
    "resolve_triple (rp_os p) (rp_arch p) = Inr triple"
  shows "(\<exists>evs. tr' = tr1 @ evs \<and> list_all silent evs) \<or>
    (\<exists>version tr2 r0 tr3 evs. resolve_version W desired tr1 = (Inr version, tr2) \<and>
       install_remote_codex W l triple version (rp_home p) tr2 = (r0, tr3) \<and>
       tr' = tr3 @ evs \<and> list_all silent evs)"
proof -
  have "tr' = tr1 \<or> act_bind (resolve_version W desired) (version_stage W l triple p) tr1 = (r, tr')"
    using assms by (auto simp: ensure_run act_bind_eq [of "probe W l"] act_simps split: option.splits)
  then consider "tr' = tr1" | e where "resolve_version W desired tr1 = (Inl e, tr')"
    | version tr2 where "resolve_version W desired tr1 = (Inr version, tr2)"
      "version_stage W l triple p version tr2 = (r, tr')"
    unfolding act_bind_eq by blast
  then show ?thesis
  proof cases
    case 1
    then show ?thesis by simp
  next
    case 2
    with quietD [OF quiet_resolve] show ?thesis by blast
  next
    case (3 version tr2)
    from 3(2) have "tr' = tr2 \<or> install_stage W l triple p version tr2 = (r, tr')"
      by (auto simp: version_stage_def act_simps split: option.splits)
    then show ?thesis using quietD [OF quiet_resolve 3(1)] install_stage_trace 3(1) by blast
  qed
qed

lemma ensure_trace:
  assumes "ensure_remote_codex W l desired tr = (r, tr')"
  shows "(\<exists>evs. tr' = tr @ evs \<and> list_all silent evs) \<or>
    (\<exists>p tr1 triple version tr2 r0 tr3 evs. probe W l tr = (Inr p, tr1) \<and>
       resolve_triple (rp_os p) (rp_arch p) = Inr triple \<and> resolve_version W desired tr1 = (Inr version, tr2) \<and>
       install_remote_codex W l triple version (rp_home p) tr2 = (r0, tr3) \<and>
       tr' = tr3 @ evs \<and> list_all silent evs)"
proof -
  obtain r1 tr1 where p: "probe W l tr = (r1, tr1)" by fastforce
  obtain evs where evs: "tr1 = tr @ evs" "list_all silent evs" using quietD [OF quiet_probe p] by blast
  have early: "tr' = tr1 \<Longrightarrow> ?thesis" using evs by blast
  show ?thesis
  proof (cases r1)
    case (Inl e)
    with assms p show ?thesis by (intro early) (auto simp: ensure_run act_bind_eq)
  next
    case (Inr q)
    show ?thesis
    proof (cases "resolve_triple (rp_os q) (rp_arch q)")
      case (Inl e)
      with assms p Inr show ?thesis
        by (intro early) (auto simp: ensure_run act_bind_eq [of "probe W l"] act_simps)
    next
      case (Inr triple)
      from ensure_installs [OF assms p [unfolded \<open>r1 = Inr q\<close>] Inr] evs show ?thesis
      proof (elim disjE exE conjE)
        fix more assume "tr' = tr1 @ more" "list_all silent more"
        with evs show ?thesis by (intro disjI1 exI [of _ "evs @ more"]) simp
      qed (use p Inr \<open>r1 = Inr q\<close> in blast)
    qed
  qed
qed

lemma parse_probe_output_existing:
  assumes "parse_probe_output output = Inr p" "rp_existing p = Some (path, v)"
  shows "path = managed_codex_path (rp_home p)"
  using assms
  by (auto simp: parse_probe_output_def Let_def split: list.splits prod.splits option.splits if_splits)

lemma probe_existing:
  assumes "probe W l tr = (Inr p, tr1)" "rp_existing p = Some (path, v)"
  shows "path = managed_codex_path (rp_home p)"
  using assms unfolding probe_def
  by (auto simp: act_bind_eq return_result_run intro: parse_probe_output_existing)

lemma satisfied_resolves:
  assumes "is_satisfied_by_existing W policy v"
  shows "\<exists>version. resolve_version W policy tr = (Inr version, tr) \<and>
    (normalize_version v = version \<or> normalize_version v = normalize_version version)"
  using assms
  by (cases policy)
    (auto simp: is_satisfied_by_existing_def resolve_version_def act_simps split: sum.splits)

lemma verify_remote_version_Inr:
  assumes "verify_remote_version W l path tr = (Inr v, tr')"
  shows "tr' = tr @ [Spawn (shell_argv l (posix_single_quote path @ '' --version'')) []] \<and>
    (\<exists>out err. w_spawn W tr' = Exited (Some 0) out err \<and> parse_version_output (from_utf8_lossy out) = Inr v)"
  using assms
  by (auto simp: verify_remote_version_def run_launcher_def launcher_output_def act_simps
      split: if_splits sum.splits proc_outcome.splits)

text \<open>The version is the probed one, and the policy resolves to it; or it was installed and checked.\<close>

definition kept_version :: "world \<Rightarrow> version_policy \<Rightarrow> remote_probe \<Rightarrow> trace \<Rightarrow> provisioned_codex \<Rightarrow> bool" where
  "kept_version W desired p tr1 pc \<longleftrightarrow>
     rp_existing p = Some (pc_codex_path pc, pc_version pc) \<and>
     (\<exists>version tr2. resolve_version W desired tr1 = (Inr version, tr2) \<and>
        (normalize_version (pc_version pc) = version \<or>
         normalize_version (pc_version pc) = normalize_version version))"

definition installed_version ::
  "world \<Rightarrow> remote_launcher \<Rightarrow> version_policy \<Rightarrow> remote_probe \<Rightarrow> trace \<Rightarrow> trace \<Rightarrow> provisioned_codex \<Rightarrow> bool" where
  "installed_version W l desired p tr1 tr' pc \<longleftrightarrow>
     (\<exists>triple tr2 tr3 out err.
        resolve_triple (rp_os p) (rp_arch p) = Inr triple \<and>
        resolve_version W desired tr1 = (Inr (pc_version pc), tr2) \<and>
        install_remote_codex W l triple (pc_version pc) (rp_home p) tr2 = (Inr (), tr3) \<and>
        tr' = tr3 @ [Spawn (shell_argv l (posix_single_quote (pc_codex_path pc) @ '' --version'')) []] \<and>
        w_spawn W tr' = Exited (Some 0) out err \<and>
        parse_version_output (from_utf8_lossy out) = Inr (pc_version pc))"

lemma install_stage_Inr:
  assumes "install_stage W l triple p version tr2 = (Inr pc, tr')"
  obtains tr3 where "install_remote_codex W l triple version (rp_home p) tr2 = (Inr (), tr3)"
    "verify_remote_version W l (managed_codex_path (rp_home p)) tr3 = (Inr version, tr')"
    "pc = reused p (managed_codex_path (rp_home p), version)"
proof -
  let ?check = "\<lambda>installed_version.
      if installed_version \<noteq> version
      then return_result (Inl (VersionCheckFailed version installed_version))
      else return_result (Inr (reused p (managed_codex_path (rp_home p), version)))"
  from assms obtain tr3 where i: "install_remote_codex W l triple version (rp_home p) tr2 = (Inr (), tr3)"
    and "act_bind (verify_remote_version W l (managed_codex_path (rp_home p))) ?check tr3 = (Inr pc, tr')"
    unfolding install_stage_def act_bind_eq [of "act_map_err g m" for g m] act_map_err_eq(1) by auto
  from this(2) obtain v tr4 where "verify_remote_version W l (managed_codex_path (rp_home p)) tr3 = (Inr v, tr4)"
    "?check v tr4 = (Inr pc, tr')"
    unfolding act_bind_eq by blast
  with i that show ?thesis by (auto simp: act_simps split: if_splits)
qed

lemma ensure_Inr:
  assumes "ensure_remote_codex W l desired tr = (Inr pc, tr')"
  shows "\<exists>p tr1. probe W l tr = (Inr p, tr1) \<and> pc_codex_path pc = managed_codex_path (rp_home p) \<and>
    pc_shell pc = rp_shell p \<and> (kept_version W desired p tr1 pc \<or> installed_version W l desired p tr1 tr' pc)"
proof -
  let ?fits = "\<lambda>p. option_filter (\<lambda>(_, v). is_satisfied_by_existing W desired v) (rp_existing p)"
  let ?same = "\<lambda>p version. option_filter (\<lambda>(_, v). normalize_version v = normalize_version version) (rp_existing p)"
  from assms obtain p tr1 triple where p: "probe W l tr = (Inr p, tr1)"
      and triple: "resolve_triple (rp_os p) (rp_arch p) = Inr triple"
      and run: "(case ?fits p of Some found \<Rightarrow> return_result (Inr (reused p found))
        | None \<Rightarrow> act_bind (resolve_version W desired) (version_stage W l triple p)) tr1 = (Inr pc, tr')"
    unfolding ensure_run act_bind_eq [of "probe W l"] act_bind_eq [of "return_result r" for r] return_result_run
    by auto
  have existing: "path = managed_codex_path (rp_home p)" if "rp_existing p = Some (path, v)" for path v
    using probe_existing [OF p that] .
  from run consider path v where "?fits p = Some (path, v)" "pc = reused p (path, v)"
    | version tr2 where "resolve_version W desired tr1 = (Inr version, tr2)"
      "version_stage W l triple p version tr2 = (Inr pc, tr')"
    by (auto simp: act_simps act_bind_eq split: option.splits)
  then have "pc_codex_path pc = managed_codex_path (rp_home p) \<and> pc_shell pc = rp_shell p \<and>
      (kept_version W desired p tr1 pc \<or> installed_version W l desired p tr1 tr' pc)"
  proof cases
    case (1 path v)
    then have v: "rp_existing p = Some (path, v)" "is_satisfied_by_existing W desired v"
      by (auto simp: option_filter_Some)
    with 1(2) existing [OF v(1)] satisfied_resolves [OF v(2), of tr1] show ?thesis
      by (auto simp: kept_version_def reused_def)
  next
    case (2 version tr2)
    from 2(2) consider path v where "?same p version = Some (path, v)" "pc = reused p (path, v)"
      | "install_stage W l triple p version tr2 = (Inr pc, tr')"
      by (auto simp: version_stage_def act_simps split: option.splits)
    then show ?thesis
    proof cases
      case (1 path v)
      then have v: "rp_existing p = Some (path, v)" "normalize_version v = normalize_version version"
        by (auto simp: option_filter_Some)
      with 1(2) existing [OF v(1)] 2(1) show ?thesis by (auto simp: kept_version_def reused_def)
    next
      case i: 2
      from i obtain tr3 where i: "install_remote_codex W l triple version (rp_home p) tr2 = (Inr (), tr3)"
        and v: "verify_remote_version W l (managed_codex_path (rp_home p)) tr3 = (Inr version, tr')"
        and pc: "pc = reused p (managed_codex_path (rp_home p), version)"
        by (rule install_stage_Inr)
      from verify_remote_version_Inr [OF v] triple 2(1) i show ?thesis
        unfolding pc installed_version_def reused_def by auto
    qed
  qed
  with p show ?thesis by blast
qed

section \<open>The install script\<close>

definition shell_plain :: "char \<Rightarrow> bool" where
  "shell_plain c \<longleftrightarrow> c \<noteq> sq \<and> c \<noteq> bslash \<and> \<not> shell_blank c \<and> \<not> shell_special c"

lemma shell_words_plain:
  "list_all shell_plain w \<Longrightarrow> shell_words (InWord a) (w @ rest) = shell_words (InWord (a @ w)) rest"
  by (induction w arbitrary: a) (auto simp: shell_plain_def)

lemma shell_parse_plain_word:
  assumes "list_all shell_plain w" "w \<noteq> []"
  shows "shell_parse (w @ '' '' @ rest) = map_option (\<lambda>ws. w # ws) (shell_parse rest)"
proof -
  obtain c cs where w: "w = c # cs" using assms(2) by (cases w) auto
  have "shell_words Between (c # (cs @ '' '' @ rest)) = shell_words (InWord [c]) (cs @ '' '' @ rest)"
    using assms(1) w by (simp add: shell_plain_def)
  also have "\<dots> = shell_words (InWord w) ('' '' @ rest)"
    using shell_words_plain [of cs "[c]"] assms(1) w by simp
  also have "\<dots> = map_option (\<lambda>ws. w # ws) (shell_words Between rest)"
    by (simp add: shell_blank_def)
  finally show ?thesis by (simp add: shell_parse_def w)
qed

fun shell_command :: "string list \<Rightarrow> string \<Rightarrow> string" where
  "shell_command [] rest = rest"
| "shell_command (w # ws) rest = w @ '' '' @ shell_command ws rest"

lemma shell_parse_command:
  assumes "list_all (\<lambda>w. w \<noteq> [] \<and> list_all shell_plain w) ws" "shell_parse rest = Some args"
  shows "shell_parse (shell_command ws rest) = Some (ws @ args)"
  using assms by (induction ws) (auto simp: shell_parse_plain_word [simplified])

lemma shell_parse_quoted_pair:
  "shell_parse (posix_single_quote a @ '' '' @ posix_single_quote b) = Some [a, b]"
  using posix.words_quote_sep [of a "posix_single_quote b"] posix.words_quote [of b] by simp

definition install_commands :: "string \<Rightarrow> string \<Rightarrow> string list list" where
  "install_commands home version =
     (let release_dir = managed_release_dir home version;
          codex_bin = release_dir @ ''/bin/codex'' in
      [[''mkdir'', ''-p'', release_dir],
       [''tar'', ''-xzf'', ''-'', ''-C'', release_dir],
       [''chmod'', ''0755'', codex_bin],
       [''mkdir'', ''-p'', managed_current_dir home],
       [''ln'', ''-sf'', codex_bin, managed_codex_path home]])"

lemma install_script_commands:
  "\<exists>cmds. install_script home version = join_with '' && '' cmds \<and>
          map shell_parse cmds = map Some (install_commands home version)"
proof -
  let ?rd = "managed_release_dir home version"
  let ?bin = "?rd @ ''/bin/codex''"
  let ?cmds =
    "[shell_command [''mkdir'', ''-p''] (posix_single_quote ?rd),
      shell_command [''tar'', ''-xzf'', ''-'', ''-C''] (posix_single_quote ?rd),
      shell_command [''chmod'', ''0755''] (posix_single_quote ?bin),
      shell_command [''mkdir'', ''-p''] (posix_single_quote (managed_current_dir home)),
      shell_command [''ln'', ''-sf''] (posix_single_quote ?bin @ '' '' @
        posix_single_quote (managed_codex_path home))]"
  have plain: "list_all (\<lambda>w. w \<noteq> [] \<and> list_all shell_plain w)
      [''mkdir'', ''-p'', ''tar'', ''-xzf'', ''-'', ''-C'', ''chmod'', ''0755'', ''ln'', ''-sf'']"
    by code_simp
  have "install_script home version = join_with '' && '' ?cmds"
    by (simp add: install_script_def Let_def)
  moreover have "map shell_parse ?cmds = map Some (install_commands home version)"
    using plain
    by (simp add: install_commands_def Let_def shell_parse_quoted_pair posix.words_quote
        shell_parse_command [of "[_, _]"] shell_parse_command [of "[_, _, _, _]"]
        del: shell_command.simps append_Cons append.simps)
  ultimately show ?thesis by blast
qed

section \<open>A sample world\<close>

text \<open>
  A Linux container without codex, a release server with one package, and a working install: the
  answers follow the order of the calls (probe, sums, archive, install, version check, directory).
\<close>

definition sample_digest :: string where
  "sample_digest = replicate 64 (CHR ''a'')"

definition sample_world :: world where
  "sample_world =
     \<lparr> w_spawn = (\<lambda>tr. Exited (Some 0)
         (if length tr = 1 then ''Linux'' @ [nl] @ ''x86_64'' @ [nl] @ ''/root'' @ [nl]
          else if length tr = 5 then ''codex-cli 1.2.3'' @ [nl]
          else if length tr = 6 then ''/work'' else []) []),
       w_http = (\<lambda>tr. Response 200
         [if length tr = 2
          then sample_digest @ ''  codex-package-x86_64-unknown-linux-musl.tar.gz'' @ [nl]
          else ''abc''] None),
       w_env = (\<lambda>_. None), w_client_error = None, w_temp_create_error = (\<lambda>_. None),
       w_temp_write_error = (\<lambda>_ _. None), w_temp_read_error = (\<lambda>_. None),
       w_deadline_passed = (\<lambda>_. False), w_sha256_hex = (\<lambda>_. sample_digest),
       w_release_tag = (\<lambda>_. Inl ''no json''), w_host_version = ''1.2.3'' \<rparr>"

text \<open>The same world with the managed binary already in place.\<close>

definition ready_world :: world where
  "ready_world = sample_world
     \<lparr> w_spawn := (\<lambda>tr. Exited (Some 0)
         (''Linux'' @ [nl] @ ''arm64'' @ [nl] @ ''/root'' @ [nl] @
          ''CODEX_PATH:/root/.codex-server/env-switch/current/codex'' @ [nl] @
          ''CODEX_VERSION:v1.2.3'' @ [nl] @ ''CODEX_SHELL:/bin/bash'' @ [nl]) []) \<rparr>"

definition ready_probe :: remote_probe where
  "ready_probe =
     \<lparr> rp_os = ''Linux'', rp_arch = ''arm64'', rp_home = ''/root'',
       rp_existing = Some (''/root/.codex-server/env-switch/current/codex'', ''v1.2.3''),
       rp_shell = Some ''/bin/bash'' \<rparr>"

lemma docker_argv_ne: "shell_argv (docker_launcher c) script \<noteq> []"
  by (simp add: shell_argv_def docker_launcher_def fold_hops_def wrap_hop_def)

lemmas world_ops = act_bind_def return_result_def run_launcher_def spawn_def http_get_def Let_def
  check_error_def docker_argv_ne

lemma sample_probe:
  "probe sample_world (docker_launcher ''c'') [] =
     (Inr \<lparr> rp_os = ''Linux'', rp_arch = ''x86_64'', rp_home = ''/root'', rp_existing = None, rp_shell = None \<rparr>,
      [Spawn (shell_argv (docker_launcher ''c'') probe_script) []])"
proof -
  have "parse_probe_output (from_utf8_lossy (''Linux'' @ [nl] @ ''x86_64'' @ [nl] @ ''/root'' @ [nl])) =
      Inr \<lparr> rp_os = ''Linux'', rp_arch = ''x86_64'', rp_home = ''/root'', rp_existing = None, rp_shell = None \<rparr>"
    by code_simp
  then show ?thesis
    by (simp add: probe_def world_ops launcher_output_def sample_world_def)
qed

lemma ready_probed:
  "probe ready_world (docker_launcher ''c'') [] =
     (Inr ready_probe, [Spawn (shell_argv (docker_launcher ''c'') probe_script) []])"
proof -
  have "parse_probe_output (from_utf8_lossy
      (''Linux'' @ [nl] @ ''arm64'' @ [nl] @ ''/root'' @ [nl] @
       ''CODEX_PATH:/root/.codex-server/env-switch/current/codex'' @ [nl] @
       ''CODEX_VERSION:v1.2.3'' @ [nl] @ ''CODEX_SHELL:/bin/bash'' @ [nl])) = Inr ready_probe"
    by code_simp
  then show ?thesis
    by (simp add: probe_def world_ops launcher_output_def ready_world_def sample_world_def)
qed

lemma sample_sums:
  "parse_sha256sums (sample_digest @ ''  codex-package-x86_64-unknown-linux-musl.tar.gz'' @ [nl])
     (asset_name_for ''x86_64-unknown-linux-musl'') = Inr sample_digest"
  by code_simp

lemma sample_install:
  "install_remote_codex sample_world (docker_launcher ''c'') ''x86_64-unknown-linux-musl'' ''1.2.3'' ''/root'' [e] =
     (Inr (), [e, HttpGet (release_url ''1.2.3'' ''codex-package_SHA256SUMS'') None,
        HttpGet (release_url ''1.2.3'' (asset_name_for ''x86_64-unknown-linux-musl'')) None,
        Spawn (shell_argv (docker_launcher ''c'') (install_script ''/root'' ''1.2.3'')) ''abc''])"
  using sample_sums
  by (simp add: install_remote_codex_def install_remote_codex_inner_def world_ops build_client_def
      sample_world_def github_token_def check_github_response_status_def read_body_def
      error_for_status_def download_archive_def verify_digest_def stream_archive_def launcher_output_def)

lemma sample_verify:
  "verify_remote_version sample_world (docker_launcher ''c'') path [e1, e2, e3, e4] =
     (Inr ''1.2.3'', [e1, e2, e3, e4,
        Spawn (shell_argv (docker_launcher ''c'') (posix_single_quote path @ '' --version'')) []])"
proof -
  have "parse_version_output (from_utf8_lossy (''codex-cli 1.2.3'' @ [nl])) = Inr ''1.2.3''"
    by code_simp
  then show ?thesis
    by (simp add: verify_remote_version_def world_ops launcher_output_def sample_world_def)
qed

lemma sample_resolve: "resolve_version sample_world HostVersion tr = (Inr ''1.2.3'', tr)"
proof -
  have "\<not> is_dev_version ''1.2.3''" by code_simp
  then show ?thesis by (simp add: resolve_version_def return_result_def sample_world_def)
qed

lemma sample_triple: "resolve_triple ''Linux'' ''x86_64'' = Inr ''x86_64-unknown-linux-musl''"
  by code_simp

definition sample_trace :: trace where
  "sample_trace =
     [Spawn (shell_argv (docker_launcher ''c'') probe_script) [],
      HttpGet (release_url ''1.2.3'' ''codex-package_SHA256SUMS'') None,
      HttpGet (release_url ''1.2.3'' (asset_name_for ''x86_64-unknown-linux-musl'')) None,
      Spawn (shell_argv (docker_launcher ''c'') (install_script ''/root'' ''1.2.3'')) ''abc'',
      Spawn (shell_argv (docker_launcher ''c'')
        (posix_single_quote (managed_codex_path ''/root'') @ '' --version'')) []]"

lemma sample_ensure:
  "ensure_remote_codex sample_world (docker_launcher ''c'') HostVersion [] =
     (Inr \<lparr> pc_codex_path = managed_codex_path ''/root'', pc_version = ''1.2.3'',
            pc_warning = None, pc_shell = None \<rparr>,
      [Spawn (shell_argv (docker_launcher ''c'') probe_script) [],
       HttpGet (release_url ''1.2.3'' ''codex-package_SHA256SUMS'') None,
       HttpGet (release_url ''1.2.3'' (asset_name_for ''x86_64-unknown-linux-musl'')) None,
       Spawn (shell_argv (docker_launcher ''c'') (install_script ''/root'' ''1.2.3'')) ''abc'',
       Spawn (shell_argv (docker_launcher ''c'')
         (posix_single_quote (managed_codex_path ''/root'') @ '' --version'')) []])"
  by (simp add: ensure_remote_codex_def act_bind_def return_result_def act_map_err_def Let_def
      sample_probe sample_triple sample_resolve sample_install sample_verify)

section \<open>Properties\<close>

text \<open>
  C12. A successful \<open>ensure_remote_codex\<close> returns the env_switch-managed binary of the probed home
  directory, never a binary found elsewhere, the probed shell, and the version of that very binary:
  either the probe of this run reported it for this path and the policy resolves, in this run, to the
  same version up to whitespace and a leading \<open>v\<close>; or the resolved version was installed under the
  probed home for the probed platform and, as the last action, the binary at the returned path was
  run and printed exactly that version.
\<close>

theorem ensure_remote_codex_result:
  assumes "ensure_remote_codex W l desired tr = (Inr pc, tr')"
  shows "\<exists>p tr1. probe W l tr = (Inr p, tr1) \<and>
    pc_codex_path pc = rp_home p @ ''/.codex-server/env-switch/current/codex'' \<and> pc_shell pc = rp_shell p \<and>
    (kept_version W desired p tr1 pc \<or> installed_version W l desired p tr1 tr' pc)"
  using ensure_Inr [OF assms] by (simp add: managed_codex_path_def MANAGED_CODEX_SYMLINK_RELATIVE_def)

theorem ensure_remote_codex_result_witness:
  "\<exists>p tr1 tr'. probe sample_world (docker_launcher ''c'') [] = (Inr p, tr1) \<and> rp_existing p = None \<and>
     installed_version sample_world (docker_launcher ''c'') HostVersion p tr1 tr'
       \<lparr> pc_codex_path = managed_codex_path ''/root'', pc_version = ''1.2.3'', pc_warning = None, pc_shell = None \<rparr>"
proof -
  from ensure_remote_codex_result [OF sample_ensure] obtain p tr1 where p:
    "probe sample_world (docker_launcher ''c'') [] = (Inr p, tr1)"
    "kept_version sample_world HostVersion p tr1
       \<lparr> pc_codex_path = managed_codex_path ''/root'', pc_version = ''1.2.3'', pc_warning = None, pc_shell = None \<rparr> \<or>
     installed_version sample_world (docker_launcher ''c'') HostVersion p tr1 sample_trace
       \<lparr> pc_codex_path = managed_codex_path ''/root'', pc_version = ''1.2.3'', pc_warning = None, pc_shell = None \<rparr>"
    unfolding sample_trace_def by blast
  moreover have "rp_existing p = None" using p(1) by (auto simp: sample_probe)
  ultimately show ?thesis by (auto simp: kept_version_def)
qed

text \<open>
  C13. Only verified archives reach a remote process. Whatever the remote, the network and the file
  system answer: if a run of \<open>ensure_remote_codex\<close> starts a process with input, then it is the install
  command for the home the probe of this run reported and the version resolved in this run, its input
  is (a beginning of) what the release server answered to the request for that version's package for
  the probed platform, and the request before that one fetched the \<open>SHA256SUMS\<close> of the same release,
  whose line for this package has the SHA-256 of the whole archive.
\<close>

theorem only_verified_archives_streamed:
  assumes "snd (ensure_remote_codex W l desired []) = pre @ Spawn argv data # post" "data \<noteq> []"
  shows "\<exists>p tr1 triple version tr2 archive n.
    probe W l [] = (Inr p, tr1) \<and> resolve_triple (rp_os p) (rp_arch p) = Inr triple \<and>
    resolve_version W desired tr1 = (Inr version, tr2) \<and>
    argv = shell_argv l (install_script (rp_home p) version) \<and> data = take n archive \<and>
    fetched_package W tr2 version triple pre archive"
proof -
  obtain r where run: "ensure_remote_codex W l desired [] = (r, pre @ Spawn argv data # post)"
    using assms(1) by (metis prod.collapse)
  have loud: "\<not> silent (Spawn argv data)" using assms(2) by simp
  with ensure_trace [OF run] obtain p tr1 triple version tr2 r0 tr3 evs where found:
    "probe W l [] = (Inr p, tr1)" "resolve_triple (rp_os p) (rp_arch p) = Inr triple"
    "resolve_version W desired tr1 = (Inr version, tr2)"
    "install_remote_codex W l triple version (rp_home p) tr2 = (r0, tr3)"
    "pre @ Spawn argv data # post = tr3 @ evs" "list_all silent evs"
    by auto
  have quiet2: "list_all silent tr2"
    using quietD [OF quiet_probe found(1)] quietD [OF quiet_resolve found(3)] by auto
  from install_trace [OF found(4)] show ?thesis
  proof (elim disjE exE conjE)
    fix more assume "tr3 = tr2 @ more" "list_all silent more"
    with found(5,6) quiet2 have "list_all silent (pre @ Spawn argv data # post)" by simp
    with loud show ?thesis by simp
  next
    fix tr4 archive n
    assume f: "fetched_package W tr2 version triple tr4 archive"
      and "tr3 = tr4 @ [Spawn (shell_argv l (install_script (rp_home p) version)) (take n archive)]"
    moreover have "list_all silent tr4" using f quiet2 by (auto simp: fetched_package_def)
    ultimately have "pre = tr4" "argv = shell_argv l (install_script (rp_home p) version)" "data = take n archive"
      using split_at_loud [of pre "Spawn argv data" post tr4 _ evs] found(5,6) loud by auto
    with found f show ?thesis by blast
  qed
qed

theorem only_verified_archives_streamed_witness:
  "\<exists>archive n. ''abc'' = take n archive \<and>
     fetched_package sample_world (take 1 sample_trace) ''1.2.3'' ''x86_64-unknown-linux-musl'' (take 3 sample_trace) archive"
proof -
  let ?argv = "shell_argv (docker_launcher ''c'') (install_script ''/root'' ''1.2.3'')"
  have "snd (ensure_remote_codex sample_world (docker_launcher ''c'') HostVersion []) =
      take 3 sample_trace @ Spawn ?argv ''abc'' # drop 4 sample_trace"
    by (simp add: sample_ensure sample_trace_def)
  from only_verified_archives_streamed [OF this] obtain p tr1 triple version tr2 archive n where
    "probe sample_world (docker_launcher ''c'') [] = (Inr p, tr1)"
    "resolve_triple (rp_os p) (rp_arch p) = Inr triple"
    "resolve_version sample_world HostVersion tr1 = (Inr version, tr2)"
    and found: "''abc'' = take n archive" "fetched_package sample_world tr2 version triple (take 3 sample_trace) archive"
    by blast
  moreover from this(1,2,3) have "version = ''1.2.3''" "triple = ''x86_64-unknown-linux-musl''" "tr2 = take 1 sample_trace"
    by (auto simp: sample_probe sample_resolve sample_triple sample_trace_def)
  ultimately show ?thesis by blast
qed

text \<open>
  When the probed managed binary already satisfies the policy offline, provisioning makes one
  remote call, the probe, and no network request, and returns that binary.
\<close>

theorem offline_match_needs_no_network:
  assumes "probe W l tr = (Inr p, tr')" "resolve_triple (rp_os p) (rp_arch p) = Inr triple"
    "rp_existing p = Some (path, v)" "is_satisfied_by_existing W desired v"
  shows "ensure_remote_codex W l desired tr =
           (Inr \<lparr> pc_codex_path = path, pc_version = v, pc_warning = None, pc_shell = rp_shell p \<rparr>,
            tr @ [Spawn (shell_argv l probe_script) []])"
proof -
  have "tr' = tr @ [Spawn (shell_argv l probe_script) []]"
    using assms(1)
    by (auto simp: probe_def act_bind_def run_launcher_def return_result_def spawn_def Let_def
        split: prod.splits sum.splits if_splits)
  with assms show ?thesis
    by (simp add: ensure_remote_codex_def act_bind_def return_result_def)
qed

theorem offline_match_needs_no_network_witness:
  "ensure_remote_codex ready_world (docker_launcher ''c'') HostVersion [] =
     (Inr \<lparr> pc_codex_path = ''/root/.codex-server/env-switch/current/codex'', pc_version = ''v1.2.3'',
            pc_warning = None, pc_shell = rp_shell ready_probe \<rparr>,
      [] @ [Spawn (shell_argv (docker_launcher ''c'') probe_script) []])"
proof (rule offline_match_needs_no_network)
  show "probe ready_world (docker_launcher ''c'') [] =
      (Inr ready_probe, [Spawn (shell_argv (docker_launcher ''c'') probe_script) []])"
    by (rule ready_probed)
  show "resolve_triple (rp_os ready_probe) (rp_arch ready_probe) = Inr ''aarch64-unknown-linux-musl''"
    by code_simp
  show "rp_existing ready_probe = Some (''/root/.codex-server/env-switch/current/codex'', ''v1.2.3'')"
    by (simp add: ready_probe_def)
  show "is_satisfied_by_existing ready_world HostVersion ''v1.2.3''"
    by code_simp
qed

text \<open>
  C14. The remote shell reads the install script as exactly five commands with the release
  directory, the binary, the current directory and the symlink as single arguments, whatever
  characters the remote home directory and the version contain.
\<close>

theorem install_script_injection_free:
  "\<exists>cmds. install_script home version = join_with '' && '' cmds \<and>
          map shell_parse cmds = map Some (install_commands home version)"
  by (rule install_script_commands)

end
