(* ===== verification/AbsolutePath.thy ===== *)
theory AbsolutePath
  imports Prelude
begin

text \<open>
  \<open>AbsolutePathBuf\<close> of \<open>utils/absolute-path\<close> on Unix. A value is the list of its normal components
  below the root: Rust compares paths component-wise, so \<open>parent()\<close> is \<open>butlast\<close>, \<open>starts_with\<close> is
  the prefix order and the root is the empty list.
\<close>

type_synonym abs_path = "string list"

section \<open>Components and normalisation\<close>

datatype path_component = RootDir | CurDir | ParentDir | Normal string

definition segment_component :: "string \<Rightarrow> path_component list" where
  "segment_component s =
     (if s = [] then [] else if s = ''.'' then [CurDir]
      else if s = ''..'' then [ParentDir] else [Normal s])"

definition path_components :: "string \<Rightarrow> path_component list" where
  "path_components p =
     (if path_is_absolute p then [RootDir] else []) @
     concat (map segment_component (split_on (CHR ''/'') p))"

text \<open>The loop of \<open>normalize_path\<close>; popping the root leaves it unchanged.\<close>

fun normalize_components :: "abs_path \<Rightarrow> path_component list \<Rightarrow> abs_path" where
  "normalize_components acc [] = acc"
| "normalize_components acc (CurDir # cs) = normalize_components acc cs"
| "normalize_components acc (ParentDir # cs) = normalize_components (butlast acc) cs"
| "normalize_components acc (RootDir # cs) = normalize_components [] cs"
| "normalize_components acc (Normal n # cs) = normalize_components (acc @ [n]) cs"

text \<open>\<open>absolutize_from\<close>: an absolute path replaces the base, a relative one extends it.\<close>

definition absolutize_from :: "string \<Rightarrow> abs_path \<Rightarrow> abs_path" where
  "absolutize_from p base = normalize_components base (path_components p)"

section \<open>Construction\<close>

text \<open>
  What the code reads from the host: the home and current directories, the temporary directories,
  and, for finding a shell, the file system, the password entry and the search path.
\<close>

record host_os =
  os_home_dir :: "string option"
  os_current_dir :: "abs_path option"
  os_tmpdir :: "string option"
  os_slash_tmp_is_dir :: bool
  os_is_file :: "string \<Rightarrow> bool"
  os_user_shell_path :: "string option"
  os_which :: "string \<Rightarrow> string option"
  os_macos :: bool

definition maybe_expand_home_directory :: "host_os \<Rightarrow> string \<Rightarrow> string" where
  "maybe_expand_home_directory os p =
     (case os_home_dir os of None \<Rightarrow> p
      | Some home \<Rightarrow>
          (case strip_prefix ''~'' p of None \<Rightarrow> p
           | Some rest \<Rightarrow>
               if rest = [] then home
               else (case strip_prefix ''/'' rest of None \<Rightarrow> p
                     | Some rest \<Rightarrow> path_join home (dropWhile (\<lambda>c. c = CHR ''/'') rest))))"

definition resolve_path_against_base :: "host_os \<Rightarrow> string \<Rightarrow> abs_path \<Rightarrow> abs_path" where
  "resolve_path_against_base os p base = absolutize_from (maybe_expand_home_directory os p) base"

definition from_absolute_path :: "host_os \<Rightarrow> string \<Rightarrow> abs_path option" where
  "from_absolute_path os p =
     (let expanded = maybe_expand_home_directory os p in
      if path_is_absolute expanded then Some (absolutize_from expanded [])
      else map_option (absolutize_from expanded) (os_current_dir os))"

definition from_absolute_path_checked :: "host_os \<Rightarrow> string \<Rightarrow> abs_path option" where
  "from_absolute_path_checked os p =
     (let expanded = maybe_expand_home_directory os p in
      if \<not> path_is_absolute expanded then None else Some (absolutize_from expanded []))"

definition abs_join :: "host_os \<Rightarrow> abs_path \<Rightarrow> string \<Rightarrow> abs_path" where
  "abs_join os base p = resolve_path_against_base os p base"

definition abs_path_str :: "abs_path \<Rightarrow> string" where
  "abs_path_str p = ''/'' @ join_with ''/'' p"

section \<open>Normalised paths\<close>

definition wf_component :: "string \<Rightarrow> bool" where
  "wf_component n \<longleftrightarrow> n \<noteq> [] \<and> n \<noteq> ''.'' \<and> n \<noteq> ''..'' \<and> CHR ''/'' \<notin> set n"

definition wf_abs_path :: "abs_path \<Rightarrow> bool" where
  "wf_abs_path p \<longleftrightarrow> list_all wf_component p"

lemma normalize_all:
  assumes "list_all P acc" "\<And>n. Normal n \<in> set cs \<Longrightarrow> P n"
  shows "list_all P (normalize_components acc cs)"
  using assms
proof (induction acc cs rule: normalize_components.induct)
  case (3 acc cs)
  then show ?case by (auto simp: list_all_iff dest: in_set_butlastD)
qed auto

lemma path_components_Normal:
  assumes "Normal n \<in> set (path_components p)"
  shows "wf_component n"
proof -
  from assms obtain s where s: "s \<in> set (split_on (CHR ''/'') p)" "Normal n \<in> set (segment_component s)"
    by (auto simp: path_components_def split: if_splits)
  then have "s \<noteq> [] \<and> s \<noteq> ''.'' \<and> s \<noteq> ''..'' \<and> n = s"
    by (simp add: segment_component_def split: if_split_asm)
  with split_on_sep [OF s(1)] show ?thesis by (simp add: wf_component_def)
qed

lemma wf_absolutize: "wf_abs_path base \<Longrightarrow> wf_abs_path (absolutize_from p base)"
  unfolding absolutize_from_def wf_abs_path_def
  by (rule normalize_all) (auto dest: path_components_Normal)

lemma normalize_Normals: "normalize_components acc (map Normal ns) = acc @ ns"
  by (induction ns arbitrary: acc) auto

lemma split_abs_path_str:
  "wf_abs_path p \<Longrightarrow> split_on (CHR ''/'') (abs_path_str p) = (if p = [] then [[], []] else [] # p)"
  by (auto simp: abs_path_str_def wf_abs_path_def wf_component_def list_all_iff
      intro!: split_on_join_with)

lemma components_abs_path_str:
  assumes "wf_abs_path p"
  shows "path_components (abs_path_str p) = RootDir # map Normal p"
proof -
  have "concat (map segment_component p) = map Normal p"
    using assms by (induction p) (simp_all add: wf_abs_path_def wf_component_def segment_component_def)
  then show ?thesis
    using split_abs_path_str [OF assms]
    by (auto simp: path_components_def path_is_absolute_def abs_path_str_def starts_with_def
        segment_component_def)
qed

lemma absolutize_abs_path_str: "wf_abs_path p \<Longrightarrow> absolutize_from (abs_path_str p) base = p"
  by (simp add: absolutize_from_def components_abs_path_str normalize_Normals)

lemma from_absolute_path_checked_wf: "from_absolute_path_checked os p = Some q \<Longrightarrow> wf_abs_path q"
  using wf_absolutize [of "[]"]
  by (auto simp: from_absolute_path_checked_def Let_def wf_abs_path_def split: if_splits)

lemma expand_absolute: "path_is_absolute p \<Longrightarrow> maybe_expand_home_directory os p = p"
  by (cases p) (auto simp: maybe_expand_home_directory_def path_is_absolute_def starts_with_def
      split: option.splits if_splits)

lemma from_absolute_path_checked_absolute:
  "path_is_absolute p \<Longrightarrow> from_absolute_path_checked os p = Some (absolutize_from p [])"
  by (simp add: from_absolute_path_checked_def expand_absolute)

lemma abs_path_str_absolute: "path_is_absolute (abs_path_str p)"
  by (simp add: path_is_absolute_def abs_path_str_def starts_with_def)

section \<open>Properties\<close>

text \<open>
  Every path accepted by \<open>from_absolute_path_checked\<close> is normalised (no empty, \<open>.\<close> or \<open>..\<close>
  component, no separator inside a component), and printing it and reading it again gives the same
  path: normalisation is idempotent.
\<close>

theorem from_absolute_path_checked_normalised:
  assumes "from_absolute_path_checked os p = Some q"
  shows "wf_abs_path q \<and> from_absolute_path_checked os (abs_path_str q) = Some q"
  using from_absolute_path_checked_wf [OF assms]
  by (simp add: from_absolute_path_checked_absolute abs_path_str_absolute absolutize_abs_path_str)

definition sample_host :: "string option \<Rightarrow> host_os" where
  "sample_host home =
     \<lparr> os_home_dir = home, os_current_dir = None, os_tmpdir = None, os_slash_tmp_is_dir = True,
       os_is_file = (\<lambda>p. p \<in> {''/bin/sh'', ''/bin/bash''}), os_user_shell_path = Some ''/bin/bash'',
       os_which = (\<lambda>_. None), os_macos = False \<rparr>"

theorem from_absolute_path_checked_normalised_witness:
  "wf_abs_path [''root'', ''b''] \<and>
   from_absolute_path_checked
     (sample_host (Some ''/root''))
     (abs_path_str [''root'', ''b'']) = Some [''root'', ''b'']"
proof (rule from_absolute_path_checked_normalised)
  show "from_absolute_path_checked
     (sample_host (Some ''/root''))
     ''~/./a/..//b/'' = Some [''root'', ''b'']"
    by code_simp
qed

end
