(* ===== verification/FsSandbox.thy ===== *)
theory FsSandbox
  imports AbsolutePath "HOL-Library.Product_Lexorder"
begin

text \<open>
  File-system permissions of a turn: the policy types and the access decision of
  \<open>protocol/src/permissions.rs\<close>, and the permission profile of \<open>protocol/src/models.rs\<close>. The
  decision for a path is the entry with the most specific prefix, a conflict going to the
  stronger access mode.
\<close>

section \<open>Access modes\<close>

datatype file_system_access_mode = Read | Write | Deny

text \<open>The derived order: \<open>deny\<close> beats \<open>write\<close>, and \<open>write\<close> beats \<open>read\<close>.\<close>

fun access_rank :: "file_system_access_mode \<Rightarrow> nat" where
  "access_rank Read = 0"
| "access_rank Write = 1"
| "access_rank Deny = 2"

lemma access_rank_inj: "access_rank a = access_rank b \<longleftrightarrow> a = b"
  by (cases a; cases b) auto

instantiation file_system_access_mode :: linorder
begin

definition less_eq_file_system_access_mode ::
  "file_system_access_mode \<Rightarrow> file_system_access_mode \<Rightarrow> bool" where
  "less_eq_file_system_access_mode a b \<longleftrightarrow> access_rank a \<le> access_rank b"

definition less_file_system_access_mode ::
  "file_system_access_mode \<Rightarrow> file_system_access_mode \<Rightarrow> bool" where
  "less_file_system_access_mode a b \<longleftrightarrow> access_rank a < access_rank b"

instance
  by standard
    (auto simp: less_eq_file_system_access_mode_def less_file_system_access_mode_def access_rank_inj)

end

definition can_read :: "file_system_access_mode \<Rightarrow> bool" where
  "can_read a \<longleftrightarrow> a \<noteq> Deny"

definition can_write :: "file_system_access_mode \<Rightarrow> bool" where
  "can_write a \<longleftrightarrow> a = Write"

section \<open>Policies\<close>

datatype file_system_special_path =
    Root
  | Minimal
  | ProjectRoots "string option"
  | Tmpdir
  | SlashTmp
  | Unknown string "string option"

datatype file_system_path =
    Path abs_path
  | GlobPattern string
  | Special file_system_special_path

record file_system_sandbox_entry =
  entry_path :: file_system_path
  entry_access :: file_system_access_mode

datatype file_system_sandbox_kind = Restricted | Unrestricted | ExternalSandbox

record file_system_sandbox_policy =
  fsp_kind :: file_system_sandbox_kind
  fsp_glob_scan_max_depth :: "nat option"
  fsp_entries :: "file_system_sandbox_entry list"

definition policy_unrestricted :: file_system_sandbox_policy where
  "policy_unrestricted =
     \<lparr> fsp_kind = Unrestricted, fsp_glob_scan_max_depth = None, fsp_entries = [] \<rparr>"

definition policy_external_sandbox :: file_system_sandbox_policy where
  "policy_external_sandbox =
     \<lparr> fsp_kind = ExternalSandbox, fsp_glob_scan_max_depth = None, fsp_entries = [] \<rparr>"

definition policy_restricted :: "file_system_sandbox_entry list \<Rightarrow> file_system_sandbox_policy" where
  "policy_restricted entries =
     \<lparr> fsp_kind = Restricted, fsp_glob_scan_max_depth = None, fsp_entries = entries \<rparr>"

definition policy_read_only :: file_system_sandbox_policy where
  "policy_read_only = policy_restricted [\<lparr> entry_path = Special Root, entry_access = Read \<rparr>]"

definition has_root_access ::
  "(file_system_access_mode \<Rightarrow> bool) \<Rightarrow> file_system_sandbox_policy \<Rightarrow> bool" where
  "has_root_access p policy \<longleftrightarrow>
     fsp_kind policy = Restricted \<and>
     list_ex (\<lambda>e. entry_path e = Special Root \<and> p (entry_access e)) (fsp_entries policy)"

definition has_denied_read_restrictions :: "file_system_sandbox_policy \<Rightarrow> bool" where
  "has_denied_read_restrictions policy \<longleftrightarrow>
     fsp_kind policy = Restricted \<and> list_ex (\<lambda>e. entry_access e = Deny) (fsp_entries policy)"

fun special_paths_share_target ::
  "file_system_special_path \<Rightarrow> file_system_special_path \<Rightarrow> bool" where
  "special_paths_share_target Root Root \<longleftrightarrow> True"
| "special_paths_share_target Minimal Minimal \<longleftrightarrow> True"
| "special_paths_share_target Tmpdir Tmpdir \<longleftrightarrow> True"
| "special_paths_share_target SlashTmp SlashTmp \<longleftrightarrow> True"
| "special_paths_share_target (ProjectRoots l) (ProjectRoots r) \<longleftrightarrow> l = r"
| "special_paths_share_target (Unknown l ls) (Unknown r rs) \<longleftrightarrow> l = r \<and> ls = rs"
| "special_paths_share_target _ _ \<longleftrightarrow> False"

definition special_path_matches_absolute_path :: "file_system_special_path \<Rightarrow> abs_path \<Rightarrow> bool" where
  "special_path_matches_absolute_path value p =
     (case value of Root \<Rightarrow> p = [] | SlashTmp \<Rightarrow> p = [''tmp''] | _ \<Rightarrow> False)"

fun file_system_paths_share_target :: "file_system_path \<Rightarrow> file_system_path \<Rightarrow> bool" where
  "file_system_paths_share_target (Path l) (Path r) \<longleftrightarrow> l = r"
| "file_system_paths_share_target (Special l) (Special r) \<longleftrightarrow> special_paths_share_target l r"
| "file_system_paths_share_target (Path p) (Special v) \<longleftrightarrow> special_path_matches_absolute_path v p"
| "file_system_paths_share_target (Special v) (Path p) \<longleftrightarrow> special_path_matches_absolute_path v p"
| "file_system_paths_share_target (GlobPattern l) (GlobPattern r) \<longleftrightarrow> l = r"
| "file_system_paths_share_target _ _ \<longleftrightarrow> False"

definition has_same_target_write_override ::
  "file_system_sandbox_policy \<Rightarrow> file_system_sandbox_entry \<Rightarrow> bool" where
  "has_same_target_write_override policy entry \<longleftrightarrow>
     list_ex (\<lambda>c. can_write (entry_access c) \<and> entry_access c > entry_access entry \<and>
                  file_system_paths_share_target (entry_path c) (entry_path entry))
       (fsp_entries policy)"

definition narrows_write :: "file_system_sandbox_policy \<Rightarrow> file_system_sandbox_entry \<Rightarrow> bool" where
  "narrows_write policy entry =
     (if can_write (entry_access entry) then False
      else case entry_path entry of
          Path _ \<Rightarrow> \<not> has_same_target_write_override policy entry
        | GlobPattern _ \<Rightarrow> True
        | Special value \<Rightarrow>
            (case value of
               Root \<Rightarrow> entry_access entry = Deny
             | Minimal \<Rightarrow> False
             | Unknown _ _ \<Rightarrow> False
             | _ \<Rightarrow> \<not> has_same_target_write_override policy entry))"

definition has_write_narrowing_entries :: "file_system_sandbox_policy \<Rightarrow> bool" where
  "has_write_narrowing_entries policy \<longleftrightarrow>
     fsp_kind policy = Restricted \<and> list_ex (narrows_write policy) (fsp_entries policy)"

definition has_full_disk_read_access :: "file_system_sandbox_policy \<Rightarrow> bool" where
  "has_full_disk_read_access policy =
     (case fsp_kind policy of
        Restricted \<Rightarrow> has_root_access can_read policy \<and> \<not> has_denied_read_restrictions policy
      | _ \<Rightarrow> True)"

definition has_full_disk_write_access :: "file_system_sandbox_policy \<Rightarrow> bool" where
  "has_full_disk_write_access policy =
     (case fsp_kind policy of
        Restricted \<Rightarrow> has_root_access can_write policy \<and> \<not> has_write_narrowing_entries policy
      | _ \<Rightarrow> True)"

definition include_platform_defaults :: "file_system_sandbox_policy \<Rightarrow> bool" where
  "include_platform_defaults policy \<longleftrightarrow>
     \<not> has_full_disk_read_access policy \<and> fsp_kind policy = Restricted \<and>
     list_ex (\<lambda>e. entry_path e = Special Minimal \<and> can_read (entry_access e)) (fsp_entries policy)"

section \<open>Access decisions\<close>

definition resolve_file_system_special_path ::
  "host_os \<Rightarrow> file_system_special_path \<Rightarrow> abs_path option \<Rightarrow> abs_path option" where
  "resolve_file_system_special_path os value cwd =
     (case value of
        Root \<Rightarrow> None
      | Minimal \<Rightarrow> None
      | Unknown _ _ \<Rightarrow> None
      | ProjectRoots subpath \<Rightarrow>
          (case cwd of None \<Rightarrow> None
           | Some cwd \<Rightarrow> (case subpath of Some subpath \<Rightarrow> Some (resolve_path_against_base os subpath cwd)
                         | None \<Rightarrow> Some cwd))
      | Tmpdir \<Rightarrow>
          (case os_tmpdir os of None \<Rightarrow> None
           | Some tmpdir \<Rightarrow> if tmpdir = [] then None else from_absolute_path os tmpdir)
      | SlashTmp \<Rightarrow> if os_slash_tmp_is_dir os then Some [''tmp''] else None)"

definition resolve_file_system_path ::
  "host_os \<Rightarrow> file_system_path \<Rightarrow> abs_path option \<Rightarrow> abs_path option" where
  "resolve_file_system_path os p cwd =
     (case p of Path p \<Rightarrow> Some p | GlobPattern _ \<Rightarrow> None
      | Special value \<Rightarrow> resolve_file_system_special_path os value cwd)"

text \<open>On Unix the root of any absolute path is \<open>/\<close>.\<close>

definition absolute_root_path_for_cwd :: "abs_path \<Rightarrow> abs_path" where
  "absolute_root_path_for_cwd cwd = []"

definition resolve_entry_path ::
  "host_os \<Rightarrow> file_system_path \<Rightarrow> abs_path option \<Rightarrow> abs_path option" where
  "resolve_entry_path os p cwd =
     (if p = Special Root then map_option absolute_root_path_for_cwd cwd
      else resolve_file_system_path os p cwd)"

definition resolve_candidate_path :: "host_os \<Rightarrow> string \<Rightarrow> string \<Rightarrow> abs_path option" where
  "resolve_candidate_path os p cwd =
     (if path_is_absolute p then from_absolute_path os p
      else map_option (\<lambda>cwd. abs_join os cwd p) (from_absolute_path os cwd))"

record resolved_file_system_entry =
  rfe_path :: abs_path
  rfe_access :: file_system_access_mode

definition resolved_entries_with_cwd ::
  "host_os \<Rightarrow> file_system_sandbox_policy \<Rightarrow> string \<Rightarrow> resolved_file_system_entry list" where
  "resolved_entries_with_cwd os policy cwd =
     (let cwd_absolute = from_absolute_path os cwd in
      List.map_filter (\<lambda>e. map_option (\<lambda>p. \<lparr> rfe_path = p, rfe_access = entry_access e \<rparr>)
        (resolve_entry_path os (entry_path e) cwd_absolute)) (fsp_entries policy))"

definition resolved_entry_precedence ::
  "resolved_file_system_entry \<Rightarrow> nat \<times> file_system_access_mode" where
  "resolved_entry_precedence e = (Suc (length (rfe_path e)), rfe_access e)"

text \<open>\<open>Iterator::max_by_key\<close>: the last of the elements with the greatest key.\<close>

fun max_by_key :: "('a \<Rightarrow> 'k::linorder) \<Rightarrow> 'a list \<Rightarrow> 'a option" where
  "max_by_key f [] = None"
| "max_by_key f (x # xs) =
     (case max_by_key f xs of None \<Rightarrow> Some x | Some y \<Rightarrow> if f x \<le> f y then Some y else Some x)"

definition resolve_access_with_cwd ::
  "host_os \<Rightarrow> file_system_sandbox_policy \<Rightarrow> string \<Rightarrow> string \<Rightarrow> file_system_access_mode" where
  "resolve_access_with_cwd os policy p cwd =
     (case fsp_kind policy of
        Restricted \<Rightarrow>
          (case resolve_candidate_path os p cwd of None \<Rightarrow> Deny
           | Some path \<Rightarrow>
               (case max_by_key resolved_entry_precedence
                       (filter (\<lambda>e. prefix (rfe_path e) path) (resolved_entries_with_cwd os policy cwd)) of
                  None \<Rightarrow> Deny
                | Some e \<Rightarrow> rfe_access e))
      | _ \<Rightarrow> Write)"

section \<open>Permission profiles\<close>

datatype network_sandbox_policy = NetworkRestricted | NetworkEnabled

datatype managed_file_system_permissions =
    ManagedRestricted "file_system_sandbox_entry list" "nat option"
  | ManagedUnrestricted

definition to_sandbox_policy :: "managed_file_system_permissions \<Rightarrow> file_system_sandbox_policy" where
  "to_sandbox_policy m =
     (case m of
        ManagedRestricted entries depth \<Rightarrow>
          \<lparr> fsp_kind = Restricted, fsp_glob_scan_max_depth = depth, fsp_entries = entries \<rparr>
      | ManagedUnrestricted \<Rightarrow> policy_unrestricted)"

datatype permission_profile =
    Managed managed_file_system_permissions network_sandbox_policy
  | ProfileDisabled
  | External network_sandbox_policy

definition file_system_sandbox_policy_of :: "permission_profile \<Rightarrow> file_system_sandbox_policy" where
  "file_system_sandbox_policy_of p =
     (case p of Managed fs _ \<Rightarrow> to_sandbox_policy fs
      | ProfileDisabled \<Rightarrow> policy_unrestricted
      | External _ \<Rightarrow> policy_external_sandbox)"

definition network_sandbox_policy_of :: "permission_profile \<Rightarrow> network_sandbox_policy" where
  "network_sandbox_policy_of p =
     (case p of Managed _ n \<Rightarrow> n | External n \<Rightarrow> n | ProfileDisabled \<Rightarrow> NetworkEnabled)"

section \<open>Full-disk write access is honoured\<close>

lemma max_by_key_Some:
  assumes "max_by_key f xs = Some x"
  shows "x \<in> set xs" "y \<in> set xs \<Longrightarrow> f y \<le> f x"
proof -
  have "x \<in> set xs \<and> (\<forall>y\<in>set xs. f y \<le> f x)"
    using assms
  proof (induction xs arbitrary: x)
    case (Cons a xs)
    show ?case
    proof (cases "max_by_key f xs")
      case None
      then have "xs = []" by (cases xs) (auto split: option.splits if_splits)
      with Cons.prems show ?thesis by simp
    next
      case (Some b)
      with Cons.prems Cons.IH [OF Some] show ?thesis by (fastforce split: if_splits)
    qed
  qed simp
  then show "x \<in> set xs" "y \<in> set xs \<Longrightarrow> f y \<le> f x" by auto
qed

lemma max_by_key_None: "max_by_key f xs = None \<longleftrightarrow> xs = []"
  by (cases xs) (auto split: option.splits)

lemma in_map_filter: "y \<in> set (List.map_filter f xs) \<longleftrightarrow> (\<exists>x\<in>set xs. f x = Some y)"
  by (induction xs) (auto simp: List.map_filter_simps split: option.splits)

lemma resolved_entry_in:
  "r \<in> set (resolved_entries_with_cwd os policy cwd) \<longleftrightarrow>
     (\<exists>e\<in>set (fsp_entries policy).
        resolve_entry_path os (entry_path e) (from_absolute_path os cwd) = Some (rfe_path r) \<and>
        rfe_access r = entry_access e)"
  by (cases r) (auto simp: resolved_entries_with_cwd_def Let_def in_map_filter)

text \<open>Entries that share a target resolve to the same path.\<close>

lemma share_target_same_path:
  assumes "file_system_paths_share_target p q" "resolve_entry_path os q (Some cwd) = Some r"
    "os_slash_tmp_is_dir os"
  shows "resolve_entry_path os p (Some cwd) = Some r"
proof -
  have special: "special_paths_share_target v w \<Longrightarrow> v = w" for v w
    by (induction v w rule: special_paths_share_target.induct) auto
  show ?thesis
    using assms special
    by (induction p q rule: file_system_paths_share_target.induct)
      (auto simp: resolve_entry_path_def resolve_file_system_path_def
        resolve_file_system_special_path_def special_path_matches_absolute_path_def
        absolute_root_path_for_cwd_def split: file_system_special_path.splits if_splits)
qed


lemma not_narrowing_overridden:
  assumes "\<not> narrows_write policy e" "\<not> can_write (entry_access e)"
    "resolve_entry_path os (entry_path e) (Some cwd) = Some p" "entry_path e \<noteq> Special Root"
  shows "entry_access e = Read \<and> has_same_target_write_override policy e"
proof -
  have over: "has_same_target_write_override policy e"
    using assms
    by (auto simp: narrows_write_def resolve_entry_path_def resolve_file_system_path_def
        resolve_file_system_special_path_def
        split: file_system_path.splits file_system_special_path.splits)
  then have "entry_access e < Write"
    by (auto simp: has_same_target_write_override_def list_ex_iff can_write_def)
  then have "entry_access e = Read"
    by (cases "entry_access e") (auto simp: less_file_system_access_mode_def)
  with over show ?thesis by simp
qed

lemma full_write_has_write_twin:
  assumes "has_full_disk_write_access policy" "fsp_kind policy = Restricted"
    "from_absolute_path os cwd = Some c" "os_slash_tmp_is_dir os"
    "r \<in> set (resolved_entries_with_cwd os policy cwd)" "rfe_access r \<noteq> Write"
  shows "rfe_access r = Read \<and>
    (\<exists>w\<in>set (resolved_entries_with_cwd os policy cwd). rfe_path w = rfe_path r \<and> rfe_access w = Write)"
proof -
  from assms(5) obtain e where e: "e \<in> set (fsp_entries policy)"
    "resolve_entry_path os (entry_path e) (Some c) = Some (rfe_path r)" "rfe_access r = entry_access e"
    using assms(3) by (auto simp: resolved_entry_in)
  have nn: "\<not> narrows_write policy e"
    using assms(1,2) e(1)
    by (auto simp: has_full_disk_write_access_def has_write_narrowing_entries_def list_ex_iff)
  have nw: "\<not> can_write (entry_access e)" using assms(6) e(3) by (simp add: can_write_def)
  have "\<exists>w\<in>set (fsp_entries policy). entry_access w = Write \<and>
      file_system_paths_share_target (entry_path w) (entry_path e)"
    and "entry_access e = Read"
  proof -
    show "entry_access e = Read"
    proof (cases "entry_path e = Special Root")
      case True
      with nn nw show ?thesis by (cases "entry_access e") (auto simp: narrows_write_def can_write_def)
    qed (use not_narrowing_overridden [OF nn nw e(2)] in auto)
    show "\<exists>w\<in>set (fsp_entries policy). entry_access w = Write \<and>
        file_system_paths_share_target (entry_path w) (entry_path e)"
    proof (cases "entry_path e = Special Root")
      case True
      then show ?thesis
        using assms(1,2)
        by (auto simp: has_full_disk_write_access_def has_root_access_def list_ex_iff can_write_def)
    next
      case False
      then show ?thesis
        using not_narrowing_overridden [OF nn nw e(2)]
        by (auto simp: has_same_target_write_override_def list_ex_iff can_write_def)
    qed
  qed
  then obtain w where w: "w \<in> set (fsp_entries policy)" "entry_access w = Write"
    "file_system_paths_share_target (entry_path w) (entry_path e)" by blast
  have "resolve_entry_path os (entry_path w) (Some c) = Some (rfe_path r)"
    by (rule share_target_same_path [OF w(3) e(2) assms(4)])
  with w have "\<lparr> rfe_path = rfe_path r, rfe_access = Write \<rparr>
      \<in> set (resolved_entries_with_cwd os policy cwd)"
    using assms(3) by (auto simp: resolved_entry_in)
  moreover have "rfe_access r = Read" using \<open>entry_access e = Read\<close> e(3) by simp
  ultimately show ?thesis
    by (intro conjI bexI [of _ "\<lparr> rfe_path = rfe_path r, rfe_access = Write \<rparr>"]) simp_all
qed

text \<open>
  C15. A policy that reports full-disk write access grants it: for every resolvable path, in every
  working directory, the access decision is \<open>write\<close>, whatever shadowed read entries the policy
  lists (where \<open>/tmp\<close> is a directory).
\<close>

theorem full_disk_write_access_honoured:
  assumes "has_full_disk_write_access policy" "os_slash_tmp_is_dir os"
    "from_absolute_path os cwd = Some c" "resolve_candidate_path os p cwd = Some path"
  shows "resolve_access_with_cwd os policy p cwd = Write"
proof (cases "fsp_kind policy = Restricted")
  case False
  then show ?thesis by (cases "fsp_kind policy") (auto simp: resolve_access_with_cwd_def)
next
  case True
  let ?rs = "resolved_entries_with_cwd os policy cwd"
  let ?ms = "filter (\<lambda>e. prefix (rfe_path e) path) ?rs"
  obtain e where e: "e \<in> set (fsp_entries policy)" "entry_path e = Special Root"
    using assms(1) True by (auto simp: has_full_disk_write_access_def has_root_access_def list_ex_iff)
  then have "resolve_entry_path os (entry_path e) (Some c) = Some []"
    by (simp add: resolve_entry_path_def absolute_root_path_for_cwd_def)
  with e(1) assms(3) have "\<lparr> rfe_path = [], rfe_access = entry_access e \<rparr> \<in> set ?rs"
    unfolding resolved_entry_in by (intro bexI [of _ e]) simp_all
  then have "?ms \<noteq> []" by (force simp: filter_empty_conv)
  then obtain m where m: "max_by_key resolved_entry_precedence ?ms = Some m"
    by (cases "max_by_key resolved_entry_precedence ?ms") (auto simp: max_by_key_None)
  note best = max_by_key_Some [OF m]
  have "rfe_access m = Write"
  proof (rule ccontr)
    assume "rfe_access m \<noteq> Write"
    with full_write_has_write_twin [OF assms(1) True assms(3,2)] best(1)
    obtain w where w: "w \<in> set ?rs" "rfe_path w = rfe_path m" "rfe_access w = Write"
      "rfe_access m = Read" by auto
    have "w \<in> set ?ms" using best(1) w by auto
    from best(2) [OF this] w show False
      by (auto simp: resolved_entry_precedence_def less_eq_file_system_access_mode_def)
  qed
  with True assms(4) m show ?thesis by (simp add: resolve_access_with_cwd_def)
qed

theorem full_disk_write_access_honoured_witness:
  "resolve_access_with_cwd
     (sample_host None)
     (policy_restricted [\<lparr> entry_path = Special Root, entry_access = Write \<rparr>,
        \<lparr> entry_path = Path [''tmp''], entry_access = Read \<rparr>,
        \<lparr> entry_path = Special SlashTmp, entry_access = Write \<rparr>])
     ''/tmp/x'' ''/w'' = Write"
proof (rule full_disk_write_access_honoured)
  show "has_full_disk_write_access (policy_restricted [\<lparr> entry_path = Special Root, entry_access = Write \<rparr>,
        \<lparr> entry_path = Path [''tmp''], entry_access = Read \<rparr>,
        \<lparr> entry_path = Special SlashTmp, entry_access = Write \<rparr>])"
    by code_simp
  show "from_absolute_path
     (sample_host None) ''/w'' =
     Some [''w'']" by code_simp
  show "resolve_candidate_path
     (sample_host None)
     ''/tmp/x'' ''/w'' = Some [''tmp'', ''x'']" by code_simp
qed (simp add: sample_host_def)

end
