(* ===== verification/ShellDetect.thy ===== *)
theory ShellDetect
  imports AbsolutePath Utf8
begin

text \<open>
  Shells (\<open>shell-command/src/shell_detect.rs\<close> and \<open>core/src/shell.rs\<close>), in the Unix build: which
  shell a path names, where the host's binary for it is, and the command line that runs a script in
  it. The file system, the password entry and the search path are answers of the host.
\<close>

section \<open>Shell types\<close>

datatype shell_type = Zsh | Bash | PowerShell | Sh | Cmd

fun shell_type_name :: "shell_type \<Rightarrow> string" where
  "shell_type_name Zsh = ''zsh''"
| "shell_type_name Bash = ''bash''"
| "shell_type_name PowerShell = ''powershell''"
| "shell_type_name Sh = ''sh''"
| "shell_type_name Cmd = ''cmd''"

record shell =
  shell_type :: shell_type
  shell_path :: string

text \<open>\<open>Path::components\<close> drops \<open>.\<close> except in front; \<open>file_stem\<close> looks at the last component.\<close>

definition std_components :: "string \<Rightarrow> path_component list" where
  "std_components p =
     (case path_components p of [] \<Rightarrow> [] | c # cs \<Rightarrow> c # filter (\<lambda>c. c \<noteq> CurDir) cs)"

definition name_stem :: "string \<Rightarrow> string" where
  "name_stem n =
     (let ext = takeWhile (\<lambda>c. c \<noteq> CHR ''.'') (rev n); before = drop (length ext) (rev n) in
      if length before \<le> 1 then n else rev (tl before))"

definition file_stem :: "string \<Rightarrow> string option" where
  "file_stem p =
     (case last_opt (std_components p) of Some (Normal n) \<Rightarrow> Some (name_stem n) | _ \<Rightarrow> None)"

lemma join_with_member:
  "x \<in> set xs \<Longrightarrow> xs = [x] \<or> length x < length (join_with [c] xs)"
  by (induction "[c]" xs rule: join_with.induct) auto

lemma segment_length: "x \<in> set (split_on c p) \<Longrightarrow> x = p \<or> length x < length p"
  using join_with_member [of x "split_on c p" c] join_with_split_on [of c p] by auto

lemma name_stem_length: "length (name_stem n) \<le> length n \<and> (length (name_stem n) = length n \<longrightarrow> name_stem n = n)"
  by (auto simp: name_stem_def Let_def)

lemma last_opt_in_set: "last_opt xs = Some x \<Longrightarrow> x \<in> set xs"
  by (auto simp: last_opt_conv split: if_splits)

lemma normal_is_segment:
  assumes "last_opt (std_components p) = Some (Normal n)"
  shows "n \<in> set (split_on (CHR ''/'') p)"
proof -
  from assms have "Normal n \<in> set (std_components p)"
    by (rule last_opt_in_set)
  then have "Normal n \<in> set (path_components p)"
    by (cases "path_components p") (auto simp: std_components_def)
  then show ?thesis
    by (auto simp: path_components_def segment_component_def split: if_splits)
qed

lemma file_stem_shorter:
  assumes "file_stem p = Some s" "std_components s \<noteq> std_components p"
  shows "length s < length p"
proof -
  from assms(1) obtain n where n: "last_opt (std_components p) = Some (Normal n)" "s = name_stem n"
    by (auto simp: file_stem_def split: option.splits path_component.splits)
  have "n = p \<or> length n < length p" by (rule segment_length [OF normal_is_segment [OF n(1)]])
  moreover have "s \<noteq> p" using assms(2) by auto
  moreover have "length s < length n \<or> s = n" using name_stem_length [of n] n(2) by auto
  ultimately show ?thesis by auto
qed

function detect_shell_type :: "string \<Rightarrow> shell_type option" where
  "detect_shell_type p =
     (if p = ''zsh'' then Some Zsh
      else if p = ''sh'' then Some Sh
      else if p = ''cmd'' then Some Cmd
      else if p = ''bash'' then Some Bash
      else if p = ''pwsh'' then Some PowerShell
      else if p = ''powershell'' then Some PowerShell
      else case file_stem p of
        None \<Rightarrow> None
      | Some name \<Rightarrow> if std_components name \<noteq> std_components p then detect_shell_type name else None)"
  by pat_completeness auto

termination
  by (relation "measure length") (auto intro: file_stem_shorter)

declare detect_shell_type.simps [simp del]

section \<open>Finding the binary\<close>

definition file_exists :: "host_os \<Rightarrow> string \<Rightarrow> string option" where
  "file_exists os p = (if os_is_file os p then Some p else None)"

definition get_shell_path ::
  "host_os \<Rightarrow> shell_type \<Rightarrow> string option \<Rightarrow> string \<Rightarrow> string list \<Rightarrow> string option" where
  "get_shell_path os t provided_path binary_name fallback_paths =
     (case Option.bind provided_path (file_exists os) of
        Some path \<Rightarrow> Some path
      | None \<Rightarrow>
          (case option_filter (\<lambda>d. detect_shell_type d = Some t \<and> file_exists os d \<noteq> None)
                  (os_user_shell_path os) of
             Some default_shell_path \<Rightarrow> Some default_shell_path
           | None \<Rightarrow>
               (case os_which os binary_name of
                  Some path \<Rightarrow> Some path
                | None \<Rightarrow> find_map (file_exists os) fallback_paths)))"

definition ZSH_FALLBACK_PATHS :: "string list" where
  "ZSH_FALLBACK_PATHS = [''/bin/zsh'']"

definition get_zsh_shell :: "host_os \<Rightarrow> string option \<Rightarrow> shell option" where
  "get_zsh_shell os path =
     map_option (\<lambda>p. \<lparr> shell_type = Zsh, shell_path = p \<rparr>)
       (get_shell_path os Zsh path ''zsh'' ZSH_FALLBACK_PATHS)"

definition BASH_FALLBACK_PATHS :: "string list" where
  "BASH_FALLBACK_PATHS = [''/bin/bash'', ''/usr/bin/bash'']"

definition get_bash_shell :: "host_os \<Rightarrow> string option \<Rightarrow> shell option" where
  "get_bash_shell os path =
     map_option (\<lambda>p. \<lparr> shell_type = Bash, shell_path = p \<rparr>)
       (get_shell_path os Bash path ''bash'' BASH_FALLBACK_PATHS)"

definition SH_FALLBACK_PATHS :: "string list" where
  "SH_FALLBACK_PATHS = [''/bin/sh'']"

definition get_sh_shell :: "host_os \<Rightarrow> string option \<Rightarrow> shell option" where
  "get_sh_shell os path =
     map_option (\<lambda>p. \<lparr> shell_type = Sh, shell_path = p \<rparr>)
       (get_shell_path os Sh path ''sh'' SH_FALLBACK_PATHS)"

definition PWSH_FALLBACK_PATHS :: "string list" where
  "PWSH_FALLBACK_PATHS = [''/usr/local/bin/pwsh'']"

definition POWERSHELL_FALLBACK_PATHS :: "string list" where
  "POWERSHELL_FALLBACK_PATHS = []"

definition get_powershell_shell :: "host_os \<Rightarrow> string option \<Rightarrow> shell option" where
  "get_powershell_shell os path =
     map_option (\<lambda>p. \<lparr> shell_type = PowerShell, shell_path = p \<rparr>)
       (or_else (get_shell_path os PowerShell path ''pwsh'' PWSH_FALLBACK_PATHS)
          (get_shell_path os PowerShell path ''powershell'' POWERSHELL_FALLBACK_PATHS))"

definition get_cmd_shell :: "host_os \<Rightarrow> string option \<Rightarrow> shell option" where
  "get_cmd_shell os path =
     map_option (\<lambda>p. \<lparr> shell_type = Cmd, shell_path = p \<rparr>)
       (get_shell_path os Cmd path ''cmd'' [])"

definition ultimate_fallback_shell :: shell where
  "ultimate_fallback_shell = \<lparr> shell_type = Sh, shell_path = ''/bin/sh'' \<rparr>"

fun get_shell :: "host_os \<Rightarrow> shell_type \<Rightarrow> string option \<Rightarrow> shell option" where
  "get_shell os Zsh path = get_zsh_shell os path"
| "get_shell os Bash path = get_bash_shell os path"
| "get_shell os PowerShell path = get_powershell_shell os path"
| "get_shell os Sh path = get_sh_shell os path"
| "get_shell os Cmd path = get_cmd_shell os path"

definition get_shell_by_model_provided_path :: "host_os \<Rightarrow> string \<Rightarrow> shell" where
  "get_shell_by_model_provided_path os p =
     unwrap_or ultimate_fallback_shell
       (Option.bind (detect_shell_type p) (\<lambda>t. get_shell os t (Some p)))"

definition default_user_shell_from_path :: "host_os \<Rightarrow> string option \<Rightarrow> shell" where
  "default_user_shell_from_path os user_shell_path =
     (let user_default_shell =
            Option.bind (Option.bind user_shell_path detect_shell_type) (\<lambda>t. get_shell os t None);
          shell_with_fallback =
            (if os_macos os
             then or_else (or_else user_default_shell (get_shell os Zsh None)) (get_shell os Bash None)
             else or_else (or_else user_default_shell (get_shell os Bash None)) (get_shell os Zsh None)) in
      unwrap_or ultimate_fallback_shell shell_with_fallback)"

definition default_user_shell :: "host_os \<Rightarrow> shell" where
  "default_user_shell os = default_user_shell_from_path os (os_user_shell_path os)"

section \<open>Using a shell\<close>

fun derive_exec_args :: "shell \<Rightarrow> string \<Rightarrow> bool \<Rightarrow> string list" where
  "derive_exec_args s command use_login_shell =
     (case shell_type s of
        PowerShell \<Rightarrow>
          [from_utf8_lossy (shell_path s)] @ (if \<not> use_login_shell then [''-NoProfile''] else []) @
          [''-Command'', command]
      | Cmd \<Rightarrow> [from_utf8_lossy (shell_path s), ''/c'', command]
      | _ \<Rightarrow> [from_utf8_lossy (shell_path s), if use_login_shell then ''-lc'' else ''-c'', command])"

record shell_info =
  info_name :: string
  info_path :: string

definition from_environment_shell_info :: "shell_info \<Rightarrow> shell option" where
  "from_environment_shell_info i =
     (let n = info_name i; mk = (\<lambda>t. Some \<lparr> shell_type = t, shell_path = info_path i \<rparr>) in
      if n = ''zsh'' then mk Zsh
      else if n = ''bash'' then mk Bash
      else if n = ''powershell'' then mk PowerShell
      else if n = ''sh'' then mk Sh
      else if n = ''cmd'' then mk Cmd
      else None)"

section \<open>The shell a path resolves to\<close>

lemma find_map_file_exists:
  "find_map (file_exists os) ps = Some q \<Longrightarrow> q \<in> set ps \<and> os_is_file os q"
  by (induction ps) (auto simp: file_exists_def split: if_splits)

lemma get_shell_path_Some:
  assumes "get_shell_path os t provided b fallbacks = Some q"
  shows "provided = Some q \<and> os_is_file os q \<or>
         (\<forall>p. provided = Some p \<longrightarrow> \<not> os_is_file os p) \<and>
         (os_user_shell_path os = Some q \<and> detect_shell_type q = Some t \<and> os_is_file os q \<or>
          os_which os b = Some q \<or> q \<in> set fallbacks \<and> os_is_file os q)"
  using assms
  by (auto simp: get_shell_path_def option_filter_conv file_exists_def bind_eq_Some_conv bind_eq_None_conv
      split: option.splits if_splits dest: find_map_file_exists)

lemma get_shell_path_provided:
  "os_is_file os p \<Longrightarrow> get_shell_path os t (Some p) b fallbacks = Some p"
  by (simp add: get_shell_path_def file_exists_def)

lemmas get_shell_defs = get_zsh_shell_def get_bash_shell_def get_sh_shell_def
  get_powershell_shell_def get_cmd_shell_def

lemma get_shell_provided: "os_is_file os p \<Longrightarrow> get_shell os t (Some p) = Some \<lparr> shell_type = t, shell_path = p \<rparr>"
  by (cases t) (simp_all add: get_shell_defs get_shell_path_provided)

lemma get_shell_Some:
  assumes "get_shell os t provided = Some s"
  shows "shell_type s = t \<and> (\<exists>b fallbacks. get_shell_path os t provided b fallbacks = Some (shell_path s))"
  using assms
  by (cases t) (auto simp: get_shell_defs or_else_conv split: option.splits intro!: exI elim: sym)

text \<open>
  A shell path is resolved on the host: an existing host file named after a known shell is used
  as it is; otherwise the result is a shell of the same type taken from the host's password entry,
  search path or fallback locations, or \<open>/bin/sh\<close>.
\<close>

theorem get_shell_by_model_provided_path_spec:
  "let s = get_shell_by_model_provided_path os p in
     (if os_is_file os p
      then s = (case detect_shell_type p of None \<Rightarrow> ultimate_fallback_shell
                | Some t \<Rightarrow> \<lparr> shell_type = t, shell_path = p \<rparr>)
      else s = ultimate_fallback_shell \<or>
           detect_shell_type p = Some (shell_type s) \<and>
           (os_user_shell_path os = Some (shell_path s) \<or> (\<exists>b. os_which os b = Some (shell_path s)) \<or>
            os_is_file os (shell_path s)))"
proof (cases "os_is_file os p")
  case True
  then show ?thesis
    by (auto simp: get_shell_by_model_provided_path_def get_shell_provided split: option.splits)
next
  case False
  show ?thesis
  proof (cases "Option.bind (detect_shell_type p) (\<lambda>t. get_shell os t (Some p))")
    case None
    with False show ?thesis by (simp add: get_shell_by_model_provided_path_def)
  next
    case (Some s)
    then obtain t where "detect_shell_type p = Some t" "get_shell os t (Some p) = Some s"
      by (auto simp: bind_eq_Some_conv)
    with False get_shell_Some [of os t "Some p" s] get_shell_path_Some Some show ?thesis
      by (fastforce simp: get_shell_by_model_provided_path_def)
  qed
qed

end
