(* ===== verification/EnvSwitch.thy ===== *)
theory EnvSwitch
  imports EnvManager Provision FsSandbox ShellDetect
begin

text \<open>
  The \<open>env_switch\<close> tool (\<open>core/src/tools/handlers/env_switch.rs\<close>) and the resolution of the
  environment of a tool call (\<open>core/src/tools/handlers/mod.rs\<close>). A handler takes the shared manager
  and the history of external events, and returns its result with both after the call. A cwd
  URI is kept as the absolute path it denotes.
\<close>

section \<open>Sessions and turns\<close>

record granular_approval_config =
  sandbox_approval :: bool
  rules_approval :: bool
  skill_approval :: bool
  request_permissions :: bool
  mcp_elicitations :: bool

datatype ask_for_approval =
    UnlessTrusted | OnFailure | OnRequest | Granular granular_approval_config | Never

record turn_environment =
  te_environment_id :: string
  te_environment :: environment
  te_cwd :: abs_path
  te_shell :: "shell option"

record turn_environment_selection =
  tes_environment_id :: string
  tes_cwd :: abs_path

text \<open>The fields of \<open>Session\<close> and \<open>TurnContext\<close> the tools read.\<close>

record session =
  ses_thread_id :: string

record turn_context =
  turn_parent_thread_id :: "string option"
  turn_environments :: "turn_environment list"
  turn_cwd :: abs_path
  turn_permission_profile :: permission_profile
  turn_approval_policy :: ask_for_approval

definition selection :: "turn_environment \<Rightarrow> turn_environment_selection" where
  "selection te = \<lparr> tes_environment_id = te_environment_id te, tes_cwd = te_cwd te \<rparr>"

section \<open>Errors\<close>

datatype function_call_error =
    AddressingModeMissing
  | AddressingModesExclusive
  | BaseNeedsExtend
  | TopLevelFieldsWithExtend
  | TopLevelFieldsWithHops
  | FieldsWithLocal
  | HostWithDocker
  | ContainerWithSsh
  | HopMissingHost
  | HopMissingContainer
  | HopBadHost hop_value_error
  | HopBadContainer hop_value_error
  | HopUnknownType string
  | BaseNotVisible string
  | BaseInvalid string launcher_id_error
  | NoImplicitBase
  | HopsEmpty
  | TargetMissingContainer
  | TargetMissingHost
  | TargetBadContainer hop_value_error
  | TargetBadHost hop_value_error
  | UnsupportedTarget string
  | CwdOnlyRemote
  | LocalNotRegistered
  | ExternalSandboxUnavailable
  | ProvisionFailed provision_error
  | RemoteCwdFailed string string
  | RemoteCwdEmpty
  | RemoteCwdNotAbsolute string
  | EmptyArgv
  | RegisterFailed string exec_server_error
  | UnknownTurnEnvironment string
  | MissingCwdMetadata string
  | InvalidCwdMetadata string string
  | LocalHostNotRegistered

section \<open>Which environments a thread sees\<close>

definition environment_thread_keys :: "session \<Rightarrow> turn_context \<Rightarrow> string list" where
  "environment_thread_keys session turn =
     [ses_thread_id session] @
     (case turn_parent_thread_id turn of None \<Rightarrow> []
      | Some parent \<Rightarrow> if parent \<noteq> ses_thread_id session then [parent] else [])"

definition dynamic_environment_visible_to_thread ::
  "environment_manager \<Rightarrow> session \<Rightarrow> turn_context \<Rightarrow> string \<Rightarrow> bool" where
  "dynamic_environment_visible_to_thread m session turn i \<longleftrightarrow>
     list_ex (\<lambda>k. i \<in> set (get_thread_environment_ids m k)) (environment_thread_keys session turn)"

definition last_env_switch_environment_id ::
  "environment_manager \<Rightarrow> session \<Rightarrow> turn_context \<Rightarrow> string option" where
  "last_env_switch_environment_id m session turn =
     find_map (get_last_environment_id m) (environment_thread_keys session turn)"

definition primary_environment :: "turn_context \<Rightarrow> turn_environment option" where
  "primary_environment turn =
     (case turn_environments turn of [] \<Rightarrow> None | te # _ \<Rightarrow> Some te)"

definition default_tool_environment_id ::
  "environment_manager \<Rightarrow> session \<Rightarrow> turn_context \<Rightarrow> string option" where
  "default_tool_environment_id m session turn =
     or_else (last_env_switch_environment_id m session turn)
       (map_option te_environment_id (primary_environment turn))"

definition find_turn_environment :: "turn_context \<Rightarrow> string \<Rightarrow> turn_environment option" where
  "find_turn_environment turn i = find (\<lambda>te. te_environment_id te = i) (turn_environments turn)"

section \<open>Resolving the environment of a tool call\<close>

definition turn_environment_from_env_switch_metadata ::
  "host_os \<Rightarrow> environment_manager \<Rightarrow> session \<Rightarrow> turn_context \<Rightarrow> string
     \<Rightarrow> function_call_error + turn_environment" where
  "turn_environment_from_env_switch_metadata os m session turn i =
     (case get_environment m i of
        None \<Rightarrow> Inl (UnknownTurnEnvironment i)
      | Some environment \<Rightarrow>
          (case get_thread_environment_metadata_for_keys m (environment_thread_keys session turn) i of
             None \<Rightarrow> Inl (MissingCwdMetadata i)
           | Some meta \<Rightarrow>
               (case from_absolute_path_checked os (meta_cwd meta) of
                  None \<Rightarrow> Inl (InvalidCwdMetadata i (meta_cwd meta))
                | Some cwd \<Rightarrow>
                    Inr \<lparr> te_environment_id = i, te_environment = environment, te_cwd = cwd,
                          te_shell = map_option (get_shell_by_model_provided_path os) (meta_shell meta) \<rparr>)))"

definition resolve_local :: "environment_manager \<Rightarrow> turn_context
     \<Rightarrow> function_call_error + turn_environment option" where
  "resolve_local m turn =
     (case find_turn_environment turn LOCAL_ENVIRONMENT_ID of
        Some found \<Rightarrow> Inr (Some found)
      | None \<Rightarrow>
          (case try_local_environment m of
             Some environment \<Rightarrow>
               Inr (Some \<lparr> te_environment_id = LOCAL_ENVIRONMENT_ID, te_environment = environment,
                           te_cwd = turn_cwd turn, te_shell = None \<rparr>)
           | None \<Rightarrow> Inl LocalHostNotRegistered))"

definition resolve_named ::
  "host_os \<Rightarrow> environment_manager \<Rightarrow> session \<Rightarrow> turn_context \<Rightarrow> bool \<Rightarrow> string
     \<Rightarrow> function_call_error + turn_environment option" where
  "resolve_named os m session turn implicit_from_env_switch i =
     (if i = LOCAL_ENVIRONMENT_ID then resolve_local m turn
      else if implicit_from_env_switch then
        try_bind (turn_environment_from_env_switch_metadata os m session turn i) (\<lambda>te. Inr (Some te))
      else
        (case find_turn_environment turn i of
           Some found \<Rightarrow> Inr (Some found)
         | None \<Rightarrow>
             if \<not> dynamic_environment_visible_to_thread m session turn i
             then Inl (UnknownTurnEnvironment i)
             else if get_environment m i \<noteq> None then
               try_bind (turn_environment_from_env_switch_metadata os m session turn i) (\<lambda>te. Inr (Some te))
             else Inl (UnknownTurnEnvironment i)))"

definition resolve_tool_environment ::
  "host_os \<Rightarrow> environment_manager \<Rightarrow> session \<Rightarrow> turn_context \<Rightarrow> string option
     \<Rightarrow> function_call_error + turn_environment option" where
  "resolve_tool_environment os m session turn environment_id =
     (case environment_id of
        Some i \<Rightarrow> resolve_named os m session turn False i
      | None \<Rightarrow>
          (case default_tool_environment_id m session turn of
             None \<Rightarrow> Inr None
           | Some i \<Rightarrow>
               resolve_named os m session turn
                 (last_env_switch_environment_id m session turn = Some i) i))"

text \<open>\<open>environment_selections_with_default\<close>: the metadata a thread sees, with the global fallback.\<close>

definition selection_metadata ::
  "environment_manager \<Rightarrow> session \<Rightarrow> turn_context \<Rightarrow> string \<Rightarrow> environment_metadata option" where
  "selection_metadata m session turn i =
     or_else (get_thread_environment_metadata_for_keys m (environment_thread_keys session turn) i)
       (get_environment_metadata m i)"

fun position :: "('a \<Rightarrow> bool) \<Rightarrow> 'a list \<Rightarrow> nat option" where
  "position p [] = None"
| "position p (x # xs) = (if p x then Some 0 else map_option Suc (position p xs))"

definition environment_selections_with_default ::
  "host_os \<Rightarrow> environment_manager \<Rightarrow> session \<Rightarrow> turn_context \<Rightarrow> turn_environment_selection list" where
  "environment_selections_with_default os m session turn =
     (let selections = map selection (turn_environments turn) in
      case default_tool_environment_id m session turn of
        None \<Rightarrow> selections
      | Some d \<Rightarrow>
          (case position (\<lambda>s. tes_environment_id s = d) selections of
             Some index \<Rightarrow>
               let default_selection = selections ! index;
                   cwd = (if d = LOCAL_ENVIRONMENT_ID then None
                          else Option.bind (selection_metadata m session turn d)
                                 (\<lambda>md. from_absolute_path_checked os (meta_cwd md)));
                   default_selection = (case cwd of None \<Rightarrow> default_selection
                     | Some cwd \<Rightarrow> default_selection\<lparr> tes_cwd := cwd \<rparr>) in
               default_selection # (take index selections @ drop (Suc index) selections)
           | None \<Rightarrow>
               let cwd = (if d = LOCAL_ENVIRONMENT_ID
                          then (case try_local_environment m of None \<Rightarrow> None | Some _ \<Rightarrow> Some (turn_cwd turn))
                          else if get_environment m d = None then None
                          else Option.bind (selection_metadata m session turn d)
                                 (\<lambda>md. from_absolute_path_checked os (meta_cwd md))) in
               (case cwd of None \<Rightarrow> selections
                | Some cwd \<Rightarrow> \<lparr> tes_environment_id = d, tes_cwd = cwd \<rparr> # selections)))"

section \<open>Arguments of env_switch\<close>

record hop_arg =
  ha_type :: string
  ha_host :: "string option"
  ha_container :: "string option"

record env_switch_args =
  esa_target :: "string option"
  esa_container :: "string option"
  esa_host :: "string option"
  esa_cwd :: "string option"
  esa_hops :: "hop_arg list option"
  esa_base :: "string option"
  esa_extend :: "hop_arg option"

definition hop_from_arg :: "hop_arg \<Rightarrow> function_call_error + hop" where
  "hop_from_arg arg =
     (if ha_type arg = ''ssh'' then
        try_bind (ok_or HopMissingHost (ha_host arg)) (\<lambda>host.
        try_bind (map_err HopBadHost (validate_hop_value host)) (\<lambda>_. Inr (Ssh host)))
      else if ha_type arg = ''docker'' then
        try_bind (ok_or HopMissingContainer (ha_container arg)) (\<lambda>container.
        try_bind (map_err HopBadContainer (validate_hop_value container)) (\<lambda>_. Inr (Docker container)))
      else Inl (HopUnknownType (ha_type arg)))"

definition validate_addressing_mode :: "env_switch_args \<Rightarrow> function_call_error + unit" where
  "validate_addressing_mode args =
     (let has_target = (case esa_target args of None \<Rightarrow> False | Some t \<Rightarrow> t \<noteq> []);
          has_hops = (esa_hops args \<noteq> None);
          has_extend = (esa_extend args \<noteq> None);
          mode_count = length (filter id [has_target, has_hops, has_extend]);
          has_fields = (esa_host args \<noteq> None \<or> esa_container args \<noteq> None) in
      if mode_count = 0 then Inl AddressingModeMissing
      else if mode_count > 1 then Inl AddressingModesExclusive
      else if esa_base args \<noteq> None \<and> \<not> has_extend then Inl BaseNeedsExtend
      else if has_extend \<and> has_fields then Inl TopLevelFieldsWithExtend
      else if has_hops \<and> has_fields then Inl TopLevelFieldsWithHops
      else if esa_target args = Some ''local'' \<and> has_fields then Inl FieldsWithLocal
      else if esa_target args = Some ''docker'' \<and> esa_host args \<noteq> None then Inl HostWithDocker
      else if esa_target args = Some ''ssh'' \<and> esa_container args \<noteq> None then Inl ContainerWithSsh
      else Inr ())"

section \<open>Remote commands of the handler\<close>

definition RUN_REMOTE_TIMEOUT_SECS :: string where
  "RUN_REMOTE_TIMEOUT_SECS = ''20''"

text \<open>\<open>(success, stdout, stderr)\<close> of a script on the remote.\<close>

definition run_remote ::
  "world \<Rightarrow> remote_launcher \<Rightarrow> string \<Rightarrow> trace \<Rightarrow> (bool \<times> string \<times> string) \<times> trace" where
  "run_remote W l script tr =
     (let argv = shell_argv l script in
      if argv = [] then ((False, [], ''empty argv''), tr)
      else
        let tr' = tr @ [Spawn argv []] in
        ((case w_spawn W tr' of
            Exited code stdout stderr \<Rightarrow>
              (code = Some 0, from_utf8_lossy stdout, trim (from_utf8_lossy stderr))
          | SpawnFailed e \<Rightarrow> (False, [], e)
          | TimedOut \<Rightarrow> (False, [], ''timed out after '' @ RUN_REMOTE_TIMEOUT_SECS @ ''s'')), tr'))"

definition remote_cwd_shell_expr :: "string \<Rightarrow> string" where
  \<open>remote_cwd_shell_expr cwd =
     (if cwd = ''~'' then ''"$HOME"''
      else case strip_prefix ''~/'' cwd of
        Some rest \<Rightarrow> ''"$HOME"/'' @ posix_single_quote rest
      | None \<Rightarrow> posix_single_quote cwd)\<close>

definition resolve_remote_cwd_script :: "string option \<Rightarrow> string" where
  \<open>resolve_remote_cwd_script cwd =
     (let cwd_expr = unwrap_or ''"$HOME"''
            (map_option remote_cwd_shell_expr (option_filter (\<lambda>cwd. cwd \<noteq> []) cwd)) in
      ''_codex_cwd='' @ cwd_expr @ [nl] @
      ''mkdir -p -- "$_codex_cwd" && cd -P -- "$_codex_cwd" && printf '%s' "$PWD"'')\<close>

section \<open>Choosing the base of relative mode\<close>

definition implicit_base_launcher ::
  "environment_manager \<Rightarrow> session \<Rightarrow> turn_context \<Rightarrow> remote_launcher option" where
  "implicit_base_launcher m session turn =
     (case get_last_environment_id m (ses_thread_id session) of
        Some i \<Rightarrow>
          if i = LOCAL_ENVIRONMENT_ID then None else get_last_launcher m (ses_thread_id session)
      | None \<Rightarrow> find_map (get_last_launcher m) (drop 1 (environment_thread_keys session turn)))"

definition base_environment_visible ::
  "environment_manager \<Rightarrow> session \<Rightarrow> turn_context \<Rightarrow> string \<Rightarrow> bool" where
  "base_environment_visible m session turn i \<longleftrightarrow>
     list_ex (\<lambda>te. te_environment_id te = i) (turn_environments turn) \<or>
     dynamic_environment_visible_to_thread m session turn i"

definition base_launcher_for ::
  "environment_manager \<Rightarrow> session \<Rightarrow> turn_context \<Rightarrow> string option \<Rightarrow> function_call_error + remote_launcher" where
  "base_launcher_for m session turn base =
     (case base of
        Some base_id \<Rightarrow>
          if \<not> base_environment_visible m session turn base_id then Inl (BaseNotVisible base_id)
          else map_err (BaseInvalid base_id) (from_id base_id)
      | None \<Rightarrow> ok_or NoImplicitBase (implicit_base_launcher m session turn))"

section \<open>The switch itself\<close>

text \<open>What a successful call reports; \<open>badge\<close> is the active environment shown to the user.\<close>

datatype switch_output =
    LocalSwitched
  | RemoteSwitched string string string string "string option"

definition emit_dynamic_environment_badge :: "string \<Rightarrow> string option" where
  "emit_dynamic_environment_badge i =
     (if i = [] \<or> i = LOCAL_ENVIRONMENT_ID then None else Some i)"

record switch_result =
  sr_output :: switch_output
  sr_badge :: "string option"

definition handle_local_switch ::
  "choosers \<Rightarrow> session \<Rightarrow> string option \<Rightarrow> environment_manager
     \<Rightarrow> (function_call_error + switch_result) \<times> environment_manager" where
  "handle_local_switch picks session explicit_cwd m =
     (if (case explicit_cwd of None \<Rightarrow> False | Some cwd \<Rightarrow> cwd \<noteq> []) then (Inl CwdOnlyRemote, m)
      else if try_local_environment m = None then (Inl LocalNotRegistered, m)
      else
        let thread_key = ses_thread_id session;
            m = clear_last_launcher thread_key m;
            m = set_last_environment_id picks thread_key LOCAL_ENVIRONMENT_ID m;
            m = record_thread_environment_id picks thread_key LOCAL_ENVIRONMENT_ID m in
        (Inr \<lparr> sr_output = LocalSwitched,
               sr_badge = emit_dynamic_environment_badge LOCAL_ENVIRONMENT_ID \<rparr>, m))"

definition derive_exec_server_policy_flags :: "turn_context \<Rightarrow> string list" where
  "derive_exec_server_policy_flags turn =
     (let sandbox_tag =
            (case turn_permission_profile turn of
               ProfileDisabled \<Rightarrow> ''danger-full-access''
             | External _ \<Rightarrow> ''workspace-write''
             | Managed _ _ \<Rightarrow>
                 if has_full_disk_write_access (file_system_sandbox_policy_of (turn_permission_profile turn))
                 then ''danger-full-access'' else ''workspace-write'');
          approval_tag = (case turn_approval_policy turn of Never \<Rightarrow> ''never'' | _ \<Rightarrow> ''on-failure'') in
      [''-c'', ''sandbox_mode='' @ sandbox_tag, ''-c'', ''approval_policy='' @ approval_tag])"

definition exec_server_inner :: "turn_context \<Rightarrow> string \<Rightarrow> string list" where
  "exec_server_inner turn codex_path =
     [codex_path, ''exec-server'', ''--listen'', ''stdio''] @ derive_exec_server_policy_flags turn"

text \<open>Steps 4 and 5: metadata first, then the registration, then the cursors.\<close>

definition register_remote ::
  "choosers \<Rightarrow> session \<Rightarrow> turn_context \<Rightarrow> remote_launcher \<Rightarrow> provisioned_codex \<Rightarrow> string
     \<Rightarrow> environment_manager \<Rightarrow> (function_call_error + switch_result) \<times> environment_manager" where
  "register_remote picks session turn l p remote_cwd m =
     (let environment_id = launcher_id l;
          thread_key = ses_thread_id session;
          metadata = \<lparr> meta_cwd = remote_cwd, meta_shell = pc_shell p \<rparr>;
          m = set_environment_metadata picks environment_id metadata m;
          m = set_thread_environment_metadata picks thread_key environment_id metadata m in
      case exec_argv l (exec_server_inner turn (pc_codex_path p)) of
        [] \<Rightarrow> (Inl EmptyArgv, m)
      | program # args \<Rightarrow>
          (case upsert_stdio_environment environment_id program args [] None m of
             Inl e \<Rightarrow> (Inl (RegisterFailed environment_id e), m)
           | Inr m \<Rightarrow>
               let m = set_last_launcher picks thread_key l m;
                   m = set_last_environment_id picks thread_key environment_id m;
                   m = record_thread_environment_id picks thread_key environment_id m in
               (Inr \<lparr> sr_output = RemoteSwitched environment_id (pc_version p) (pc_codex_path p)
                        remote_cwd (pc_warning p),
                      sr_badge = emit_dynamic_environment_badge environment_id \<rparr>, m)))"

definition handle_remote_switch ::
  "choosers \<Rightarrow> world \<Rightarrow> host_os \<Rightarrow> session \<Rightarrow> turn_context \<Rightarrow> remote_launcher \<Rightarrow> string option
     \<Rightarrow> environment_manager \<Rightarrow> trace
     \<Rightarrow> (function_call_error + switch_result) \<times> environment_manager \<times> trace" where
  "handle_remote_switch picks W os session turn l explicit_cwd m tr =
     (case turn_permission_profile turn of
        External _ \<Rightarrow> (Inl ExternalSandboxUnavailable, m, tr)
      | _ \<Rightarrow>
        (case ensure_remote_codex W l HostVersion tr of
           (Inl e, tr) \<Rightarrow> (Inl (ProvisionFailed e), m, tr)
         | (Inr p, tr) \<Rightarrow>
           (case run_remote W l (resolve_remote_cwd_script explicit_cwd) tr of
              ((ok, cwd_out, err), tr) \<Rightarrow>
                if \<not> ok then (Inl (RemoteCwdFailed (unwrap_or ''$HOME'' explicit_cwd) err), m, tr)
                else if cwd_out = [] then (Inl RemoteCwdEmpty, m, tr)
                else if from_absolute_path_checked os cwd_out = None
                  then (Inl (RemoteCwdNotAbsolute cwd_out), m, tr)
                else case register_remote picks session turn l p cwd_out m of
                  (r, m) \<Rightarrow> (r, m, tr))))"

text \<open>The launcher an accepted call asks for; \<open>None\<close> is the local host.\<close>

definition requested_launcher ::
  "environment_manager \<Rightarrow> session \<Rightarrow> turn_context \<Rightarrow> env_switch_args
     \<Rightarrow> function_call_error + remote_launcher option" where
  "requested_launcher m session turn args =
     try_bind (validate_addressing_mode args) (\<lambda>_.
     case esa_extend args of
       Some extend_arg \<Rightarrow>
         try_bind (hop_from_arg extend_arg) (\<lambda>extend_hop.
         try_bind (base_launcher_for m session turn (esa_base args)) (\<lambda>base_launcher.
         Inr (Some (with_appended_hop base_launcher extend_hop))))
     | None \<Rightarrow>
       (case esa_hops args of
          Some hop_args \<Rightarrow>
            if hop_args = [] then Inl HopsEmpty
            else try_bind (collect_results hop_from_arg hop_args) (\<lambda>hops. Inr (Some (layered hops)))
        | None \<Rightarrow>
            let target = unwrap_or [] (esa_target args) in
            if target = ''local'' then Inr None
            else if target = ''docker'' then
              try_bind (ok_or TargetMissingContainer (esa_container args)) (\<lambda>container.
              try_bind (map_err TargetBadContainer (validate_hop_value container)) (\<lambda>_.
              Inr (Some (docker_launcher container))))
            else if target = ''ssh'' then
              try_bind (ok_or TargetMissingHost (esa_host args)) (\<lambda>host.
              try_bind (map_err TargetBadHost (validate_hop_value host)) (\<lambda>_.
              Inr (Some (ssh_launcher host))))
            else Inl (UnsupportedTarget target)))"

definition handle_env_switch ::
  "choosers \<Rightarrow> world \<Rightarrow> host_os \<Rightarrow> session \<Rightarrow> turn_context \<Rightarrow> env_switch_args
     \<Rightarrow> environment_manager \<Rightarrow> trace
     \<Rightarrow> (function_call_error + switch_result) \<times> environment_manager \<times> trace" where
  "handle_env_switch picks W os session turn args m tr =
     (case requested_launcher m session turn args of
        Inl e \<Rightarrow> (Inl e, m, tr)
      | Inr None \<Rightarrow>
          (case handle_local_switch picks session (esa_cwd args) m of (r, m) \<Rightarrow> (r, m, tr))
      | Inr (Some l) \<Rightarrow> handle_remote_switch picks W os session turn l (esa_cwd args) m tr)"

end
