(* ===== verification/EnvSwitch_Props.thy ===== *)
theory EnvSwitch_Props
  imports EnvSwitch EnvManager_Props Provision_Props
begin

text \<open>
  Correctness of env_switch: a successful switch is what later tool calls resolve to, a failed one
  leaves every selection as it was, threads do not see each other's switches, relative mode
  extends the base by one hop, and the local host stays the local host.
\<close>

section \<open>What the handlers do to the manager\<close>

lemmas mgr_op_defs =
  set_environment_metadata_def set_thread_environment_metadata_def set_last_launcher_def
  set_last_environment_id_def record_thread_environment_id_def clear_last_launcher_def Let_def

lemmas mgr_read_defs =
  get_last_launcher_def get_last_environment_id_def get_environment_def
  get_thread_environment_ids_def

lemma thread_metadata_read_back:
  "map_of (mgr_thread_env_metadata (set_thread_environment_metadata picks t i md m)) t =
     Some (capped_insert (picks ThreadMetadataEntries) MAX_ENV_METADATA_ENTRIES i md
       (unwrap_or [] (map_of (mgr_thread_env_metadata m) t)))"
  by (simp add: set_thread_environment_metadata_def Let_def update_conv' map_of_evict_for_same)

lemma push_recent_in [simp]: "i \<in> set (push_recent i ids)"
  by (simp add: push_recent_def)

lemma exec_argv_ne: "inner \<noteq> [] \<Longrightarrow> exec_argv l inner \<noteq> []"
  by (cases "hops l") (auto simp: exec_argv_def fold_hops_Cons wrap_hop_def fold_hops_def [of "[]"]
      split: hop.splits)

lemma register_remote_Inr:
  assumes "register_remote picks session turn l p cwd m = (Inr r, m')"
  shows "sr_output r = RemoteSwitched (launcher_id l) (pc_version p) (pc_codex_path p) cwd (pc_warning p)"
    and "sr_badge r = emit_dynamic_environment_badge (launcher_id l)"
    and "launcher_id l \<noteq> []"
    and "get_last_environment_id m' (ses_thread_id session) = Some (launcher_id l)"
    and "get_last_launcher m' (ses_thread_id session) = Some l"
    and "\<exists>program args. exec_argv l (exec_server_inner turn (pc_codex_path p)) = program # args \<and>
           get_environment m' (launcher_id l) = Some (remote_with_transport
             (StdioCommand \<lparr> cmd_program = program, cmd_args = args, cmd_env = [], cmd_cwd = None \<rparr>
               PROVISIONED_STDIO_INITIALIZE_TIMEOUT) (mgr_local_runtime_paths m))"
    and "get_thread_environment_metadata_for_keys m' (ses_thread_id session # ks) (launcher_id l) =
           Some \<lparr> meta_cwd = cwd, meta_shell = pc_shell p \<rparr>"
    and "launcher_id l \<in> set (get_thread_environment_ids m' (ses_thread_id session))"
  using assms thread_metadata_read_back
  by (auto simp: register_remote_def upsert_stdio_environment_def mgr_op_defs mgr_read_defs
      get_thread_environment_metadata_for_keys_def update_conv' map_of_capped_insert_same
      map_of_evict_for_same split: list.splits if_splits)

lemma register_remote_Inl:
  assumes "register_remote picks session turn l p cwd m = (Inl e, m')"
  shows "mgr_environments m' = mgr_environments m" "mgr_last_launcher m' = mgr_last_launcher m"
    "mgr_last_environment_id m' = mgr_last_environment_id m"
    "mgr_thread_environment_ids m' = mgr_thread_environment_ids m"
  using assms
  by (auto simp: register_remote_def upsert_stdio_environment_def mgr_op_defs
      split: list.splits if_splits)

lemma register_remote_launchers:
  assumes "register_remote picks session turn l p cwd m = (Inr r, m')"
  shows "mgr_last_launcher m' =
    capped_insert (picks LauncherMap) MAX_ENV_METADATA_ENTRIES (ses_thread_id session) l (mgr_last_launcher m)"
    "mgr_last_environment_id m' =
    capped_insert (picks LastEnvironmentMap) MAX_ENV_METADATA_ENTRIES (ses_thread_id session)
      (launcher_id l) (mgr_last_environment_id m)"
    "mgr_thread_environment_ids m' = mgr_thread_environment_ids
       (record_thread_environment_id picks (ses_thread_id session) (launcher_id l) m)"
  using assms
  by (auto simp: register_remote_def upsert_stdio_environment_def mgr_op_defs
      split: list.splits if_splits)

text \<open>The one way a remote switch succeeds.\<close>

lemma handle_remote_switch_cases:
  assumes "handle_remote_switch picks W os session turn l ecwd m tr = (res, m', tr')"
  obtains (failed) e where "res = Inl e" "m' = m"
  | (registered) p cwd where "register_remote picks session turn l p cwd m = (res, m')"
      "from_absolute_path_checked os cwd \<noteq> None"
      "\<And>n. turn_permission_profile turn \<noteq> External n"
proof -
  have "(\<exists>e. res = Inl e) \<and> m' = m \<or>
    (\<exists>p cwd. register_remote picks session turn l p cwd m = (res, m') \<and>
       from_absolute_path_checked os cwd \<noteq> None \<and> (\<forall>n. turn_permission_profile turn \<noteq> External n))"
    using assms unfolding handle_remote_switch_def
    by (auto split: permission_profile.splits prod.splits sum.splits if_splits)
  with failed registered show thesis by blast
qed


lemma handle_env_switch_remote:
  assumes "handle_env_switch picks W os session turn args m tr = (Inr r, m', tr')"
    "sr_output r = RemoteSwitched i v path cwd warn"
  obtains l p where "requested_launcher m session turn args = Inr (Some l)"
    "register_remote picks session turn l p cwd m = (Inr r, m')"
    "from_absolute_path_checked os cwd \<noteq> None" "i = launcher_id l" "path = pc_codex_path p"
    "\<And>n. turn_permission_profile turn \<noteq> External n"
proof -
  from assms have "requested_launcher m session turn args \<noteq> Inr None"
    by (auto simp: handle_env_switch_def handle_local_switch_def Let_def split: prod.splits if_splits)
  with assms(1) obtain l where l: "requested_launcher m session turn args = Inr (Some l)"
    "handle_remote_switch picks W os session turn l (esa_cwd args) m tr = (Inr r, m', tr')"
    by (auto simp: handle_env_switch_def split: sum.splits option.splits)
  from l(2) show thesis
  proof (cases rule: handle_remote_switch_cases)
    case (registered p cwd')
    with register_remote_Inr(1) [OF registered(1)] assms(2) l(1) that show thesis by simp
  qed simp
qed

lemma handle_env_switch_cursors:
  assumes "handle_env_switch picks W os session turn args m tr = (res, m', tr')"
  shows "mgr_last_environment_id m' = mgr_last_environment_id m \<and>
        mgr_thread_environment_ids m' = mgr_thread_environment_ids m \<or>
        (\<exists>j. mgr_last_environment_id m' =
            mgr_last_environment_id (set_last_environment_id picks (ses_thread_id session) j m) \<and>
          mgr_thread_environment_ids m' =
            mgr_thread_environment_ids (record_thread_environment_id picks (ses_thread_id session) j m))"
proof (cases "\<exists>l. requested_launcher m session turn args = Inr (Some l)")
  case True
  then obtain l where "handle_remote_switch picks W os session turn l (esa_cwd args) m tr = (res, m', tr')"
    using assms by (auto simp: handle_env_switch_def)
  then show ?thesis
  proof (cases rule: handle_remote_switch_cases)
    case (registered p cwd)
    then show ?thesis
      by (cases res) (auto dest: register_remote_Inl register_remote_launchers(2,3)
          simp: set_last_environment_id_def)
  qed simp
next
  case False
  with assms show ?thesis
    by (auto simp: handle_env_switch_def handle_local_switch_def mgr_op_defs
        split: sum.splits option.splits prod.splits if_splits)
qed

lemma id_segment_hd: "hd (id_segment h) \<in> {CHR ''d'', CHR ''s''}"
  by (cases h) (auto simp: id_segment_def)

lemma launcher_id_not_local:
  assumes "launcher_id l \<noteq> []"
  shows "launcher_id l \<noteq> LOCAL_ENVIRONMENT_ID"
proof -
  from assms obtain h hs where hs: "hops l = h # hs" by (cases "hops l") (auto simp: launcher_id_def)
  have "hd (launcher_id l) = hd (id_segment h)"
    by (cases hs) (simp_all add: launcher_id_def hs)
  with id_segment_hd [of h] show ?thesis by (auto simp: LOCAL_ENVIRONMENT_ID_def)
qed

lemma thread_keys_Cons:
  "\<exists>ks. environment_thread_keys session turn = ses_thread_id session # ks"
  by (simp add: environment_thread_keys_def)

lemma own_selection_wins:
  "get_last_environment_id m (ses_thread_id session) = Some i \<Longrightarrow>
     last_env_switch_environment_id m session turn = Some i \<and>
     default_tool_environment_id m session turn = Some i"
  by (simp add: last_env_switch_environment_id_def default_tool_environment_id_def
      environment_thread_keys_def)

section \<open>Validated launchers\<close>

definition launchers_valid :: "environment_manager \<Rightarrow> bool" where
  "launchers_valid m \<longleftrightarrow>
     list_all (\<lambda>(_, l). hops l \<noteq> [] \<and> list_all valid_hop (hops l)) (mgr_last_launcher m)"

lemma hop_from_arg_valid: "hop_from_arg a = Inr h \<Longrightarrow> valid_hop h"
  by (auto simp: hop_from_arg_def result_simps valid_hop_def split: if_splits)

lemma launchers_valid_get:
  "launchers_valid m \<Longrightarrow> get_last_launcher m t = Some l \<Longrightarrow> hops l \<noteq> [] \<and> list_all valid_hop (hops l)"
  by (auto simp: launchers_valid_def get_last_launcher_def list_all_iff dest: map_of_SomeD)

lemma from_id_valid: "from_id i = Inr l \<Longrightarrow> hops l \<noteq> [] \<and> list_all valid_hop (hops l)"
  using from_id_Inr by blast

lemma base_launcher_valid:
  assumes "launchers_valid m" "base_launcher_for m session turn base = Inr l"
  shows "hops l \<noteq> [] \<and> list_all valid_hop (hops l)"
  using assms
  by (auto simp: base_launcher_for_def implicit_base_launcher_def result_simps
      split: option.splits if_splits
      dest: from_id_valid launchers_valid_get elim!: find_map_SomeE)

lemma collect_hops_valid:
  assumes "collect_results hop_from_arg as = Inr hs" "as \<noteq> []"
  shows "hs \<noteq> [] \<and> list_all valid_hop hs"
proof -
  have *: "list_all2 (\<lambda>a h. hop_from_arg a = Inr h) as hs"
    using assms(1) by (simp add: collect_results_Inr)
  then have "list_all valid_hop hs"
    by (induction rule: list_all2_induct) (auto dest: hop_from_arg_valid)
  with * assms(2) show ?thesis by auto
qed

lemma valid_hop_simps:
  "valid_hop (Docker c) \<longleftrightarrow> validate_hop_value c = Inr ()"
  "valid_hop (Ssh h) \<longleftrightarrow> validate_hop_value h = Inr ()"
  by (simp_all add: valid_hop_def)

lemma requested_launcher_valid:
  assumes "launchers_valid m" "requested_launcher m session turn args = Inr (Some l)"
  shows "hops l \<noteq> [] \<and> list_all valid_hop (hops l)"
  using assms unfolding requested_launcher_def Let_def
  by (auto simp: result_simps with_appended_hop_def layered_def docker_launcher_def ssh_launcher_def
      valid_hop_simps split: option.splits if_splits
      dest: base_launcher_valid hop_from_arg_valid collect_hops_valid)

lemma list_all_capped_insert:
  "list_all P m \<Longrightarrow> P (k, v) \<Longrightarrow> list_all P (capped_insert pick cap k v m)"
  by (simp add: capped_insert_def list_all_update list_all_evict)

lemma join_with_snoc: "xs \<noteq> [] \<Longrightarrow> join_with sep (xs @ [y]) = join_with sep xs @ sep @ y"
  by (induction sep xs rule: join_with.induct) simp_all

section \<open>A sample session\<close>

definition sample_os :: host_os where
  "sample_os = sample_host (Some ''/home/u'')"

definition sample_turn :: turn_context where
  "sample_turn =
     \<lparr> turn_parent_thread_id = None, turn_environments = [], turn_cwd = [''home'', ''u''],
       turn_permission_profile = ProfileDisabled, turn_approval_policy = Never \<rparr>"

definition docker_args :: env_switch_args where
  "docker_args =
     \<lparr> esa_target = Some ''docker'', esa_container = Some ''c'', esa_host = None, esa_cwd = None,
       esa_hops = None, esa_base = None, esa_extend = None \<rparr>"

definition local_args :: env_switch_args where
  "local_args = docker_args\<lparr> esa_target := Some ''local'', esa_container := None \<rparr>"

definition sample_switch ::
  "environment_manager \<Rightarrow> (function_call_error + switch_result) \<times> environment_manager \<times> trace" where
  "sample_switch m =
     handle_env_switch (\<lambda>_ _. 0) sample_world sample_os \<lparr> ses_thread_id = ''t'' \<rparr> sample_turn docker_args m []"

lemma sample_requested: "requested_launcher m session turn docker_args = Inr (Some (docker_launcher ''c''))"
proof -
  have "validate_hop_value ''c'' = Inr ()" by code_simp
  moreover have "validate_addressing_mode docker_args = Inr ()" by code_simp
  ultimately show ?thesis by (simp add: requested_launcher_def docker_args_def Let_def)
qed

lemma sample_run_remote:
  "run_remote sample_world (docker_launcher ''c'') script [e1, e2, e3, e4, e5] =
     ((True, ''/work'', []), [e1, e2, e3, e4, e5, Spawn (shell_argv (docker_launcher ''c'') script) []])"
proof -
  have "from_utf8_lossy ''/work'' = ''/work''" "trim (from_utf8_lossy []) = []" by code_simp+
  then show ?thesis by (simp add: run_remote_def Let_def docker_argv_ne sample_world_def)
qed

lemma sample_cwd: "from_absolute_path_checked sample_os ''/work'' = Some [''work'']"
  by code_simp

lemma sample_switch_ok:
  "\<exists>r m' tr'. sample_switch m = (Inr r, m', tr') \<and>
     sr_output r = RemoteSwitched (launcher_id (docker_launcher ''c'')) ''1.2.3''
       (managed_codex_path ''/root'') ''/work'' None"
proof -
  have ne: "exec_argv (docker_launcher ''c'') (exec_server_inner sample_turn path) \<noteq> []" for path
    by (rule exec_argv_ne) (simp add: exec_server_inner_def)
  have lid: "launcher_id (docker_launcher ''c'') \<noteq> []"
    by (rule launcher_id_ne) (simp add: docker_launcher_def)
  have "\<exists>r m'. register_remote (\<lambda>_ _. 0) \<lparr> ses_thread_id = ''t'' \<rparr> sample_turn (docker_launcher ''c'')
      \<lparr> pc_codex_path = managed_codex_path ''/root'', pc_version = ''1.2.3'', pc_warning = None,
        pc_shell = None \<rparr> ''/work'' m = (Inr r, m') \<and>
      sr_output r = RemoteSwitched (launcher_id (docker_launcher ''c'')) ''1.2.3''
       (managed_codex_path ''/root'') ''/work'' None"
    using ne [of "managed_codex_path ''/root''"] lid
    by (auto simp: register_remote_def Let_def upsert_stdio_environment_def split: list.splits)
  moreover have "turn_permission_profile sample_turn = ProfileDisabled"
    by (simp add: sample_turn_def)
  ultimately show ?thesis
    by (auto simp: sample_switch_def handle_env_switch_def sample_requested handle_remote_switch_def
        sample_ensure sample_run_remote sample_cwd)
qed

section \<open>Properties\<close>

text \<open>
  C19. After a successful switch to a remote environment the whole session uses it: in every later
  turn of the session a tool call that names no environment resolves to the environment with the
  reported id, which is remote, in the directory the remote reported; and the command that was
  registered for it, carried through every hop, runs the provisioned codex as an exec-server with
  the policy flags of the switching turn.
\<close>

theorem env_switch_selects_environment:
  assumes "handle_env_switch picks W os session turn args m tr = (Inr r, m', tr')"
    "sr_output r = RemoteSwitched i v path cwd warn"
  shows "default_tool_environment_id m' session turn' = Some i \<and>
    (\<exists>te l cmd t. resolve_tool_environment os m' session turn' None = Inr (Some te) \<and>
       te_environment_id te = i \<and>
       from_absolute_path_checked os cwd = Some (te_cwd te) \<and>
       launcher_id l = i \<and>
       env_remote_transport (te_environment te) = Some (StdioCommand cmd t) \<and>
       run_transports (hops l) (cmd_program cmd # cmd_args cmd) = Some (exec_server_inner turn path))"
proof -
  from handle_env_switch_remote [OF assms] obtain l p where
    reg: "register_remote picks session turn l p cwd m = (Inr r, m')"
    and cwd: "from_absolute_path_checked os cwd \<noteq> None"
    and i: "i = launcher_id l" and path: "path = pc_codex_path p" by blast
  note R = register_remote_Inr [OF reg]
  obtain c where c: "from_absolute_path_checked os cwd = Some c" using cwd by blast
  obtain program arguments where
    argv: "exec_argv l (exec_server_inner turn path) = program # arguments"
    and env: "get_environment m' i = Some (remote_with_transport
      (StdioCommand \<lparr> cmd_program = program, cmd_args = arguments, cmd_env = [], cmd_cwd = None \<rparr>
        PROVISIONED_STDIO_INITIALIZE_TIMEOUT) (mgr_local_runtime_paths m))"
    using R(6) i path by auto
  have sel: "last_env_switch_environment_id m' session turn' = Some i"
    "default_tool_environment_id m' session turn' = Some i"
    using own_selection_wins [OF R(4)] i by auto
  have meta: "get_thread_environment_metadata_for_keys m' (environment_thread_keys session turn') i =
      Some \<lparr> meta_cwd = cwd, meta_shell = pc_shell p \<rparr>"
    using R(7) thread_keys_Cons [of session turn'] i by auto
  have "run_transports (hops l) (program # arguments) = Some (exec_server_inner turn path)"
    using run_transports_fold [of "hops l" "exec_server_inner turn path"] argv
    by (simp add: exec_argv_def)
  with sel env meta c i launcher_id_not_local [OF R(3)] show ?thesis
    by (auto simp: resolve_tool_environment_def resolve_named_def
        turn_environment_from_env_switch_metadata_def remote_with_transport_def)
qed

theorem env_switch_selects_environment_witness:
  "\<exists>r m' tr'. sample_switch without_environments = (Inr r, m', tr') \<and>
     default_tool_environment_id m' \<lparr> ses_thread_id = ''t'' \<rparr> sample_turn =
       Some (launcher_id (docker_launcher ''c''))"
proof -
  from sample_switch_ok obtain r m' tr' where s: "sample_switch without_environments = (Inr r, m', tr')"
    "sr_output r = RemoteSwitched (launcher_id (docker_launcher ''c'')) ''1.2.3''
       (managed_codex_path ''/root'') ''/work'' None" by blast
  from env_switch_selects_environment [OF s(1) [unfolded sample_switch_def] s(2)] s(1)
  show ?thesis by blast
qed

text \<open>
  C20. A failed \<open>env_switch\<close> changes no selection: the registry, the launcher cursors, the selected
  environment ids and the lists of visible environments of all threads are as before.
\<close>

theorem env_switch_failure_keeps_selection:
  assumes "handle_env_switch picks W os session turn args m tr = (Inl e, m', tr')"
  shows "mgr_environments m' = mgr_environments m \<and> mgr_last_launcher m' = mgr_last_launcher m \<and>
         mgr_last_environment_id m' = mgr_last_environment_id m \<and>
         mgr_thread_environment_ids m' = mgr_thread_environment_ids m"
proof -
  have "requested_launcher m session turn args = Inr (Some l) \<Longrightarrow> ?thesis" for l
  proof -
    assume "requested_launcher m session turn args = Inr (Some l)"
    with assms have "handle_remote_switch picks W os session turn l (esa_cwd args) m tr = (Inl e, m', tr')"
      by (simp add: handle_env_switch_def)
    then show ?thesis
      by (cases rule: handle_remote_switch_cases) (auto dest: register_remote_Inl)
  qed
  with assms show ?thesis
    by (auto simp: handle_env_switch_def handle_local_switch_def Let_def
        split: sum.splits option.splits prod.splits if_splits)
qed

theorem env_switch_failure_keeps_selection_witness:
  "mgr_environments sample_manager = mgr_environments sample_manager \<and>
   mgr_last_launcher sample_manager = mgr_last_launcher sample_manager \<and>
   mgr_last_environment_id sample_manager = mgr_last_environment_id sample_manager \<and>
   mgr_thread_environment_ids sample_manager = mgr_thread_environment_ids sample_manager"
proof (rule env_switch_failure_keeps_selection)
  show "handle_env_switch (\<lambda>_ _. 0) sample_world sample_os \<lparr> ses_thread_id = ''t'' \<rparr> sample_turn
      local_args sample_manager [] = (Inl LocalNotRegistered, sample_manager, [])"
    by code_simp
qed

text \<open>
  Every environment id that \<open>env_switch\<close> reports can be used as the \<open>base\<close> of a later call: as
  long as the recorded launchers are validated, which every call preserves, the id parses back to
  the launcher that the switch recorded for the thread.
\<close>

theorem env_switch_ids_parse_back:
  assumes "launchers_valid m"
    "handle_env_switch picks W os session turn args m tr = (res, m', tr')"
  shows "launchers_valid m' \<and>
    (\<forall>r i v path cwd warn. res = Inr r \<longrightarrow> sr_output r = RemoteSwitched i v path cwd warn \<longrightarrow>
      (\<exists>l. from_id i = Inr l \<and> get_last_launcher m' (ses_thread_id session) = Some l))"
proof -
  have remote: "launchers_valid m' \<and> (\<forall>r i v path cwd warn. res = Inr r \<longrightarrow>
      sr_output r = RemoteSwitched i v path cwd warn \<longrightarrow>
      (\<exists>l. from_id i = Inr l \<and> get_last_launcher m' (ses_thread_id session) = Some l))"
    if l: "requested_launcher m session turn args = Inr (Some l)" for l
  proof -
    have valid: "hops l \<noteq> []" "list_all valid_hop (hops l)"
      using requested_launcher_valid [OF assms(1) l] by auto
    from assms(2) l have "handle_remote_switch picks W os session turn l (esa_cwd args) m tr = (res, m', tr')"
      by (simp add: handle_env_switch_def)
    then show ?thesis
    proof (cases rule: handle_remote_switch_cases)
      case (failed e)
      with assms(1) show ?thesis by simp
    next
      case (registered p cwd)
      show ?thesis
      proof (cases res)
        case (Inl e)
        with registered(1) register_remote_Inl(2) assms(1) show ?thesis
          by (auto simp: launchers_valid_def)
      next
        case (Inr r)
        note reg = registered(1) [unfolded Inr]
        have "launchers_valid m'"
          using assms(1) valid unfolding launchers_valid_def register_remote_launchers(1) [OF reg]
          by (intro list_all_capped_insert) auto
        with Inr register_remote_Inr(1,5) [OF reg] from_id_of_id [OF valid] show ?thesis by auto
      qed
    qed
  qed
  show ?thesis
  proof (cases "\<exists>l. requested_launcher m session turn args = Inr (Some l)")
    case True
    with remote show ?thesis by blast
  next
    case False
    with assms show ?thesis
      by (auto simp: handle_env_switch_def handle_local_switch_def Let_def launchers_valid_def
          clear_last_launcher_def set_last_environment_id_def record_thread_environment_id_def
          list_all_iff AList.delete_eq split: sum.splits option.splits prod.splits if_splits)
  qed
qed

theorem env_switch_ids_parse_back_witness:
  "\<exists>res m' tr'. sample_switch without_environments = (res, m', tr') \<and> launchers_valid m'"
proof -
  obtain res m' tr' where s: "sample_switch without_environments = (res, m', tr')"
    by (cases "sample_switch without_environments")
  have "launchers_valid without_environments"
    by (simp add: launchers_valid_def without_environments_def)
  from env_switch_ids_parse_back [OF this s [unfolded sample_switch_def]] s show ?thesis by blast
qed

text \<open>
  Under an external sandbox no remote environment can be entered: a call starts no process and
  registers nothing, and the only switch that succeeds is the one to the local host.
\<close>

theorem external_sandbox_blocks_remote:
  assumes "turn_permission_profile turn = External network"
    "handle_env_switch picks W os session turn args m tr = (res, m', tr')"
  shows "tr' = tr \<and> mgr_environments m' = mgr_environments m \<and>
         (case res of Inl e \<Rightarrow> m' = m | Inr r \<Rightarrow> sr_output r = LocalSwitched)"
  using assms
  by (auto simp: handle_env_switch_def handle_local_switch_def handle_remote_switch_def Let_def
      clear_last_launcher_def set_last_environment_id_def record_thread_environment_id_def
      split: sum.splits option.splits prod.splits if_splits)

theorem external_sandbox_blocks_remote_witness:
  "[] = ([] :: trace) \<and> mgr_environments sample_manager = mgr_environments sample_manager \<and>
   (case Inl ExternalSandboxUnavailable :: function_call_error + switch_result of
      Inl e \<Rightarrow> sample_manager = sample_manager | Inr r \<Rightarrow> sr_output r = LocalSwitched)"
proof (rule external_sandbox_blocks_remote)
  show "turn_permission_profile (sample_turn\<lparr> turn_permission_profile := External NetworkEnabled \<rparr>) =
      External NetworkEnabled" by simp
  show "handle_env_switch (\<lambda>_ _. 0) sample_world sample_os \<lparr> ses_thread_id = ''t'' \<rparr>
      (sample_turn\<lparr> turn_permission_profile := External NetworkEnabled \<rparr>) docker_args sample_manager [] =
      (Inl ExternalSandboxUnavailable, sample_manager, [])"
    by (simp add: handle_env_switch_def sample_requested handle_remote_switch_def)
qed

text \<open>
  Threads are isolated: a switch by one thread, successful or not, changes neither the default
  environment nor the set of visible dynamic environments of a session whose thread and parent
  thread are others, as long as the cursor maps have room.
\<close>

theorem env_switch_isolated:
  assumes "handle_env_switch picks W os session turn args m tr = (res, m', tr')"
    "ses_thread_id session \<notin> set (environment_thread_keys other other_turn)"
    "length (mgr_last_environment_id m) < 64" "length (mgr_thread_environment_ids m) < 64"
  shows "default_tool_environment_id m' other other_turn = default_tool_environment_id m other other_turn \<and>
         dynamic_environment_visible_to_thread m' other other_turn i =
           dynamic_environment_visible_to_thread m other other_turn i"
proof -
  let ?t = "ses_thread_id session"
  have reads: "get_last_environment_id m' k = get_last_environment_id m k \<and>
      get_thread_environment_ids m' k = get_thread_environment_ids m k" if "k \<noteq> ?t" for k
  proof -
    have same: "mgr_last_environment_id m' = mgr_last_environment_id m \<and>
        mgr_thread_environment_ids m' = mgr_thread_environment_ids m \<or>
        (\<exists>j. mgr_last_environment_id m' = mgr_last_environment_id (set_last_environment_id picks ?t j m) \<and>
          mgr_thread_environment_ids m' =
            mgr_thread_environment_ids (record_thread_environment_id picks ?t j m))"
      by (rule handle_env_switch_cursors [OF assms(1)])
    have "get_last_environment_id (set_last_environment_id picks ?t j m) k = get_last_environment_id m k" for j
      by (rule selection_cursor.get_put_room) (use assms(3) that in \<open>auto simp: MAX_ENV_METADATA_ENTRIES_def\<close>)
    moreover have "get_thread_environment_ids (record_thread_environment_id picks ?t j m) k =
        get_thread_environment_ids m k" for j
      using assms(4) that
      by (simp add: get_thread_environment_ids_def record_thread_environment_id_def Let_def
          evict_for_room update_conv' MAX_ENV_METADATA_ENTRIES_def)
    ultimately show ?thesis using same
      by (auto simp: get_last_environment_id_def get_thread_environment_ids_def)
  qed
  have keys: "k \<noteq> ?t" if "k \<in> set (environment_thread_keys other other_turn)" for k
    using assms(2) that by auto
  have "find_map (get_last_environment_id m') ks = find_map (get_last_environment_id m) ks"
    if "set ks \<subseteq> set (environment_thread_keys other other_turn)" for ks
    using that by (induction ks) (auto simp: reads keys split: option.splits)
  moreover have "list_ex (\<lambda>k. i \<in> set (get_thread_environment_ids m' k)) ks =
      list_ex (\<lambda>k. i \<in> set (get_thread_environment_ids m k)) ks"
    if "set ks \<subseteq> set (environment_thread_keys other other_turn)" for ks
    using that by (induction ks) (auto simp: reads keys)
  ultimately show ?thesis
    by (simp add: default_tool_environment_id_def last_env_switch_environment_id_def
        dynamic_environment_visible_to_thread_def)
qed

theorem env_switch_isolated_witness:
  "\<exists>res m' tr'. sample_switch without_environments = (res, m', tr') \<and>
     default_tool_environment_id m' \<lparr> ses_thread_id = ''u'' \<rparr> sample_turn =
       default_tool_environment_id without_environments \<lparr> ses_thread_id = ''u'' \<rparr> sample_turn"
proof -
  obtain res m' tr' where s: "sample_switch without_environments = (res, m', tr')"
    by (cases "sample_switch without_environments")
  have "default_tool_environment_id m' \<lparr> ses_thread_id = ''u'' \<rparr> sample_turn =
       default_tool_environment_id without_environments \<lparr> ses_thread_id = ''u'' \<rparr> sample_turn \<and>
     dynamic_environment_visible_to_thread m' \<lparr> ses_thread_id = ''u'' \<rparr> sample_turn ''x'' =
       dynamic_environment_visible_to_thread without_environments \<lparr> ses_thread_id = ''u'' \<rparr> sample_turn ''x''"
    by (rule env_switch_isolated [OF s [unfolded sample_switch_def]])
      (simp_all add: environment_thread_keys_def sample_turn_def without_environments_def)
  with s show ?thesis by blast
qed

text \<open>
  \<open>local\<close> means the host: after a switch to \<open>local\<close> every later turn of the session defaults to
  it and has no implicit base to extend, and a call that omits the environment or names \<open>local\<close>
  resolves to an environment that is not remote (given that the local entries of the turn and of
  the manager are not).
\<close>

theorem local_is_the_host:
  assumes "handle_env_switch picks W os session turn args m tr = (Inr r, m', tr')"
    "sr_output r = LocalSwitched"
    "list_all (\<lambda>te. te_environment_id te = LOCAL_ENVIRONMENT_ID \<longrightarrow> \<not> is_remote (te_environment te))
       (turn_environments turn')"
    "list_all (\<lambda>e. \<not> is_remote e) (case mgr_local_environment m of None \<Rightarrow> [] | Some e \<Rightarrow> [e])"
  shows "default_tool_environment_id m' session turn' = Some LOCAL_ENVIRONMENT_ID \<and>
         implicit_base_launcher m' session turn' = None \<and>
         (\<exists>te. resolve_tool_environment os m' session turn' None = Inr (Some te) \<and>
               resolve_tool_environment os m' session turn' (Some LOCAL_ENVIRONMENT_ID) = Inr (Some te) \<and>
               \<not> is_remote (te_environment te))"
proof -
  from assms(1,2) have "requested_launcher m session turn args = Inr None"
    by (auto simp: handle_env_switch_def handle_remote_switch_def dest!: register_remote_Inr(1)
        split: sum.splits option.splits prod.splits if_splits permission_profile.splits)
  with assms(1) have loc: "handle_local_switch picks session (esa_cwd args) m = (Inr r, m')"
    by (auto simp: handle_env_switch_def split: prod.splits)
  then have le: "mgr_local_environment m' = mgr_local_environment m" "mgr_local_environment m \<noteq> None"
    and cursor: "get_last_environment_id m' (ses_thread_id session) = Some LOCAL_ENVIRONMENT_ID"
    by (auto simp: handle_local_switch_def mgr_op_defs get_last_environment_id_def
        map_of_capped_insert_same try_local_environment_def split: if_splits)
  note sel = own_selection_wins [OF cursor, of turn']
  have "\<exists>te. resolve_local m' turn' = Inr (Some te) \<and> \<not> is_remote (te_environment te)"
  proof (cases "find_turn_environment turn' LOCAL_ENVIRONMENT_ID")
    case None
    with le assms(4) show ?thesis by (auto simp: resolve_local_def try_local_environment_def)
  next
    case (Some te)
    then have "te \<in> set (turn_environments turn')" "te_environment_id te = LOCAL_ENVIRONMENT_ID"
      by (auto simp: find_turn_environment_def find_Some_iff)
    with assms(3) Some show ?thesis by (auto simp: resolve_local_def list_all_iff)
  qed
  with sel cursor show ?thesis
    by (auto simp: resolve_tool_environment_def resolve_named_def implicit_base_launcher_def)
qed

theorem local_is_the_host_witness:
  "\<exists>r m' tr'. handle_env_switch (\<lambda>_ _. 0) sample_world sample_os \<lparr> ses_thread_id = ''t'' \<rparr> sample_turn
      local_args (sample_manager\<lparr> mgr_local_environment := Some environment_default_for_tests \<rparr>) [] =
      (Inr r, m', tr') \<and>
    default_tool_environment_id m' \<lparr> ses_thread_id = ''t'' \<rparr> sample_turn = Some LOCAL_ENVIRONMENT_ID"
proof -
  let ?m = "sample_manager\<lparr> mgr_local_environment := Some environment_default_for_tests \<rparr>"
  have "fst (handle_env_switch (\<lambda>_ _. 0) sample_world sample_os \<lparr> ses_thread_id = ''t'' \<rparr> sample_turn
      local_args ?m []) = Inr \<lparr> sr_output = LocalSwitched, sr_badge = None \<rparr>"
    by code_simp
  then obtain m' tr' where s: "handle_env_switch (\<lambda>_ _. 0) sample_world sample_os \<lparr> ses_thread_id = ''t'' \<rparr>
      sample_turn local_args ?m [] = (Inr \<lparr> sr_output = LocalSwitched, sr_badge = None \<rparr>, m', tr')"
    by (metis fst_conv prod.exhaust)
  have "default_tool_environment_id m' \<lparr> ses_thread_id = ''t'' \<rparr> sample_turn = Some LOCAL_ENVIRONMENT_ID"
    using local_is_the_host [OF s, of sample_turn]
    by (simp add: sample_turn_def is_remote_def environment_default_for_tests_def)
  with s show ?thesis by blast
qed

text \<open>
  Relative mode goes exactly one hop deeper: the requested launcher is the base with the new
  hop appended and its id is the base's id, the separator and the hop's segment; an explicit base
  is visible to the thread and is the id of the launcher it stands for.
\<close>

theorem relative_mode_appends_hop:
  assumes "esa_extend args = Some a" "requested_launcher m session turn args = Inr (Some l)"
    "launchers_valid m"
  shows "\<exists>base h. hops l = hops base @ [h] \<and> hop_from_arg a = Inr h \<and>
           launcher_id l = launcher_id base @ ''>'' @ id_segment h \<and>
           (case esa_base args of
              Some b \<Rightarrow> base_environment_visible m session turn b \<and> launcher_id base = b
            | None \<Rightarrow> implicit_base_launcher m session turn = Some base)"
proof -
  from assms(1,2) obtain base h where h: "hop_from_arg a = Inr h"
    and base: "base_launcher_for m session turn (esa_base args) = Inr base"
    and l: "l = with_appended_hop base h"
    by (auto simp: requested_launcher_def result_simps)
  have "hops base \<noteq> []" using base_launcher_valid [OF assms(3) base] by simp
  then have "launcher_id l = launcher_id base @ ''>'' @ id_segment h"
    by (simp add: l with_appended_hop_def launcher_id_def join_with_snoc)
  moreover have "case esa_base args of
      Some b \<Rightarrow> base_environment_visible m session turn b \<and> launcher_id base = b
    | None \<Rightarrow> implicit_base_launcher m session turn = Some base"
    using base
    by (auto simp: base_launcher_for_def result_simps from_id_Inr(1) split: option.splits if_splits)
  ultimately show ?thesis using h l by (auto simp: with_appended_hop_def)
qed

definition extend_args :: env_switch_args where
  "extend_args = docker_args
     \<lparr> esa_target := None, esa_container := None,
       esa_extend := Some \<lparr> ha_type = ''docker'', ha_host = None, ha_container = Some ''d'' \<rparr> \<rparr>"

definition extend_manager :: environment_manager where
  "extend_manager = without_environments
     \<lparr> mgr_last_environment_id := [(''t'', ''ssh:h'')], mgr_last_launcher := [(''t'', ssh_launcher ''h'')] \<rparr>"

theorem relative_mode_appends_hop_witness:
  "\<exists>base h. hops (layered [Ssh ''h'', Docker ''d'']) = hops base @ [h] \<and>
     hop_from_arg \<lparr> ha_type = ''docker'', ha_host = None, ha_container = Some ''d'' \<rparr> = Inr h \<and>
     launcher_id (layered [Ssh ''h'', Docker ''d'']) = launcher_id base @ ''>'' @ id_segment h \<and>
     (case esa_base extend_args of
        Some b \<Rightarrow> base_environment_visible extend_manager \<lparr> ses_thread_id = ''t'' \<rparr> sample_turn b \<and>
                  launcher_id base = b
      | None \<Rightarrow> implicit_base_launcher extend_manager \<lparr> ses_thread_id = ''t'' \<rparr> sample_turn = Some base)"
proof (rule relative_mode_appends_hop)
  show "esa_extend extend_args = Some \<lparr> ha_type = ''docker'', ha_host = None, ha_container = Some ''d'' \<rparr>"
    by (simp add: extend_args_def)
  show "requested_launcher extend_manager \<lparr> ses_thread_id = ''t'' \<rparr> sample_turn extend_args =
      Inr (Some (layered [Ssh ''h'', Docker ''d'']))"
    by code_simp
  show "launchers_valid extend_manager" by code_simp
qed

text \<open>
  The policy flags do not preserve a read-only host: a turn with the built-in read-only
  file-system policy and the \<open>untrusted\<close> approval policy starts the remote exec-server with
  \<open>workspace-write\<close> and \<open>on-failure\<close>.
\<close>

theorem read_only_host_gets_writable_remote:
  "derive_exec_server_policy_flags
     (turn\<lparr> turn_permission_profile := Managed (ManagedRestricted (fsp_entries policy_read_only) None) network,
            turn_approval_policy := UnlessTrusted \<rparr>) =
   [''-c'', ''sandbox_mode=workspace-write'', ''-c'', ''approval_policy=on-failure'']"
  by (simp add: derive_exec_server_policy_flags_def file_system_sandbox_policy_of_def
      to_sandbox_policy_def policy_read_only_def policy_restricted_def has_full_disk_write_access_def
      has_root_access_def can_write_def)

text \<open>
  An accepted call uses exactly one addressing mode: a non-empty target, a hop list or a hop to
  append; a base comes only with a hop to append, and top-level host or container fields only with
  a target that can use them.
\<close>

theorem addressing_mode_unique:
  assumes "validate_addressing_mode args = Inr ()"
  shows "(let t = (esa_target args \<noteq> None \<and> esa_target args \<noteq> Some []);
              h = (esa_hops args \<noteq> None); e = (esa_extend args \<noteq> None) in
          (t \<and> \<not> h \<and> \<not> e \<or> \<not> t \<and> h \<and> \<not> e \<or> \<not> t \<and> \<not> h \<and> e) \<and>
          (esa_base args = None \<or> e) \<and>
          (esa_host args = None \<or> t \<and> esa_target args \<notin> {Some ''local'', Some ''docker''}) \<and>
          (esa_container args = None \<or> t \<and> esa_target args \<notin> {Some ''local'', Some ''ssh''}))"
  using assms
  by (auto simp: validate_addressing_mode_def Let_def split: if_splits option.splits)

theorem addressing_mode_unique_witness:
  "(let t = (esa_target docker_args \<noteq> None \<and> esa_target docker_args \<noteq> Some []);
        h = (esa_hops docker_args \<noteq> None); e = (esa_extend docker_args \<noteq> None) in
    (t \<and> \<not> h \<and> \<not> e \<or> \<not> t \<and> h \<and> \<not> e \<or> \<not> t \<and> \<not> h \<and> e) \<and>
    (esa_base docker_args = None \<or> e) \<and>
    (esa_host docker_args = None \<or> t \<and> esa_target docker_args \<notin> {Some ''local'', Some ''docker''}) \<and>
    (esa_container docker_args = None \<or> t \<and> esa_target docker_args \<notin> {Some ''local'', Some ''ssh''}))"
proof (rule addressing_mode_unique)
  show "validate_addressing_mode docker_args = Inr ()" by code_simp
qed

end
