(* ===== verification/EnvStatus.thy ===== *)
theory EnvStatus
  imports EnvSwitch
begin

text \<open>
  The \<open>env_status\<close> and \<open>env_list\<close> tools (\<open>core/src/tools/handlers/env_status.rs\<close>), the environments
  of a thread (\<open>core/src/environment_selection.rs\<close>) and the advisory on raw remote commands
  (\<open>core/src/tools/handlers/remote_command_advisory.rs\<close>). The shell grammar used by the advisory and
  the answer of a remote exec-server to an info request are arguments.
\<close>

section \<open>Environments of a thread\<close>

definition default_thread_environment_selections ::
  "environment_manager \<Rightarrow> abs_path \<Rightarrow> turn_environment_selection list" where
  "default_thread_environment_selections m cwd =
     map (\<lambda>i. \<lparr> tes_environment_id = i, tes_cwd = cwd \<rparr>) (default_environment_ids m)"

text \<open>
  \<open>resolve_selection\<close>: \<open>info\<close> is the reply of a remote environment, \<open>None\<close> for a failed call; the
  only error left is an unknown id.
\<close>

definition resolve_selection ::
  "host_os \<Rightarrow> (environment \<Rightarrow> shell_info option) \<Rightarrow> environment_manager \<Rightarrow> shell
     \<Rightarrow> turn_environment_selection \<Rightarrow> turn_environment option" where
  "resolve_selection os info m local_shell selected =
     (let i = tes_environment_id selected in
      case get_environment m i of
        None \<Rightarrow> None
      | Some environment \<Rightarrow>
          let metadata_shell = map_option (get_shell_by_model_provided_path os)
                (Option.bind (get_environment_metadata m i) meta_shell);
              shell = (if metadata_shell \<noteq> None then metadata_shell
                       else if is_remote environment
                       then Option.bind (info environment) from_environment_shell_info
                       else Some local_shell) in
          Some \<lparr> te_environment_id = i, te_environment = environment, te_cwd = tes_cwd selected,
                 te_shell = shell \<rparr>)"

definition current_match ::
  "turn_environment list \<Rightarrow> turn_environment_selection \<Rightarrow> turn_environment option" where
  "current_match current selected =
     find (\<lambda>te. te_environment_id te = tes_environment_id selected \<and> te_cwd te = tes_cwd selected) current"

fun resolve_snapshot_from ::
  "host_os \<Rightarrow> (environment \<Rightarrow> shell_info option) \<Rightarrow> environment_manager \<Rightarrow> shell
     \<Rightarrow> turn_environment list \<Rightarrow> string list \<Rightarrow> turn_environment_selection list \<Rightarrow> turn_environment list" where
  "resolve_snapshot_from os info m local_shell current seen [] = []"
| "resolve_snapshot_from os info m local_shell current seen (selected # rest) =
     (if tes_environment_id selected \<in> set seen
      then resolve_snapshot_from os info m local_shell current seen rest
      else
        let seen = tes_environment_id selected # seen in
        case or_else (current_match current selected) (resolve_selection os info m local_shell selected) of
          Some te \<Rightarrow> te # resolve_snapshot_from os info m local_shell current seen rest
        | None \<Rightarrow> resolve_snapshot_from os info m local_shell current seen rest)"

definition resolve_snapshot ::
  "host_os \<Rightarrow> (environment \<Rightarrow> shell_info option) \<Rightarrow> environment_manager \<Rightarrow> shell
     \<Rightarrow> turn_environment list \<Rightarrow> turn_environment_selection list \<Rightarrow> turn_environment list" where
  "resolve_snapshot os info m local_shell current selections =
     resolve_snapshot_from os info m local_shell current [] selections"

definition local_turn_environment :: "turn_environment list \<Rightarrow> turn_environment option" where
  "local_turn_environment tes = find (\<lambda>te. \<not> is_remote (te_environment te)) tes"

definition single_local_environment :: "turn_environment list \<Rightarrow> turn_environment option" where
  "single_local_environment tes =
     (case tes of [te] \<Rightarrow> if \<not> is_remote (te_environment te) then Some te else None | _ \<Rightarrow> None)"

definition single_local_environment_cwd :: "turn_environment list \<Rightarrow> abs_path option" where
  "single_local_environment_cwd tes = map_option te_cwd (single_local_environment tes)"

section \<open>Status\<close>

record turn_environment_status =
  tst_cwd :: string
  tst_shell :: "string option"
  tst_selected_for_turn :: bool

datatype environment_kind = KindRemote | KindLocal

datatype cwd_source = CwdTurn | CwdEnvSwitchMetadata | CwdUnavailable

record environment_status_entry =
  ent_environment_id :: string
  ent_kind :: environment_kind
  ent_is_manager_default :: bool
  ent_is_default_execution_environment :: bool
  ent_is_selected_for_turn :: bool
  ent_is_last_env_switch :: bool
  ent_cwd :: "string option"
  ent_cwd_source :: cwd_source
  ent_shell :: "string option"

record env_status_output =
  out_default_execution_environment_id :: "string option"
  out_last_env_switch_environment_id :: "string option"
  out_environments :: "environment_status_entry list"

definition environment_status_sort_priority :: "environment_status_entry \<Rightarrow> nat" where
  "environment_status_sort_priority entry =
     (if ent_is_default_execution_environment entry then 0
      else if ent_is_last_env_switch entry then 1 else 2)"

definition status_entry ::
  "(string \<rightharpoonup> turn_environment_status) \<Rightarrow> string option \<Rightarrow> string option \<Rightarrow> environment_snapshot
     \<Rightarrow> environment_status_entry" where
  "status_entry turn_envs default_id last_id snapshot =
     (let i = es_environment_id snapshot;
          turn_environment = turn_envs i;
          metadata = es_metadata snapshot;
          is_default = (default_id = Some i);
          is_last = (last_id = Some i);
          prefer_metadata = ((is_default \<or> is_last) \<and> metadata \<noteq> None);
          metadata_cwd = (case metadata of Some md \<Rightarrow> (Some (meta_cwd md), CwdEnvSwitchMetadata)
                          | None \<Rightarrow> (None, CwdUnavailable));
          (cwd, source) = (case turn_environment of
              Some te \<Rightarrow> if \<not> prefer_metadata then (Some (tst_cwd te), CwdTurn) else metadata_cwd
            | None \<Rightarrow> metadata_cwd);
          metadata_shell = Option.bind metadata meta_shell;
          turn_shell = Option.bind turn_environment tst_shell in
      \<lparr> ent_environment_id = i,
        ent_kind = (if es_is_remote snapshot then KindRemote else KindLocal),
        ent_is_manager_default = es_is_default snapshot,
        ent_is_default_execution_environment = is_default,
        ent_is_selected_for_turn = (case turn_environment of None \<Rightarrow> False | Some te \<Rightarrow> tst_selected_for_turn te),
        ent_is_last_env_switch = is_last,
        ent_cwd = cwd, ent_cwd_source = source,
        ent_shell = (if prefer_metadata then or_else metadata_shell turn_shell
                     else or_else turn_shell metadata_shell) \<rparr>)"

definition build_env_status_output_from_parts ::
  "environment_snapshot list \<Rightarrow> (string \<rightharpoonup> turn_environment_status) \<Rightarrow> string option \<Rightarrow> string option
     \<Rightarrow> env_status_output" where
  "build_env_status_output_from_parts snapshots turn_envs default_id last_id =
     \<lparr> out_default_execution_environment_id = default_id,
       out_last_env_switch_environment_id = last_id,
       out_environments =
         sort_key (\<lambda>e. (environment_status_sort_priority e, ent_environment_id e))
           (map (status_entry turn_envs default_id last_id) snapshots) \<rparr>"

definition turn_environment_statuses :: "turn_context \<Rightarrow> (string \<times> turn_environment_status) list" where
  "turn_environment_statuses turn =
     rev (map (\<lambda>te. (te_environment_id te,
       \<lparr> tst_cwd = from_utf8_lossy (abs_path_str (te_cwd te)),
         tst_shell = map_option (\<lambda>s. from_utf8_lossy (shell_path s)) (te_shell te),
         tst_selected_for_turn = True \<rparr>)) (turn_environments turn))"

definition visible_environment_ids ::
  "environment_manager \<Rightarrow> session \<Rightarrow> turn_context \<Rightarrow> string list" where
  "visible_environment_ids m session turn =
     map te_environment_id (turn_environments turn) @
     concat (map (get_thread_environment_ids m) (environment_thread_keys session turn)) @
     (case last_env_switch_environment_id m session turn of None \<Rightarrow> [] | Some i \<Rightarrow> [i])"

definition build_env_status_output ::
  "environment_manager \<Rightarrow> session \<Rightarrow> turn_context \<Rightarrow> env_status_output" where
  "build_env_status_output m session turn =
     (let turn_envs = turn_environment_statuses turn;
          thread_keys = environment_thread_keys session turn;
          last_id = last_env_switch_environment_id m session turn;
          default_id = default_tool_environment_id m session turn;
          visible = visible_environment_ids m session turn;
          turn_envs =
            (if LOCAL_ENVIRONMENT_ID \<in> set visible \<and> \<not> contains_key LOCAL_ENVIRONMENT_ID turn_envs \<and>
                try_local_environment m \<noteq> None
             then (LOCAL_ENVIRONMENT_ID,
                   \<lparr> tst_cwd = from_utf8_lossy (abs_path_str (turn_cwd turn)), tst_shell = None,
                     tst_selected_for_turn = False \<rparr>) # turn_envs
             else turn_envs);
          snapshots = map (\<lambda>snapshot.
              case get_thread_environment_metadata_for_keys m thread_keys (es_environment_id snapshot) of
                Some metadata \<Rightarrow> snapshot\<lparr> es_metadata := Some metadata \<rparr>
              | None \<Rightarrow> snapshot)
            (filter (\<lambda>snapshot. es_environment_id snapshot \<in> set visible) (environment_snapshots m)) in
      build_env_status_output_from_parts snapshots (map_of turn_envs) default_id last_id)"

section \<open>Advisory on raw remote commands\<close>

datatype remote_command_kind = RawRemote | DockerRun

definition is_env_assignment :: "string \<Rightarrow> bool" where
  "is_env_assignment word =
     (case split_once (CHR ''='') word of
        None \<Rightarrow> False
      | Some (name, _) \<Rightarrow>
          (case name of [] \<Rightarrow> False
           | first # _ \<Rightarrow>
               (first = CHR ''_'' \<or> is_ascii_alphabetic first) \<and>
               list_all (\<lambda>ch. ch = CHR ''_'' \<or> is_ascii_alphanumeric ch) name))"

definition command_index :: "string list \<Rightarrow> nat option" where
  "command_index words =
     (let index = length (takeWhile is_env_assignment words) in
      if index < length words then Some index else None)"

definition command_basename :: "string \<Rightarrow> string" where
  "command_basename command =
     (let name = rev (takeWhile (\<lambda>c. c \<noteq> CHR ''/'' \<and> c \<noteq> CHR 0x5C) (rev command)) in
      if name = [] then command else name)"

definition detect_remote_command_words :: "string list \<Rightarrow> remote_command_kind option" where
  "detect_remote_command_words words =
     (case command_index words of
        None \<Rightarrow> None
      | Some index \<Rightarrow>
          let command_name = command_basename (words ! index);
              next = (if index + 1 < length words then Some (words ! (index + 1)) else None) in
          if command_name = ''ssh'' then Some RawRemote
          else if command_name = ''docker'' then
            (if next = Some ''exec'' then Some RawRemote
             else if next = Some ''run'' then Some DockerRun else None)
          else None)"

fun split_where :: "('a \<Rightarrow> bool) \<Rightarrow> 'a list \<Rightarrow> 'a list list" where
  "split_where p [] = [[]]"
| "split_where p (x # xs) =
     (if p x then [] # split_where p xs
      else (case split_where p xs of [] \<Rightarrow> [[x]] | ys # yss \<Rightarrow> (x # ys) # yss))"

definition split_words_on_connectors :: "string list \<Rightarrow> string list list" where
  "split_words_on_connectors tokens =
     filter (\<lambda>words. words \<noteq> [])
       (split_where (\<lambda>t. t = ''&&'' \<or> t = ''||'' \<or> t = '';'' \<or> t = ''|'') tokens)"

text \<open>
  \<open>word_only\<close> is the word-only reading of a script by the shell grammar, \<open>split\<close> the POSIX word
  splitter used as fallback.
\<close>

definition advisory_words ::
  "(string \<Rightarrow> string list list option) \<Rightarrow> (string \<Rightarrow> string list option) \<Rightarrow> string \<Rightarrow> string list list" where
  "advisory_words word_only split command =
     (case word_only command of
        Some commands \<Rightarrow> commands
      | None \<Rightarrow> (case split command of None \<Rightarrow> [] | Some tokens \<Rightarrow> split_words_on_connectors tokens))"

definition detect_remote_command ::
  "(string \<Rightarrow> string list list option) \<Rightarrow> (string \<Rightarrow> string list option) \<Rightarrow> string
     \<Rightarrow> remote_command_kind option" where
  "detect_remote_command word_only split command =
     find_map detect_remote_command_words (advisory_words word_only split command)"

definition remote_command_advisory ::
  "(string \<Rightarrow> string list list option) \<Rightarrow> (string \<Rightarrow> string list option) \<Rightarrow> bool \<Rightarrow> string
     \<Rightarrow> remote_command_kind option" where
  "remote_command_advisory word_only split env_switch_enabled command =
     (if \<not> env_switch_enabled then None else detect_remote_command word_only split command)"

end
