(* ===== verification/EnvStatus_Props.thy ===== *)
theory EnvStatus_Props
  imports EnvStatus EnvManager_Props "HOL-Library.Sublist"
begin

text \<open>
  What the status tools report and which environments a turn gets: the reported default is the
  environment a call uses, the turn's environments follow the selections, and the default is moved
  to the front of the selections handed to sub-agents.
\<close>

section \<open>Selections\<close>

lemma selection_id [simp]: "tes_environment_id (selection te) = te_environment_id te"
  by (simp add: selection_def)

lemma position_remove1:
  "position (\<lambda>s. f s = d) xs = Some i \<Longrightarrow>
     i < length xs \<and> f (xs ! i) = d \<and> map f (take i xs @ drop (Suc i) xs) = remove1 d (map f xs)"
proof (induction xs arbitrary: i)
  case (Cons x xs)
  then show ?case by (cases "f x = d") auto
qed simp

lemma position_None: "position p xs = None \<longleftrightarrow> list_all (\<lambda>x. \<not> p x) xs"
  by (induction xs) auto

text \<open>
  The selections handed on put the default environment first and keep the others in order:
  nothing is lost, duplicated or added but the default itself.
\<close>

theorem selections_default_first:
  "let ids = map te_environment_id (turn_environments turn);
       out = map tes_environment_id (environment_selections_with_default os m session turn) in
   case default_tool_environment_id m session turn of
     None \<Rightarrow> out = ids
   | Some d \<Rightarrow> if d \<in> set ids then out = d # remove1 d ids else out = ids \<or> out = d # ids"
proof (cases "default_tool_environment_id m session turn")
  case None
  then show ?thesis by (simp add: environment_selections_with_default_def selection_def)
next
  case (Some d)
  let ?ss = "map selection (turn_environments turn)"
  show ?thesis
  proof (cases "position (\<lambda>s. tes_environment_id s = d) ?ss")
    case None
    then have "d \<notin> set (map te_environment_id (turn_environments turn))"
      by (auto simp: position_None list_all_iff)
    with None Some show ?thesis
      by (auto simp: environment_selections_with_default_def Let_def o_def split: option.split)
  next
    case (Some i)
    have l: "i < length (turn_environments turn)" using position_remove1 [OF Some] by simp
    with position_remove1 [OF Some]
    have i: "i < length (turn_environments turn)" "te_environment_id (turn_environments turn ! i) = d"
      "map tes_environment_id (take i ?ss @ drop (Suc i) ?ss) =
         remove1 d (map te_environment_id (turn_environments turn))"
      by (simp_all add: o_def)
    from nth_mem [OF i(1)] i(2) have "d \<in> set (map te_environment_id (turn_environments turn))" by auto
    with Some \<open>default_tool_environment_id m session turn = Some d\<close> i show ?thesis
      by (simp add: environment_selections_with_default_def Let_def del: map_append split: option.split)
  qed
qed

section \<open>Turn environments\<close>

lemma current_match_Some:
  "current_match current s = Some te \<Longrightarrow> te \<in> set current \<and> selection te = s"
  by (auto simp: current_match_def find_Some_iff selection_def)

lemma resolve_selection_Some:
  "resolve_selection os info m ls s = Some te \<Longrightarrow>
     selection te = s \<and> get_environment m (tes_environment_id s) = Some (te_environment te)"
  by (auto simp: resolve_selection_def selection_def Let_def split: option.splits)

lemma resolved_selection:
  "or_else (current_match current s) (resolve_selection os info m ls s) = Some te \<Longrightarrow> selection te = s"
  by (cases "current_match current s") (auto dest: current_match_Some resolve_selection_Some)

lemma resolve_snapshot_from_sound:
  "distinct (map te_environment_id (resolve_snapshot_from os info m ls current seen ss)) \<and>
   set (map te_environment_id (resolve_snapshot_from os info m ls current seen ss)) \<inter> set seen = {} \<and>
   subseq (map selection (resolve_snapshot_from os info m ls current seen ss)) ss"
proof (induction ss arbitrary: seen)
  case (Cons s ss)
  show ?case
  proof (cases "tes_environment_id s \<in> set seen")
    case True
    with Cons [of seen] show ?thesis by auto
  next
    case fresh: False
    note IH = Cons [of "tes_environment_id s # seen"]
    show ?thesis
    proof (cases "or_else (current_match current s) (resolve_selection os info m ls s)")
      case None
      with fresh IH show ?thesis by auto
    next
      case (Some te)
      have te: "selection te = s" by (rule resolved_selection [OF Some])
      then have "te_environment_id te = tes_environment_id s" by auto
      with fresh te Some IH show ?thesis by auto
    qed
  qed
qed simp

lemma resolve_snapshot_from_complete:
  assumes "distinct (map tes_environment_id ss)" "set (map tes_environment_id ss) \<inter> set seen = {}"
    "\<And>s. s \<in> set ss \<Longrightarrow> get_environment m (tes_environment_id s) \<noteq> None"
  shows "map selection (resolve_snapshot_from os info m ls current seen ss) = ss"
  using assms
proof (induction ss arbitrary: seen)
  case (Cons s ss)
  have "resolve_selection os info m ls s \<noteq> None"
    using Cons.prems(3) [of s] by (auto simp: resolve_selection_def Let_def)
  then obtain te where te: "or_else (current_match current s) (resolve_selection os info m ls s) = Some te"
    by (cases "current_match current s") auto
  have "map selection (resolve_snapshot_from os info m ls current (tes_environment_id s # seen) ss) = ss"
    using Cons.prems by (intro Cons.IH) auto
  with te resolved_selection [OF te] Cons.prems(2) show ?case by simp
qed simp

text \<open>
  A turn's environments follow the selections: ids are unique, every environment has the id and
  cwd of a selection, the order is kept, and when the selected ids are distinct and registered no
  selection is dropped.
\<close>

theorem resolve_snapshot_follows_selections:
  "let tes = resolve_snapshot os info m ls current ss in
     distinct (map te_environment_id tes) \<and> subseq (map selection tes) ss \<and>
     (distinct (map tes_environment_id ss) \<and>
      list_all (\<lambda>s. get_environment m (tes_environment_id s) \<noteq> None) ss \<longrightarrow> map selection tes = ss)"
  using resolve_snapshot_from_sound resolve_snapshot_from_complete [of ss "[]" m]
  by (auto simp: resolve_snapshot_def Let_def list_all_iff)

theorem resolve_snapshot_follows_selections_witness:
  "map selection (resolve_snapshot (sample_host None) (\<lambda>_. None) sample_manager ultimate_fallback_shell []
     [\<lparr> tes_environment_id = ''remote'', tes_cwd = [''w''] \<rparr>, \<lparr> tes_environment_id = ''local'', tes_cwd = [] \<rparr>]) =
   [\<lparr> tes_environment_id = ''remote'', tes_cwd = [''w''] \<rparr>, \<lparr> tes_environment_id = ''local'', tes_cwd = [] \<rparr>]"
proof -
  have "list_all (\<lambda>s. get_environment sample_manager (tes_environment_id s) \<noteq> None)
     [\<lparr> tes_environment_id = ''remote'', tes_cwd = [''w''] \<rparr>, \<lparr> tes_environment_id = ''local'', tes_cwd = [] \<rparr>]"
    by code_simp
  then show ?thesis
    using resolve_snapshot_follows_selections [of "sample_host None" "\<lambda>_. None" sample_manager
        ultimate_fallback_shell "[]"
        "[\<lparr> tes_environment_id = ''remote'', tes_cwd = [''w''] \<rparr>, \<lparr> tes_environment_id = ''local'', tes_cwd = [] \<rparr>]"]
    by (simp add: Let_def)
qed

section \<open>Status\<close>

lemma status_entry_id [simp]: "ent_environment_id (status_entry te d l s) = es_environment_id s"
  by (simp add: status_entry_def Let_def split: prod.split)

lemma status_entry_default [simp]:
  "ent_is_default_execution_environment (status_entry te d l s) \<longleftrightarrow> d = Some (es_environment_id s)"
  by (simp add: status_entry_def Let_def split: prod.split)

lemma sort_key_hd:
  assumes "x \<in> set xs" "\<And>y. y \<in> set xs \<Longrightarrow> y \<noteq> x \<Longrightarrow> f x < f y"
  shows "sort_key f xs \<noteq> [] \<and> hd (sort_key f xs) = x"
proof -
  from assms(1) obtain y ys where s: "sort_key f xs = y # ys"
    by (cases "sort_key f xs") (metis empty_iff list.set(1) set_sort, blast)
  have "y \<in> set xs" "x \<in> set (y # ys)" using s assms(1) set_sort [of f xs] by (metis list.set_intros(1), metis)
  moreover have "sorted (map f (y # ys))" using s sorted_sort_key [of f xs] by simp
  ultimately have "y = x" using assms(2) [of y] by fastforce
  with s show ?thesis by simp
qed

definition status_snapshots ::
  "environment_manager \<Rightarrow> session \<Rightarrow> turn_context \<Rightarrow> environment_snapshot list" where
  "status_snapshots m session turn = map (\<lambda>snapshot.
      case get_thread_environment_metadata_for_keys m (environment_thread_keys session turn)
             (es_environment_id snapshot) of
        Some metadata \<Rightarrow> snapshot\<lparr> es_metadata := Some metadata \<rparr>
      | None \<Rightarrow> snapshot)
    (filter (\<lambda>snapshot. es_environment_id snapshot \<in> set (visible_environment_ids m session turn))
       (environment_snapshots m))"

lemma status_snapshot_ids:
  "map es_environment_id (status_snapshots m session turn) =
     filter (\<lambda>i. i \<in> set (visible_environment_ids m session turn)) (map es_environment_id (environment_snapshots m))"
  by (auto simp: status_snapshots_def filter_map o_def split: option.split intro!: map_cong)

lemma status_output_sorted:
  obtains te where "out_environments (build_env_status_output m session turn) =
    sort_key (\<lambda>e. (environment_status_sort_priority e, ent_environment_id e))
      (map (status_entry te (default_tool_environment_id m session turn)
              (last_env_switch_environment_id m session turn)) (status_snapshots m session turn))"
  by (simp add: build_env_status_output_def build_env_status_output_from_parts_def Let_def
      status_snapshots_def)

lemma snapshot_of_environment:
  assumes "get_environment m i = Some environment"
  shows "\<exists>md. \<lparr> es_environment_id = i, es_is_remote = is_remote environment,
            es_is_default = (mgr_default_environment m = Some i), es_metadata = md \<rparr>
          \<in> set (environment_snapshots m)"
proof -
  from assms have "(i, environment) \<in> set (mgr_environments m)"
    by (auto simp: get_environment_def dest: map_of_SomeD)
  then show ?thesis by (force simp: environment_snapshots_def Let_def image_iff)
qed

lemma snapshots_distinct:
  assumes "manager_inv m"
  shows "distinct (map es_environment_id (environment_snapshots m))"
proof (rule card_distinct)
  have "card (set (map fst (mgr_environments m))) = length (mgr_environments m)"
    using assms distinct_card [of "map fst (mgr_environments m)"] by (simp add: manager_inv_def)
  then show "card (set (map es_environment_id (environment_snapshots m))) =
      length (map es_environment_id (environment_snapshots m))"
    unfolding snapshot_ids_set by (simp add: environment_snapshots_def Let_def)
qed

lemma implicit_resolution:
  assumes "last_env_switch_environment_id m session turn = Some i" "i \<noteq> LOCAL_ENVIRONMENT_ID"
    "resolve_tool_environment os m session turn None = Inr (Some te)"
  obtains md where
    "get_environment m i = Some (te_environment te)" "te_environment_id te = i"
    "get_thread_environment_metadata_for_keys m (environment_thread_keys session turn) i = Some md"
    "from_absolute_path_checked os (meta_cwd md) = Some (te_cwd te)"
    "te_shell te = map_option (get_shell_by_model_provided_path os) (meta_shell md)"
  using assms
  by (auto simp: resolve_tool_environment_def default_tool_environment_id_def resolve_named_def
      turn_environment_from_env_switch_metadata_def result_simps split: option.splits)

text \<open>
  C22. The status names the environment and the directory of the next call: after a switch to an
  environment that is not the local one, the first listed entry is the environment that a call without
  \<open>environment_id\<close> resolves to, with its kind and the recorded directory, which is the one the call
  runs in; and exactly the registered environments visible to the thread are listed. The reported
  shell is the recorded one; the call looks that path up on the host, so the two need not be the same.
  When none is recorded the call has no shell of its own, whatever the status reports.
\<close>

theorem env_status_agrees_with_calls:
  assumes "manager_inv m" "last_env_switch_environment_id m session turn = Some i"
    "i \<noteq> LOCAL_ENVIRONMENT_ID" "resolve_tool_environment os m session turn None = Inr (Some te)"
  shows "let es = out_environments (build_env_status_output m session turn); e = hd es in
     \<exists>md. get_thread_environment_metadata_for_keys m (environment_thread_keys session turn) i = Some md \<and>
     es \<noteq> [] \<and> ent_environment_id e = i \<and> te_environment_id te = i \<and>
     ent_is_default_execution_environment e \<and> ent_is_last_env_switch e \<and>
     ent_kind e = (if is_remote (te_environment te) then KindRemote else KindLocal) \<and>
     ent_cwd_source e = CwdEnvSwitchMetadata \<and>
     ent_cwd e = Some (meta_cwd md) \<and> from_absolute_path_checked os (meta_cwd md) = Some (te_cwd te) \<and>
     (case meta_shell md of
        Some s \<Rightarrow> ent_shell e = Some s \<and> te_shell te = Some (get_shell_by_model_provided_path os s)
      | None \<Rightarrow> te_shell te = None) \<and>
     set (map ent_environment_id es) =
       {j \<in> set (visible_environment_ids m session turn). j \<in> set (map fst (mgr_environments m))}"
proof -
  from implicit_resolution [OF assms(2-4)] obtain md where md:
    "get_environment m i = Some (te_environment te)" "te_environment_id te = i"
    "get_thread_environment_metadata_for_keys m (environment_thread_keys session turn) i = Some md"
    "from_absolute_path_checked os (meta_cwd md) = Some (te_cwd te)"
    "te_shell te = map_option (get_shell_by_model_provided_path os) (meta_shell md)" .
  obtain tes where es: "out_environments (build_env_status_output m session turn) =
    sort_key (\<lambda>e. (environment_status_sort_priority e, ent_environment_id e))
      (map (status_entry tes (default_tool_environment_id m session turn)
              (last_env_switch_environment_id m session turn)) (status_snapshots m session turn))"
    (is "?es = sort_key ?key (map ?entry ?snaps)")
    by (rule status_output_sorted)
  have default: "default_tool_environment_id m session turn = Some i"
    using assms(2) by (simp add: default_tool_environment_id_def)
  let ?s = "\<lparr> es_environment_id = i, es_is_remote = is_remote (te_environment te),
    es_is_default = (mgr_default_environment m = Some i), es_metadata = Some md \<rparr>"
  have s: "?s \<in> set ?snaps"
    using snapshot_of_environment [OF md(1)] md(3) assms(2)
    by (force simp: status_snapshots_def visible_environment_ids_def image_iff)
  have "distinct (map es_environment_id ?snaps)"
    by (simp add: status_snapshot_ids snapshots_distinct [OF assms(1)])
  with s have uniq: "y = ?s" if "y \<in> set ?snaps" "es_environment_id y = i" for y
    using that by (auto simp: distinct_map inj_on_def)
  have "?es \<noteq> [] \<and> hd ?es = ?entry ?s"
    unfolding es
  proof (rule sort_key_hd)
    show "?entry ?s \<in> set (map ?entry ?snaps)" using s by auto
    fix y assume "y \<in> set (map ?entry ?snaps)" "y \<noteq> ?entry ?s"
    then obtain x where x: "x \<in> set ?snaps" "y = ?entry x" "x \<noteq> ?s" by auto
    from uniq [OF x(1)] x(3) have "es_environment_id x \<noteq> i" by blast
    with x show "?key (?entry ?s) < ?key y"
      by (simp add: environment_status_sort_priority_def default)
  qed
  moreover have "set (map ent_environment_id ?es) =
       {j \<in> set (visible_environment_ids m session turn). j \<in> set (map fst (mgr_environments m))}"
  proof -
    have "set (map ent_environment_id ?es) = set (map es_environment_id ?snaps)"
      by (simp add: es image_image)
    with status_snapshot_ids [of m session turn] snapshot_ids_set [of m] show ?thesis by auto
  qed
  ultimately show ?thesis
    using md assms(2) by (auto simp: Let_def status_entry_def default or_else_conv split: option.split)
qed

definition status_manager :: environment_manager where
  "status_manager = sample_manager
     \<lparr> mgr_last_environment_id := [(''t'', ''remote'')],
       mgr_thread_env_metadata :=
         [(''t'', [(''remote'', \<lparr> meta_cwd = ''/work/.'', meta_shell = Some ''/usr/bin/zsh'' \<rparr>)])] \<rparr>"

definition status_turn :: turn_context where
  "status_turn =
     \<lparr> turn_parent_thread_id = None, turn_environments = [], turn_cwd = [''home''],
       turn_permission_profile = ProfileDisabled, turn_approval_policy = Never \<rparr>"

lemma status_resolves:
  "resolve_tool_environment (sample_host None) status_manager \<lparr> ses_thread_id = ''t'' \<rparr> status_turn None =
     Inr (Some \<lparr> te_environment_id = ''remote'', te_environment = remote_inner ''ws://h'' None,
                 te_cwd = [''work''], te_shell = Some ultimate_fallback_shell \<rparr>)"
  by code_simp

lemma status_last: "last_env_switch_environment_id status_manager \<lparr> ses_thread_id = ''t'' \<rparr> status_turn = Some ''remote''"
  by code_simp

theorem env_status_agrees_with_calls_witness:
  "let e = hd (out_environments (build_env_status_output status_manager \<lparr> ses_thread_id = ''t'' \<rparr> status_turn)) in
     ent_environment_id e = ''remote'' \<and> ent_kind e = KindRemote \<and> ent_cwd e = Some ''/work/.'' \<and>
     ent_shell e = Some ''/usr/bin/zsh''"
proof -
  have "manager_inv status_manager" by code_simp
  moreover have "get_thread_environment_metadata_for_keys status_manager
      (environment_thread_keys \<lparr> ses_thread_id = ''t'' \<rparr> status_turn) ''remote'' =
      Some \<lparr> meta_cwd = ''/work/.'', meta_shell = Some ''/usr/bin/zsh'' \<rparr>" by code_simp
  ultimately show ?thesis
    using env_status_agrees_with_calls [OF _ status_last _ status_resolves]
    by (simp add: Let_def LOCAL_ENVIRONMENT_ID_def is_remote_def remote_inner_def remote_with_transport_def)
qed

text \<open>
  C23. The shell probed on a remote is looked up on the host: with a remote \<open>zsh\<close> recorded for the
  environment and no \<open>zsh\<close> on the host, a call resolves to \<open>/bin/sh\<close> instead of the remote's shell.
\<close>

theorem remote_shell_looked_up_on_host:
  assumes "last_env_switch_environment_id m session turn = Some i" "i \<noteq> LOCAL_ENVIRONMENT_ID"
    "resolve_tool_environment os m session turn None = Inr (Some te)"
    "get_thread_environment_metadata_for_keys m (environment_thread_keys session turn) i =
       Some \<lparr> meta_cwd = cwd, meta_shell = Some p \<rparr>"
    "detect_shell_type p = Some t" "get_shell os t (Some p) = None"
  shows "te_shell te = Some \<lparr> shell_type = Sh, shell_path = ''/bin/sh'' \<rparr>"
proof -
  from implicit_resolution [OF assms(1-3)] assms(4)
  have "te_shell te = Some (get_shell_by_model_provided_path os p)" by (metis environment_metadata.select_convs(2) option.inject option.simps(9))
  with assms(5,6) show ?thesis
    by (simp add: get_shell_by_model_provided_path_def ultimate_fallback_shell_def)
qed

theorem remote_shell_looked_up_on_host_witness:
  "te_shell \<lparr> te_environment_id = ''remote'', te_environment = remote_inner ''ws://h'' None,
      te_cwd = [''work''], te_shell = Some ultimate_fallback_shell \<rparr> =
   Some \<lparr> shell_type = Sh, shell_path = ''/bin/sh'' \<rparr>"
proof (rule remote_shell_looked_up_on_host [OF status_last _ status_resolves])
  show "''remote'' \<noteq> LOCAL_ENVIRONMENT_ID" by code_simp
  show "get_thread_environment_metadata_for_keys status_manager
      (environment_thread_keys \<lparr> ses_thread_id = ''t'' \<rparr> status_turn) ''remote'' =
      Some \<lparr> meta_cwd = ''/work/.'', meta_shell = Some ''/usr/bin/zsh'' \<rparr>"
    by code_simp
  show "detect_shell_type ''/usr/bin/zsh'' = Some Zsh" by code_simp
  show "get_shell (sample_host None) Zsh (Some ''/usr/bin/zsh'') = None" by code_simp
qed

end
