(* ===== verification/PatchParser.thy ===== *)
theory PatchParser
  imports AbsolutePath
begin

text \<open>
  The patch format of \<open>apply_patch\<close>: \<open>apply-patch/src/parser.rs\<close> and the incremental parser
  \<open>apply-patch/src/streaming_parser.rs\<close>. The parser state keeps the fields of both Rust structs in
  one record; a line that is rejected leaves it as it was before \<open>process_line\<close>. The line buffer is
  filled byte by byte, which is the same as character by character because the newline is one byte.
\<close>

section \<open>Markers and data\<close>

definition BEGIN_PATCH_MARKER :: string where "BEGIN_PATCH_MARKER = ''*** Begin Patch''"
definition END_PATCH_MARKER :: string where "END_PATCH_MARKER = ''*** End Patch''"
definition ADD_FILE_MARKER :: string where "ADD_FILE_MARKER = ''*** Add File: ''"
definition DELETE_FILE_MARKER :: string where "DELETE_FILE_MARKER = ''*** Delete File: ''"
definition UPDATE_FILE_MARKER :: string where "UPDATE_FILE_MARKER = ''*** Update File: ''"
definition MOVE_TO_MARKER :: string where "MOVE_TO_MARKER = ''*** Move to: ''"
definition EOF_MARKER :: string where "EOF_MARKER = ''*** End of File''"
definition CHANGE_CONTEXT_MARKER :: string where "CHANGE_CONTEXT_MARKER = ''@@ ''"
definition EMPTY_CHANGE_CONTEXT_MARKER :: string where "EMPTY_CHANGE_CONTEXT_MARKER = ''@@''"
definition ENVIRONMENT_ID_MARKER :: string where "ENVIRONMENT_ID_MARKER = ''*** Environment ID:''"

datatype patch_message =
    FirstLineMustBegin
  | LastLineMustEnd
  | EnvironmentIdTwice
  | EnvironmentIdEmpty

datatype hunk_message =
    UpdateHunkEmpty string
  | UpdateHunkNoLines
  | UnexpectedUpdateLine string
  | ExpectedContextMarker string
  | InvalidHunkHeader string

datatype parse_error =
    InvalidPatchError patch_message
  | InvalidHunkError hunk_message nat

record update_file_chunk =
  change_context :: "string option"
  old_lines :: "string list"
  new_lines :: "string list"
  is_end_of_file :: bool

datatype hunk =
    AddFile string string
  | DeleteFile string
  | UpdateFile string "string option" "update_file_chunk list"

fun hunk_path :: "hunk \<Rightarrow> string" where
  "hunk_path (AddFile path _) = path"
| "hunk_path (DeleteFile path) = path"
| "hunk_path (UpdateFile path (Some move_path) _) = move_path"
| "hunk_path (UpdateFile path None _) = path"

definition resolve_path :: "host_os \<Rightarrow> hunk \<Rightarrow> abs_path \<Rightarrow> abs_path" where
  "resolve_path os h cwd =
     resolve_path_against_base os
       (case h of UpdateFile path _ _ \<Rightarrow> path | _ \<Rightarrow> hunk_path h) cwd"

record apply_patch_args =
  apa_patch :: string
  apa_hunks :: "hunk list"
  apa_workdir :: "string option"
  apa_environment_id :: "string option"

section \<open>The incremental parser\<close>

datatype streaming_parser_mode =
    NotStarted
  | StartedPatch
  | InAddFile
  | InDeleteFile
  | InUpdateFile nat
  | EndedPatch

record streaming_patch_parser =
  line_buffer :: string
  parser_mode :: streaming_parser_mode
  parser_hunks :: "hunk list"
  parser_environment_id :: "string option"
  line_number :: nat

definition parser_default :: streaming_patch_parser where
  "parser_default =
     \<lparr> line_buffer = [], parser_mode = NotStarted, parser_hunks = [], parser_environment_id = None,
       line_number = 0 \<rparr>"

definition chunk_is_empty :: "update_file_chunk \<Rightarrow> bool" where
  "chunk_is_empty c \<longleftrightarrow> old_lines c = [] \<and> new_lines c = []"

fun ensure_update_hunk_is_not_empty ::
  "streaming_patch_parser \<Rightarrow> string \<Rightarrow> parse_error + unit" where
  "ensure_update_hunk_is_not_empty p line =
     (case last_opt (parser_hunks p) of
        Some (UpdateFile path _ chunks) \<Rightarrow>
          (case (chunks, parser_mode p) of
             ([], InUpdateFile hunk_line_number) \<Rightarrow>
               Inl (InvalidHunkError (UpdateHunkEmpty path) hunk_line_number)
           | _ \<Rightarrow>
               if chunks \<noteq> [] \<and> chunk_is_empty (last chunks) then
                 (if line = END_PATCH_MARKER then Inl (InvalidHunkError UpdateHunkNoLines (line_number p))
                  else Inl (InvalidHunkError (UnexpectedUpdateLine line) (line_number p)))
               else Inr ())
      | _ \<Rightarrow> Inr ())"

text \<open>\<open>None\<close> is the answer \<open>false\<close>: the line is no header.\<close>

definition push_hunk ::
  "streaming_patch_parser \<Rightarrow> string \<Rightarrow> hunk \<Rightarrow> streaming_parser_mode
     \<Rightarrow> parse_error + streaming_patch_parser option" where
  "push_hunk p line h mode =
     try_bind (ensure_update_hunk_is_not_empty p line)
       (\<lambda>_. Inr (Some (p\<lparr> parser_hunks := parser_hunks p @ [h], parser_mode := mode \<rparr>)))"

definition handle_hunk_headers_and_end_patch ::
  "streaming_patch_parser \<Rightarrow> string \<Rightarrow> parse_error + streaming_patch_parser option" where
  "handle_hunk_headers_and_end_patch p line =
     (case (if parser_mode p = StartedPatch then strip_prefix ENVIRONMENT_ID_MARKER line else None) of
        Some environment_id \<Rightarrow>
          (let environment_id = trim environment_id in
           if parser_environment_id p \<noteq> None then Inl (InvalidPatchError EnvironmentIdTwice)
           else if environment_id = [] then Inl (InvalidPatchError EnvironmentIdEmpty)
           else Inr (Some (p\<lparr> parser_environment_id := Some environment_id \<rparr>)))
      | None \<Rightarrow>
     if line = END_PATCH_MARKER then
       try_bind (ensure_update_hunk_is_not_empty p line)
         (\<lambda>_. Inr (Some (p\<lparr> parser_mode := EndedPatch \<rparr>)))
     else (case strip_prefix ADD_FILE_MARKER line of
        Some path \<Rightarrow> push_hunk p line (AddFile path []) InAddFile
      | None \<Rightarrow> (case strip_prefix DELETE_FILE_MARKER line of
        Some path \<Rightarrow> push_hunk p line (DeleteFile path) InDeleteFile
      | None \<Rightarrow> (case strip_prefix UPDATE_FILE_MARKER line of
        Some path \<Rightarrow> push_hunk p line (UpdateFile path None []) (InUpdateFile (line_number p))
      | None \<Rightarrow> Inr None))))"

definition new_chunk :: "string option \<Rightarrow> update_file_chunk" where
  "new_chunk context =
     \<lparr> change_context = context, old_lines = [], new_lines = [], is_end_of_file = False \<rparr>"

text \<open>Change the last chunk, or a fresh one when there is none.\<close>

definition in_last_chunk ::
  "(update_file_chunk \<Rightarrow> update_file_chunk) \<Rightarrow> update_file_chunk list \<Rightarrow> update_file_chunk list" where
  "in_last_chunk f chunks =
     (if chunks = [] then [f (new_chunk None)] else butlast chunks @ [f (last chunks)])"

definition add_old :: "string \<Rightarrow> update_file_chunk \<Rightarrow> update_file_chunk" where
  "add_old l c = c\<lparr> old_lines := old_lines c @ [l] \<rparr>"

definition add_new :: "string \<Rightarrow> update_file_chunk \<Rightarrow> update_file_chunk" where
  "add_new l c = c\<lparr> new_lines := new_lines c @ [l] \<rparr>"

definition is_context_line :: "string \<Rightarrow> bool" where
  "is_context_line l \<longleftrightarrow> l = EMPTY_CHANGE_CONTEXT_MARKER \<or> starts_with CHANGE_CONTEXT_MARKER l"

text \<open>A line of an update hunk that is no header: the new move path and chunks of the hunk.\<close>

definition process_update_line ::
  "nat \<Rightarrow> string \<Rightarrow> string option \<Rightarrow> update_file_chunk list
     \<Rightarrow> parse_error + (string option \<times> update_file_chunk list)" where
  "process_update_line ln line move_path chunks =
     (let update_line = trim_end line;
          after_eof = (chunks \<noteq> [] \<and> is_end_of_file (last chunks));
          last_empty = (chunks \<noteq> [] \<and> chunk_is_empty (last chunks)) in
      if after_eof \<and> update_line = [] then Inr (move_path, chunks)
      else if after_eof \<and> \<not> is_context_line update_line
      then Inl (InvalidHunkError (ExpectedContextMarker line) ln)
      else if chunks = [] \<and> move_path = None \<and> starts_with MOVE_TO_MARKER update_line
      then Inr (strip_prefix MOVE_TO_MARKER update_line, chunks)
      else if is_context_line update_line \<and> last_empty
      then Inl (InvalidHunkError (UnexpectedUpdateLine line) ln)
      else if update_line = EMPTY_CHANGE_CONTEXT_MARKER then Inr (move_path, chunks @ [new_chunk None])
      else if starts_with CHANGE_CONTEXT_MARKER update_line
      then Inr (move_path, chunks @ [new_chunk (strip_prefix CHANGE_CONTEXT_MARKER update_line)])
      else if update_line = EOF_MARKER then
        (if last_empty then Inl (InvalidHunkError UpdateHunkNoLines ln)
         else if chunks = [] then Inr (move_path, chunks)
         else Inr (move_path, in_last_chunk (\<lambda>c. c\<lparr> is_end_of_file := True \<rparr>) chunks))
      else (case line of
          [] \<Rightarrow> Inr (move_path, in_last_chunk (\<lambda>c. add_new [] (add_old [] c)) chunks)
        | first # rest \<Rightarrow>
            if first = CHR '' '' then Inr (move_path, in_last_chunk (\<lambda>c. add_new rest (add_old rest c)) chunks)
            else if first = CHR ''+'' then Inr (move_path, in_last_chunk (add_new rest) chunks)
            else if first = CHR ''-'' then Inr (move_path, in_last_chunk (add_old rest) chunks)
            else if chunks \<noteq> [] \<and> \<not> last_empty
            then Inl (InvalidHunkError (ExpectedContextMarker line) ln)
            else Inl (InvalidHunkError (UnexpectedUpdateLine line) ln)))"

definition process_line :: "streaming_patch_parser \<Rightarrow> string \<Rightarrow> parse_error + streaming_patch_parser" where
  "process_line p line =
     (let trimmed = trim line;
          invalid_header = Inl (InvalidHunkError (InvalidHunkHeader trimmed) (line_number p)) in
      case parser_mode p of
        NotStarted \<Rightarrow>
          (if trimmed = BEGIN_PATCH_MARKER then Inr (p\<lparr> parser_mode := StartedPatch \<rparr>)
           else Inl (InvalidPatchError FirstLineMustBegin))
      | StartedPatch \<Rightarrow>
          try_bind (handle_hunk_headers_and_end_patch p trimmed)
            (\<lambda>r. case r of Some p' \<Rightarrow> Inr p' | None \<Rightarrow> invalid_header)
      | InAddFile \<Rightarrow>
          try_bind (handle_hunk_headers_and_end_patch p trimmed)
            (\<lambda>r. case r of Some p' \<Rightarrow> Inr p'
             | None \<Rightarrow>
                 (case (strip_prefix ''+'' line, last_opt (parser_hunks p)) of
                    (Some line_to_add, Some (AddFile path contents)) \<Rightarrow>
                      Inr (p\<lparr> parser_hunks :=
                        butlast (parser_hunks p) @ [AddFile path (contents @ line_to_add @ [nl])] \<rparr>)
                  | _ \<Rightarrow> invalid_header))
      | InDeleteFile \<Rightarrow>
          try_bind (handle_hunk_headers_and_end_patch p trimmed)
            (\<lambda>r. case r of Some p' \<Rightarrow> Inr p' | None \<Rightarrow> invalid_header)
      | InUpdateFile _ \<Rightarrow>
          try_bind (handle_hunk_headers_and_end_patch p (trim_end line))
            (\<lambda>r. case r of Some p' \<Rightarrow> Inr p'
             | None \<Rightarrow>
                 (case last_opt (parser_hunks p) of
                    Some (UpdateFile path move_path chunks) \<Rightarrow>
                      try_bind (process_update_line (line_number p) line move_path chunks)
                        (\<lambda>(move_path, chunks). Inr (p\<lparr> parser_hunks :=
                          butlast (parser_hunks p) @ [UpdateFile path move_path chunks] \<rparr>))
                  | _ \<Rightarrow> Inl (InvalidHunkError (UnexpectedUpdateLine line) (line_number p))))
      | EndedPatch \<Rightarrow>
          (if trimmed = [] then Inr p else Inl (InvalidPatchError LastLineMustEnd)))"

definition strip_cr :: "string \<Rightarrow> string" where
  "strip_cr line = unwrap_or line (strip_suffix [cr] line)"

fun push_delta ::
  "streaming_patch_parser \<Rightarrow> string \<Rightarrow> (parse_error + hunk list) \<times> streaming_patch_parser" where
  "push_delta p [] = (Inr (parser_hunks p), p)"
| "push_delta p (ch # delta) =
     (if ch = nl then
        let p' = p\<lparr> line_buffer := [], line_number := line_number p + 1 \<rparr> in
        (case process_line p' (strip_cr (line_buffer p)) of
           Inl e \<Rightarrow> (Inl e, p')
         | Inr p'' \<Rightarrow> push_delta p'' delta)
      else push_delta (p\<lparr> line_buffer := line_buffer p @ [ch] \<rparr>) delta)"

definition finish_line ::
  "streaming_patch_parser \<Rightarrow> (parse_error + unit) \<times> streaming_patch_parser" where
  "finish_line p =
     (if line_buffer p = [] then (Inr (), p)
      else
        let line = line_buffer p; p = p\<lparr> line_buffer := [], line_number := line_number p + 1 \<rparr> in
        if trim line = END_PATCH_MARKER then
          (case ensure_update_hunk_is_not_empty p (trim line) of
             Inl e \<Rightarrow> (Inl e, p)
           | Inr _ \<Rightarrow> (Inr (), p\<lparr> parser_mode := EndedPatch \<rparr>))
        else (case process_line p line of Inl e \<Rightarrow> (Inl e, p) | Inr p' \<Rightarrow> (Inr (), p')))"

definition finish ::
  "streaming_patch_parser \<Rightarrow> (parse_error + hunk list) \<times> streaming_patch_parser" where
  "finish p =
     (case finish_line p of
        (Inl e, p') \<Rightarrow> (Inl e, p')
      | (Inr _, p') \<Rightarrow>
          if parser_mode p' \<noteq> EndedPatch then (Inl (InvalidPatchError LastLineMustEnd), p')
          else (Inr (parser_hunks p'), p'))"

section \<open>Parsing a whole patch\<close>

definition check_start_and_end_lines_strict ::
  "string option \<Rightarrow> string option \<Rightarrow> parse_error + unit" where
  "check_start_and_end_lines_strict first_line last_line =
     (case (map_option trim first_line, map_option trim last_line) of
        (Some first, Some final) \<Rightarrow>
          if first = BEGIN_PATCH_MARKER \<and> final = END_PATCH_MARKER then Inr ()
          else if first \<noteq> BEGIN_PATCH_MARKER then Inl (InvalidPatchError FirstLineMustBegin)
          else Inl (InvalidPatchError LastLineMustEnd)
      | (Some first, None) \<Rightarrow>
          if first \<noteq> BEGIN_PATCH_MARKER then Inl (InvalidPatchError FirstLineMustBegin)
          else Inl (InvalidPatchError LastLineMustEnd)
      | _ \<Rightarrow> Inl (InvalidPatchError LastLineMustEnd))"

definition check_patch_boundaries_strict :: "string list \<Rightarrow> parse_error + string list" where
  "check_patch_boundaries_strict ls =
     try_bind
       (if ls = [] then check_start_and_end_lines_strict None None
        else check_start_and_end_lines_strict (Some (hd ls)) (Some (last ls)))
       (\<lambda>_. Inr ls)"

definition check_patch_boundaries_lenient :: "string list \<Rightarrow> parse_error + string list" where
  "check_patch_boundaries_lenient original_lines =
     (case check_patch_boundaries_strict original_lines of
        Inr ls \<Rightarrow> Inr ls
      | Inl original_parse_error \<Rightarrow>
          (case original_lines of
             first # _ # _ \<Rightarrow>
               if (first = ''<<EOF'' \<or> first = ''<<'' @ [CHR 0x27] @ ''EOF'' @ [CHR 0x27] \<or>
                   first = ''<<'' @ [CHR 0x22] @ ''EOF'' @ [CHR 0x22]) \<and>
                  ends_with ''EOF'' (last original_lines) \<and> 4 \<le> length original_lines
               then check_patch_boundaries_strict (butlast (tl original_lines))
               else Inl original_parse_error
           | _ \<Rightarrow> Inl original_parse_error))"

datatype parse_mode = Strict | Lenient

definition parse_patch_text :: "string \<Rightarrow> parse_mode \<Rightarrow> parse_error + apply_patch_args" where
  "parse_patch_text patch mode =
     (let ls = str_lines (trim patch) in
      try_bind (case mode of Strict \<Rightarrow> check_patch_boundaries_strict ls
                | Lenient \<Rightarrow> check_patch_boundaries_lenient ls) (\<lambda>patch_lines.
      let patch = join_with [nl] patch_lines; (r, p) = push_delta parser_default patch in
      try_bind r (\<lambda>_.
      let (r, p) = finish p in
      try_bind r (\<lambda>hunks.
      Inr \<lparr> apa_patch = patch, apa_hunks = hunks, apa_workdir = None,
            apa_environment_id = parser_environment_id p \<rparr>))))"

definition PARSE_IN_STRICT_MODE :: bool where
  "PARSE_IN_STRICT_MODE = False"

definition parse_patch :: "string \<Rightarrow> parse_error + apply_patch_args" where
  "parse_patch patch = parse_patch_text patch (if PARSE_IN_STRICT_MODE then Strict else Lenient)"

end
