(* ===== verification/PatchParser_Props.thy ===== *)
theory PatchParser_Props
  imports PatchParser Utf8
begin

text \<open>
  Correctness of the patch parser: it does not depend on how the text is cut into deltas, a patch
  rendered by the grammar in the header of \<open>parser.rs\<close> parses back to the same hunks, and whatever
  the parser accepts can be rendered again.
\<close>

section \<open>Incremental consumers\<close>

text \<open>
  A consumer that can fail: \<open>done\<close> is what it returns for the empty input, and consuming a
  concatenation is consuming the parts in order, stopping at the first error.
\<close>

locale incremental =
  fixes push :: "'s \<Rightarrow> 'a list \<Rightarrow> ('e + 'b) \<times> 's" and result_of :: "'s \<Rightarrow> 'b"
  assumes push_nil: "push s [] = (Inr (result_of s), s)"
    and push_append: "push s (xs @ ys) =
      (case push s xs of (Inl e, s') \<Rightarrow> (Inl e, s') | (Inr _, s') \<Rightarrow> push s' ys)"
begin

fun push_all :: "'s \<Rightarrow> 'a list list \<Rightarrow> ('e + 'b) \<times> 's" where
  "push_all s [] = (Inr (result_of s), s)"
| "push_all s (d # ds) = (case push s d of (Inl e, s') \<Rightarrow> (Inl e, s') | (Inr _, s') \<Rightarrow> push_all s' ds)"

lemma push_all_concat: "push_all s ds = push s (concat ds)"
  by (induction ds arbitrary: s) (auto simp: push_nil push_append split: prod.split sum.split)

end

lemma push_delta_append:
  "push_delta p (xs @ ys) =
     (case push_delta p xs of (Inl e, p') \<Rightarrow> (Inl e, p') | (Inr _, p') \<Rightarrow> push_delta p' ys)"
  by (induction p xs rule: push_delta.induct) (auto simp: Let_def split: sum.split)

interpretation patch_stream: incremental push_delta parser_hunks
  by unfold_locales (simp_all add: push_delta_append)

text \<open>The deltas of a stream, pushed one after the other.\<close>

fun push_deltas ::
  "streaming_patch_parser \<Rightarrow> string list \<Rightarrow> (parse_error + hunk list) \<times> streaming_patch_parser" where
  "push_deltas p [] = (Inr (parser_hunks p), p)"
| "push_deltas p (d # ds) =
     (case push_delta p d of (Inl e, p') \<Rightarrow> (Inl e, p') | (Inr _, p') \<Rightarrow> push_deltas p' ds)"

lemma push_deltas_conv: "push_deltas p ds = patch_stream.push_all p ds"
  by (induction p ds rule: push_deltas.induct) (auto split: prod.split sum.split)

text \<open>
  Streaming does not change the result: pushing the deltas of a stream one by one gives the
  same hunks, the same error and the same parser state as pushing their concatenation at once.
\<close>

theorem push_deltas_concat: "push_deltas p ds = push_delta p (concat ds)"
  by (simp add: push_deltas_conv patch_stream.push_all_concat)

section \<open>Trimming\<close>

lemma length_concat_dropWhile: "length (concat (rev (dropWhile P (rev gs)))) \<le> length (concat gs)"
proof (induction gs rule: rev_induct)
  case (snoc g gs)
  then show ?case by (cases "P g") auto
qed simp

lemma trim_end_id_iff: "trim_end s = s \<longleftrightarrow> s = [] \<or> \<not> is_whitespace (last (chars s))"
proof (cases "chars s" rule: rev_cases)
  case (snoc gs g)
  have s: "s = concat gs @ g" using concat_chars [of s] snoc by simp
  have "g \<noteq> []" using chars_ne [of g s] snoc by simp
  have "length (trim_end s) < length s" if "is_whitespace g"
  proof -
    from that have "trim_end s = concat (rev (dropWhile is_whitespace (rev gs)))"
      by (simp add: trim_end_def snoc)
    then have "length (trim_end s) \<le> length (concat gs)" by (simp only: length_concat_dropWhile)
    moreover have "length s = length (concat gs) + length g" by (subst s) simp
    ultimately show ?thesis using \<open>g \<noteq> []\<close> by (cases g) auto
  qed
  moreover have "trim_end s = s" if "\<not> is_whitespace g"
    using that by (subst (2) s) (simp add: trim_end_def snoc)
  moreover have "s \<noteq> []" using snoc by auto
  ultimately show ?thesis using snoc by (cases "is_whitespace g") auto
qed (simp add: trim_end_def)

lemma trim_end_append:
  assumes "b \<noteq> []" "char_boundary b" "trim_end b = b"
  shows "trim_end (a @ b) = a @ b"
proof -
  have "last (chars (a @ b)) = last (chars b)" using assms by (simp add: chars_append)
  with assms show ?thesis unfolding trim_end_id_iff by simp
qed

lemma trim_start_id: "s = [] \<or> \<not> is_whitespace (hd (chars s)) \<Longrightarrow> trim_start s = s"
  by (cases "chars s") (auto simp: trim_start_def, metis concat.simps(2) concat_chars)

text \<open>Bytes that start no whitespace character.\<close>

definition solid :: "char \<Rightarrow> bool" where
  "solid c \<longleftrightarrow> c \<notin> hd ` set whitespace_chars"

lemma solid_markers [simp]: "solid (CHR ''*'')" "solid (CHR ''+'')" "solid (CHR ''-'')" "solid (CHR ''@'')"
  by code_simp+

lemma solid_group: "solid (hd g) \<Longrightarrow> \<not> is_whitespace g"
  by (auto simp: solid_def is_whitespace_def)

lemma trim_start_solid: "solid c \<Longrightarrow> trim_start (c # s) = c # s"
  using hd_chars [of "c # s"] solid_group [of "hd (chars (c # s))"] by (intro trim_start_id) simp

lemma trim_end_solid:
  assumes "solid c"
  shows "\<exists>r. trim_end (c # s) = c # r"
proof -
  have "chars (c # s) \<noteq> []" by (simp del: chars.simps)
  then obtain g gs where g: "chars (c # s) = g # gs" by (meson neq_Nil_conv)
  have "hd g = c" using hd_chars [of "c # s"] g by simp
  moreover have "g \<noteq> []" using chars_ne [of g "c # s"] g by simp
  ultimately obtain g' where "g = c # g'" by (cases g) auto
  with solid_group [of g] assms have "trim_end (c # s) = g @ concat (rev (dropWhile is_whitespace (rev gs)))"
    by (simp add: trim_end_def g dropWhile_append3 del: chars.simps)
  with \<open>g = c # g'\<close> show ?thesis by simp
qed

lemma trim_solid: "solid c \<Longrightarrow> trim (c # s) = trim_end (c # s)"
  by (simp add: trim_def trim_start_solid)

section \<open>Rendering a patch\<close>

text \<open>The grammar of the file header, as a printer: one line per element of the list.\<close>

definition render_context :: "string option \<Rightarrow> string" where
  "render_context c =
     (case c of None \<Rightarrow> EMPTY_CHANGE_CONTEXT_MARKER | Some c \<Rightarrow> CHANGE_CONTEXT_MARKER @ c)"

definition render_chunk :: "update_file_chunk \<Rightarrow> string list" where
  "render_chunk c =
     render_context (change_context c) #
     map ((#) (CHR ''-'')) (old_lines c) @ map ((#) (CHR ''+'')) (new_lines c) @
     (if is_end_of_file c then [EOF_MARKER] else [])"

definition content_lines :: "string \<Rightarrow> string list" where
  "content_lines s = (if s = [] then [] else split_on nl (butlast s))"

fun render_hunk :: "hunk \<Rightarrow> string list" where
  "render_hunk (AddFile path contents) =
     (ADD_FILE_MARKER @ path) # map ((#) (CHR ''+'')) (content_lines contents)"
| "render_hunk (DeleteFile path) = [DELETE_FILE_MARKER @ path]"
| "render_hunk (UpdateFile path move_path chunks) =
     (UPDATE_FILE_MARKER @ path) #
     (case move_path of None \<Rightarrow> [] | Some q \<Rightarrow> [MOVE_TO_MARKER @ q]) @ concat (map render_chunk chunks)"

definition render_patch :: "string option \<Rightarrow> hunk list \<Rightarrow> string" where
  "render_patch environment_id hunks =
     join_with [nl]
       ([BEGIN_PATCH_MARKER] @
        (case environment_id of None \<Rightarrow> [] | Some e \<Rightarrow> [ENVIRONMENT_ID_MARKER @ '' '' @ e]) @
        concat (map render_hunk hunks) @ [END_PATCH_MARKER])"

text \<open>
  What can be rendered: lines without line breaks, names that no trimming changes, and no empty
  update hunk or chunk.
\<close>

definition wf_line :: "string \<Rightarrow> bool" where
  "wf_line l \<longleftrightarrow> nl \<notin> set l \<and> (l = [] \<or> last l \<noteq> cr)"

definition wf_name :: "string \<Rightarrow> bool" where
  "wf_name s \<longleftrightarrow> s \<noteq> [] \<and> wf_line s \<and> char_boundary s \<and> trim_end s = s"

fun opt_holds :: "('a \<Rightarrow> bool) \<Rightarrow> 'a option \<Rightarrow> bool" where
  "opt_holds P None \<longleftrightarrow> True"
| "opt_holds P (Some x) \<longleftrightarrow> P x"

definition wf_chunk :: "update_file_chunk \<Rightarrow> bool" where
  "wf_chunk c \<longleftrightarrow> \<not> chunk_is_empty c \<and> opt_holds wf_name (change_context c) \<and>
     list_all wf_line (old_lines c) \<and> list_all wf_line (new_lines c)"

definition wf_contents :: "string \<Rightarrow> bool" where
  "wf_contents s \<longleftrightarrow> s = [] \<or> last s = nl \<and> list_all wf_line (split_on nl (butlast s))"

fun wf_hunk :: "hunk \<Rightarrow> bool" where
  "wf_hunk (AddFile path contents) \<longleftrightarrow> wf_name path \<and> wf_contents contents"
| "wf_hunk (DeleteFile path) \<longleftrightarrow> wf_name path"
| "wf_hunk (UpdateFile path move_path chunks) \<longleftrightarrow>
     wf_name path \<and> opt_holds wf_name move_path \<and> chunks \<noteq> [] \<and> list_all wf_chunk chunks"

definition wf_patch :: "string option \<Rightarrow> hunk list \<Rightarrow> bool" where
  "wf_patch environment_id hunks \<longleftrightarrow>
     opt_holds (\<lambda>e. wf_name e \<and> trim e = e) environment_id \<and> list_all wf_hunk hunks"

section \<open>Lines of a rendered patch\<close>

lemma wf_name_trim_end: "wf_name s \<Longrightarrow> trim_end (m @ s) = m @ s"
  by (simp add: wf_name_def trim_end_append)

lemma wf_name_trim: "wf_name s \<Longrightarrow> m = CHR ''*'' # m' \<Longrightarrow> trim (m @ s) = m @ s"
  using wf_name_trim_end [of s m] by (simp add: trim_solid)

text \<open>States between hunks: nothing buffered, and the last hunk is complete.\<close>

definition between_hunks :: "streaming_patch_parser \<Rightarrow> bool" where
  "between_hunks p \<longleftrightarrow>
     line_buffer p = [] \<and> parser_mode p \<noteq> NotStarted \<and> parser_mode p \<noteq> EndedPatch \<and>
     (case last_opt (parser_hunks p) of
        Some (UpdateFile _ _ chunks) \<Rightarrow> chunks \<noteq> [] \<and> \<not> chunk_is_empty (last chunks)
      | _ \<Rightarrow> True)"

lemma between_hunks_ensure: "between_hunks p \<Longrightarrow> ensure_update_hunk_is_not_empty p l = Inr ()"
  by (auto simp: between_hunks_def split: option.splits hunk.splits list.splits)

lemma header_line:
  assumes "between_hunks p" "trim l = l" "trim_end l = l"
    "\<And>p. between_hunks p \<Longrightarrow> handle_hunk_headers_and_end_patch p l = Inr (Some (f p))"
  shows "process_line p l = Inr (f p)"
  using assms by (cases "parser_mode p") (auto simp: process_line_def between_hunks_def Let_def)

lemma process_add_header:
  assumes "between_hunks p" "wf_name path"
  shows "process_line p (ADD_FILE_MARKER @ path) =
    Inr (p\<lparr> parser_hunks := parser_hunks p @ [AddFile path []], parser_mode := InAddFile \<rparr>)"
proof (rule header_line [OF assms(1)])
  show "trim (ADD_FILE_MARKER @ path) = ADD_FILE_MARKER @ path"
    by (rule wf_name_trim [OF assms(2)]) (simp add: ADD_FILE_MARKER_def)
  show "handle_hunk_headers_and_end_patch p (ADD_FILE_MARKER @ path) =
     Inr (Some (p\<lparr> parser_hunks := parser_hunks p @ [AddFile path []], parser_mode := InAddFile \<rparr>))"
    if "between_hunks p" for p
    using that
    by (simp add: handle_hunk_headers_and_end_patch_def ADD_FILE_MARKER_def ENVIRONMENT_ID_MARKER_def
        END_PATCH_MARKER_def push_hunk_def between_hunks_ensure del: ensure_update_hunk_is_not_empty.simps)
qed (rule wf_name_trim_end [OF assms(2)])

lemma process_delete_header:
  assumes "between_hunks p" "wf_name path"
  shows "process_line p (DELETE_FILE_MARKER @ path) =
    Inr (p\<lparr> parser_hunks := parser_hunks p @ [DeleteFile path], parser_mode := InDeleteFile \<rparr>)"
proof (rule header_line [OF assms(1)])
  show "trim (DELETE_FILE_MARKER @ path) = DELETE_FILE_MARKER @ path"
    by (rule wf_name_trim [OF assms(2)]) (simp add: DELETE_FILE_MARKER_def)
  show "handle_hunk_headers_and_end_patch p (DELETE_FILE_MARKER @ path) =
     Inr (Some (p\<lparr> parser_hunks := parser_hunks p @ [DeleteFile path], parser_mode := InDeleteFile \<rparr>))"
    if "between_hunks p" for p
    using that
    by (simp add: handle_hunk_headers_and_end_patch_def ADD_FILE_MARKER_def DELETE_FILE_MARKER_def
        ENVIRONMENT_ID_MARKER_def END_PATCH_MARKER_def push_hunk_def between_hunks_ensure
        del: ensure_update_hunk_is_not_empty.simps)
qed (rule wf_name_trim_end [OF assms(2)])

lemma process_update_header:
  assumes "between_hunks p" "wf_name path"
  shows "process_line p (UPDATE_FILE_MARKER @ path) =
    Inr (p\<lparr> parser_hunks := parser_hunks p @ [UpdateFile path None []],
            parser_mode := InUpdateFile (line_number p) \<rparr>)"
proof (rule header_line [OF assms(1)])
  show "trim (UPDATE_FILE_MARKER @ path) = UPDATE_FILE_MARKER @ path"
    by (rule wf_name_trim [OF assms(2)]) (simp add: UPDATE_FILE_MARKER_def)
  show "handle_hunk_headers_and_end_patch p (UPDATE_FILE_MARKER @ path) =
     Inr (Some (p\<lparr> parser_hunks := parser_hunks p @ [UpdateFile path None []],
            parser_mode := InUpdateFile (line_number p) \<rparr>))"
    if "between_hunks p" for p
    using that
    by (simp add: handle_hunk_headers_and_end_patch_def ADD_FILE_MARKER_def DELETE_FILE_MARKER_def
        UPDATE_FILE_MARKER_def ENVIRONMENT_ID_MARKER_def END_PATCH_MARKER_def push_hunk_def
        between_hunks_ensure del: ensure_update_hunk_is_not_empty.simps)
qed (rule wf_name_trim_end [OF assms(2)])

lemma no_header_line:
  assumes "c \<noteq> CHR ''*''"
  shows "handle_hunk_headers_and_end_patch p (c # l) = Inr None"
  using assms
  by (simp add: handle_hunk_headers_and_end_patch_def ADD_FILE_MARKER_def DELETE_FILE_MARKER_def
        UPDATE_FILE_MARKER_def ENVIRONMENT_ID_MARKER_def END_PATCH_MARKER_def)

text \<open>Complete lines, each counted before it is processed.\<close>

fun process_lines :: "streaming_patch_parser \<Rightarrow> string list \<Rightarrow> parse_error + streaming_patch_parser" where
  "process_lines p [] = Inr p"
| "process_lines p (l # ls) =
     try_bind (process_line (p\<lparr> line_number := line_number p + 1 \<rparr>) l) (\<lambda>p. process_lines p ls)"

lemma process_lines_append:
  "process_lines p (xs @ ys) = try_bind (process_lines p xs) (\<lambda>p. process_lines p ys)"
proof (induction xs arbitrary: p)
  case (Cons x xs)
  then show ?case by (cases "process_line (p\<lparr> line_number := line_number p + 1 \<rparr>) x") auto
qed simp

lemma process_lines_appendI:
  "process_lines p xs = Inr p' \<Longrightarrow> process_lines p' ys = r \<Longrightarrow> process_lines p (xs @ ys) = r"
  by (simp add: process_lines_append)

lemma process_add_lines:
  assumes "parser_mode p = InAddFile" "parser_hunks p = hs @ [AddFile path contents]"
  shows "process_lines p (map ((#) (CHR ''+'')) ls) =
    Inr (p\<lparr> parser_hunks := hs @ [AddFile path (contents @ concat (map (\<lambda>l. l @ [nl]) ls))],
            line_number := line_number p + length ls \<rparr>)"
  using assms
proof (induction ls arbitrary: p contents)
  case (Cons l ls)
  obtain r where r: "trim (CHR ''+'' # l) = CHR ''+'' # r"
    using trim_end_solid [of "CHR ''+''" l] by (auto simp: trim_solid)
  let ?p = "p\<lparr> line_number := line_number p + 1 \<rparr>"
  have "process_line ?p (CHR ''+'' # l) =
      Inr (?p\<lparr> parser_hunks := hs @ [AddFile path (contents @ l @ [nl])] \<rparr>)"
    using Cons.prems by (simp add: process_line_def r no_header_line Let_def last_opt_conv)
  with Cons.prems Cons.IH [of "?p\<lparr> parser_hunks := hs @ [AddFile path (contents @ l @ [nl])] \<rparr>"
      "contents @ l @ [nl]"]
  show ?case by simp
qed simp

lemma process_in_update:
  assumes "parser_mode p = InUpdateFile n" "parser_hunks p = hs @ [UpdateFile path mv cs]"
    "handle_hunk_headers_and_end_patch p (trim_end l) = Inr None"
    "process_update_line (line_number p) l mv cs = Inr (mv', cs')"
  shows "process_line p l = Inr (p\<lparr> parser_hunks := hs @ [UpdateFile path mv' cs'] \<rparr>)"
  using assms by (simp add: process_line_def Let_def last_opt_conv)

lemma process_old_new_line:
  assumes "parser_mode p = InUpdateFile n" "parser_hunks p = hs @ [UpdateFile path mv (cs @ [c])]"
    "\<not> is_end_of_file c"
  shows "process_line p (CHR ''-'' # l) = Inr (p\<lparr> parser_hunks := hs @ [UpdateFile path mv (cs @ [add_old l c])] \<rparr>)"
    and "process_line p (CHR ''+'' # l) = Inr (p\<lparr> parser_hunks := hs @ [UpdateFile path mv (cs @ [add_new l c])] \<rparr>)"
proof -
  obtain r where r: "trim_end (CHR ''-'' # l) = CHR ''-'' # r" using trim_end_solid [of "CHR ''-''" l] by auto
  show "process_line p (CHR ''-'' # l) = Inr (p\<lparr> parser_hunks := hs @ [UpdateFile path mv (cs @ [add_old l c])] \<rparr>)"
    using assms
    by (intro process_in_update [of p n hs path mv "cs @ [c]"])
      (simp_all add: r no_header_line process_update_line_def Let_def is_context_line_def starts_with_def
        EMPTY_CHANGE_CONTEXT_MARKER_def CHANGE_CONTEXT_MARKER_def EOF_MARKER_def in_last_chunk_def)
  obtain r where r: "trim_end (CHR ''+'' # l) = CHR ''+'' # r" using trim_end_solid [of "CHR ''+''" l] by auto
  show "process_line p (CHR ''+'' # l) = Inr (p\<lparr> parser_hunks := hs @ [UpdateFile path mv (cs @ [add_new l c])] \<rparr>)"
    using assms
    by (intro process_in_update [of p n hs path mv "cs @ [c]"])
      (simp_all add: r no_header_line process_update_line_def Let_def is_context_line_def starts_with_def
        EMPTY_CHANGE_CONTEXT_MARKER_def CHANGE_CONTEXT_MARKER_def EOF_MARKER_def in_last_chunk_def)
qed

lemma process_old_lines:
  assumes "parser_mode p = InUpdateFile n" "parser_hunks p = hs @ [UpdateFile path mv (cs @ [c])]"
    "\<not> is_end_of_file c"
  shows "process_lines p (map ((#) (CHR ''-'')) ls) =
    Inr (p\<lparr> parser_hunks := hs @ [UpdateFile path mv (cs @ [c\<lparr> old_lines := old_lines c @ ls \<rparr>])],
            line_number := line_number p + length ls \<rparr>)"
  using assms
proof (induction ls arbitrary: p c)
  case (Cons l ls)
  let ?p = "p\<lparr> line_number := line_number p + 1 \<rparr>"
  have "process_line ?p (CHR ''-'' # l) = Inr (?p\<lparr> parser_hunks := hs @ [UpdateFile path mv (cs @ [add_old l c])] \<rparr>)"
    using Cons.prems by (intro process_old_new_line) simp_all
  with Cons.prems Cons.IH [of "?p\<lparr> parser_hunks := hs @ [UpdateFile path mv (cs @ [add_old l c])] \<rparr>" "add_old l c"]
  show ?case by (simp add: add_old_def)
qed simp

lemma process_new_lines:
  assumes "parser_mode p = InUpdateFile n" "parser_hunks p = hs @ [UpdateFile path mv (cs @ [c])]"
    "\<not> is_end_of_file c"
  shows "process_lines p (map ((#) (CHR ''+'')) ls) =
    Inr (p\<lparr> parser_hunks := hs @ [UpdateFile path mv (cs @ [c\<lparr> new_lines := new_lines c @ ls \<rparr>])],
            line_number := line_number p + length ls \<rparr>)"
  using assms
proof (induction ls arbitrary: p c)
  case (Cons l ls)
  let ?p = "p\<lparr> line_number := line_number p + 1 \<rparr>"
  have "process_line ?p (CHR ''+'' # l) = Inr (?p\<lparr> parser_hunks := hs @ [UpdateFile path mv (cs @ [add_new l c])] \<rparr>)"
    using Cons.prems by (intro process_old_new_line) simp_all
  with Cons.prems Cons.IH [of "?p\<lparr> parser_hunks := hs @ [UpdateFile path mv (cs @ [add_new l c])] \<rparr>" "add_new l c"]
  show ?case by (simp add: add_new_def)
qed simp

lemma trim_end_literals [simp]:
  "trim_end EMPTY_CHANGE_CONTEXT_MARKER = EMPTY_CHANGE_CONTEXT_MARKER"
  "trim_end EOF_MARKER = EOF_MARKER" "trim_end END_PATCH_MARKER = END_PATCH_MARKER"
  "trim END_PATCH_MARKER = END_PATCH_MARKER" "trim BEGIN_PATCH_MARKER = BEGIN_PATCH_MARKER"
  by code_simp+

lemma no_header_context:
  "handle_hunk_headers_and_end_patch p EMPTY_CHANGE_CONTEXT_MARKER = Inr None"
  "handle_hunk_headers_and_end_patch p (CHANGE_CONTEXT_MARKER @ s) = Inr None"
  "handle_hunk_headers_and_end_patch p (MOVE_TO_MARKER @ s) = Inr None"
  "handle_hunk_headers_and_end_patch p EOF_MARKER = Inr None"
  by (simp_all add: EMPTY_CHANGE_CONTEXT_MARKER_def CHANGE_CONTEXT_MARKER_def no_header_line)
    (simp_all add: handle_hunk_headers_and_end_patch_def ADD_FILE_MARKER_def DELETE_FILE_MARKER_def
        UPDATE_FILE_MARKER_def ENVIRONMENT_ID_MARKER_def END_PATCH_MARKER_def MOVE_TO_MARKER_def EOF_MARKER_def)

lemma context_markers:
  "is_context_line EMPTY_CHANGE_CONTEXT_MARKER" "is_context_line (CHANGE_CONTEXT_MARKER @ s)"
  "\<not> is_context_line EOF_MARKER" "\<not> is_context_line (MOVE_TO_MARKER @ s)"
  "EMPTY_CHANGE_CONTEXT_MARKER \<noteq> []" "CHANGE_CONTEXT_MARKER @ s \<noteq> []" "EOF_MARKER \<noteq> []"
  "\<not> starts_with MOVE_TO_MARKER EMPTY_CHANGE_CONTEXT_MARKER"
  "\<not> starts_with MOVE_TO_MARKER (CHANGE_CONTEXT_MARKER @ s)"
  "CHANGE_CONTEXT_MARKER @ s \<noteq> EMPTY_CHANGE_CONTEXT_MARKER"
  "starts_with CHANGE_CONTEXT_MARKER (CHANGE_CONTEXT_MARKER @ s)"
  "starts_with MOVE_TO_MARKER (MOVE_TO_MARKER @ s)" "\<not> starts_with MOVE_TO_MARKER EOF_MARKER"
  "EOF_MARKER \<noteq> EMPTY_CHANGE_CONTEXT_MARKER" "\<not> starts_with CHANGE_CONTEXT_MARKER EOF_MARKER"
  by (simp_all add: is_context_line_def starts_with_def)
    (simp_all add: EMPTY_CHANGE_CONTEXT_MARKER_def CHANGE_CONTEXT_MARKER_def EOF_MARKER_def MOVE_TO_MARKER_def)

text \<open>A context line opens a chunk when there is none or the last one has lines.\<close>

lemma process_context_line:
  assumes "parser_mode p = InUpdateFile n" "parser_hunks p = hs @ [UpdateFile path mv cs]"
    "cs = [] \<or> \<not> chunk_is_empty (last cs)" "opt_holds wf_name cx"
  shows "process_line p (render_context cx) =
    Inr (p\<lparr> parser_hunks := hs @ [UpdateFile path mv (cs @ [new_chunk cx])] \<rparr>)"
proof (cases cx)
  case None
  with assms show ?thesis
    by (intro process_in_update [of p n hs path mv cs])
      (simp_all add: render_context_def no_header_context process_update_line_def context_markers Let_def)
next
  case (Some ctx)
  with assms(4) have t: "trim_end (CHANGE_CONTEXT_MARKER @ ctx) = CHANGE_CONTEXT_MARKER @ ctx"
    by (simp add: wf_name_trim_end)
  from assms Some show ?thesis
    by (intro process_in_update [of p n hs path mv cs])
      (simp_all add: render_context_def t no_header_context process_update_line_def context_markers Let_def
        del: append_is_Nil_conv)
qed

lemma process_eof_line:
  assumes "parser_mode p = InUpdateFile n" "parser_hunks p = hs @ [UpdateFile path mv (cs @ [c])]"
    "\<not> is_end_of_file c" "\<not> chunk_is_empty c"
  shows "process_line p EOF_MARKER =
    Inr (p\<lparr> parser_hunks := hs @ [UpdateFile path mv (cs @ [c\<lparr> is_end_of_file := True \<rparr>])] \<rparr>)"
  using assms
  by (intro process_in_update [of p n hs path mv "cs @ [c]"])
    (simp_all add: no_header_context process_update_line_def context_markers Let_def in_last_chunk_def)

lemma process_move_line:
  assumes "parser_mode p = InUpdateFile n" "parser_hunks p = hs @ [UpdateFile path None []]" "wf_name q"
  shows "process_line p (MOVE_TO_MARKER @ q) = Inr (p\<lparr> parser_hunks := hs @ [UpdateFile path (Some q) []] \<rparr>)"
  using assms
  by (intro process_in_update [of p n hs path None "[]"])
    (simp_all add: wf_name_trim_end no_header_context process_update_line_def context_markers Let_def)

text \<open>A whole chunk.\<close>

lemma process_chunk:
  assumes "parser_mode p = InUpdateFile n" "parser_hunks p = hs @ [UpdateFile path mv cs]"
    "cs = [] \<or> \<not> chunk_is_empty (last cs)" "wf_chunk c"
  shows "\<exists>k. process_lines p (render_chunk c) =
    Inr (p\<lparr> parser_hunks := hs @ [UpdateFile path mv (cs @ [c])], line_number := k \<rparr>)"
proof -
  let ?p1 = "p\<lparr> line_number := line_number p + 1,
    parser_hunks := hs @ [UpdateFile path mv (cs @ [new_chunk (change_context c)])] \<rparr>"
  let ?c2 = "(new_chunk (change_context c))\<lparr> old_lines := old_lines c \<rparr>"
  let ?c3 = "?c2\<lparr> new_lines := new_lines c \<rparr>"
  let ?p2 = "?p1\<lparr> parser_hunks := hs @ [UpdateFile path mv (cs @ [?c2])],
    line_number := line_number ?p1 + length (old_lines c) \<rparr>"
  let ?p3 = "?p2\<lparr> parser_hunks := hs @ [UpdateFile path mv (cs @ [?c3])],
    line_number := line_number ?p2 + length (new_lines c) \<rparr>"
  have 1: "process_lines p [render_context (change_context c)] = Inr ?p1"
    using assms
      process_context_line [of "p\<lparr> line_number := line_number p + 1 \<rparr>" n hs path mv cs "change_context c"]
    by (simp add: wf_chunk_def)
  have 2: "process_lines ?p1 (map ((#) (CHR ''-'')) (old_lines c)) = Inr ?p2"
    using assms(1) process_old_lines [of ?p1 n hs path mv cs "new_chunk (change_context c)" "old_lines c"]
    by (simp add: new_chunk_def)
  have 3: "process_lines ?p2 (map ((#) (CHR ''+'')) (new_lines c)) = Inr ?p3"
    using assms(1) process_new_lines [of ?p2 n hs path mv cs ?c2 "new_lines c"]
    by (simp add: new_chunk_def)
  have 4: "\<exists>k. process_lines ?p3 (if is_end_of_file c then [EOF_MARKER] else []) =
      Inr (p\<lparr> parser_hunks := hs @ [UpdateFile path mv (cs @ [c])], line_number := k \<rparr>)"
  proof (cases "is_end_of_file c")
    case True
    have "process_line (?p3\<lparr> line_number := line_number ?p3 + 1 \<rparr>) EOF_MARKER =
        Inr (?p3\<lparr> line_number := line_number ?p3 + 1,
               parser_hunks := hs @ [UpdateFile path mv (cs @ [?c3\<lparr> is_end_of_file := True \<rparr>])] \<rparr>)"
      using assms(1,4)
      by (subst process_eof_line [of _ n hs path mv cs ?c3])
        (simp_all add: new_chunk_def wf_chunk_def chunk_is_empty_def)
    moreover have "?c3\<lparr> is_end_of_file := True \<rparr> = c" using True by (cases c) (simp add: new_chunk_def)
    ultimately show ?thesis using True by (cases p) auto
  next
    case False
    then have "?c3 = c" by (cases c) (simp add: new_chunk_def)
    with False show ?thesis by (cases p) auto
  qed
  from 4 obtain k where k: "process_lines ?p3 (if is_end_of_file c then [EOF_MARKER] else []) =
      Inr (p\<lparr> parser_hunks := hs @ [UpdateFile path mv (cs @ [c])], line_number := k \<rparr>)" ..
  have "render_chunk c = [render_context (change_context c)] @ map ((#) (CHR ''-'')) (old_lines c) @
      map ((#) (CHR ''+'')) (new_lines c) @ (if is_end_of_file c then [EOF_MARKER] else [])"
    by (simp add: render_chunk_def)
  then have "process_lines p (render_chunk c) =
      Inr (p\<lparr> parser_hunks := hs @ [UpdateFile path mv (cs @ [c])], line_number := k \<rparr>)"
    by (simp only: process_lines_appendI [OF 1 process_lines_appendI [OF 2 process_lines_appendI [OF 3 k]]])
  then show ?thesis ..
qed

lemma process_chunks:
  assumes "parser_mode p = InUpdateFile n" "parser_hunks p = hs @ [UpdateFile path mv cs]"
    "cs = [] \<or> \<not> chunk_is_empty (last cs)" "list_all wf_chunk cs'"
  shows "\<exists>k. process_lines p (concat (map render_chunk cs')) =
    Inr (p\<lparr> parser_hunks := hs @ [UpdateFile path mv (cs @ cs')], line_number := k \<rparr>)"
  using assms
proof (induction cs' arbitrary: p cs)
  case Nil
  then show ?case by (auto intro!: exI [of _ "line_number p"])
next
  case (Cons c cs')
  from Cons.prems have c: "wf_chunk c" "list_all wf_chunk cs'" "\<not> chunk_is_empty c"
    by (simp_all add: wf_chunk_def [of c])
  from process_chunk [OF Cons.prems(1-3) c(1)] obtain k where
    1: "process_lines p (render_chunk c) =
      Inr (p\<lparr> parser_hunks := hs @ [UpdateFile path mv (cs @ [c])], line_number := k \<rparr>)" ..
  have "\<exists>k'. process_lines (p\<lparr> parser_hunks := hs @ [UpdateFile path mv (cs @ [c])], line_number := k \<rparr>)
      (concat (map render_chunk cs')) =
    Inr ((p\<lparr> parser_hunks := hs @ [UpdateFile path mv (cs @ [c])], line_number := k \<rparr>)
      \<lparr> parser_hunks := hs @ [UpdateFile path mv ((cs @ [c]) @ cs')], line_number := k' \<rparr>)"
    using Cons.prems(1) c by (intro Cons.IH) simp_all
  then show ?case by (auto simp: process_lines_append 1)
qed

lemma content_lines_concat: "wf_contents s \<Longrightarrow> concat (map (\<lambda>l. l @ [nl]) (content_lines s)) = s"
proof -
  assume "wf_contents s"
  moreover have "concat (map (\<lambda>l. l @ [nl]) xs) = join_with [nl] xs @ [nl]" if "xs \<noteq> []" for xs :: "string list"
    using that by (induction "[nl]" xs rule: join_with.induct) auto
  moreover have "last s = nl \<Longrightarrow> s \<noteq> [] \<Longrightarrow> butlast s @ [nl] = s" by (metis append_butlast_last_id)
  ultimately show ?thesis
    by (auto simp: wf_contents_def content_lines_def join_with_split_on)
qed

text \<open>A whole hunk.\<close>

lemma process_hunk:
  assumes "between_hunks p" "wf_hunk h"
  shows "\<exists>p'. process_lines p (render_hunk h) = Inr p' \<and> parser_hunks p' = parser_hunks p @ [h] \<and>
    between_hunks p' \<and> parser_environment_id p' = parser_environment_id p"
proof -
  let ?p = "p\<lparr> line_number := line_number p + 1 \<rparr>"
  have b: "between_hunks ?p" using assms(1) by (simp add: between_hunks_def)
  show ?thesis
  proof (cases h)
    case (AddFile path contents)
    let ?q = "?p\<lparr> parser_hunks := parser_hunks p @ [AddFile path []], parser_mode := InAddFile \<rparr>"
    have "process_line ?p (ADD_FILE_MARKER @ path) = Inr ?q"
      using process_add_header [OF b, of path] assms(2) AddFile by simp
    moreover have "process_lines ?q (map ((#) (CHR ''+'')) (content_lines contents)) =
        Inr (?q\<lparr> parser_hunks := parser_hunks p @ [AddFile path contents],
                 line_number := line_number ?q + length (content_lines contents) \<rparr>)"
      using process_add_lines [of ?q "parser_hunks p" path "[]" "content_lines contents"] assms(2) AddFile
      by (simp add: content_lines_concat)
    ultimately show ?thesis using AddFile assms(1) by (simp add: between_hunks_def last_opt_conv)
  next
    case (DeleteFile path)
    with process_delete_header [OF b, of path] assms show ?thesis
      by (simp add: between_hunks_def last_opt_conv)
  next
    case (UpdateFile path mv cs)
    let ?n = "line_number ?p"
    let ?q = "?p\<lparr> parser_hunks := parser_hunks p @ [UpdateFile path None []], parser_mode := InUpdateFile ?n \<rparr>"
    let ?moves = "case mv of None \<Rightarrow> [] | Some q \<Rightarrow> [MOVE_TO_MARKER @ q]"
    have wf: "wf_name path" "opt_holds wf_name mv" "cs \<noteq> []" "list_all wf_chunk cs"
      using assms(2) UpdateFile by simp_all
    have 1: "process_lines p [UPDATE_FILE_MARKER @ path] = Inr ?q"
      using process_update_header [OF b wf(1)] by simp
    have 2: "\<exists>k. process_lines ?q ?moves =
        Inr (?q\<lparr> parser_hunks := parser_hunks p @ [UpdateFile path mv []], line_number := k \<rparr>)"
    proof (cases mv)
      case None
      then show ?thesis by (auto intro!: exI [of _ "line_number ?q"])
    next
      case (Some q)
      with process_move_line [of "?q\<lparr> line_number := line_number ?q + 1 \<rparr>" ?n "parser_hunks p" path q] wf
      show ?thesis by (cases p) auto
    qed
    then obtain k where k: "process_lines ?q ?moves =
        Inr (?q\<lparr> parser_hunks := parser_hunks p @ [UpdateFile path mv []], line_number := k \<rparr>)" ..
    let ?r = "?q\<lparr> parser_hunks := parser_hunks p @ [UpdateFile path mv []], line_number := k \<rparr>"
    from process_chunks [of ?r ?n "parser_hunks p" path mv "[]" cs] wf(4) obtain k' where
      3: "process_lines ?r (concat (map render_chunk cs)) =
        Inr (?r\<lparr> parser_hunks := parser_hunks p @ [UpdateFile path mv cs], line_number := k' \<rparr>)" by auto
    have "render_hunk h = [UPDATE_FILE_MARKER @ path] @ ?moves @ concat (map render_chunk cs)"
      by (simp add: UpdateFile)
    then have "process_lines p (render_hunk h) =
        Inr (?r\<lparr> parser_hunks := parser_hunks p @ [UpdateFile path mv cs], line_number := k' \<rparr>)"
      by (simp only: process_lines_appendI [OF 1 process_lines_appendI [OF k 3]])
    moreover have "\<not> chunk_is_empty (last cs)"
      using wf(3,4) by (auto simp: list_all_iff wf_chunk_def)
    ultimately show ?thesis
      using UpdateFile assms(1) wf(3) by (simp add: between_hunks_def last_opt_conv)
  qed
qed

lemma process_hunks:
  assumes "between_hunks p" "list_all wf_hunk hs"
  shows "\<exists>p'. process_lines p (concat (map render_hunk hs)) = Inr p' \<and> parser_hunks p' = parser_hunks p @ hs \<and>
    between_hunks p' \<and> parser_environment_id p' = parser_environment_id p"
  using assms
proof (induction hs arbitrary: p)
  case (Cons h hs)
  then obtain q where q: "process_lines p (render_hunk h) = Inr q" "parser_hunks q = parser_hunks p @ [h]"
    "between_hunks q" "parser_environment_id q = parser_environment_id p"
    using process_hunk [of p h] by auto
  from Cons.IH [OF q(3)] Cons.prems obtain r where
    "process_lines q (concat (map render_hunk hs)) = Inr r" "parser_hunks r = parser_hunks q @ hs"
    "between_hunks r" "parser_environment_id r = parser_environment_id q" by auto
  with q show ?case by (simp add: process_lines_append)
qed simp

section \<open>From lines to text\<close>

lemma push_delta_no_nl:
  "nl \<notin> set l \<Longrightarrow> push_delta p (l @ rest) = push_delta (p\<lparr> line_buffer := line_buffer p @ l \<rparr>) rest"
  by (induction l arbitrary: p) auto

lemma handle_headers_buffer:
  "handle_hunk_headers_and_end_patch p l = Inr (Some p') \<Longrightarrow> line_buffer p' = line_buffer p \<and>
     line_number p' = line_number p"
  by (auto simp: handle_hunk_headers_and_end_patch_def push_hunk_def result_simps Let_def
      simp del: ensure_update_hunk_is_not_empty.simps split: option.splits if_splits)

lemma process_line_buffer:
  assumes "process_line p l = Inr p'"
  shows "line_buffer p' = line_buffer p \<and> line_number p' = line_number p"
  using assms
  by (auto simp: process_line_def Let_def result_simps dest: handle_headers_buffer
      split: streaming_parser_mode.splits option.splits if_splits hunk.splits)

lemma strip_cr_wf: "wf_line l \<Longrightarrow> strip_cr l = l"
  by (cases "strip_suffix [cr] l") (auto simp: strip_cr_def strip_suffix_Some wf_line_def)

lemma push_delta_lines:
  assumes "line_buffer p = []" "list_all wf_line ls" "process_lines p ls = Inr p'"
  shows "push_delta p (concat (map (\<lambda>l. l @ [nl]) ls) @ rest) = push_delta p' rest \<and> line_buffer p' = []"
  using assms
proof (induction ls arbitrary: p)
  case (Cons l ls)
  from Cons.prems(3) obtain q where q: "process_line (p\<lparr> line_number := line_number p + 1 \<rparr>) l = Inr q"
    "process_lines q ls = Inr p'"
    by (auto simp: result_simps)
  have "line_buffer q = []" using process_line_buffer [OF q(1)] Cons.prems(1) by simp
  note IH = Cons.IH [OF this _ q(2)]
  have l: "nl \<notin> set l" "strip_cr l = l" using Cons.prems(2) strip_cr_wf by (auto simp: wf_line_def)
  have "push_delta p (l @ nl # concat (map (\<lambda>l. l @ [nl]) ls) @ rest) =
      push_delta q (concat (map (\<lambda>l. l @ [nl]) ls) @ rest)"
  proof -
    have "p\<lparr> line_buffer := [], line_number := Suc (line_number p) \<rparr> = p\<lparr> line_number := line_number p + 1 \<rparr>"
      using Cons.prems(1) by (cases p) simp
    then have "process_line (p\<lparr> line_buffer := [], line_number := Suc (line_number p) \<rparr>) l = Inr q"
      using q(1) by (simp only:)
    with Cons.prems(1) l show ?thesis by (simp add: push_delta_no_nl Let_def)
  qed
  with IH Cons.prems(2) show ?case by simp
qed simp

lemma split_inclusive_line: "nl \<notin> set l \<Longrightarrow> split_inclusive_nl (l @ nl # rest) = (l @ [nl]) # split_inclusive_nl rest"
  by (induction l) auto

lemma split_inclusive_last: "nl \<notin> set l \<Longrightarrow> l \<noteq> [] \<Longrightarrow> split_inclusive_nl l = [l]"
proof (induction l)
  case (Cons a l)
  then show ?case by (cases l) auto
qed simp

lemma line_content_nl: "wf_line l \<Longrightarrow> line_content (l @ [nl]) = l"
  by (cases "strip_suffix [cr] l") (auto simp: line_content_def strip_suffix_Some wf_line_def)

lemma line_content_last:
  assumes "nl \<notin> set l"
  shows "line_content l = l"
proof -
  have "strip_suffix [nl] l = None"
    using assms by (cases "strip_suffix [nl] l") (auto simp: strip_suffix_Some)
  then show ?thesis by (simp add: line_content_def)
qed

lemma str_lines_text:
  assumes "list_all wf_line ls" "nl \<notin> set e" "e \<noteq> []"
  shows "str_lines (concat (map (\<lambda>l. l @ [nl]) ls) @ e) = ls @ [e]"
  using assms
proof (induction ls)
  case Nil
  then show ?case by (simp add: str_lines_def split_inclusive_last line_content_last)
next
  case (Cons l ls)
  then have "nl \<notin> set l" "line_content (l @ [nl]) = l"
    by (auto simp: wf_line_def intro: line_content_nl)
  with Cons show ?case by (simp add: str_lines_def split_inclusive_line)
qed

lemma join_with_nl_snoc: "join_with [nl] (ls @ [e]) = concat (map (\<lambda>l. l @ [nl]) ls) @ e"
  by (induction "[nl]" ls rule: join_with.induct) auto

lemma wf_line_append: "nl \<notin> set m \<Longrightarrow> wf_line s \<Longrightarrow> s \<noteq> [] \<Longrightarrow> wf_line (m @ s)"
  by (simp add: wf_line_def)

lemma wf_line_Cons: "c \<noteq> nl \<Longrightarrow> c \<noteq> cr \<Longrightarrow> wf_line s \<Longrightarrow> wf_line (c # s)"
  by (auto simp: wf_line_def)

lemma wf_line_markers:
  "wf_line BEGIN_PATCH_MARKER" "wf_line EMPTY_CHANGE_CONTEXT_MARKER" "wf_line EOF_MARKER"
  "nl \<notin> set ADD_FILE_MARKER" "nl \<notin> set DELETE_FILE_MARKER" "nl \<notin> set UPDATE_FILE_MARKER"
  "nl \<notin> set MOVE_TO_MARKER" "nl \<notin> set CHANGE_CONTEXT_MARKER" "nl \<notin> set (ENVIRONMENT_ID_MARKER @ '' '')"
  "nl \<notin> set END_PATCH_MARKER" "END_PATCH_MARKER \<noteq> []"
  by code_simp+

lemma wf_marker_name: "nl \<notin> set m \<Longrightarrow> wf_name s \<Longrightarrow> wf_line (m @ s)"
  by (simp add: wf_name_def wf_line_append)

lemma render_chunk_lines: "wf_chunk c \<Longrightarrow> list_all wf_line (render_chunk c)"
  by (auto simp: render_chunk_def render_context_def wf_chunk_def list_all_iff wf_line_markers
      intro!: wf_line_Cons wf_marker_name split: option.splits)

lemma render_hunk_lines: "wf_hunk h \<Longrightarrow> list_all wf_line (render_hunk h)"
proof (cases h)
  case (UpdateFile path mv cs)
  assume "wf_hunk h"
  with UpdateFile show ?thesis
    using render_chunk_lines
    by (fastforce simp: list_all_iff wf_line_markers wf_marker_name split: option.splits)
qed (auto simp: list_all_iff wf_line_markers content_lines_def wf_contents_def
    intro!: wf_line_Cons wf_marker_name)

section \<open>The round trip\<close>

lemma trim_space:
  assumes "char_boundary e"
  shows "trim (CHR '' '' # e) = trim e"
proof -
  have "chars (CHR '' '' # e) = [CHR '' ''] # chars e"
    using chars_append [OF assms, of "'' ''"] by simp
  moreover have "is_whitespace [CHR '' '']" by code_simp
  ultimately show ?thesis by (simp add: trim_def trim_start_def del: chars.simps)
qed

definition environment_lines :: "string option \<Rightarrow> string list" where
  "environment_lines environment_id =
     (case environment_id of None \<Rightarrow> [] | Some e \<Rightarrow> [ENVIRONMENT_ID_MARKER @ '' '' @ e])"

lemma process_environment:
  assumes "parser_mode p = StartedPatch" "parser_environment_id p = None"
    "opt_holds (\<lambda>e. wf_name e \<and> trim e = e) environment_id"
  shows "\<exists>k. process_lines p (environment_lines environment_id) =
    Inr (p\<lparr> parser_environment_id := environment_id, line_number := k \<rparr>)"
proof (cases environment_id)
  case None
  with assms(2) show ?thesis by (cases p) (auto simp: environment_lines_def)
next
  case (Some e)
  with assms(3) have e: "wf_name e" "trim e = e" "e \<noteq> []" "char_boundary e" by (simp_all add: wf_name_def)
  let ?line = "ENVIRONMENT_ID_MARKER @ '' '' @ e"
  have "trim ((ENVIRONMENT_ID_MARKER @ '' '') @ e) = (ENVIRONMENT_ID_MARKER @ '' '') @ e"
    by (rule wf_name_trim [OF e(1)]) (simp add: ENVIRONMENT_ID_MARKER_def)
  then have t: "trim ?line = ?line" by simp
  have "process_line q ?line = Inr (q\<lparr> parser_environment_id := Some e \<rparr>)"
    if "parser_mode q = StartedPatch" "parser_environment_id q = None" for q
    using that e t by (simp add: process_line_def handle_hunk_headers_and_end_patch_def trim_space Let_def)
  from this [of "p\<lparr> line_number := line_number p + 1 \<rparr>"] assms(1,2) Some show ?thesis
    by (cases p) (auto simp: environment_lines_def)
qed

lemma process_patch:
  assumes "wf_patch environment_id hunks"
  shows "\<exists>p. process_lines parser_default
      ([BEGIN_PATCH_MARKER] @ environment_lines environment_id @ concat (map render_hunk hunks)) = Inr p \<and>
    parser_hunks p = hunks \<and> between_hunks p \<and> parser_environment_id p = environment_id"
proof -
  let ?p = "parser_default\<lparr> line_number := 1, parser_mode := StartedPatch \<rparr>"
  have 1: "process_lines parser_default [BEGIN_PATCH_MARKER] = Inr ?p"
    by (simp add: process_line_def parser_default_def)
  have "parser_mode ?p = StartedPatch" "parser_environment_id ?p = None"
    by (simp_all add: parser_default_def)
  from process_environment [OF this, of environment_id] assms obtain k where
    2: "process_lines ?p (environment_lines environment_id) =
      Inr (?p\<lparr> parser_environment_id := environment_id, line_number := k \<rparr>)"
    by (auto simp: wf_patch_def)
  let ?q = "?p\<lparr> parser_environment_id := environment_id, line_number := k \<rparr>"
  have "between_hunks ?q" by (simp add: between_hunks_def parser_default_def)
  from process_hunks [OF this, of hunks] assms obtain p where
    3: "process_lines ?q (concat (map render_hunk hunks)) = Inr p" "parser_hunks p = hunks"
    "between_hunks p" "parser_environment_id p = environment_id"
    by (auto simp: wf_patch_def parser_default_def)
  from process_lines_appendI [OF 1 process_lines_appendI [OF 2 3(1)]] 3(2-4) show ?thesis by blast
qed

lemma patch_lines_wf:
  assumes "wf_patch environment_id hunks"
  shows "list_all wf_line
    ([BEGIN_PATCH_MARKER] @ environment_lines environment_id @ concat (map render_hunk hunks))"
proof -
  have "list_all wf_line (environment_lines environment_id)"
  proof (cases environment_id)
    case (Some e)
    with assms wf_marker_name [of "ENVIRONMENT_ID_MARKER @ '' ''" e] wf_line_markers(9) show ?thesis
      by (simp add: environment_lines_def wf_patch_def)
  qed (simp add: environment_lines_def)
  moreover have "list_all wf_line (concat (map render_hunk hunks))"
    using assms render_hunk_lines by (fastforce simp: wf_patch_def list_all_iff)
  ultimately show ?thesis by (simp add: wf_line_markers)
qed

lemma finish_at_end:
  assumes "between_hunks p"
  shows "\<exists>q. finish (p\<lparr> line_buffer := END_PATCH_MARKER \<rparr>) = (Inr (parser_hunks p), q) \<and>
    parser_environment_id q = parser_environment_id p"
proof -
  let ?p = "p\<lparr> line_buffer := [], line_number := line_number p + 1 \<rparr>"
  have "between_hunks ?p" using assms by (simp add: between_hunks_def)
  from between_hunks_ensure [OF this, of END_PATCH_MARKER] show ?thesis
    using wf_line_markers(11)
    by (simp add: finish_def finish_line_def Let_def del: ensure_update_hunk_is_not_empty.simps)
qed

lemma parse_rendered:
  assumes "wf_patch environment_id hunks"
  shows "parse_patch (render_patch environment_id hunks) =
    Inr \<lparr> apa_patch = render_patch environment_id hunks, apa_hunks = hunks, apa_workdir = None,
          apa_environment_id = environment_id \<rparr>"
proof -
  let ?ls = "[BEGIN_PATCH_MARKER] @ environment_lines environment_id @ concat (map render_hunk hunks)"
  let ?text = "concat (map (\<lambda>l. l @ [nl]) ?ls) @ END_PATCH_MARKER"
  have r: "render_patch environment_id hunks = join_with [nl] (?ls @ [END_PATCH_MARKER])"
    by (simp add: render_patch_def environment_lines_def)
  have txt_eq: "render_patch environment_id hunks = ?text" by (simp only: r join_with_nl_snoc)
  have "trim_end ?text = ?text"
    by (rule trim_end_append) (simp_all add: END_PATCH_MARKER_def char_boundary_def is_cont_byte_def,
        simp add: END_PATCH_MARKER_def [symmetric])
  moreover have "\<exists>t. ?text = CHR ''*'' # t" by (simp add: BEGIN_PATCH_MARKER_def)
  ultimately have t: "trim ?text = ?text" using trim_solid solid_markers(1) by metis
  have text_lines: "str_lines (trim ?text) = ?ls @ [END_PATCH_MARKER]"
    unfolding t by (rule str_lines_text [OF patch_lines_wf [OF assms]]) (simp_all add: wf_line_markers)
  have "check_patch_boundaries_strict (?ls @ [END_PATCH_MARKER]) = Inr (?ls @ [END_PATCH_MARKER])"
    by (simp add: check_patch_boundaries_strict_def check_start_and_end_lines_strict_def)
  then have b: "check_patch_boundaries_lenient (str_lines (trim ?text)) = Inr (?ls @ [END_PATCH_MARKER])"
    unfolding text_lines by (simp add: check_patch_boundaries_lenient_def)
  obtain p where p: "process_lines parser_default ?ls = Inr p" "parser_hunks p = hunks" "between_hunks p"
    "parser_environment_id p = environment_id" using process_patch [OF assms] by blast
  have d0: "line_buffer parser_default = []" by (simp add: parser_default_def)
  have d: "push_delta parser_default ?text = push_delta p END_PATCH_MARKER"
    using push_delta_lines [OF d0 patch_lines_wf [OF assms] p(1)] by blast
  have "line_buffer p = []" using p(3) by (simp add: between_hunks_def)
  with push_delta_no_nl [of END_PATCH_MARKER p "[]"] wf_line_markers(10)
  have e: "push_delta p END_PATCH_MARKER = (Inr hunks, p\<lparr> line_buffer := END_PATCH_MARKER \<rparr>)"
    by (simp add: p(2))
  obtain q where q: "finish (p\<lparr> line_buffer := END_PATCH_MARKER \<rparr>) = (Inr hunks, q)"
    "parser_environment_id q = environment_id"
    using finish_at_end [OF p(3)] p(2,4) by auto
  show ?thesis
    unfolding parse_patch_def PARSE_IN_STRICT_MODE_def parse_patch_text_def txt_eq
    by (simp only: if_False parse_mode.case b try_bind.simps Let_def join_with_nl_snoc d e q prod.case)
qed

text \<open>
  C24. What the grammar prints the parser reads back: a well-formed list of hunks, with an optional
  environment id, rendered as a patch parses to exactly those hunks and that id.
\<close>

theorem parse_render_patch:
  assumes "wf_patch environment_id hunks"
  shows "parse_patch (render_patch environment_id hunks) =
    Inr \<lparr> apa_patch = render_patch environment_id hunks, apa_hunks = hunks, apa_workdir = None,
          apa_environment_id = environment_id \<rparr>"
  using assms by (rule parse_rendered)

definition sample_hunks :: "hunk list" where
  "sample_hunks =
     [AddFile ''a.txt'' (''one'' @ [nl] @ '' two'' @ [nl]), DeleteFile ''old name'',
      UpdateFile ''b.py'' (Some ''c.py'')
        [\<lparr> change_context = Some ''def f():'', old_lines = [''  pass''], new_lines = [''  return 1'', []],
           is_end_of_file = False \<rparr>,
         \<lparr> change_context = None, old_lines = [], new_lines = [''end''], is_end_of_file = True \<rparr>]]"

theorem parse_render_patch_witness:
  "parse_patch (render_patch (Some ''ssh:host'') sample_hunks) =
    Inr \<lparr> apa_patch = render_patch (Some ''ssh:host'') sample_hunks, apa_hunks = sample_hunks, apa_workdir = None,
          apa_environment_id = Some ''ssh:host'' \<rparr>"
proof (rule parse_render_patch)
  show "wf_patch (Some ''ssh:host'') sample_hunks" by code_simp
qed

end
