(* ===== verification/PatchParser_Sound.thy ===== *)
theory PatchParser_Sound
  imports PatchParser_Props
begin

text \<open>
  Soundness of the patch parser: every hunk it accepts from a UTF-8 text without carriage returns
  can be rendered again. The invariant of the parser state says that all hunks but the last are
  well formed and the last one is a well-formed prefix.
\<close>

section \<open>Clean text\<close>

text \<open>No carriage return, and no continuation byte after an ASCII byte, as in valid UTF-8.\<close>

definition clean :: "string \<Rightarrow> bool" where
  "clean s \<longleftrightarrow> cr \<notin> set s \<and> (\<forall>a c b. s = a @ c # b \<longrightarrow> of_char c < (128 :: nat) \<longrightarrow> char_boundary b)"

lemma char_boundary_append: "char_boundary (a @ b) \<Longrightarrow> char_boundary a"
  by (cases a) (auto simp: char_boundary_def)

lemma clean_appendD: "clean (a @ b) \<Longrightarrow> clean a \<and> clean b"
proof
  assume *: "clean (a @ b)"
  show "clean b" unfolding clean_def
  proof (intro conjI allI impI)
    fix x c y assume "b = x @ c # y" "of_char c < (128 :: nat)"
    with * show "char_boundary y" unfolding clean_def by (metis append.assoc)
  qed (use * in \<open>simp add: clean_def\<close>)
  show "clean a" unfolding clean_def
  proof (intro conjI allI impI)
    fix x c y assume "a = x @ c # y" "of_char c < (128 :: nat)"
    with * have "char_boundary (y @ b)" unfolding clean_def by auto
    then show "char_boundary y" by (rule char_boundary_append)
  qed (use * in \<open>simp add: clean_def\<close>)
qed

lemma clean_after: "clean (a @ c # b) \<Longrightarrow> of_char c < (128 :: nat) \<Longrightarrow> char_boundary b"
  by (auto simp: clean_def)

lemma clean_trim_end: "clean s \<Longrightarrow> clean (trim_end s)"
  using trim_end_prefix [of s] clean_appendD by metis

lemma clean_trim_start: "clean s \<Longrightarrow> clean (trim_start s)"
  using trim_start_suffix [of s] clean_appendD by metis

lemma clean_trim: "clean s \<Longrightarrow> clean (trim s)"
  by (simp add: trim_def clean_trim_start clean_trim_end)

lemma clean_Nil [simp]: "clean []"
  by (simp add: clean_def)

lemma valid_utf8_clean: "valid_utf8 s \<Longrightarrow> cr \<notin> set s \<Longrightarrow> clean s \<and> char_boundary s"
  using valid_utf8_boundaries by (fastforce simp: clean_def)

section \<open>Trimmed text\<close>

lemma trim_end_idem [simp]: "trim_end (trim_end s) = trim_end s"
proof -
  let ?gs = "rev (dropWhile is_whitespace (rev (chars s)))"
  have "chars s = ?gs @ rev (takeWhile is_whitespace (rev (chars s)))"
    by (metis rev_append rev_rev_ident takeWhile_dropWhile_id)
  then have "chars (concat ?gs) = ?gs" using chars_parts by blast
  moreover have "?gs = [] \<or> \<not> is_whitespace (last ?gs)"
    using hd_dropWhile [of is_whitespace "rev (chars s)"] by (auto simp: last_rev simp del: rev_is_Nil_conv)
  ultimately show ?thesis unfolding trim_end_id_iff trim_end_def by auto
qed

lemma trim_end_trim [simp]: "trim_end (trim s) = trim s"
  by (simp add: trim_def)

lemma trim_start_boundary: "char_boundary s \<Longrightarrow> char_boundary (trim_start s)"
proof (cases "takeWhile is_whitespace (chars s) = []")
  case True
  assume "char_boundary s"
  moreover from True have "dropWhile is_whitespace (chars s) = chars s"
    by (metis append_Nil takeWhile_dropWhile_id)
  ultimately show ?thesis by (simp add: trim_start_def)
next
  case False
  from chars_later_boundary [OF _ False, of s "dropWhile is_whitespace (chars s)"] show ?thesis
    by (simp add: trim_start_def)
qed

lemma trim_end_boundary: "char_boundary s \<Longrightarrow> char_boundary (trim_end s)"
  using trim_end_prefix [of s] char_boundary_append by metis

lemma trim_boundary: "char_boundary s \<Longrightarrow> char_boundary (trim s)"
  by (simp add: trim_def trim_start_boundary trim_end_boundary)

lemma trim_start_hd: "trim_start s = [] \<or> \<not> is_whitespace (hd (chars (trim_start s)))"
proof -
  let ?hs = "dropWhile is_whitespace (chars s)"
  have "chars (concat ?hs) = ?hs"
    using chars_parts [of s "takeWhile is_whitespace (chars s)" ?hs] by simp
  with hd_dropWhile [of is_whitespace "chars s"] show ?thesis
    unfolding trim_start_def by (cases "?hs = []") (simp_all del: dropWhile_eq_Nil_conv)
qed

lemma trim_idem [simp]: "trim (trim s) = trim s"
proof -
  let ?y = "trim_start s"
  let ?gs = "rev (dropWhile is_whitespace (rev (chars ?y)))"
  have y: "chars ?y = ?gs @ rev (takeWhile is_whitespace (rev (chars ?y)))"
    by (metis rev_append rev_rev_ident takeWhile_dropWhile_id)
  then have g: "chars (trim_end ?y) = ?gs" unfolding trim_end_def using chars_parts by blast
  have "trim_end ?y = [] \<or> \<not> is_whitespace (hd (chars (trim_end ?y)))"
  proof (cases "?gs = []")
    case False
    then have "hd (chars ?y) = hd ?gs" by (subst y) simp
    with trim_start_hd [of s] False y g show ?thesis by (metis append_is_Nil_conv chars_eq_Nil)
  next
    case True
    with g have "trim_end ?y = []" by (simp only: chars_eq_Nil)
    then show ?thesis ..
  qed
  then have "trim_start (trim_end ?y) = trim_end ?y" by (rule trim_start_id)
  then show ?thesis by (simp add: trim_def)
qed

section \<open>Names and lines read from clean text\<close>

lemma clean_line: "clean l \<Longrightarrow> nl \<notin> set l \<Longrightarrow> wf_line l"
  by (metis clean_def last_in_set wf_line_def)

lemma trim_end_space: "trim_end (m @ '' '') \<noteq> m @ '' ''"
proof -
  have "char_boundary '' ''" by code_simp
  then have "last (chars (m @ '' '')) = '' ''" by (simp add: chars_append)
  moreover have "is_whitespace '' ''" by code_simp
  ultimately show ?thesis unfolding trim_end_id_iff by simp
qed

lemma read_name:
  assumes "clean t" "nl \<notin> set t" "trim_end t = t" "t = m @ '' '' @ path"
  shows "wf_name path"
proof -
  have ne: "path \<noteq> []" using assms(3,4) trim_end_space [of m] by auto
  have b: "char_boundary path" using assms(1,4) clean_after [of m "CHR '' ''" path] by simp
  have "last (chars t) = last (chars path)" using assms(4) ne chars_append [OF b, of "m @ '' ''"] by simp
  with assms(3,4) ne have "trim_end path = path" unfolding trim_end_id_iff by simp
  moreover have "clean path" using assms(1) clean_appendD [of "m @ '' ''" path] unfolding assms(4) by simp
  ultimately show ?thesis using ne b assms(2,4) clean_line by (simp add: wf_name_def)
qed

lemma read_header:
  assumes "clean t" "nl \<notin> set t" "trim_end t = t" "strip_prefix m t = Some path"
    "m \<in> {ADD_FILE_MARKER, DELETE_FILE_MARKER, UPDATE_FILE_MARKER, MOVE_TO_MARKER, CHANGE_CONTEXT_MARKER}"
  shows "wf_name path"
proof -
  have "\<exists>m'. m = m' @ '' ''"
    using assms(5)
    by (auto simp: ADD_FILE_MARKER_def DELETE_FILE_MARKER_def UPDATE_FILE_MARKER_def MOVE_TO_MARKER_def
        CHANGE_CONTEXT_MARKER_def intro: exI [of _ "butlast m"])
  with read_name [OF assms(1-3)] assms(4) show ?thesis by (auto simp: strip_prefix_Some)
qed

section \<open>The invariant of the parser\<close>

definition open_chunk :: "update_file_chunk \<Rightarrow> bool" where
  "open_chunk c \<longleftrightarrow> opt_holds wf_name (change_context c) \<and> list_all wf_line (old_lines c) \<and>
     list_all wf_line (new_lines c)"

lemma wf_chunk_open: "wf_chunk c \<longleftrightarrow> open_chunk c \<and> \<not> chunk_is_empty c"
  by (auto simp: wf_chunk_def open_chunk_def)

definition open_chunks :: "update_file_chunk list \<Rightarrow> bool" where
  "open_chunks cs \<longleftrightarrow> list_all wf_chunk (butlast cs) \<and> (cs = [] \<or> open_chunk (last cs))"

fun open_hunk :: "hunk \<Rightarrow> bool" where
  "open_hunk (UpdateFile path mv cs) \<longleftrightarrow> wf_name path \<and> opt_holds wf_name mv \<and> open_chunks cs"
| "open_hunk h \<longleftrightarrow> wf_hunk h"

fun is_update :: "hunk \<Rightarrow> bool" where
  "is_update (UpdateFile _ _ _) \<longleftrightarrow> True"
| "is_update _ \<longleftrightarrow> False"

fun open_hunks :: "streaming_parser_mode \<Rightarrow> hunk list \<Rightarrow> bool" where
  "open_hunks EndedPatch hs \<longleftrightarrow> list_all wf_hunk hs"
| "open_hunks (InUpdateFile n) hs \<longleftrightarrow> list_all wf_hunk (butlast hs) \<and> (hs = [] \<or> open_hunk (last hs))"
| "open_hunks _ hs \<longleftrightarrow> list_all wf_hunk hs \<and> (hs = [] \<or> \<not> is_update (last hs))"

definition parser_inv :: "streaming_patch_parser \<Rightarrow> bool" where
  "parser_inv p \<longleftrightarrow>
     opt_holds (\<lambda>e. wf_name e \<and> trim e = e) (parser_environment_id p) \<and>
     open_hunks (parser_mode p) (parser_hunks p)"

lemma open_chunks_closed: "open_chunks cs \<Longrightarrow> cs \<noteq> [] \<Longrightarrow> \<not> chunk_is_empty (last cs) \<Longrightarrow> list_all wf_chunk cs"
  by (cases cs rule: rev_cases) (auto simp: open_chunks_def wf_chunk_open)

lemma open_chunks_push:
  assumes "open_chunks cs" "cs = [] \<or> \<not> chunk_is_empty (last cs)" "opt_holds wf_name cx"
  shows "open_chunks (cs @ [new_chunk cx])"
proof -
  have "list_all wf_chunk cs" using assms(1,2) open_chunks_closed [of cs] by (cases "cs = []") auto
  with assms(3) show ?thesis by (simp add: open_chunks_def open_chunk_def new_chunk_def)
qed

lemma open_chunks_in_last:
  assumes "open_chunks cs" "\<And>c. open_chunk c \<Longrightarrow> open_chunk (f c)"
  shows "open_chunks (in_last_chunk f cs)"
proof -
  have "open_chunk (new_chunk None)" by (simp add: open_chunk_def new_chunk_def)
  with assms show ?thesis by (auto simp: open_chunks_def in_last_chunk_def)
qed

lemma open_chunk_add:
  "wf_line l \<Longrightarrow> open_chunk c \<Longrightarrow> open_chunk (add_old l c)" "wf_line l \<Longrightarrow> open_chunk c \<Longrightarrow> open_chunk (add_new l c)"
  by (simp_all add: open_chunk_def add_old_def add_new_def)

lemma ensure_closed:
  assumes "open_hunks (parser_mode p) (parser_hunks p)" "ensure_update_hunk_is_not_empty p l = Inr ()"
  shows "list_all wf_hunk (parser_hunks p)"
proof (cases "parser_mode p")
  case (InUpdateFile n)
  show ?thesis
  proof (cases "parser_hunks p" rule: rev_cases)
    case (snoc hs h)
    show ?thesis
    proof (cases h)
      case (UpdateFile path mv cs)
      with assms snoc InUpdateFile have cs: "cs \<noteq> []" "\<not> chunk_is_empty (last cs)"
        by (auto simp: last_opt_conv split: list.splits if_splits)
      with assms(1) snoc InUpdateFile UpdateFile open_chunks_closed [of cs] show ?thesis by simp
    qed (use assms(1) snoc InUpdateFile in auto)
  qed simp
qed (use assms(1) in auto)

lemma headers_inv:
  assumes "parser_inv p" "parser_mode p \<noteq> EndedPatch" "clean t" "nl \<notin> set t" "trim_end t = t"
    "handle_hunk_headers_and_end_patch p t = Inr (Some p')"
  shows "parser_inv p'"
proof -
  have closed: "list_all wf_hunk (parser_hunks p)" if "ensure_update_hunk_is_not_empty p t = Inr u" for u
    using ensure_closed [of p t] assms(1) that by (simp add: parser_inv_def)
  have env: "wf_name (trim e) \<and> trim (trim e) = trim e" if "t = ENVIRONMENT_ID_MARKER @ e" "trim e \<noteq> []" for e
  proof -
    have "t = ''*** Environment ID'' @ CHR '':'' # e" using that(1) by (simp add: ENVIRONMENT_ID_MARKER_def)
    then have "char_boundary e" using assms(3) clean_after [of "''*** Environment ID''" "CHR '':''" e] by simp
    moreover have "clean e" using assms(3) clean_appendD that(1) by blast
    moreover have "nl \<notin> set (trim e)" using assms(4) that(1) set_trim_subset [of e] by auto
    ultimately show ?thesis
      using that(2) by (simp add: wf_name_def trim_boundary clean_line clean_trim)
  qed
  from assms(6) show ?thesis
    using assms(1,2) closed env read_header [OF assms(3-5)]
    by (auto simp: handle_hunk_headers_and_end_patch_def push_hunk_def result_simps Let_def parser_inv_def
        strip_prefix_Some wf_contents_def open_chunks_def
        simp del: ensure_update_hunk_is_not_empty.simps split: option.splits if_splits)
qed

lemma update_line_inv:
  assumes "open_hunk (UpdateFile path mv cs)" "clean l" "nl \<notin> set l"
    "process_update_line ln l mv cs = Inr (mv', cs')"
  shows "open_hunk (UpdateFile path mv' cs')"
proof -
  have t: "clean (trim_end l)" "nl \<notin> set (trim_end l)"
    using assms(2,3) clean_trim_end trim_end_prefix [of l] by (auto, metis Un_iff set_append)
  note name = read_header [OF t trim_end_idem]
  have open_cs: "open_chunks cs" using assms(1) by simp
  have rest: "wf_line r" if "l = c # r" for c r
    using assms(2,3) that clean_appendD [of "[c]" r] clean_line [of r] by simp
  have "opt_holds wf_name mv'"
    using assms(1,4) name [of MOVE_TO_MARKER]
    by (cases mv') (auto simp: process_update_line_def Let_def split: if_splits list.splits)
  moreover have "open_chunks cs'"
  proof -
    have "open_chunks (in_last_chunk (\<lambda>c. c\<lparr> is_end_of_file := True \<rparr>) cs)"
      by (rule open_chunks_in_last [OF open_cs]) (simp add: open_chunk_def)
    moreover have "open_chunks (in_last_chunk (\<lambda>c. add_new r (add_old r c)) cs)"
      "open_chunks (in_last_chunk (add_new r) cs)" "open_chunks (in_last_chunk (add_old r) cs)"
      if "wf_line r" for r
      using that by (auto intro!: open_chunks_in_last [OF open_cs] open_chunk_add)
    moreover have "wf_line []" by (simp add: wf_line_def)
    moreover have "open_chunks (cs @ [new_chunk (strip_prefix CHANGE_CONTEXT_MARKER (trim_end l))])"
      if "cs = [] \<or> \<not> chunk_is_empty (last cs)"
    proof (rule open_chunks_push [OF open_cs that])
      show "opt_holds wf_name (strip_prefix CHANGE_CONTEXT_MARKER (trim_end l))"
        using name [of CHANGE_CONTEXT_MARKER]
        by (cases "strip_prefix CHANGE_CONTEXT_MARKER (trim_end l)") auto
    qed
    moreover have "open_chunks (cs @ [new_chunk None])" if "cs = [] \<or> \<not> chunk_is_empty (last cs)"
      using open_chunks_push [OF open_cs that] by simp
    ultimately show ?thesis
      using assms(4) open_cs rest
      by (auto simp: process_update_line_def Let_def is_context_line_def split: if_splits list.splits)
  qed
  ultimately show ?thesis using assms(1) by simp
qed

lemma wf_contents_snoc:
  assumes "wf_contents s" "wf_line r"
  shows "wf_contents (s @ r @ [nl])"
proof (cases "s = []")
  case True
  with assms(2) show ?thesis by (simp add: wf_contents_def split_on_no_sep wf_line_def butlast_append)
next
  case False
  with assms(1) obtain t where t: "s = t @ [nl]" "list_all wf_line (split_on nl t)"
    by (metis append_butlast_last_id wf_contents_def)
  have "split_on nl (t @ nl # r) = split_on nl t @ [r]" if "nl \<notin> set r" for t
    using that by (induction t) (auto simp: split_on_no_sep split: list.split)
  with t assms(2) show ?thesis by (simp add: wf_contents_def butlast_append wf_line_def)
qed

lemma process_line_inv:
  assumes "parser_inv p" "clean l" "nl \<notin> set l" "process_line p l = Inr p'"
  shows "parser_inv p'"
proof -
  have t: "clean (trim l)" "nl \<notin> set (trim l)" using assms(2,3) clean_trim set_trim_subset [of l] by auto
  have te: "clean (trim_end l)" "nl \<notin> set (trim_end l)"
    using assms(2,3) clean_trim_end trim_end_prefix [of l] by (auto, metis Un_iff set_append)
  note header = headers_inv [OF assms(1) _ t trim_end_trim] and header' = headers_inv [OF assms(1) _ te trim_end_idem]
  show ?thesis
  proof (cases "parser_mode p")
    case NotStarted
    with assms(1,4) show ?thesis by (auto simp: process_line_def parser_inv_def Let_def split: if_splits)
  next
    case StartedPatch
    with assms(4) header show ?thesis
      by (auto simp: process_line_def Let_def result_simps split: option.splits)
  next
    case InAddFile
    show ?thesis
    proof (cases "handle_hunk_headers_and_end_patch p (trim l) = Inr None")
      case True
      with assms(4) InAddFile obtain r hs path contents where
        r: "l = CHR ''+'' # r" "parser_hunks p = hs @ [AddFile path contents]"
        "p' = p\<lparr> parser_hunks := hs @ [AddFile path (contents @ r @ [nl])] \<rparr>"
        by (cases "parser_hunks p" rule: rev_cases)
          (auto simp: process_line_def Let_def last_opt_conv strip_prefix_Some split: option.splits hunk.splits)
      have "wf_line r" using assms(2,3) r(1) clean_appendD [of "''+''" r] clean_line [of r] by simp
      with assms(1) InAddFile r have "wf_contents (contents @ r @ [nl])"
        by (auto simp: parser_inv_def wf_contents_snoc)
      with assms(1) InAddFile r show ?thesis by (auto simp: parser_inv_def)
    next
      case False
      with assms(4) InAddFile header show ?thesis
        by (auto simp: process_line_def Let_def result_simps split: option.splits)
    qed
  next
    case InDeleteFile
    with assms(4) header show ?thesis
      by (auto simp: process_line_def Let_def result_simps split: option.splits)
  next
    case (InUpdateFile n)
    show ?thesis
    proof (cases "handle_hunk_headers_and_end_patch p (trim_end l) = Inr None")
      case True
      with assms(4) InUpdateFile obtain hs path mv cs mv' cs' where
        u: "parser_hunks p = hs @ [UpdateFile path mv cs]"
        "process_update_line (line_number p) l mv cs = Inr (mv', cs')"
        "p' = p\<lparr> parser_hunks := hs @ [UpdateFile path mv' cs'] \<rparr>"
        by (cases "parser_hunks p" rule: rev_cases)
          (auto simp: process_line_def Let_def last_opt_conv result_simps split: option.splits hunk.splits)
      with assms(1) InUpdateFile update_line_inv [OF _ assms(2,3) u(2), of path] show ?thesis
        by (simp add: parser_inv_def)
    next
      case False
      with assms(4) InUpdateFile header' show ?thesis
        by (auto simp: process_line_def Let_def result_simps split: option.splits)
    qed
  next
    case EndedPatch
    with assms(1,4) show ?thesis by (auto simp: process_line_def Let_def split: if_splits)
  qed
qed

lemma push_delta_inv:
  assumes "parser_inv p" "clean (line_buffer p @ s)" "nl \<notin> set (line_buffer p)" "push_delta p s = (Inr r, p')"
  shows "parser_inv p' \<and> clean (line_buffer p') \<and> nl \<notin> set (line_buffer p')"
  using assms
proof (induction p s rule: push_delta.induct)
  case (2 p ch s)
  show ?case
  proof (cases "ch = nl")
    case True
    let ?p = "p\<lparr> line_buffer := [], line_number := line_number p + 1 \<rparr>"
    have c: "clean (line_buffer p)" "clean s"
      using "2.prems"(2) clean_appendD [of "line_buffer p" "ch # s"] clean_appendD [of "[ch]" s] by simp_all
    then have l: "strip_cr (line_buffer p) = line_buffer p" using clean_line "2.prems"(3) strip_cr_wf by blast
    with True "2.prems"(4) obtain q where q: "process_line ?p (line_buffer p) = Inr q" "push_delta q s = (Inr r, p')"
      by (auto simp: Let_def split: sum.splits)
    have "parser_inv ?p" using "2.prems"(1) by (simp add: parser_inv_def)
    from process_line_inv [OF this c(1) "2.prems"(3) q(1)] have "parser_inv q" .
    moreover have "line_buffer q = []" using process_line_buffer [OF q(1)] by simp
    ultimately show ?thesis using "2.IH"(1) [OF True refl _ _ _ _ q(2)] q(1) l c(2) by simp
  next
    case False
    with 2 show ?thesis by (simp add: parser_inv_def)
  qed
qed simp

lemma finish_inv:
  assumes "parser_inv p" "clean (line_buffer p)" "nl \<notin> set (line_buffer p)" "finish p = (Inr hs, q)"
  shows "wf_patch (parser_environment_id q) hs"
proof -
  let ?p = "p\<lparr> line_buffer := [], line_number := line_number p + 1 \<rparr>"
  have i: "parser_inv ?p" using assms(1) by (simp add: parser_inv_def)
  have "parser_inv q \<and> parser_mode q = EndedPatch \<and> hs = parser_hunks q"
  proof (cases "line_buffer p = []")
    case True
    with assms(1,4) show ?thesis by (auto simp: finish_def finish_line_def split: if_splits)
  next
    case ne: False
    show ?thesis
    proof (cases "trim (line_buffer p) = END_PATCH_MARKER")
      case True
      with ne assms(4) have q: "ensure_update_hunk_is_not_empty ?p END_PATCH_MARKER = Inr ()"
        "q = ?p\<lparr> parser_mode := EndedPatch \<rparr>" "hs = parser_hunks p"
        by (auto simp: finish_def finish_line_def Let_def simp del: ensure_update_hunk_is_not_empty.simps
            split: sum.splits if_splits)
      have "list_all wf_hunk (parser_hunks ?p)" using ensure_closed [OF _ q(1)] i by (simp add: parser_inv_def)
      with q assms(1) show ?thesis by (simp add: parser_inv_def)
    next
      case False
      with ne assms(4) have "process_line ?p (line_buffer p) = Inr q" "parser_mode q = EndedPatch"
        "hs = parser_hunks q"
        by (auto simp: finish_def finish_line_def Let_def split: sum.splits if_splits)
      with process_line_inv [OF i assms(2,3)] show ?thesis by blast
    qed
  qed
  then show ?thesis by (auto simp: parser_inv_def wf_patch_def)
qed

section \<open>Whole patches\<close>

lemma clean_append_nl:
  assumes "clean x" "clean y" "char_boundary y"
  shows "clean (x @ nl # y)"
  unfolding clean_def
proof (intro conjI allI impI)
  show "cr \<notin> set (x @ nl # y)" using assms by (simp add: clean_def)
  fix a c b assume e: "x @ nl # y = a @ c # b" and c: "of_char c < (128 :: nat)"
  have nlb: "char_boundary (nl # y)" by (simp add: char_boundary_def is_cont_byte_def)
  from e consider u where "x = a @ c # u" "b = u @ nl # y" | "a = x" "c = nl" "b = y"
    | u where "y = u @ c # b" "a = x @ nl # u"
    by (auto simp: append_eq_append_conv2 Cons_eq_append_conv append_eq_Cons_conv)
  then show "char_boundary b"
  proof cases
    case 1
    with assms(1) c have "char_boundary u" using clean_after by blast
    with 1 nlb show ?thesis by (cases u) (simp_all add: char_boundary_def)
  next
    case 2
    with assms(3) show ?thesis by simp
  next
    case 3
    with assms(2) c show ?thesis using clean_after by blast
  qed
qed

lemma clean_join:
  "(\<And>l. l \<in> set ls \<Longrightarrow> clean l \<and> char_boundary l) \<Longrightarrow>
     clean (join_with [nl] ls) \<and> char_boundary (join_with [nl] ls)"
proof (induction "[nl]" ls rule: join_with.induct)
  case (3 x y ys)
  then have "clean x" "char_boundary x" "clean (join_with [nl] (y # ys))" "char_boundary (join_with [nl] (y # ys))"
    by auto
  moreover have "char_boundary (nl # z)" for z by (simp add: char_boundary_def is_cont_byte_def)
  ultimately show ?case
    using clean_append_nl [of x "join_with [nl] (y # ys)"] by (cases x) (simp_all add: char_boundary_def)
qed (auto simp: char_boundary_def)

lemma clean_lines:
  "clean s \<Longrightarrow> char_boundary s \<Longrightarrow> l \<in> set (str_lines s) \<Longrightarrow> clean l \<and> char_boundary l"
proof (induction "length s" arbitrary: s rule: less_induct)
  case less
  show ?case
  proof (cases "nl \<in> set s")
    case True
    then obtain x y where s: "s = x @ nl # y" "nl \<notin> set x" by (meson split_list_first)
    have x: "clean x" "char_boundary x" "clean y" "char_boundary y"
      using less.prems clean_appendD [of x "nl # y"] clean_appendD [of "[nl]" y] clean_after [of x nl y]
        char_boundary_append [of x "nl # y"] s by auto
    have "str_lines s = x # str_lines y"
      using s(2) line_content_nl [OF clean_line [OF x(1) s(2)]]
      by (simp add: str_lines_def s(1) split_inclusive_line)
    with less.hyps [of y] less.prems(3) x s show ?thesis by auto
  next
    case False
    then have "str_lines s = (if s = [] then [] else [s])"
      by (simp add: str_lines_def split_inclusive_last line_content_last)
    with less.prems show ?thesis by (auto split: if_splits)
  qed
qed

lemma boundaries_subset: "check_patch_boundaries_lenient ls = Inr ls' \<Longrightarrow> set ls' \<subseteq> set ls"
  by (auto simp: check_patch_boundaries_lenient_def check_patch_boundaries_strict_def result_simps
      split: sum.splits list.splits if_splits dest: in_set_butlastD)

lemma accepted_patch_wf:
  assumes "valid_utf8 patch" "cr \<notin> set patch" "parse_patch patch = Inr args"
  shows "wf_patch (apa_environment_id args) (apa_hunks args) \<and> apa_workdir args = None"
proof -
  obtain ls where ls: "check_patch_boundaries_lenient (str_lines (trim patch)) = Inr ls"
    using assms(3)
    by (auto simp: parse_patch_def PARSE_IN_STRICT_MODE_def parse_patch_text_def Let_def result_simps)
  obtain r0 p where rp: "push_delta parser_default (join_with [nl] ls) = (r0, p)" by fastforce
  obtain h0 q where hq: "finish p = (h0, q)" by fastforce
  from assms(3) ls rp hq obtain r hs where p:
    "push_delta parser_default (join_with [nl] ls) = (Inr r, p)" "finish p = (Inr hs, q)"
    "args = \<lparr> apa_patch = join_with [nl] ls, apa_hunks = hs, apa_workdir = None,
              apa_environment_id = parser_environment_id q \<rparr>"
    by (cases r0; cases h0)
      (auto simp: parse_patch_def PARSE_IN_STRICT_MODE_def parse_patch_text_def Let_def)
  have "clean (trim patch)" "char_boundary (trim patch)"
    using valid_utf8_clean [OF assms(1,2)] clean_trim trim_boundary by blast+
  then have "clean (join_with [nl] ls)"
    using clean_lines boundaries_subset [OF ls] clean_join [of ls] by blast
  moreover have "parser_inv parser_default" by (simp add: parser_inv_def parser_default_def)
  ultimately have "parser_inv p \<and> clean (line_buffer p) \<and> nl \<notin> set (line_buffer p)"
    using push_delta_inv [OF _ _ _ p(1)] by (simp add: parser_default_def)
  with finish_inv [OF _ _ _ p(2)] p(3) show ?thesis by simp
qed

text \<open>
  C25. Accepted patches are well formed: whatever the parser accepts from a UTF-8 text without carriage
  returns has named files, no empty update hunk or chunk and single-line changes, and printing it in
  canonical form and parsing that gives the same hunks and environment id.
\<close>

theorem accepted_patch_renders:
  assumes "valid_utf8 patch" "cr \<notin> set patch" "parse_patch patch = Inr args"
  shows "wf_patch (apa_environment_id args) (apa_hunks args) \<and>
    parse_patch (render_patch (apa_environment_id args) (apa_hunks args)) =
      Inr (args\<lparr> apa_patch := render_patch (apa_environment_id args) (apa_hunks args) \<rparr>)"
  using accepted_patch_wf [OF assms] parse_rendered by (cases args) auto

definition sample_patch :: string where
  "sample_patch = join_with [nl]
     [''<<EOF'', ''*** Begin Patch'', '' *** Add File: a'', ''+x'', ''*** Update File: b'', ''*** Move to: c'',
      '' keep'', ''-old'', ''+new'', ''*** End of File'', ''*** End Patch'', ''EOF'']"

theorem accepted_patch_renders_witness:
  "\<exists>args. parse_patch sample_patch = Inr args \<and> length (apa_hunks args) = 2 \<and>
     parse_patch (render_patch (apa_environment_id args) (apa_hunks args)) =
       Inr (args\<lparr> apa_patch := render_patch (apa_environment_id args) (apa_hunks args) \<rparr>)"
proof -
  have "valid_utf8 sample_patch" "cr \<notin> set sample_patch" by code_simp+
  moreover have "map_option (\<lambda>a. length (apa_hunks a)) (case parse_patch sample_patch of Inl _ \<Rightarrow> None | Inr a \<Rightarrow> Some a) =
      Some 2" by code_simp
  then obtain args where "parse_patch sample_patch = Inr args" "length (apa_hunks args) = 2"
    by (cases "parse_patch sample_patch") auto
  ultimately show ?thesis using accepted_patch_renders by blast
qed

end
