(* ===== verification/PatchApply.thy ===== *)
theory PatchApply
  imports PatchParser ShellDetect
begin

text \<open>
  Applying a patch (\<open>apply-patch/src/lib.rs\<close>, \<open>seek_sequence.rs\<close> and \<open>invocation.rs\<close>): finding
  the lines a chunk replaces, the new contents of a file, the file operations of each hunk with the
  record of what was committed, and the preview shown before a patch is approved. The executor's
  file system is a record of operations on an arbitrary state, the shell grammar that extracts a
  here-document and the text-diff printer are arguments.
\<close>

section \<open>Finding lines\<close>

text \<open>\<open>normalise\<close>: typographic dashes, quotes and spaces as their ASCII counterparts.\<close>

definition ascii_punctuation :: "(string \<times> string) list" where
  "ascii_punctuation =
     map (\<lambda>b. ([CHR 0xE2, CHR 0x80, b], ''-''))
       [CHR 0x90, CHR 0x91, CHR 0x92, CHR 0x93, CHR 0x94, CHR 0x95] @
     [([CHR 0xE2, CHR 0x88, CHR 0x92], ''-'')] @
     map (\<lambda>b. ([CHR 0xE2, CHR 0x80, b], [CHR 0x27])) [CHR 0x98, CHR 0x99, CHR 0x9A, CHR 0x9B] @
     map (\<lambda>b. ([CHR 0xE2, CHR 0x80, b], [CHR 0x22])) [CHR 0x9C, CHR 0x9D, CHR 0x9E, CHR 0x9F] @
     [([CHR 0xC2, CHR 0xA0], '' '')] @
     map (\<lambda>b. ([CHR 0xE2, CHR 0x80, b], '' ''))
       [CHR 0x82, CHR 0x83, CHR 0x84, CHR 0x85, CHR 0x86, CHR 0x87, CHR 0x88, CHR 0x89, CHR 0x8A, CHR 0xAF] @
     [([CHR 0xE2, CHR 0x81, CHR 0x9F], '' ''), ([CHR 0xE3, CHR 0x80, CHR 0x80], '' '')]"

definition normalise :: "string \<Rightarrow> string" where
  "normalise s =
     concat (map (\<lambda>ch. case map_of ascii_punctuation ch of None \<Rightarrow> ch | Some a \<Rightarrow> a) (chars (trim s)))"

definition match_at :: "(string \<Rightarrow> string) \<Rightarrow> string list \<Rightarrow> string list \<Rightarrow> nat \<Rightarrow> bool" where
  "match_at f ls pattern i \<longleftrightarrow> map f (take (length pattern) (drop i ls)) = map f pattern"

definition seek_pass :: "(string \<Rightarrow> string) \<Rightarrow> string list \<Rightarrow> string list \<Rightarrow> nat \<Rightarrow> nat option" where
  "seek_pass f ls pattern search_start =
     find (match_at f ls pattern) [search_start ..< Suc (length ls - length pattern)]"

definition seek_sequence :: "string list \<Rightarrow> string list \<Rightarrow> nat \<Rightarrow> bool \<Rightarrow> nat option" where
  "seek_sequence ls pattern start eof =
     (if pattern = [] then Some start
      else if length ls < length pattern then None
      else
        let search_start = (if eof \<and> length pattern \<le> length ls then length ls - length pattern else start) in
        or_else (seek_pass (\<lambda>s. s) ls pattern search_start)
          (or_else (seek_pass trim_end ls pattern search_start)
            (or_else (seek_pass trim ls pattern search_start)
              (seek_pass normalise ls pattern search_start))))"

section \<open>Replacements\<close>

datatype compute_error =
    ContextNotFound string
  | LinesNotFound "string list"

type_synonym replacement = "nat \<times> nat \<times> string list"

definition last_is_empty :: "string list \<Rightarrow> bool" where
  "last_is_empty ls \<longleftrightarrow> ls \<noteq> [] \<and> last ls = []"

text \<open>The chunk's position after its context line, from \<open>line_index\<close>.\<close>

definition seek_context :: "string list \<Rightarrow> nat \<Rightarrow> update_file_chunk \<Rightarrow> compute_error + nat" where
  "seek_context ls line_index chunk =
     (case change_context chunk of
        None \<Rightarrow> Inr line_index
      | Some ctx_line \<Rightarrow>
          (case seek_sequence ls [ctx_line] line_index False of
             Some idx \<Rightarrow> Inr (idx + 1)
           | None \<Rightarrow> Inl (ContextNotFound ctx_line)))"

text \<open>One chunk: its replacement and the line where the search for the next chunk starts.\<close>

definition compute_replacement ::
  "string list \<Rightarrow> nat \<Rightarrow> update_file_chunk \<Rightarrow> compute_error + (replacement \<times> nat)" where
  "compute_replacement ls line_index chunk =
     try_bind (seek_context ls line_index chunk) (\<lambda>line_index.
       if old_lines chunk = [] then
         let insertion_idx = (if last_is_empty ls then length ls - 1 else length ls) in
         Inr ((insertion_idx, 0, new_lines chunk), line_index)
       else
         let pattern = old_lines chunk;
             found = seek_sequence ls pattern line_index (is_end_of_file chunk);
             new_slice = new_lines chunk;
             (pattern, new_slice, found) =
               (if found = None \<and> last_is_empty pattern then
                  let pattern = butlast pattern;
                      new_slice = (if last_is_empty new_slice then butlast new_slice else new_slice) in
                  (pattern, new_slice, seek_sequence ls pattern line_index (is_end_of_file chunk))
                else (pattern, new_slice, found)) in
         (case found of
            Some start_idx \<Rightarrow> Inr ((start_idx, length pattern, new_slice), start_idx + length pattern)
          | None \<Rightarrow> Inl (LinesNotFound (old_lines chunk))))"

fun compute_replacements_from ::
  "string list \<Rightarrow> nat \<Rightarrow> update_file_chunk list \<Rightarrow> compute_error + replacement list" where
  "compute_replacements_from ls line_index [] = Inr []"
| "compute_replacements_from ls line_index (chunk # chunks) =
     try_bind (compute_replacement ls line_index chunk) (\<lambda>(r, line_index).
       try_bind (compute_replacements_from ls line_index chunks) (\<lambda>rs. Inr (r # rs)))"

definition compute_replacements ::
  "string list \<Rightarrow> update_file_chunk list \<Rightarrow> compute_error + replacement list" where
  "compute_replacements ls chunks =
     try_bind (compute_replacements_from ls 0 chunks) (\<lambda>rs. Inr (sort_key fst rs))"

text \<open>\<open>Vec::remove\<close> and \<open>Vec::insert\<close>; inserting past the end panics (\<open>None\<close>).\<close>

definition vec_remove :: "nat \<Rightarrow> 'a list \<Rightarrow> 'a list" where
  "vec_remove i xs = take i xs @ drop (Suc i) xs"

fun remove_lines :: "nat \<Rightarrow> nat \<Rightarrow> 'a list \<Rightarrow> 'a list" where
  "remove_lines 0 i xs = xs"
| "remove_lines (Suc n) i xs = remove_lines n i (if i < length xs then vec_remove i xs else xs)"

definition vec_insert :: "nat \<Rightarrow> 'a \<Rightarrow> 'a list \<Rightarrow> 'a list option" where
  "vec_insert i x xs = (if i \<le> length xs then Some (take i xs @ x # drop i xs) else None)"

fun insert_lines :: "nat \<Rightarrow> 'a list \<Rightarrow> 'a list \<Rightarrow> 'a list option" where
  "insert_lines i [] xs = Some xs"
| "insert_lines i (y # ys) xs = Option.bind (vec_insert i y xs) (insert_lines (Suc i) ys)"

fun apply_replacements_rev :: "string list \<Rightarrow> replacement list \<Rightarrow> string list option" where
  "apply_replacements_rev ls [] = Some ls"
| "apply_replacements_rev ls ((start_idx, old_len, new_segment) # rs) =
     Option.bind (insert_lines start_idx new_segment (remove_lines old_len start_idx ls))
       (\<lambda>ls. apply_replacements_rev ls rs)"

definition apply_replacements :: "string list \<Rightarrow> replacement list \<Rightarrow> string list option" where
  "apply_replacements ls replacements = apply_replacements_rev ls (rev replacements)"

section \<open>File contents\<close>

datatype io_error = IoNotFound | IoDirectory | IoOther string

datatype apply_patch_error =
    ParseError parse_error
  | ReadForUpdateFailed abs_path io_error
  | ReadFailed abs_path io_error
  | ComputeReplacements abs_path compute_error
  | InsertPanic
  | ImplicitInvocation
  | EnvironmentIdInShellInvocation

record applied_patch =
  original_contents :: string
  new_contents :: string

definition file_lines :: "string \<Rightarrow> string list" where
  "file_lines contents =
     (let ls = split_on nl contents in if last_is_empty ls then butlast ls else ls)"

definition contents_of_lines :: "string list \<Rightarrow> string" where
  "contents_of_lines ls = join_with [nl] (if last_is_empty ls then ls else ls @ [[]])"

definition new_contents_from_chunks ::
  "abs_path \<Rightarrow> string \<Rightarrow> update_file_chunk list \<Rightarrow> apply_patch_error + string" where
  "new_contents_from_chunks path contents chunks =
     (let original_lines = file_lines contents in
      case compute_replacements original_lines chunks of
        Inl e \<Rightarrow> Inl (ComputeReplacements path e)
      | Inr replacements \<Rightarrow>
          (case apply_replacements original_lines replacements of
             None \<Rightarrow> Inl InsertPanic
           | Some ls \<Rightarrow> Inr (contents_of_lines ls)))"

section \<open>The executor's file system\<close>

record file_metadata =
  md_is_directory :: bool
  md_is_file :: bool
  md_is_symlink :: bool

record 's executor_fs =
  fs_read_text :: "abs_path \<Rightarrow> 's \<Rightarrow> io_error + string"
  fs_metadata :: "abs_path \<Rightarrow> 's \<Rightarrow> io_error + file_metadata"
  fs_write :: "abs_path \<Rightarrow> string \<Rightarrow> 's \<Rightarrow> (io_error + unit) \<times> 's"
  fs_create_dir :: "abs_path \<Rightarrow> 's \<Rightarrow> (io_error + unit) \<times> 's"
  fs_remove :: "abs_path \<Rightarrow> 's \<Rightarrow> (io_error + unit) \<times> 's"

definition derive_new_contents_from_chunks ::
  "'s executor_fs \<Rightarrow> abs_path \<Rightarrow> update_file_chunk list \<Rightarrow> 's \<Rightarrow> apply_patch_error + applied_patch" where
  "derive_new_contents_from_chunks fs path chunks s =
     (case fs_read_text fs path s of
        Inl e \<Rightarrow> Inl (ReadForUpdateFailed path e)
      | Inr contents \<Rightarrow>
          try_bind (new_contents_from_chunks path contents chunks) (\<lambda>new.
            Inr \<lparr> original_contents = contents, new_contents = new \<rparr>))"

section \<open>What was committed\<close>

datatype applied_patch_file_change =
    AppliedAdd string "string option"
  | AppliedDelete string
  | AppliedUpdate "abs_path option" string "string option" string

type_synonym applied_patch_change = "abs_path \<times> applied_patch_file_change"

record applied_patch_delta =
  delta_changes :: "applied_patch_change list"
  delta_exact :: bool

definition delta_empty :: applied_patch_delta where
  "delta_empty = \<lparr> delta_changes = [], delta_exact = True \<rparr>"

definition delta_append :: "applied_patch_delta \<Rightarrow> applied_patch_delta \<Rightarrow> applied_patch_delta" where
  "delta_append d other =
     \<lparr> delta_changes = delta_changes d @ delta_changes other, delta_exact = (delta_exact d \<and> delta_exact other) \<rparr>"

datatype apply_failure =
    NoFilesModified
  | WriteFailed abs_path io_error
  | CreateParentsFailed abs_path io_error
  | DeleteFailed abs_path io_error
  | RemoveOriginalFailed abs_path io_error
  | DeriveFailed apply_patch_error

definition ensure_not_directory :: "'s executor_fs \<Rightarrow> abs_path \<Rightarrow> 's \<Rightarrow> io_error + unit" where
  "ensure_not_directory fs path s =
     try_bind (fs_metadata fs path s) (\<lambda>md. if md_is_directory md then Inl IoDirectory else Inr ())"

definition remove_failure_was_side_effect_free ::
  "'s executor_fs \<Rightarrow> abs_path \<Rightarrow> string option \<Rightarrow> 's \<Rightarrow> bool" where
  "remove_failure_was_side_effect_free fs path expected_content s =
     (case expected_content of
        Some expected \<Rightarrow> (case fs_read_text fs path s of Inr content \<Rightarrow> content = expected | Inl _ \<Rightarrow> False)
      | None \<Rightarrow> False)"

text \<open>The two observations below return whether the delta stays exact.\<close>

definition note_existing_path_delta_support :: "'s executor_fs \<Rightarrow> abs_path \<Rightarrow> 's \<Rightarrow> bool" where
  "note_existing_path_delta_support fs path s =
     (case fs_metadata fs path s of
        Inr md \<Rightarrow> md_is_file md \<and> \<not> md_is_symlink md
      | Inl e \<Rightarrow> e = IoNotFound)"

definition read_optional_file_text_for_delta ::
  "'s executor_fs \<Rightarrow> abs_path \<Rightarrow> 's \<Rightarrow> string option \<times> bool" where
  "read_optional_file_text_for_delta fs path s =
     (let supported = note_existing_path_delta_support fs path s in
      case fs_read_text fs path s of
        Inr content \<Rightarrow> (Some content, supported)
      | Inl e \<Rightarrow> if e = IoNotFound then (None, supported) else (None, False))"

definition abs_parent :: "abs_path \<Rightarrow> abs_path option" where
  "abs_parent p = (if p = [] then None else Some (butlast p))"

definition write_file_with_missing_parent_retry ::
  "'s executor_fs \<Rightarrow> abs_path \<Rightarrow> string \<Rightarrow> 's \<Rightarrow> (apply_failure + unit) \<times> 's" where
  "write_file_with_missing_parent_retry fs path contents s =
     (case fs_write fs path contents s of
        (Inr _, s) \<Rightarrow> (Inr (), s)
      | (Inl err, s) \<Rightarrow>
          if err = IoNotFound then
            let (created, s) = (case abs_parent path of None \<Rightarrow> (Inr (), s) | Some parent \<Rightarrow> fs_create_dir fs parent s) in
            (case created of
               Inl e \<Rightarrow> (Inl (CreateParentsFailed path e), s)
             | Inr _ \<Rightarrow>
                 (case fs_write fs path contents s of
                    (Inl e, s) \<Rightarrow> (Inl (WriteFailed path e), s)
                  | (Inr _, s) \<Rightarrow> (Inr (), s)))
          else (Inl (WriteFailed path err), s))"

definition push_change :: "abs_path \<Rightarrow> applied_patch_file_change \<Rightarrow> applied_patch_delta \<Rightarrow> applied_patch_delta" where
  "push_change path change d = d\<lparr> delta_changes := delta_changes d @ [(path, change)] \<rparr>"

definition and_exact :: "bool \<Rightarrow> applied_patch_delta \<Rightarrow> applied_patch_delta" where
  "and_exact b d = d\<lparr> delta_exact := (delta_exact d \<and> b) \<rparr>"

section \<open>Applying hunks\<close>

datatype affected_path = PathAdded string | PathModified string | PathDeleted string

type_synonym 's hunk_result = "(apply_failure + affected_path) \<times> 's \<times> applied_patch_delta"

definition apply_add_file ::
  "'s executor_fs \<Rightarrow> abs_path \<Rightarrow> string \<Rightarrow> string \<Rightarrow> 's \<Rightarrow> applied_patch_delta \<Rightarrow> 's hunk_result" where
  "apply_add_file fs path_abs affected contents s delta =
     (let (overwritten_content, supported) = read_optional_file_text_for_delta fs path_abs s;
          delta = and_exact supported delta in
      case write_file_with_missing_parent_retry fs path_abs contents s of
        (Inl e, s) \<Rightarrow> (Inl e, s, and_exact False delta)
      | (Inr _, s) \<Rightarrow>
          (Inr (PathAdded affected), s, push_change path_abs (AppliedAdd contents overwritten_content) delta))"

definition apply_delete_file ::
  "'s executor_fs \<Rightarrow> abs_path \<Rightarrow> string \<Rightarrow> 's \<Rightarrow> applied_patch_delta \<Rightarrow> 's hunk_result" where
  "apply_delete_file fs path_abs affected s delta =
     (let deleted_content = (case fs_read_text fs path_abs s of Inr c \<Rightarrow> Some c | Inl _ \<Rightarrow> None);
          delta = and_exact (note_existing_path_delta_support fs path_abs s \<and> deleted_content \<noteq> None) delta in
      case ensure_not_directory fs path_abs s of
        Inl e \<Rightarrow> (Inl (DeleteFailed path_abs e), s, delta)
      | Inr _ \<Rightarrow>
          (case fs_remove fs path_abs s of
             (Inl e, s) \<Rightarrow>
               (Inl (DeleteFailed path_abs e), s,
                and_exact (remove_failure_was_side_effect_free fs path_abs deleted_content s) delta)
           | (Inr _, s) \<Rightarrow>
               (Inr (PathDeleted affected), s,
                (case deleted_content of Some content \<Rightarrow> push_change path_abs (AppliedDelete content) delta
                 | None \<Rightarrow> delta))))"

text \<open>The second half of an update hunk: move to \<open>dest_abs\<close>, or write in place.\<close>

definition apply_moved_update ::
  "'s executor_fs \<Rightarrow> abs_path \<Rightarrow> string \<Rightarrow> abs_path \<Rightarrow> applied_patch \<Rightarrow> 's \<Rightarrow> applied_patch_delta
     \<Rightarrow> 's hunk_result" where
  "apply_moved_update fs path_abs affected dest_abs applied s delta =
     (let (overwritten_move_content, supported) = read_optional_file_text_for_delta fs dest_abs s;
          delta = and_exact supported delta in
      case write_file_with_missing_parent_retry fs dest_abs (new_contents applied) s of
        (Inl e, s) \<Rightarrow> (Inl e, s, and_exact False delta)
      | (Inr _, s) \<Rightarrow>
          let written = push_change dest_abs (AppliedAdd (new_contents applied) overwritten_move_content) delta in
          (case ensure_not_directory fs path_abs s of
             Inl e \<Rightarrow> (Inl (RemoveOriginalFailed path_abs e), s, written)
           | Inr _ \<Rightarrow>
               (case fs_remove fs path_abs s of
                  (Inl e, s) \<Rightarrow>
                    (Inl (RemoveOriginalFailed path_abs e), s,
                     and_exact (remove_failure_was_side_effect_free fs path_abs
                       (Some (original_contents applied)) s) written)
                | (Inr _, s) \<Rightarrow>
                    (Inr (PathModified affected), s,
                     push_change path_abs (AppliedUpdate (Some dest_abs) (original_contents applied)
                       overwritten_move_content (new_contents applied)) delta))))"

definition apply_update_in_place ::
  "'s executor_fs \<Rightarrow> abs_path \<Rightarrow> string \<Rightarrow> applied_patch \<Rightarrow> 's \<Rightarrow> applied_patch_delta \<Rightarrow> 's hunk_result" where
  "apply_update_in_place fs path_abs affected applied s delta =
     (case fs_write fs path_abs (new_contents applied) s of
        (Inl e, s) \<Rightarrow> (Inl (WriteFailed path_abs e), s, and_exact False delta)
      | (Inr _, s) \<Rightarrow>
          (Inr (PathModified affected), s,
           push_change path_abs (AppliedUpdate None (original_contents applied) None (new_contents applied)) delta))"

definition apply_hunk ::
  "host_os \<Rightarrow> 's executor_fs \<Rightarrow> abs_path \<Rightarrow> hunk \<Rightarrow> 's \<Rightarrow> applied_patch_delta \<Rightarrow> 's hunk_result" where
  "apply_hunk os fs cwd h s delta =
     (let affected = hunk_path h; path_abs = resolve_path os h cwd in
      case h of
        AddFile _ contents \<Rightarrow> apply_add_file fs path_abs affected contents s delta
      | DeleteFile _ \<Rightarrow> apply_delete_file fs path_abs affected s delta
      | UpdateFile _ move_path chunks \<Rightarrow>
          let delta = and_exact (note_existing_path_delta_support fs path_abs s) delta in
          (case derive_new_contents_from_chunks fs path_abs chunks s of
             Inl e \<Rightarrow> (Inl (DeriveFailed e), s, delta)
           | Inr applied \<Rightarrow>
               (case move_path of
                  Some dest \<Rightarrow>
                    apply_moved_update fs path_abs affected (resolve_path_against_base os dest cwd) applied s delta
                | None \<Rightarrow> apply_update_in_place fs path_abs affected applied s delta)))"

record affected_paths =
  added_paths :: "string list"
  modified_paths :: "string list"
  deleted_paths :: "string list"

fun note_affected :: "affected_path \<Rightarrow> affected_paths \<Rightarrow> affected_paths" where
  "note_affected (PathAdded p) a = a\<lparr> added_paths := added_paths a @ [p] \<rparr>"
| "note_affected (PathModified p) a = a\<lparr> modified_paths := modified_paths a @ [p] \<rparr>"
| "note_affected (PathDeleted p) a = a\<lparr> deleted_paths := deleted_paths a @ [p] \<rparr>"

fun apply_hunks_loop ::
  "host_os \<Rightarrow> 's executor_fs \<Rightarrow> abs_path \<Rightarrow> affected_paths \<Rightarrow> hunk list \<Rightarrow> 's \<Rightarrow> applied_patch_delta
     \<Rightarrow> (apply_failure + affected_paths) \<times> 's \<times> applied_patch_delta" where
  "apply_hunks_loop os fs cwd affected [] s delta = (Inr affected, s, delta)"
| "apply_hunks_loop os fs cwd affected (h # hs) s delta =
     (case apply_hunk os fs cwd h s delta of
        (Inl e, s, delta) \<Rightarrow> (Inl e, s, delta)
      | (Inr a, s, delta) \<Rightarrow> apply_hunks_loop os fs cwd (note_affected a affected) hs s delta)"

definition apply_hunks_to_files ::
  "host_os \<Rightarrow> 's executor_fs \<Rightarrow> abs_path \<Rightarrow> hunk list \<Rightarrow> 's \<Rightarrow> applied_patch_delta
     \<Rightarrow> (apply_failure + affected_paths) \<times> 's \<times> applied_patch_delta" where
  "apply_hunks_to_files os fs cwd hunks s delta =
     (if hunks = [] then (Inl NoFilesModified, s, delta)
      else apply_hunks_loop os fs cwd \<lparr> added_paths = [], modified_paths = [], deleted_paths = [] \<rparr> hunks s delta)"

definition print_summary :: "affected_paths \<Rightarrow> string" where
  "print_summary affected =
     ''Success. Updated the following files:'' @ [nl] @
     concat (map (\<lambda>p. ''A '' @ p @ [nl]) (added_paths affected)) @
     concat (map (\<lambda>p. ''M '' @ p @ [nl]) (modified_paths affected)) @
     concat (map (\<lambda>p. ''D '' @ p @ [nl]) (deleted_paths affected))"

datatype patch_failure =
    FailedToParse parse_error
  | FailedHunk apply_failure
  | FailedOutput

text \<open>
  \<open>stdout_ok\<close> and \<open>stderr_ok\<close> say whether the two writers accept what is printed; the result carries
  the text printed on success.
\<close>

definition apply_hunks ::
  "host_os \<Rightarrow> 's executor_fs \<Rightarrow> bool \<Rightarrow> bool \<Rightarrow> abs_path \<Rightarrow> hunk list \<Rightarrow> 's
     \<Rightarrow> (patch_failure \<times> applied_patch_delta + string \<times> applied_patch_delta) \<times> 's" where
  "apply_hunks os fs stdout_ok stderr_ok cwd hunks s =
     (case apply_hunks_to_files os fs cwd hunks s delta_empty of
        (Inr affected, s, delta) \<Rightarrow>
          (if stdout_ok then Inr (print_summary affected, delta) else Inl (FailedOutput, delta), s)
      | (Inl e, s, delta) \<Rightarrow>
          (Inl (if stderr_ok then FailedHunk e else FailedOutput, delta), s))"

definition apply_patch ::
  "host_os \<Rightarrow> 's executor_fs \<Rightarrow> bool \<Rightarrow> bool \<Rightarrow> abs_path \<Rightarrow> string \<Rightarrow> 's
     \<Rightarrow> (patch_failure \<times> applied_patch_delta + string \<times> applied_patch_delta) \<times> 's" where
  "apply_patch os fs stdout_ok stderr_ok cwd patch s =
     (case parse_patch patch of
        Inl e \<Rightarrow> (Inl (if stderr_ok then FailedToParse e else FailedOutput, delta_empty), s)
      | Inr source \<Rightarrow> apply_hunks os fs stdout_ok stderr_ok cwd (apa_hunks source) s)"

section \<open>Preview of a patch\<close>

datatype apply_patch_file_change =
    ChangeAdd string
  | ChangeDelete string
  | ChangeUpdate string "abs_path option" string

record apply_patch_action =
  action_changes :: "abs_path \<rightharpoonup> apply_patch_file_change"
  action_patch :: string
  action_cwd :: abs_path

definition unified_diff_from_chunks ::
  "(string \<Rightarrow> string \<Rightarrow> string) \<Rightarrow> 's executor_fs \<Rightarrow> abs_path \<Rightarrow> update_file_chunk list \<Rightarrow> 's
     \<Rightarrow> apply_patch_error + string \<times> applied_patch" where
  "unified_diff_from_chunks text_diff fs path chunks s =
     try_bind (derive_new_contents_from_chunks fs path chunks s) (\<lambda>applied.
       Inr (text_diff (original_contents applied) (new_contents applied), applied))"

definition verify_hunk ::
  "(string \<Rightarrow> string \<Rightarrow> string) \<Rightarrow> host_os \<Rightarrow> 's executor_fs \<Rightarrow> abs_path \<Rightarrow> hunk \<Rightarrow> 's
     \<Rightarrow> apply_patch_error + apply_patch_file_change" where
  "verify_hunk text_diff os fs cwd h s =
     (let path = resolve_path os h cwd in
      case h of
        AddFile _ contents \<Rightarrow> Inr (ChangeAdd contents)
      | DeleteFile _ \<Rightarrow>
          (case fs_read_text fs path s of
             Inr content \<Rightarrow> Inr (ChangeDelete content)
           | Inl e \<Rightarrow> Inl (ReadFailed path e))
      | UpdateFile _ move_path chunks \<Rightarrow>
          try_bind (unified_diff_from_chunks text_diff fs path chunks s) (\<lambda>(unified_diff, applied).
            Inr (ChangeUpdate unified_diff (map_option (abs_join os cwd) move_path) (new_contents applied))))"

fun verify_hunks ::
  "(string \<Rightarrow> string \<Rightarrow> string) \<Rightarrow> host_os \<Rightarrow> 's executor_fs \<Rightarrow> abs_path \<Rightarrow> 's
     \<Rightarrow> (abs_path \<rightharpoonup> apply_patch_file_change) \<Rightarrow> hunk list
     \<Rightarrow> apply_patch_error + (abs_path \<rightharpoonup> apply_patch_file_change)" where
  "verify_hunks text_diff os fs cwd s changes [] = Inr changes"
| "verify_hunks text_diff os fs cwd s changes (h # hs) =
     try_bind (verify_hunk text_diff os fs cwd h s) (\<lambda>change.
       verify_hunks text_diff os fs cwd s (changes(resolve_path os h cwd \<mapsto> change)) hs)"

definition verify_apply_patch_args ::
  "(string \<Rightarrow> string \<Rightarrow> string) \<Rightarrow> host_os \<Rightarrow> 's executor_fs \<Rightarrow> abs_path \<Rightarrow> apply_patch_args \<Rightarrow> 's
     \<Rightarrow> apply_patch_error + apply_patch_action" where
  "verify_apply_patch_args text_diff os fs cwd args s =
     (let effective_cwd = (case apa_workdir args of None \<Rightarrow> cwd | Some dir \<Rightarrow> abs_join os cwd dir) in
      try_bind (verify_hunks text_diff os fs effective_cwd s Map.empty (apa_hunks args)) (\<lambda>changes.
        Inr \<lparr> action_changes = changes, action_patch = apa_patch args, action_cwd = effective_cwd \<rparr>))"

section \<open>Recognising an invocation\<close>

definition APPLY_PATCH_COMMANDS :: "string list" where
  "APPLY_PATCH_COMMANDS = [''apply_patch'', ''applypatch'']"

datatype apply_patch_shell = UnixShell | PowerShellShell | CmdShell

datatype extract_heredoc_error =
    CommandDidNotStartWithApplyPatch
  | FailedToLoadBashGrammar
  | HeredocNotUtf8
  | FailedToParsePatchIntoAst
  | FailedToFindHeredocBody

datatype maybe_apply_patch =
    PatchBody apply_patch_args
  | ShellParseError extract_heredoc_error
  | PatchParseError parse_error
  | NotApplyPatch

datatype maybe_apply_patch_verified =
    VerifiedBody apply_patch_action
  | VerifiedShellParseError extract_heredoc_error
  | CorrectnessError apply_patch_error
  | VerifiedNotApplyPatch

definition classify_shell_name :: "string \<Rightarrow> string option" where
  "classify_shell_name sh = map_option to_ascii_lowercase (file_stem sh)"

definition classify_shell :: "string \<Rightarrow> string \<Rightarrow> apply_patch_shell option" where
  "classify_shell sh flag =
     Option.bind (classify_shell_name sh) (\<lambda>name.
       if name \<in> {''bash'', ''zsh'', ''sh''} \<and> flag \<in> {''-lc'', ''-c''} then Some UnixShell
       else if name \<in> {''pwsh'', ''powershell''} \<and> eq_ignore_ascii_case flag ''-command'' then Some PowerShellShell
       else if name = ''cmd'' \<and> eq_ignore_ascii_case flag ''/c'' then Some CmdShell
       else None)"

definition can_skip_flag :: "string \<Rightarrow> string \<Rightarrow> bool" where
  "can_skip_flag sh flag =
     (case classify_shell_name sh of
        None \<Rightarrow> False
      | Some name \<Rightarrow> name \<in> {''pwsh'', ''powershell''} \<and> eq_ignore_ascii_case flag ''-noprofile'')"

fun parse_shell_script :: "string list \<Rightarrow> (apply_patch_shell \<times> string) option" where
  "parse_shell_script [sh, flag, script] = map_option (\<lambda>t. (t, script)) (classify_shell sh flag)"
| "parse_shell_script [sh, skip_flag, flag, script] =
     (if can_skip_flag sh skip_flag then map_option (\<lambda>t. (t, script)) (classify_shell sh flag) else None)"
| "parse_shell_script _ = None"

text \<open>\<open>extract\<close> is \<open>extract_apply_patch_from_bash\<close>, a query on the syntax tree of the script.\<close>

definition maybe_parse_apply_patch ::
  "(string \<Rightarrow> extract_heredoc_error + string \<times> string option) \<Rightarrow> string list \<Rightarrow> maybe_apply_patch" where
  "maybe_parse_apply_patch extract argv =
     (case (case argv of [cmd, body] \<Rightarrow> if cmd \<in> set APPLY_PATCH_COMMANDS then Some body else None | _ \<Rightarrow> None) of
        Some body \<Rightarrow> (case parse_patch body of Inr source \<Rightarrow> PatchBody source | Inl e \<Rightarrow> PatchParseError e)
      | None \<Rightarrow>
          (case parse_shell_script argv of
             None \<Rightarrow> NotApplyPatch
           | Some (_, script) \<Rightarrow>
               (case extract script of
                  Inr (body, workdir) \<Rightarrow>
                    (case parse_patch body of
                       Inr source \<Rightarrow> PatchBody (source\<lparr> apa_workdir := workdir \<rparr>)
                     | Inl e \<Rightarrow> PatchParseError e)
                | Inl e \<Rightarrow>
                    if e = CommandDidNotStartWithApplyPatch then NotApplyPatch else ShellParseError e)))"

definition maybe_parse_apply_patch_verified ::
  "(string \<Rightarrow> extract_heredoc_error + string \<times> string option) \<Rightarrow> (string \<Rightarrow> string \<Rightarrow> string) \<Rightarrow> host_os
     \<Rightarrow> 's executor_fs \<Rightarrow> abs_path \<Rightarrow> string list \<Rightarrow> 's \<Rightarrow> maybe_apply_patch_verified" where
  "maybe_parse_apply_patch_verified extract text_diff os fs cwd argv s =
     (if (case argv of [body] \<Rightarrow> is_ok (parse_patch body) | _ \<Rightarrow> False) \<or>
         (case parse_shell_script argv of Some (_, script) \<Rightarrow> is_ok (parse_patch script) | None \<Rightarrow> False)
      then CorrectnessError ImplicitInvocation
      else case maybe_parse_apply_patch extract argv of
        PatchBody args \<Rightarrow>
          if apa_environment_id args \<noteq> None then CorrectnessError EnvironmentIdInShellInvocation
          else (case verify_apply_patch_args text_diff os fs cwd args s of
                  Inr action \<Rightarrow> VerifiedBody action
                | Inl e \<Rightarrow> CorrectnessError e)
      | ShellParseError e \<Rightarrow> VerifiedShellParseError e
      | PatchParseError e \<Rightarrow> CorrectnessError (ParseError e)
      | NotApplyPatch \<Rightarrow> VerifiedNotApplyPatch)"

section \<open>The standalone executable\<close>

text \<open>
  Exit code and final state: \<open>args\<close> are the arguments after the program name, \<open>stdin\<close> what reading
  standard input as UTF-8 gives, \<open>cwd\<close> the current directory, \<open>runtime\<close> whether the async runtime starts.
\<close>

definition run_main ::
  "host_os \<Rightarrow> 's executor_fs \<Rightarrow> bool \<Rightarrow> bool \<Rightarrow> bool \<Rightarrow> string list \<Rightarrow> string option \<Rightarrow> abs_path option \<Rightarrow> 's
     \<Rightarrow> int \<times> 's" where
  "run_main os fs stdout_ok stderr_ok runtime args stdin cwd s =
     (case (case args of
              arg # _ \<Rightarrow> if valid_utf8 arg then Inr arg else Inl 1
            | [] \<Rightarrow> (case stdin of None \<Rightarrow> Inl 1 | Some buf \<Rightarrow> if buf = [] then Inl 2 else Inr buf)) of
        Inl code \<Rightarrow> (code, s)
      | Inr patch_arg \<Rightarrow>
          if 1 < length args then (2, s)
          else (case cwd of
             None \<Rightarrow> (1, s)
           | Some cwd \<Rightarrow>
               if \<not> runtime then (1, s)
               else (case apply_patch os fs stdout_ok stderr_ok cwd patch_arg s of
                       (Inr _, s) \<Rightarrow> (0, s)
                     | (Inl _, s) \<Rightarrow> (1, s))))"

end
