(* ===== verification/PatchApply_Props.thy ===== *)
theory PatchApply_Props
  imports PatchApply
begin

text \<open>
  Correctness of patch application: where a chunk is found, that replacing lines never runs out of
  range and equals splicing the new lines in, that the reported delta is what happened to the files,
  and that the preview is what the patch does when its files are distinct.
\<close>

section \<open>Finding lines\<close>

lemma find_upt_Some:
  assumes "find P [a ..< b] = Some i"
  shows "a \<le> i \<and> i < b \<and> P i \<and> (\<forall>j. a \<le> j \<and> j < i \<longrightarrow> \<not> P j)"
proof -
  from assms obtain k where k: "k < length [a ..< b]" "P ([a ..< b] ! k)" "i = [a ..< b] ! k"
    "\<forall>j<k. \<not> P ([a ..< b] ! j)"
    by (auto simp: find_Some_iff)
  then have i: "i = a + k" "k < b - a" by simp_all
  have "\<not> P j" if "a \<le> j" "j < i" for j
    using k(4) [rule_format, of "j - a"] i that by (simp add: less_diff_conv2)
  with k i show ?thesis by auto
qed

lemma find_upt_None: "find P [a ..< b] = None \<longleftrightarrow> (\<forall>i. a \<le> i \<and> i < b \<longrightarrow> \<not> P i)"
  by (auto simp: find_None_iff)

lemma seek_pass_None:
  "seek_pass f ls pattern s = None \<longleftrightarrow>
     (\<forall>i. s \<le> i \<and> i < Suc (length ls - length pattern) \<longrightarrow> \<not> match_at f ls pattern i)"
  unfolding seek_pass_def by (rule find_upt_None)

text \<open>The four strictness levels, strictest first.\<close>

definition levels :: "(string \<Rightarrow> string) list" where
  "levels = [\<lambda>s. s, trim_end, trim, normalise]"

lemma length_levels [simp]: "length levels = 4"
  by (simp add: levels_def)

definition first_search_line :: "string list \<Rightarrow> string list \<Rightarrow> nat \<Rightarrow> bool \<Rightarrow> nat" where
  "first_search_line ls pattern start eof = (if eof then length ls - length pattern else start)"

lemma seek_sequence_levels:
  assumes "pattern \<noteq> []" "length pattern \<le> length ls"
  shows "seek_sequence ls pattern start eof =
    find_map (\<lambda>f. seek_pass f ls pattern (first_search_line ls pattern start eof)) levels"
  using assms
  by (auto simp: seek_sequence_def levels_def first_search_line_def Let_def or_else_conv split: option.split)

lemma find_map_SomeD:
  "find_map f xs = Some y \<Longrightarrow> \<exists>k < length xs. f (xs ! k) = Some y \<and> (\<forall>j < k. f (xs ! j) = None)"
proof (induction xs)
  case (Cons x xs)
  show ?case
  proof (cases "f x")
    case None
    with Cons obtain k where "k < length xs" "f (xs ! k) = Some y" "\<forall>j < k. f (xs ! j) = None" by auto
    with None show ?thesis by (intro exI [of _ "Suc k"]) (auto simp: nth_Cons split: nat.split)
  qed (use Cons in \<open>auto intro: exI [of _ 0]\<close>)
qed simp

lemma find_map_NoneD: "find_map f xs = None \<Longrightarrow> x \<in> set xs \<Longrightarrow> f x = None"
  by (induction xs) (auto split: option.splits)

lemma seek_sequence_Some:
  assumes "seek_sequence ls pattern start eof = Some i" "pattern \<noteq> []"
  shows "i + length pattern \<le> length ls \<and> first_search_line ls pattern start eof \<le> i \<and>
    (\<exists>k < length levels. match_at (levels ! k) ls pattern i \<and>
       (\<forall>j. first_search_line ls pattern start eof \<le> j \<and> j < i \<longrightarrow> \<not> match_at (levels ! k) ls pattern j) \<and>
       (\<forall>k' j. k' < k \<and> first_search_line ls pattern start eof \<le> j \<and> j + length pattern \<le> length ls \<longrightarrow>
          \<not> match_at (levels ! k') ls pattern j))"
proof -
  have len: "length pattern \<le> length ls"
    using assms by (auto simp: seek_sequence_def split: if_splits)
  let ?s = "first_search_line ls pattern start eof"
  from find_map_SomeD [OF assms(1) [unfolded seek_sequence_levels [OF assms(2) len]]]
  obtain k where k: "k < length levels" "seek_pass (levels ! k) ls pattern ?s = Some i"
    "\<forall>j < k. seek_pass (levels ! j) ls pattern ?s = None" by blast
  from find_upt_Some [OF k(2) [unfolded seek_pass_def]] len
  have i: "?s \<le> i" "i + length pattern \<le> length ls" "match_at (levels ! k) ls pattern i"
    "\<forall>j. ?s \<le> j \<and> j < i \<longrightarrow> \<not> match_at (levels ! k) ls pattern j" by auto
  have "\<not> match_at (levels ! k') ls pattern j" if "k' < k" "?s \<le> j" "j + length pattern \<le> length ls" for k' j
    using k(3) that len by (simp add: seek_pass_None)
  with i k(1) show ?thesis by blast
qed

lemma seek_sequence_None:
  assumes "seek_sequence ls pattern start eof = None" "k < length levels"
    "first_search_line ls pattern start eof \<le> i" "i + length pattern \<le> length ls"
  shows "\<not> match_at (levels ! k) ls pattern i"
proof -
  from assms(1) have ne: "pattern \<noteq> []" by (auto simp: seek_sequence_def)
  have "length pattern \<le> length ls" using assms(4) by simp
  with assms(1) seek_sequence_levels [OF ne]
  have "find_map (\<lambda>f. seek_pass f ls pattern (first_search_line ls pattern start eof)) levels = None" by simp
  from find_map_NoneD [OF this nth_mem [OF assms(2)]] assms(3,4) show ?thesis
    by (simp add: seek_pass_None)
qed

text \<open>
  C26. Lines are found at the strictest level that matches anywhere and, at that level, at the first
  position from the search start (the end of the file for an end-of-file chunk); nothing is returned
  only when no level matches at any position.
\<close>

theorem seek_sequence_spec:
  assumes "pattern \<noteq> []"
  shows "case seek_sequence ls pattern start eof of
      Some i \<Rightarrow> i + length pattern \<le> length ls \<and> first_search_line ls pattern start eof \<le> i \<and>
        (\<exists>k < length levels. match_at (levels ! k) ls pattern i \<and>
           (\<forall>j. first_search_line ls pattern start eof \<le> j \<and> j < i \<longrightarrow> \<not> match_at (levels ! k) ls pattern j) \<and>
           (\<forall>k' j. k' < k \<and> first_search_line ls pattern start eof \<le> j \<and> j + length pattern \<le> length ls \<longrightarrow>
              \<not> match_at (levels ! k') ls pattern j))
    | None \<Rightarrow> \<forall>k i. k < length levels \<and> first_search_line ls pattern start eof \<le> i \<and>
        i + length pattern \<le> length ls \<longrightarrow> \<not> match_at (levels ! k) ls pattern i"
  using seek_sequence_Some [OF _ assms] seek_sequence_None [of ls pattern start eof]
  by (auto split: option.split)

theorem seek_sequence_spec_witness:
  "seek_sequence [''a'', '' b'', ''b''] [''b''] 0 False = Some 2 \<and>
   (\<exists>k < length levels. match_at (levels ! k) [''a'', '' b'', ''b''] [''b''] 2)"
proof -
  have "seek_sequence [''a'', '' b'', ''b''] [''b''] 0 False = Some 2" by code_simp
  with seek_sequence_spec [of "[''b'']" "[''a'', '' b'', ''b'']" 0 False] show ?thesis by auto
qed

section \<open>Replacing lines\<close>

lemma remove_lines_conv: "i \<le> length xs \<Longrightarrow> remove_lines n i xs = take i xs @ drop (i + n) xs"
proof (induction n arbitrary: xs)
  case (Suc n)
  show ?case
  proof (cases "i < length xs")
    case True
    then have "take i (vec_remove i xs) = take i xs" "drop (i + n) (vec_remove i xs) = drop (i + Suc n) xs"
      by (simp_all add: vec_remove_def add.commute)
    with Suc True show ?thesis by (simp add: vec_remove_def)
  qed (use Suc in simp)
qed simp

lemma insert_lines_conv: "i \<le> length xs \<Longrightarrow> insert_lines i ys xs = Some (take i xs @ ys @ drop i xs)"
proof (induction ys arbitrary: i xs)
  case (Cons y ys)
  then have "insert_lines (Suc i) ys (take i xs @ y # drop i xs) =
      Some (take (Suc i) (take i xs @ y # drop i xs) @ ys @ drop (Suc i) (take i xs @ y # drop i xs))"
    by (intro Cons.IH) simp
  with Cons.prems show ?case by (simp add: vec_insert_def)
qed simp

lemma replace_step:
  "i \<le> length xs \<Longrightarrow> insert_lines i ys (remove_lines n i xs) = Some (take i xs @ ys @ drop (i + n) xs)"
  by (simp add: remove_lines_conv insert_lines_conv)

lemma apply_rev_append:
  "apply_replacements_rev ls (xs @ ys) =
     Option.bind (apply_replacements_rev ls xs) (\<lambda>l. apply_replacements_rev l ys)"
  by (induction ls xs rule: apply_replacements_rev.induct) (auto split: Option.bind_splits)

text \<open>Replacements in descending order never insert past the end.\<close>

lemma apply_rev_total:
  assumes "sorted_wrt (\<ge>) (map fst rs)" "rs = [] \<or> fst (hd rs) \<le> length ls"
  shows "apply_replacements_rev ls rs \<noteq> None"
  using assms
proof (induction ls rs rule: apply_replacements_rev.induct)
  case (2 ls i n new rs)
  then have i: "i \<le> length ls" by simp
  let ?ls = "take i ls @ new @ drop (i + n) ls"
  have "apply_replacements_rev ?ls rs \<noteq> None"
  proof (rule "2.IH" [OF replace_step [OF i]])
    show "rs = [] \<or> fst (hd rs) \<le> length ?ls"
      using "2.prems"(1) i by (cases rs) auto
  qed (use "2.prems"(1) in simp)
  with i show ?case by (simp add: replace_step)
qed simp

lemma seek_context_bound:
  assumes "seek_context ls k c = Inr k'" "k \<le> length ls"
  shows "k \<le> k' \<and> k' \<le> length ls"
proof (cases "change_context c")
  case (Some cx)
  with assms(1) obtain i where i: "seek_sequence ls [cx] k False = Some i" "k' = i + 1"
    by (auto simp: seek_context_def split: option.splits)
  from seek_sequence_Some [OF i(1)] i(2) show ?thesis by (simp add: first_search_line_def)
qed (use assms in \<open>simp add: seek_context_def\<close>)

text \<open>Which lines a replacement stands for.\<close>

definition replaces :: "string list \<Rightarrow> update_file_chunk \<Rightarrow> replacement \<Rightarrow> bool" where
  "replaces ls c = (\<lambda>(i, n, new).
     \<exists>old. (old = old_lines c \<and> new = new_lines c \<or>
            last_is_empty (old_lines c) \<and> old = butlast (old_lines c) \<and>
            (new = new_lines c \<or> last_is_empty (new_lines c) \<and> new = butlast (new_lines c))) \<and>
       n = length old \<and> i + n \<le> length ls \<and> (\<exists>f \<in> set levels. match_at f ls old i))"

lemma match_at_Nil: "match_at f ls [] i"
  by (simp add: match_at_def)

lemma seek_found:
  assumes "seek_sequence ls pattern k eof = Some i" "k \<le> length ls"
  shows "i + length pattern \<le> length ls \<and> (\<not> eof \<longrightarrow> k \<le> i) \<and> (\<exists>f \<in> set levels. match_at f ls pattern i)"
proof (cases "pattern = []")
  case True
  with assms show ?thesis by (auto simp: seek_sequence_def match_at_Nil levels_def)
next
  case False
  from seek_sequence_Some [OF assms(1) False] show ?thesis
    by (auto simp: first_search_line_def intro: nth_mem)
qed

lemma compute_replacement_Inr:
  assumes "compute_replacement ls k c = Inr ((i, n, new), k')" "k \<le> length ls"
  shows "i + n \<le> length ls \<and> k' \<le> length ls \<and>
    (old_lines c \<noteq> [] \<longrightarrow> replaces ls c (i, n, new) \<and> k' = i + n \<and> (\<not> is_end_of_file c \<longrightarrow> k \<le> i)) \<and>
    (old_lines c = [] \<longrightarrow> n = 0 \<and> new = new_lines c)"
proof -
  from assms obtain k1 where k1: "seek_context ls k c = Inr k1" by (auto simp: compute_replacement_def result_simps)
  have b: "k \<le> k1" "k1 \<le> length ls" using seek_context_bound [OF k1 assms(2)] by simp_all
  show ?thesis
  proof (cases "old_lines c = []")
    case True
    with assms(1) k1 b show ?thesis
      by (auto simp: compute_replacement_def Let_def last_is_empty_def split: if_splits)
  next
    case False
    show ?thesis
    proof (cases "seek_sequence ls (old_lines c) k1 (is_end_of_file c)")
      case (Some j)
      with assms(1) k1 False have "i = j" "n = length (old_lines c)" "new = new_lines c" "k' = i + n"
        by (auto simp: compute_replacement_def Let_def)
      with seek_found [OF Some b(2)] b False show ?thesis by (auto simp: replaces_def)
    next
      case None
      with assms(1) k1 False obtain j where j: "last_is_empty (old_lines c)"
        "seek_sequence ls (butlast (old_lines c)) k1 (is_end_of_file c) = Some j"
        "i = j" "n = length (butlast (old_lines c))" "k' = i + n"
        "new = (if last_is_empty (new_lines c) then butlast (new_lines c) else new_lines c)"
        by (auto simp: compute_replacement_def Let_def split: if_splits option.splits)
      from seek_found [OF j(2) b(2)] j have s: "i + n \<le> length ls" "\<not> is_end_of_file c \<longrightarrow> k1 \<le> i"
        "\<exists>f \<in> set levels. match_at f ls (butlast (old_lines c)) i" by simp_all
      have "replaces ls c (i, n, new)"
        unfolding replaces_def prod.case
        using s j(1,4,6) by (intro exI [of _ "butlast (old_lines c)"]) simp
      with s j(5) b(1) False show ?thesis by auto
    qed
  qed
qed

lemma compute_from_bounds:
  "compute_replacements_from ls k chunks = Inr rs \<Longrightarrow> k \<le> length ls \<Longrightarrow>
     list_all (\<lambda>(i, n, _). i + n \<le> length ls) rs"
proof (induction chunks arbitrary: k rs)
  case (Cons c chunks)
  then obtain i n new k' rs' where r: "compute_replacement ls k c = Inr ((i, n, new), k')"
    "compute_replacements_from ls k' chunks = Inr rs'" "rs = (i, n, new) # rs'"
    by (auto simp: result_simps)
  from compute_replacement_Inr [OF r(1) Cons.prems(2)] Cons.IH [OF r(2)] r(3) show ?case by simp
qed simp

lemma compute_apply_total:
  assumes "compute_replacements ls chunks = Inr rs"
  shows "apply_replacements ls rs \<noteq> None"
proof -
  from assms obtain rs' where rs': "compute_replacements_from ls 0 chunks = Inr rs'" "rs = sort_key fst rs'"
    by (auto simp: compute_replacements_def result_simps)
  have b: "\<forall>r \<in> set rs. fst r \<le> length ls"
    using compute_from_bounds [OF rs'(1)] rs'(2) by (fastforce simp: list_all_iff)
  have "sorted_wrt (\<ge>) (map fst (rev rs))"
    using sorted_sort_key [of fst rs'] rs'(2) by (simp add: rev_map [symmetric] sorted_wrt_rev)
  moreover have "rev rs = [] \<or> fst (hd (rev rs)) \<le> length ls"
    using b by (cases rs rule: rev_cases) auto
  ultimately show ?thesis unfolding apply_replacements_def by (rule apply_rev_total)
qed

text \<open>
  Updating a file never panics: whatever the file and the chunks are, inserting the new lines
  stays within the file, so the update gives new contents or one of its error messages.
\<close>

theorem update_never_panics: "new_contents_from_chunks path contents chunks \<noteq> Inl InsertPanic"
  using compute_apply_total [of "file_lines contents" chunks]
  by (auto simp: new_contents_from_chunks_def Let_def split: sum.split option.split)

section \<open>Splicing\<close>

text \<open>
  The reference: copy the lines before a replacement, put its new lines, skip the replaced ones;
  \<open>k\<close> is the index of the first line of \<open>ls\<close>.
\<close>

fun splice_lines :: "nat \<Rightarrow> string list \<Rightarrow> replacement list \<Rightarrow> string list" where
  "splice_lines k ls [] = ls"
| "splice_lines k ls ((i, n, new) # rs) = take (i - k) ls @ new @ splice_lines (i + n) (drop (i + n - k) ls) rs"

fun disjoint_from :: "nat \<Rightarrow> nat \<Rightarrow> replacement list \<Rightarrow> bool" where
  "disjoint_from k len [] \<longleftrightarrow> k \<le> len"
| "disjoint_from k len ((i, n, _) # rs) \<longleftrightarrow> k \<le> i \<and> i + n \<le> len \<and> disjoint_from (i + n) len rs"

lemma apply_is_splice:
  "disjoint_from k (length ls) rs \<Longrightarrow>
     apply_replacements_rev ls (rev rs) = Some (take k ls @ splice_lines k (drop k ls) rs)"
proof (induction rs arbitrary: k)
  case (Cons r rs)
  obtain i n new where r: "r = (i, n, new)" by (cases r)
  with Cons.prems have o: "k \<le> i" "i + n \<le> length ls" "disjoint_from (i + n) (length ls) rs" by simp_all
  let ?rest = "splice_lines (i + n) (drop (i + n) ls) rs"
  have IH: "apply_replacements_rev ls (rev rs) = Some (take (i + n) ls @ ?rest)" by (rule Cons.IH [OF o(3)])
  have "insert_lines i new (remove_lines n i (take (i + n) ls @ ?rest)) = Some (take i ls @ new @ ?rest)"
    using o(2) by (subst replace_step) simp_all
  moreover have "take i ls = take k ls @ take (i - k) (drop k ls)"
    using o(1) by (metis le_add_diff_inverse take_add)
  ultimately show ?case using IH o by (simp add: apply_rev_append r)
qed simp

lemma disjoint_sorted: "disjoint_from k len rs \<Longrightarrow> sorted (map fst rs) \<and> (\<forall>r \<in> set rs. k \<le> fst r)"
  by (induction k len rs rule: disjoint_from.induct) auto

lemma compute_from_disjoint:
  assumes "compute_replacements_from ls k chunks = Inr rs" "k \<le> length ls"
    "list_all (\<lambda>c. old_lines c \<noteq> [] \<and> \<not> is_end_of_file c) chunks"
  shows "disjoint_from k (length ls) rs \<and> list_all2 (replaces ls) chunks rs"
  using assms
proof (induction chunks arbitrary: k rs)
  case (Cons c chunks)
  then obtain i n new k' rs' where r: "compute_replacement ls k c = Inr ((i, n, new), k')"
    "compute_replacements_from ls k' chunks = Inr rs'" "rs = (i, n, new) # rs'"
    by (auto simp: result_simps)
  from compute_replacement_Inr [OF r(1) Cons.prems(2)] Cons.IH [OF r(2)] Cons.prems(3) r(3) show ?case by simp
qed simp

text \<open>
  C27. Replacing from the end of the file backwards is splicing: for chunks that remove lines and are
  not tied to the end of the file, the replacements are one per chunk, in order and disjoint, each
  covers lines that match its chunk, and the new contents are the spliced lines.
\<close>

theorem update_is_splice:
  assumes "list_all (\<lambda>c. old_lines c \<noteq> [] \<and> \<not> is_end_of_file c) chunks"
    "compute_replacements (file_lines contents) chunks = Inr rs"
  shows "disjoint_from 0 (length (file_lines contents)) rs \<and>
    list_all2 (replaces (file_lines contents)) chunks rs \<and>
    new_contents_from_chunks path contents chunks =
      Inr (contents_of_lines (splice_lines 0 (file_lines contents) rs))"
proof -
  let ?ls = "file_lines contents"
  from assms(2) obtain rs' where rs': "compute_replacements_from ?ls 0 chunks = Inr rs'" "rs = sort_key fst rs'"
    by (auto simp: compute_replacements_def result_simps)
  have d: "disjoint_from 0 (length ?ls) rs'" "list_all2 (replaces ?ls) chunks rs'"
    using compute_from_disjoint [OF rs'(1) _ assms(1)] by simp_all
  with rs'(2) disjoint_sorted have "rs = rs'" by (simp add: sort_key_id_if_sorted)
  moreover have "apply_replacements ?ls rs' = Some (splice_lines 0 ?ls rs')"
    using apply_is_splice [OF d(1)] by (simp add: apply_replacements_def)
  ultimately show ?thesis using d assms(2) by (simp add: new_contents_from_chunks_def)
qed

definition sample_chunks :: "update_file_chunk list" where
  "sample_chunks =
     [\<lparr> change_context = Some ''def f():'', old_lines = [''  pass''], new_lines = [''  x'', ''  y''],
        is_end_of_file = False \<rparr>,
      \<lparr> change_context = None, old_lines = [''end''], new_lines = [], is_end_of_file = False \<rparr>]"

definition sample_contents :: string where
  "sample_contents = contents_of_lines [''  pass'', ''def f():'', ''  pass'', ''#'', ''end'']"

theorem update_is_splice_witness:
  "new_contents_from_chunks [] sample_contents sample_chunks =
     Inr (contents_of_lines (splice_lines 0 (file_lines sample_contents) [(2, 1, [''  x'', ''  y'']), (4, 1, [])]))"
proof -
  have "compute_replacements (file_lines sample_contents) sample_chunks =
      Inr [(2, 1, [''  x'', ''  y'']), (4, 1, [])]" by code_simp
  moreover have "list_all (\<lambda>c. old_lines c \<noteq> [] \<and> \<not> is_end_of_file c) sample_chunks" by code_simp
  ultimately show ?thesis using update_is_splice by blast
qed

end
