(* ===== verification/PatchDelta.thy ===== *)
theory PatchDelta
  imports PatchApply_Props
begin

text \<open>
  The delta of a patch application against the file system: when it is reported as exact, replaying
  it on the old texts gives the new ones and undoing it gives the old ones back, also when the
  application failed half way. The laws of the executor's file system are hypotheses.
\<close>

section \<open>Texts of regular files\<close>

definition text_at :: "'s executor_fs \<Rightarrow> 's \<Rightarrow> abs_path \<Rightarrow> string option" where
  "text_at fs s p =
     (case (fs_metadata fs p s, fs_read_text fs p s) of
        (Inr md, Inr c) \<Rightarrow> if md_is_file md \<and> \<not> md_is_symlink md then Some c else None
      | _ \<Rightarrow> None)"

text \<open>
  What the code relies on, for paths whose metadata supports an exact delta: a path without metadata
  cannot be read; a successful write or remove changes the text of that path only; a write that finds
  no parent, and the creation of the parent, change no text; a failed remove leaves other texts alone
  and, where the file can still be read, its own.
\<close>

abbreviation supported :: "'s executor_fs \<Rightarrow> abs_path \<Rightarrow> 's \<Rightarrow> bool" where
  "supported \<equiv> note_existing_path_delta_support"

definition law_read :: "'s executor_fs \<Rightarrow> bool" where
  "law_read fs \<longleftrightarrow> (\<forall>p s c. fs_metadata fs p s = Inl IoNotFound \<longrightarrow> fs_read_text fs p s \<noteq> Inr c)"

definition law_write :: "'s executor_fs \<Rightarrow> bool" where
  "law_write fs \<longleftrightarrow>
     (\<forall>p c s u s'. supported fs p s \<longrightarrow> fs_write fs p c s = (Inr u, s') \<longrightarrow>
        text_at fs s' = (text_at fs s)(p := Some c))"

definition law_write_not_found :: "'s executor_fs \<Rightarrow> bool" where
  "law_write_not_found fs \<longleftrightarrow>
     (\<forall>p c s s'. fs_write fs p c s = (Inl IoNotFound, s') \<longrightarrow>
        text_at fs s' = text_at fs s \<and> (supported fs p s \<longrightarrow> supported fs p s'))"

definition law_create_dir :: "'s executor_fs \<Rightarrow> bool" where
  "law_create_dir fs \<longleftrightarrow>
     (\<forall>p q s r s'. fs_create_dir fs q s = (r, s') \<longrightarrow> abs_parent p = Some q \<longrightarrow>
        text_at fs s' = text_at fs s \<and> (supported fs p s \<longrightarrow> supported fs p s'))"

definition law_remove :: "'s executor_fs \<Rightarrow> bool" where
  "law_remove fs \<longleftrightarrow>
     (\<forall>p s u s'. supported fs p s \<longrightarrow> fs_remove fs p s = (Inr u, s') \<longrightarrow>
        text_at fs s' = (text_at fs s)(p := None))"

definition law_remove_failed :: "'s executor_fs \<Rightarrow> bool" where
  "law_remove_failed fs \<longleftrightarrow>
     (\<forall>p s e s' q. fs_remove fs p s = (Inl e, s') \<longrightarrow> q \<noteq> p \<or> is_ok (fs_read_text fs p s') \<longrightarrow>
        text_at fs s' q = text_at fs s q)"

definition fs_laws :: "'s executor_fs \<Rightarrow> bool" where
  "fs_laws fs \<longleftrightarrow> law_read fs \<and> law_write fs \<and> law_write_not_found fs \<and> law_create_dir fs \<and> law_remove fs \<and>
     law_remove_failed fs"

lemma fs_lawsD:
  assumes "fs_laws fs"
  shows "law_read fs" "law_write fs" "law_write_not_found fs" "law_create_dir fs" "law_remove fs" "law_remove_failed fs"
  using assms by (simp_all add: fs_laws_def)

lemmas law_defs = law_read_def law_write_def law_write_not_found_def law_create_dir_def law_remove_def
  law_remove_failed_def

lemmas fs_laws_read = fs_lawsD(1) [unfolded law_defs, rule_format]
lemmas fs_laws_write = fs_lawsD(2) [unfolded law_defs, rule_format]
lemmas fs_laws_write_not_found = fs_lawsD(3) [unfolded law_defs, rule_format]
lemmas fs_laws_create_dir = fs_lawsD(4) [unfolded law_defs, rule_format]
lemmas fs_laws_remove = fs_lawsD(5) [unfolded law_defs, rule_format]

lemma fs_laws_remove_failed:
  assumes "fs_laws fs" "fs_remove fs p s = (Inl e, s')" "fs_read_text fs p s' = Inr c"
  shows "text_at fs s' = text_at fs s"
  using fs_lawsD(6) [unfolded law_defs, rule_format, OF assms(1,2)] assms(3) by (simp add: fun_eq_iff)

lemma text_at_supported:
  assumes "fs_laws fs" "supported fs p s" "fs_read_text fs p s = Inr c"
  shows "text_at fs s p = Some c"
  using assms fs_laws_read [OF assms(1), of p s c]
  by (auto simp: text_at_def note_existing_path_delta_support_def split: sum.splits)

lemma supported_text_at: "text_at fs s p = Some c \<Longrightarrow> supported fs p s"
  by (auto simp: text_at_def note_existing_path_delta_support_def split: sum.splits if_splits)

lemma text_at_not_found: "fs_read_text fs p s = Inl e \<Longrightarrow> text_at fs s p = None"
  by (simp add: text_at_def split: sum.split)

lemma read_optional_text:
  assumes "fs_laws fs" "read_optional_file_text_for_delta fs p s = (t, True)"
  shows "text_at fs s p = t \<and> supported fs p s"
  using assms text_at_supported [OF assms(1), of p s] text_at_not_found [of fs p s]
  by (auto simp: read_optional_file_text_for_delta_def Let_def split: sum.splits if_splits)

lemma write_with_retry:
  assumes "fs_laws fs" "supported fs p s" "write_file_with_missing_parent_retry fs p c s = (Inr u, s')"
  shows "text_at fs s' = (text_at fs s)(p := Some c)"
proof -
  obtain r1 s1 where w: "fs_write fs p c s = (r1, s1)" by fastforce
  show ?thesis
  proof (cases r1)
    case (Inr u1)
    with assms(3) w have "s' = s1" by (auto simp: write_file_with_missing_parent_retry_def)
    with fs_laws_write [OF assms(1,2), of c u1 s1] w Inr assms(2) show ?thesis by simp
  next
    case (Inl e)
    with assms(3) w have e: "e = IoNotFound"
      by (auto simp: write_file_with_missing_parent_retry_def split: if_splits)
    have s1: "text_at fs s1 = text_at fs s" "supported fs p s1"
      using fs_laws_write_not_found [OF assms(1), of p c s s1] assms(2) w Inl e by simp_all
    obtain r2 s2 where d: "(case abs_parent p of None \<Rightarrow> (Inr (), s1) | Some parent \<Rightarrow> fs_create_dir fs parent s1) = (r2, s2)"
      by fastforce
    have s2: "text_at fs s2 = text_at fs s1" "supported fs p s2"
      using d s1(2) fs_laws_create_dir [OF assms(1), of _ s1 r2 s2 p]
      by (auto split: option.splits)
    from assms(3) w Inl e d obtain u2 where "fs_write fs p c s2 = (Inr u2, s')"
      by (auto simp: write_file_with_missing_parent_retry_def split: sum.splits prod.splits)
    from fs_laws_write [OF assms(1) s2(2) this] s1 s2 show ?thesis by simp
  qed
qed

section \<open>Replaying and undoing a delta\<close>

fun replay_change :: "applied_patch_change \<Rightarrow> (abs_path \<Rightarrow> string option) \<Rightarrow> abs_path \<Rightarrow> string option" where
  "replay_change (p, AppliedAdd c _) v = v(p := Some c)"
| "replay_change (p, AppliedDelete _) v = v(p := None)"
| "replay_change (p, AppliedUpdate None _ _ new) v = v(p := Some new)"
| "replay_change (p, AppliedUpdate (Some d) _ _ new) v = v(d := Some new, p := None)"

fun undo_change :: "applied_patch_change \<Rightarrow> (abs_path \<Rightarrow> string option) \<Rightarrow> abs_path \<Rightarrow> string option" where
  "undo_change (p, AppliedAdd _ overwritten) v = v(p := overwritten)"
| "undo_change (p, AppliedDelete c) v = v(p := Some c)"
| "undo_change (p, AppliedUpdate None old _ _) v = v(p := Some old)"
| "undo_change (p, AppliedUpdate (Some d) old overwritten _) v = v(d := overwritten, p := Some old)"

text \<open>The delta went from \<open>d\<close> to \<open>d'\<close> while the texts went from \<open>v\<close> to \<open>v'\<close>.\<close>

definition tracks ::
  "applied_patch_delta \<Rightarrow> (abs_path \<Rightarrow> string option) \<Rightarrow> applied_patch_delta \<Rightarrow> (abs_path \<Rightarrow> string option) \<Rightarrow> bool" where
  "tracks d v d' v' \<longleftrightarrow>
     (delta_exact d' \<longrightarrow> delta_exact d \<and>
        (\<exists>cs. delta_changes d' = delta_changes d @ cs \<and> v' = fold replay_change cs v \<and> v = foldr undo_change cs v'))"

lemma tracks_same: "tracks d v (and_exact b d) v"
  by (auto simp: tracks_def and_exact_def)

lemma tracks_lost: "tracks d v (and_exact False d') v'"
  by (auto simp: tracks_def and_exact_def)

lemma tracks_push:
  assumes "delta_exact d \<Longrightarrow> v' = replay_change (p, c) v \<and> v = undo_change (p, c) v'"
  shows "tracks d v (push_change p c d) v'"
  unfolding tracks_def
proof (intro impI conjI exI)
  assume "delta_exact (push_change p c d)"
  then show d: "delta_exact d" by (simp add: push_change_def)
  show "delta_changes (push_change p c d) = delta_changes d @ [(p, c)]" by (simp add: push_change_def)
  show "v' = fold replay_change [(p, c)] v" using assms [OF d, THEN conjunct1] by (simp only: fold_simps)
  show "v = foldr undo_change [(p, c)] v'" using assms [OF d, THEN conjunct2] by (simp only: foldr.simps comp_apply id_apply)
qed

lemma tracks_trans:
  assumes "tracks d v d1 v1" "tracks d1 v1 d2 v2"
  shows "tracks d v d2 v2"
  unfolding tracks_def
proof (intro impI)
  assume "delta_exact d2"
  with assms(2) obtain cs2 where 2: "delta_exact d1" "delta_changes d2 = delta_changes d1 @ cs2"
    "v2 = fold replay_change cs2 v1" "v1 = foldr undo_change cs2 v2" unfolding tracks_def by blast
  from assms(1) 2(1) obtain cs1 where 1: "delta_exact d" "delta_changes d1 = delta_changes d @ cs1"
    "v1 = fold replay_change cs1 v" "v = foldr undo_change cs1 v1" unfolding tracks_def by blast
  show "delta_exact d \<and> (\<exists>cs. delta_changes d2 = delta_changes d @ cs \<and> v2 = fold replay_change cs v \<and>
      v = foldr undo_change cs v2)"
  proof (intro conjI exI)
    show "delta_changes d2 = delta_changes d @ (cs1 @ cs2)" by (simp only: 1 2 append_assoc)
    show "v2 = fold replay_change (cs1 @ cs2) v"
      by (simp only: fold_append comp_apply 1(3) [symmetric] 2(3) [symmetric])
    show "v = foldr undo_change (cs1 @ cs2) v2"
      by (simp only: foldr_append comp_apply 2(4) [symmetric] 1(4) [symmetric])
  qed (rule 1(1))
qed

lemma delta_exact_and [simp]: "delta_exact (and_exact b d) \<longleftrightarrow> delta_exact d \<and> b"
  by (simp add: and_exact_def)

section \<open>Hunks\<close>

lemma tracks_add_file:
  assumes "fs_laws fs" "apply_add_file fs p a c s d = (r, s', d')"
  shows "tracks d (text_at fs s) d' (text_at fs s')"
proof -
  obtain ow sup where o: "read_optional_file_text_for_delta fs p s = (ow, sup)" by fastforce
  obtain w s1 where w: "write_file_with_missing_parent_retry fs p c s = (w, s1)" by fastforce
  show ?thesis
  proof (cases w)
    case (Inl e)
    with assms(2) o w show ?thesis by (auto simp: apply_add_file_def intro: tracks_lost)
  next
    case (Inr u)
    have "tracks (and_exact sup d) (text_at fs s) (push_change p (AppliedAdd c ow) (and_exact sup d)) (text_at fs s1)"
    proof (rule tracks_push)
      assume "delta_exact (and_exact sup d)"
      then have "text_at fs s p = ow \<and> supported fs p s" using read_optional_text [OF assms(1)] o by simp
      moreover from this have "text_at fs s1 = (text_at fs s)(p := Some c)"
        using write_with_retry [OF assms(1)] w Inr by blast
      ultimately show "text_at fs s1 = replay_change (p, AppliedAdd c ow) (text_at fs s) \<and>
          text_at fs s = undo_change (p, AppliedAdd c ow) (text_at fs s1)" by auto
    qed
    with assms(2) o w Inr show ?thesis
      by (auto simp: apply_add_file_def intro: tracks_trans [OF tracks_same])
  qed
qed

lemma remove_free_read: "remove_failure_was_side_effect_free fs p t s \<Longrightarrow> \<exists>c. fs_read_text fs p s = Inr c"
  by (auto simp: remove_failure_was_side_effect_free_def split: option.splits sum.splits)

lemma tracks_delete_file:
  assumes "fs_laws fs" "apply_delete_file fs p a s d = (r, s', d')"
  shows "tracks d (text_at fs s) d' (text_at fs s')"
proof -
  let ?content = "case fs_read_text fs p s of Inr c \<Rightarrow> Some c | Inl _ \<Rightarrow> None"
  let ?d = "and_exact (supported fs p s \<and> ?content \<noteq> None) d"
  obtain m s1 where m: "fs_remove fs p s = (m, s1)" by fastforce
  show ?thesis
  proof (cases "ensure_not_directory fs p s")
    case (Inl e)
    with assms(2) show ?thesis by (auto simp: apply_delete_file_def Let_def intro: tracks_same)
  next
    case ok: (Inr u)
    show ?thesis
    proof (cases m)
      case (Inl e)
      have "tracks ?d (text_at fs s) (and_exact (remove_failure_was_side_effect_free fs p ?content s1) ?d) (text_at fs s1)"
      proof (cases "remove_failure_was_side_effect_free fs p ?content s1")
        case True
        from remove_free_read [OF True] obtain c where "fs_read_text fs p s1 = Inr c" ..
        with fs_laws_remove_failed [OF assms(1) m [unfolded Inl]] have "text_at fs s1 = text_at fs s" by simp
        with tracks_same show ?thesis by simp
      qed (simp add: tracks_lost)
      with assms(2) ok m Inl show ?thesis
        by (auto simp: apply_delete_file_def Let_def intro: tracks_trans [OF tracks_same])
    next
      case (Inr u1)
      show ?thesis
      proof (cases ?content)
        case None
        with assms(2) ok m Inr show ?thesis by (auto simp: apply_delete_file_def Let_def tracks_lost)
      next
        case (Some c)
        have "tracks ?d (text_at fs s) (push_change p (AppliedDelete c) ?d) (text_at fs s1)"
        proof (rule tracks_push)
          assume "delta_exact ?d"
          then have sup: "supported fs p s" by simp
          from Some have "fs_read_text fs p s = Inr c" by (auto split: sum.splits)
          with sup text_at_supported [OF assms(1)] have "text_at fs s p = Some c" by blast
          moreover have "text_at fs s1 = (text_at fs s)(p := None)"
            using fs_laws_remove [OF assms(1) sup] m Inr by blast
          ultimately show "text_at fs s1 = replay_change (p, AppliedDelete c) (text_at fs s) \<and>
              text_at fs s = undo_change (p, AppliedDelete c) (text_at fs s1)" by auto
        qed
        with assms(2) ok m Inr Some show ?thesis
          by (auto simp: apply_delete_file_def Let_def intro: tracks_trans [OF tracks_same])
      qed
    qed
  qed
qed

text \<open>After \<open>derive_new_contents_from_chunks\<close>, an exact delta knows the text of the file.\<close>

lemma tracks_in_place:
  assumes "fs_laws fs" "apply_update_in_place fs p a ap s d = (r, s', d')"
    "delta_exact d \<Longrightarrow> text_at fs s p = Some (original_contents ap)"
  shows "tracks d (text_at fs s) d' (text_at fs s')"
proof -
  obtain w s1 where w: "fs_write fs p (new_contents ap) s = (w, s1)" by fastforce
  show ?thesis
  proof (cases w)
    case (Inl e)
    with assms(2) w show ?thesis by (auto simp: apply_update_in_place_def tracks_lost)
  next
    case (Inr u)
    let ?c = "AppliedUpdate None (original_contents ap) None (new_contents ap)"
    have "tracks d (text_at fs s) (push_change p ?c d) (text_at fs s1)"
    proof (rule tracks_push)
      assume "delta_exact d"
      note old = assms(3) [OF this]
      have "text_at fs s1 = (text_at fs s)(p := Some (new_contents ap))"
        using fs_laws_write [OF assms(1) supported_text_at [OF old]] w Inr by blast
      with old show "text_at fs s1 = replay_change (p, ?c) (text_at fs s) \<and>
          text_at fs s = undo_change (p, ?c) (text_at fs s1)" by auto
    qed
    with assms(2) w Inr show ?thesis by (auto simp: apply_update_in_place_def)
  qed
qed

lemma tracks_moved:
  assumes "fs_laws fs" "apply_moved_update fs p a dest ap s d = (r, s', d')"
    "delta_exact d \<Longrightarrow> text_at fs s p = Some (original_contents ap)"
  shows "tracks d (text_at fs s) d' (text_at fs s')"
proof -
  obtain ow sup where o: "read_optional_file_text_for_delta fs dest s = (ow, sup)" by fastforce
  obtain w s1 where w: "write_file_with_missing_parent_retry fs dest (new_contents ap) s = (w, s1)" by fastforce
  obtain m s2 where m: "fs_remove fs p s1 = (m, s2)" by fastforce
  let ?d = "and_exact sup d"
  let ?add = "AppliedAdd (new_contents ap) ow"
  let ?upd = "AppliedUpdate (Some dest) (original_contents ap) ow (new_contents ap)"
  show ?thesis
  proof (cases w)
    case (Inl e)
    with assms(2) o w show ?thesis by (auto simp: apply_moved_update_def tracks_lost)
  next
    case (Inr u)
    have facts: "text_at fs s dest = ow" "text_at fs s1 = (text_at fs s)(dest := Some (new_contents ap))"
      if "delta_exact ?d"
    proof -
      have sup: "text_at fs s dest = ow \<and> supported fs dest s"
        using that read_optional_text [OF assms(1)] o by simp
      then show "text_at fs s dest = ow" ..
      show "text_at fs s1 = (text_at fs s)(dest := Some (new_contents ap))"
        using write_with_retry [OF assms(1)] sup w Inr by blast
    qed
    have written: "tracks ?d (text_at fs s) (push_change dest ?add ?d) (text_at fs s1)"
      by (rule tracks_push) (use facts in auto)
    show ?thesis
    proof (cases "ensure_not_directory fs p s1")
      case e: (Inl e)
      with assms(2) o w Inr written show ?thesis
        by (auto simp: apply_moved_update_def Let_def intro: tracks_trans [OF tracks_same])
    next
      case ok: (Inr u1)
      show ?thesis
      proof (cases m)
        case e: (Inl e)
        let ?free = "remove_failure_was_side_effect_free fs p (Some (original_contents ap)) s2"
        have "tracks ?d (text_at fs s) (and_exact ?free (push_change dest ?add ?d)) (text_at fs s2)"
        proof (cases ?free)
          case True
          from remove_free_read [OF True] obtain c where "fs_read_text fs p s2 = Inr c" ..
          with fs_laws_remove_failed [OF assms(1) m [unfolded e]] have "text_at fs s2 = text_at fs s1" by simp
          with tracks_trans [OF written tracks_same] show ?thesis by simp
        qed (simp add: tracks_lost)
        with assms(2) o w m Inr ok e show ?thesis
          by (auto simp: apply_moved_update_def Let_def intro: tracks_trans [OF tracks_same])
      next
        case r: (Inr u2)
        have "tracks ?d (text_at fs s) (push_change p ?upd ?d) (text_at fs s2)"
        proof (rule tracks_push)
          assume ex: "delta_exact ?d"
          note f = facts [OF ex] and old = assms(3)
          have old: "text_at fs s p = Some (original_contents ap)" using assms(3) ex by simp
          obtain c where "text_at fs s1 p = Some c" using f(2) old by (cases "p = dest") auto
          from fs_laws_remove [OF assms(1) supported_text_at [OF this] m [unfolded r]]
          have "text_at fs s2 = (text_at fs s)(dest := Some (new_contents ap), p := None)" by (simp add: f(2))
          with f(1) old show "text_at fs s2 = replay_change (p, ?upd) (text_at fs s) \<and>
              text_at fs s = undo_change (p, ?upd) (text_at fs s2)" by auto
        qed
        with assms(2) o w m Inr ok r show ?thesis
          by (auto simp: apply_moved_update_def Let_def intro: tracks_trans [OF tracks_same])
      qed
    qed
  qed
qed

lemma tracks_hunk:
  assumes "fs_laws fs" "apply_hunk os fs cwd h s d = (r, s', d')"
  shows "tracks d (text_at fs s) d' (text_at fs s')"
proof (cases h)
  case (AddFile p c)
  with assms(2) have "apply_add_file fs (resolve_path os h cwd) p c s d = (r, s', d')" by (simp add: apply_hunk_def Let_def)
  from tracks_add_file [OF assms(1) this] show ?thesis .
next
  case (DeleteFile p)
  with assms(2) have "apply_delete_file fs (resolve_path os h cwd) p s d = (r, s', d')" by (simp add: apply_hunk_def Let_def)
  from tracks_delete_file [OF assms(1) this] show ?thesis .
next
  case (UpdateFile path mv chunks)
  let ?p = "resolve_path os h cwd"
  let ?d = "and_exact (supported fs ?p s) d"
  show ?thesis
  proof (cases "derive_new_contents_from_chunks fs ?p chunks s")
    case (Inl e)
    with assms(2) UpdateFile show ?thesis by (auto simp: apply_hunk_def Let_def intro: tracks_same)
  next
    case (Inr ap)
    then have "fs_read_text fs ?p s = Inr (original_contents ap)"
      by (auto simp: derive_new_contents_from_chunks_def result_simps split: sum.splits)
    then have old: "delta_exact ?d \<Longrightarrow> text_at fs s ?p = Some (original_contents ap)"
      using text_at_supported [OF assms(1)] by simp
    have "tracks ?d (text_at fs s) d' (text_at fs s')"
    proof (cases mv)
      case None
      with assms(2) UpdateFile Inr have "apply_update_in_place fs ?p (hunk_path h) ap s ?d = (r, s', d')"
        by (simp add: apply_hunk_def Let_def)
      from tracks_in_place [OF assms(1) this old] show ?thesis .
    next
      case (Some dest)
      with assms(2) UpdateFile Inr
      have "apply_moved_update fs ?p (hunk_path h) (resolve_path_against_base os dest cwd) ap s ?d = (r, s', d')"
        by (simp add: apply_hunk_def Let_def)
      from tracks_moved [OF assms(1) this old] show ?thesis .
    qed
    then show ?thesis by (rule tracks_trans [OF tracks_same])
  qed
qed

lemma tracks_loop:
  assumes "fs_laws fs" "apply_hunks_loop os fs cwd aff hs s d = (r, s', d')"
  shows "tracks d (text_at fs s) d' (text_at fs s')"
  using assms(2)
proof (induction hs arbitrary: aff s d)
  case Nil
  then have "s' = s" "d' = d" by simp_all
  with tracks_same [of d "text_at fs s" True] show ?case by (simp add: and_exact_def)
next
  case (Cons h hs)
  obtain r1 s1 d1 where h: "apply_hunk os fs cwd h s d = (r1, s1, d1)" by (metis prod_cases3)
  note t = tracks_hunk [OF assms(1) h]
  show ?case
  proof (cases r1)
    case (Inl e)
    with Cons.prems h t show ?thesis by simp
  next
    case (Inr a)
    with Cons.prems h have "apply_hunks_loop os fs cwd (note_affected a aff) hs s1 d1 = (r, s', d')" by simp
    from tracks_trans [OF t Cons.IH [OF this]] show ?thesis .
  qed
qed

text \<open>
  C28. An exact delta is the truth, also after a failure: when \<open>apply_hunks\<close> returns, with success
  or with an error, and reports its delta as exact, replaying the delta on the texts before the call
  gives the texts after it, and undoing it from the last change to the first restores the texts before.
\<close>

theorem exact_delta_is_what_happened:
  assumes "fs_laws fs" "apply_hunks os fs stdout_ok stderr_ok cwd hunks s = (r, s')"
    "(case r of Inl (_, d) \<Rightarrow> d | Inr (_, d) \<Rightarrow> d) = delta" "delta_exact delta"
  shows "text_at fs s' = fold replay_change (delta_changes delta) (text_at fs s) \<and>
    text_at fs s = foldr undo_change (delta_changes delta) (text_at fs s')"
proof -
  obtain r1 d1 where l: "apply_hunks_to_files os fs cwd hunks s delta_empty = (r1, s', d1)" "delta = d1"
    using assms(2,3)
    by (auto simp: apply_hunks_def split: prod.splits sum.splits if_splits)
  have "tracks delta_empty (text_at fs s) d1 (text_at fs s')"
  proof (cases "hunks = []")
    case True
    with l(1) have "s' = s" "d1 = delta_empty" by (auto simp: apply_hunks_to_files_def)
    with tracks_same [of delta_empty "text_at fs s" True] show ?thesis by (simp add: and_exact_def)
  next
    case False
    with l(1) tracks_loop [OF assms(1)] show ?thesis by (simp add: apply_hunks_to_files_def)
  qed
  then obtain cs where "delta_changes delta = delta_changes delta_empty @ cs"
    "text_at fs s' = fold replay_change cs (text_at fs s)" "text_at fs s = foldr undo_change cs (text_at fs s')"
    using assms(4) unfolding tracks_def l(2) by blast
  moreover from this(1) have "cs = delta_changes delta" by (simp add: delta_empty_def)
  ultimately show ?thesis by blast
qed

section \<open>A file system that keeps the laws\<close>

text \<open>Texts in a finite map; directories are implicit, as in an object store.\<close>

definition map_fs :: "(abs_path \<rightharpoonup> string) executor_fs" where
  "map_fs =
     \<lparr> fs_read_text = (\<lambda>p m. case m p of Some c \<Rightarrow> Inr c | None \<Rightarrow> Inl IoNotFound),
       fs_metadata = (\<lambda>p m. case m p of
          Some _ \<Rightarrow> Inr \<lparr> md_is_directory = False, md_is_file = True, md_is_symlink = False \<rparr>
        | None \<Rightarrow> Inl IoNotFound),
       fs_write = (\<lambda>p c m. (Inr (), m(p \<mapsto> c))),
       fs_create_dir = (\<lambda>p m. (Inr (), m)),
       fs_remove = (\<lambda>p m. case m p of Some _ \<Rightarrow> (Inr (), m(p := None)) | None \<Rightarrow> (Inl IoNotFound, m)) \<rparr>"

lemma text_at_map_fs [simp]: "text_at map_fs m = m"
  by (rule ext) (simp add: text_at_def map_fs_def split: option.split)

lemma fs_laws_map_fs: "fs_laws map_fs"
proof -
  have "law_read map_fs" "law_write map_fs" "law_write_not_found map_fs" "law_create_dir map_fs"
    "law_remove map_fs" "law_remove_failed map_fs"
    by (auto simp: law_defs) (auto simp: map_fs_def split: option.splits)
  then show ?thesis by (simp add: fs_laws_def)
qed

definition sample_files :: "abs_path \<rightharpoonup> string" where
  "sample_files = [[''w'', ''a''] \<mapsto> ''one'' @ [nl] @ ''two'' @ [nl], [''w'', ''b''] \<mapsto> ''old'' @ [nl]]"

definition sample_update :: "string \<Rightarrow> string \<Rightarrow> string \<Rightarrow> string option \<Rightarrow> hunk" where
  "sample_update path old new mv =
     UpdateFile path mv [\<lparr> change_context = None, old_lines = [old], new_lines = [new], is_end_of_file = False \<rparr>]"

text \<open>An update moved onto an existing file, then an update that does not match: the delta is exact and not empty.\<close>

theorem exact_delta_is_what_happened_witness:
  "case apply_hunks (sample_host None) map_fs True True [''w'']
      [sample_update ''a'' ''two'' ''2'' (Some ''b''), sample_update ''b'' ''zzz'' ''z'' None] sample_files of (r, s') \<Rightarrow>
     (case r of Inl (_, d) \<Rightarrow> d | Inr (_, d) \<Rightarrow> d) =
       \<lparr> delta_changes = [([''w'', ''a''], AppliedUpdate (Some [''w'', ''b'']) (''one'' @ [nl] @ ''two'' @ [nl])
           (Some (''old'' @ [nl])) (''one'' @ [nl] @ ''2'' @ [nl]))], delta_exact = True \<rparr> \<and>
     s' = fold replay_change (delta_changes (case r of Inl (_, d) \<Rightarrow> d | Inr (_, d) \<Rightarrow> d)) sample_files \<and>
     sample_files = foldr undo_change (delta_changes (case r of Inl (_, d) \<Rightarrow> d | Inr (_, d) \<Rightarrow> d)) s'"
proof -
  let ?run = "apply_hunks (sample_host None) map_fs True True [''w'']
      [sample_update ''a'' ''two'' ''2'' (Some ''b''), sample_update ''b'' ''zzz'' ''z'' None] sample_files"
  let ?d = "\<lparr> delta_changes = [([''w'', ''a''], AppliedUpdate (Some [''w'', ''b'']) (''one'' @ [nl] @ ''two'' @ [nl])
      (Some (''old'' @ [nl])) (''one'' @ [nl] @ ''2'' @ [nl]))], delta_exact = True \<rparr>"
  obtain r s' where run: "?run = (r, s')" by fastforce
  have "(case fst ?run of Inl (_, d) \<Rightarrow> d | Inr (_, d) \<Rightarrow> d) = ?d" by code_simp
  then have d: "(case r of Inl (_, d) \<Rightarrow> d | Inr (_, d) \<Rightarrow> d) = ?d" by (simp only: run fst_conv)
  have "delta_exact ?d" by simp
  from exact_delta_is_what_happened [OF fs_laws_map_fs run d this]
  show ?thesis unfolding run prod.case d text_at_map_fs by blast
qed

end
