(* ===== verification/PatchPreview.thy ===== *)
theory PatchPreview
  imports PatchDelta
begin

text \<open>
  The preview of a patch (\<open>verify_apply_patch_args\<close>, what an approval prompt is built from) against
  its application: they agree when no file is named twice.
\<close>

section \<open>What a preview announces\<close>

fun announced :: "abs_path \<Rightarrow> apply_patch_file_change \<Rightarrow> (abs_path \<Rightarrow> string option) \<Rightarrow> abs_path \<Rightarrow> string option" where
  "announced p (ChangeAdd c) v = v(p := Some c)"
| "announced p (ChangeDelete _) v = v(p := None)"
| "announced p (ChangeUpdate _ None c) v = v(p := Some c)"
| "announced p (ChangeUpdate _ (Some d) c) v = v(d := Some c, p := None)"

definition hunk_targets :: "host_os \<Rightarrow> abs_path \<Rightarrow> hunk \<Rightarrow> abs_path list" where
  "hunk_targets os cwd h =
     resolve_path os h cwd #
       (case h of UpdateFile _ (Some dest) _ \<Rightarrow> [resolve_path_against_base os dest cwd] | _ \<Rightarrow> [])"

lemma tracks_pushed:
  assumes "tracks d v (push_change p c d1) v'" "delta_exact d1" "delta_changes d1 = delta_changes d"
  shows "v' = replay_change (p, c) v"
proof -
  have "delta_exact (push_change p c d1)" using assms(2) by (simp add: push_change_def)
  with assms(1) obtain cs where "delta_changes (push_change p c d1) = delta_changes d @ cs"
    "v' = fold replay_change cs v" unfolding tracks_def by blast
  moreover from this(1) assms(3) have "cs = [(p, c)]" by (simp add: push_change_def)
  ultimately show ?thesis by (simp only: fold_simps)
qed

lemma and_exact_twice: "and_exact a (and_exact b d) = and_exact (a \<and> b) d"
  by (simp add: and_exact_def conj_ac)

lemma announced_update:
  "announced p (ChangeUpdate u m c) v = (case m of None \<Rightarrow> v(p := Some c) | Some d \<Rightarrow> v(d := Some c, p := None))"
  by (cases m) simp_all

lemma announced_other: "q \<notin> set (hunk_targets os cwd h) \<Longrightarrow> verify_hunk text_diff os fs cwd h s = Inr ch \<Longrightarrow>
    announced (resolve_path os h cwd) ch v q = v q"
  by (auto simp: verify_hunk_def hunk_targets_def abs_join_def Let_def result_simps announced_update
      split: hunk.splits sum.splits option.splits)

lemma text_at_read: "text_at fs s p = Some c \<Longrightarrow> fs_read_text fs p s = Inr c"
  by (auto simp: text_at_def split: sum.splits if_splits)

text \<open>The preview of a hunk depends on the text of its file only.\<close>

lemma verify_hunk_cong:
  assumes "(\<exists>p c. h = AddFile p c) \<or> text_at fs s (resolve_path os h cwd) = Some t"
    "text_at fs s0 (resolve_path os h cwd) = text_at fs s (resolve_path os h cwd)"
  shows "verify_hunk text_diff os fs cwd h s0 = verify_hunk text_diff os fs cwd h s"
proof (cases "\<exists>p c. h = AddFile p c")
  case True
  then show ?thesis by (auto simp: verify_hunk_def)
next
  case False
  with assms have "fs_read_text fs (resolve_path os h cwd) s = Inr t" "fs_read_text fs (resolve_path os h cwd) s0 = Inr t"
    by (auto intro: text_at_read)
  then show ?thesis
    by (cases h) (simp_all add: verify_hunk_def Let_def unified_diff_from_chunks_def derive_new_contents_from_chunks_def)
qed

lemma applied_as_announced:
  assumes "fs_laws fs" "apply_hunk os fs cwd h s d = (Inr a, s', d')" "delta_exact d'"
  obtains ch t where "verify_hunk text_diff os fs cwd h s = Inr ch"
    "text_at fs s' = announced (resolve_path os h cwd) ch (text_at fs s)"
    "(\<exists>p c. h = AddFile p c) \<or> text_at fs s (resolve_path os h cwd) = Some t"
proof -
  let ?p = "resolve_path os h cwd"
  note t = tracks_hunk [OF assms(1,2)]
  show thesis
  proof (cases h)
    case (AddFile path c)
    then have "\<exists>ow b. d' = push_change ?p (AppliedAdd c ow) (and_exact b d)"
      using assms(2) by (auto simp: apply_hunk_def apply_add_file_def Let_def split: prod.splits sum.splits)
    then obtain ow b where d': "d' = push_change ?p (AppliedAdd c ow) (and_exact b d)" by blast
    show thesis
    proof (rule that)
      show "verify_hunk text_diff os fs cwd h s = Inr (ChangeAdd c)" using AddFile by (simp add: verify_hunk_def)
      show "text_at fs s' = announced ?p (ChangeAdd c) (text_at fs s)"
        using tracks_pushed [OF t [unfolded d']] assms(3) d' by (simp add: push_change_def and_exact_def)
    qed (use AddFile in blast)
  next
    case (DeleteFile path)
    let ?content = "case fs_read_text fs ?p s of Inr c \<Rightarrow> Some c | Inl _ \<Rightarrow> None"
    from DeleteFile assms(2,3) have "?content \<noteq> None"
      by (auto simp: apply_hunk_def apply_delete_file_def Let_def split: prod.splits sum.splits)
    then obtain c where c: "fs_read_text fs ?p s = Inr c" by (auto split: sum.splits)
    with DeleteFile assms(2) have d': "d' = push_change ?p (AppliedDelete c) (and_exact (supported fs ?p s) d)"
      by (auto simp: apply_hunk_def apply_delete_file_def Let_def split: prod.splits sum.splits)
    show thesis
    proof (rule that)
      show "verify_hunk text_diff os fs cwd h s = Inr (ChangeDelete c)" using DeleteFile c by (simp add: verify_hunk_def)
      show "text_at fs s' = announced ?p (ChangeDelete c) (text_at fs s)"
        using tracks_pushed [OF t [unfolded d']] assms(3) d' by (simp add: push_change_def and_exact_def)
      show "(\<exists>p c. h = AddFile p c) \<or> text_at fs s ?p = Some c"
        using text_at_supported [OF assms(1) _ c] assms(3) d' by (simp add: push_change_def)
    qed
  next
    case (UpdateFile path mv chunks)
    from assms(2) UpdateFile obtain ap where ap: "derive_new_contents_from_chunks fs ?p chunks s = Inr ap"
      by (cases "derive_new_contents_from_chunks fs ?p chunks s") (auto simp: apply_hunk_def Let_def)
    then have read: "fs_read_text fs ?p s = Inr (original_contents ap)"
      by (auto simp: derive_new_contents_from_chunks_def result_simps split: sum.splits)
    let ?mv = "map_option (abs_join os cwd) mv"
    let ?ch = "ChangeUpdate (text_diff (original_contents ap) (new_contents ap)) ?mv (new_contents ap)"
    have "\<exists>ow b. d' = push_change ?p (AppliedUpdate ?mv (original_contents ap) ow (new_contents ap))
        (and_exact (b \<and> supported fs ?p s) d)"
    proof (cases mv)
      case None
      with assms(2) UpdateFile ap show ?thesis
        by (auto simp: apply_hunk_def apply_update_in_place_def Let_def split: prod.splits sum.splits
            intro!: exI [of _ None] exI [of _ True])
    next
      case (Some dest)
      with assms(2) UpdateFile ap show ?thesis
        by (auto simp: apply_hunk_def apply_moved_update_def Let_def abs_join_def and_exact_twice split: prod.splits sum.splits)
    qed
    then obtain ow b where d': "d' = push_change ?p (AppliedUpdate ?mv (original_contents ap) ow (new_contents ap))
        (and_exact (b \<and> supported fs ?p s) d)" by blast
    show thesis
    proof (rule that)
      show "verify_hunk text_diff os fs cwd h s = Inr ?ch"
        using UpdateFile ap by (simp add: verify_hunk_def unified_diff_from_chunks_def)
      show "text_at fs s' = announced ?p ?ch (text_at fs s)"
        using tracks_pushed [OF t [unfolded d']] assms(3) d' by (cases mv) (simp_all add: push_change_def and_exact_def)
      show "(\<exists>p c. h = AddFile p c) \<or> text_at fs s ?p = Some (original_contents ap)"
        using text_at_supported [OF assms(1) _ read] assms(3) d' by (simp add: push_change_def)
    qed
  qed
qed

section \<open>Preview and application\<close>

text \<open>The file at the path, and the destination of a move, hold in \<open>v\<close> what the change says.\<close>

fun fulfilled :: "abs_path \<Rightarrow> apply_patch_file_change option \<Rightarrow> (abs_path \<Rightarrow> string option) \<Rightarrow> bool" where
  "fulfilled p None v \<longleftrightarrow> False"
| "fulfilled p (Some (ChangeAdd c)) v \<longleftrightarrow> v p = Some c"
| "fulfilled p (Some (ChangeDelete _)) v \<longleftrightarrow> v p = None"
| "fulfilled p (Some (ChangeUpdate _ None c)) v \<longleftrightarrow> v p = Some c"
| "fulfilled p (Some (ChangeUpdate _ (Some d) c)) v \<longleftrightarrow> v p = None \<and> v d = Some c"

lemma fulfilled_update:
  "fulfilled p (Some (ChangeUpdate u m c)) v \<longleftrightarrow>
     (case m of None \<Rightarrow> v p = Some c | Some d \<Rightarrow> v p = None \<and> v d = Some c)"
  by (cases m) simp_all

lemma fulfilled_announced:
  assumes "verify_hunk text_diff os fs cwd h s = Inr ch" "distinct (hunk_targets os cwd h)"
    "\<And>q. q \<in> set (hunk_targets os cwd h) \<Longrightarrow> v' q = announced (resolve_path os h cwd) ch v q"
  shows "fulfilled (resolve_path os h cwd) (Some ch) v'"
  using assms
  by (auto simp: verify_hunk_def hunk_targets_def abs_join_def Let_def result_simps announced_update fulfilled_update
      split: hunk.splits sum.splits option.splits)

lemma verified_loop:
  assumes "fs_laws fs" "apply_hunks_loop os fs cwd aff hs s d = (Inr aff', s', d')" "delta_exact d'"
    "distinct (concat (map (hunk_targets os cwd) hs))"
    "\<And>p. p \<in> set (concat (map (hunk_targets os cwd) hs)) \<Longrightarrow> text_at fs s0 p = text_at fs s p"
  shows "\<exists>ch. verify_hunks text_diff os fs cwd s0 changes hs = Inr ch \<and>
    (\<forall>h\<in>set hs. fulfilled (resolve_path os h cwd) (ch (resolve_path os h cwd)) (text_at fs s')) \<and>
    (\<forall>p. p \<notin> set (concat (map (hunk_targets os cwd) hs)) \<longrightarrow> text_at fs s' p = text_at fs s p \<and> ch p = changes p)"
  using assms(2-5)
proof (induction hs arbitrary: aff s d changes)
  case Nil
  then show ?case by simp
next
  case (Cons h hs)
  let ?p = "resolve_path os h cwd"
  obtain r1 s1 d1 where h: "apply_hunk os fs cwd h s d = (r1, s1, d1)" by (metis prod_cases3)
  with Cons.prems(1) obtain a where r1: "r1 = Inr a" by (cases r1) auto
  with h Cons.prems(1) have rest: "apply_hunks_loop os fs cwd (note_affected a aff) hs s1 d1 = (Inr aff', s', d')" by simp
  have ex: "delta_exact d1" using tracks_loop [OF assms(1) rest] Cons.prems(2) by (simp add: tracks_def)
  obtain c t where c: "verify_hunk text_diff os fs cwd h s = Inr c" "text_at fs s1 = announced ?p c (text_at fs s)"
      "(\<exists>p c. h = AddFile p c) \<or> text_at fs s ?p = Some t"
    by (rule applied_as_announced [OF assms(1) h [unfolded r1] ex])
  have p: "?p \<in> set (hunk_targets os cwd h)" by (simp add: hunk_targets_def)
  have c0: "verify_hunk text_diff os fs cwd h s0 = Inr c"
    using verify_hunk_cong [OF c(3), of s0 text_diff] Cons.prems(4) [of ?p] c(1) p by simp
  have keep: "text_at fs s1 q = text_at fs s q" if "q \<notin> set (hunk_targets os cwd h)" for q
    using announced_other [OF that c(1)] c(2) by simp
  have "\<exists>ch. verify_hunks text_diff os fs cwd s0 (changes(?p \<mapsto> c)) hs = Inr ch \<and>
    (\<forall>h\<in>set hs. fulfilled (resolve_path os h cwd) (ch (resolve_path os h cwd)) (text_at fs s')) \<and>
    (\<forall>q. q \<notin> set (concat (map (hunk_targets os cwd) hs)) \<longrightarrow>
       text_at fs s' q = text_at fs s1 q \<and> ch q = (changes(?p \<mapsto> c)) q)"
  proof (rule Cons.IH [OF rest Cons.prems(2)])
    show "distinct (concat (map (hunk_targets os cwd) hs))" using Cons.prems(3) by simp
    fix q assume q: "q \<in> set (concat (map (hunk_targets os cwd) hs))"
    with Cons.prems(3) have "q \<notin> set (hunk_targets os cwd h)" by auto
    with keep Cons.prems(4) [of q] q show "text_at fs s0 q = text_at fs s1 q" by simp
  qed
  then obtain ch where ch: "verify_hunks text_diff os fs cwd s0 (changes(?p \<mapsto> c)) hs = Inr ch"
    "\<forall>h\<in>set hs. fulfilled (resolve_path os h cwd) (ch (resolve_path os h cwd)) (text_at fs s')"
    "\<And>q. q \<notin> set (concat (map (hunk_targets os cwd) hs)) \<Longrightarrow>
       text_at fs s' q = text_at fs s1 q \<and> ch q = (changes(?p \<mapsto> c)) q" by blast
  have fresh: "q \<notin> set (concat (map (hunk_targets os cwd) hs))" if "q \<in> set (hunk_targets os cwd h)" for q
    using Cons.prems(3) that by auto
  have "fulfilled ?p (Some c) (text_at fs s')"
  proof (rule fulfilled_announced [OF c(1), where v = "text_at fs s"])
    show "distinct (hunk_targets os cwd h)" using Cons.prems(3) by simp
    show "text_at fs s' q = announced ?p c (text_at fs s) q" if "q \<in> set (hunk_targets os cwd h)" for q
      using ch(3) [OF fresh [OF that]] c(2) by simp
  qed
  moreover have "ch ?p = Some c" using ch(3) [OF fresh [OF p]] by simp
  moreover have "text_at fs s' q = text_at fs s q \<and> ch q = changes q"
    if "q \<notin> set (concat (map (hunk_targets os cwd) (h # hs)))" for q
    using ch(3) [of q] keep [of q] that p by auto
  ultimately show ?case using c0 ch(1,2) by (auto simp: result_simps intro!: exI [of _ ch])
qed

text \<open>
  C29. Preview and application agree: for a patch that names no file twice and whose arguments carry
  no working directory of their own, as those of a script with a leading \<open>cd\<close> do, whenever
  \<open>apply_hunks\<close> succeeds with an exact delta in the same directory, \<open>verify_apply_patch_args\<close> on the state before had
  accepted the patch, every change it announced is in the final texts, and every file it did not
  announce is as before.
\<close>

theorem preview_is_what_happens:
  assumes "fs_laws fs" "apa_workdir args = None"
    "distinct (concat (map (hunk_targets os cwd) (apa_hunks args)))"
    "apply_hunks os fs stdout_ok stderr_ok cwd (apa_hunks args) s = (Inr (out, delta), s')" "delta_exact delta"
  shows "\<exists>action. verify_apply_patch_args text_diff os fs cwd args s = Inr action \<and>
    (\<forall>h\<in>set (apa_hunks args).
       fulfilled (resolve_path os h cwd) (action_changes action (resolve_path os h cwd)) (text_at fs s')) \<and>
    (\<forall>p. p \<notin> set (concat (map (hunk_targets os cwd) (apa_hunks args))) \<longrightarrow>
       text_at fs s' p = text_at fs s p \<and> action_changes action p = None)"
proof -
  obtain aff aff' where "apply_hunks_loop os fs cwd aff (apa_hunks args) s delta_empty = (Inr aff', s', delta)"
    using assms(4)
    by (auto simp: apply_hunks_def apply_hunks_to_files_def split: prod.splits sum.splits if_splits)
  from verified_loop [OF assms(1) this assms(5) assms(3) refl, of text_diff Map.empty] assms(2)
  show ?thesis by (auto simp: verify_apply_patch_args_def result_simps)
qed

definition sample_args :: "hunk list \<Rightarrow> apply_patch_args" where
  "sample_args hunks = \<lparr> apa_patch = [], apa_hunks = hunks, apa_workdir = None, apa_environment_id = None \<rparr>"

definition sample_preview_hunks :: "hunk list" where
  "sample_preview_hunks = [sample_update ''a'' ''two'' ''2'' (Some ''c''), DeleteFile ''b'', AddFile ''d/e'' ''new'']"

theorem preview_is_what_happens_witness:
  "case apply_hunks (sample_host None) map_fs True True [''w''] sample_preview_hunks sample_files of (_, s') \<Rightarrow>
     \<exists>action. verify_apply_patch_args (\<lambda>_ _. []) (sample_host None) map_fs [''w''] (sample_args sample_preview_hunks) sample_files
         = Inr action \<and>
       fulfilled [''w'', ''a''] (action_changes action [''w'', ''a'']) s' \<and>
       fulfilled [''w'', ''b''] (action_changes action [''w'', ''b'']) s' \<and>
       fulfilled [''w'', ''d'', ''e''] (action_changes action [''w'', ''d'', ''e'']) s'"
proof -
  let ?os = "sample_host None" and ?hs = sample_preview_hunks
  let ?run = "apply_hunks ?os map_fs True True [''w''] ?hs sample_files"
  obtain r s' where run: "?run = (r, s')" by fastforce
  have "case fst ?run of Inr (_, d) \<Rightarrow> delta_exact d | _ \<Rightarrow> False" by code_simp
  then obtain out delta where ok: "r = Inr (out, delta)" "delta_exact delta"
    unfolding run by (cases r) auto
  have "distinct (concat (map (hunk_targets ?os [''w'']) ?hs))" by code_simp
  then have args: "apa_workdir (sample_args ?hs) = None" "apa_hunks (sample_args ?hs) = ?hs"
    "distinct (concat (map (hunk_targets ?os [''w'']) (apa_hunks (sample_args ?hs))))" by (simp_all add: sample_args_def)
  have run': "apply_hunks ?os map_fs True True [''w''] (apa_hunks (sample_args ?hs)) sample_files = (Inr (out, delta), s')"
    by (simp only: args(2) run ok(1))
  obtain action where a: "verify_apply_patch_args (\<lambda>_ _. []) ?os map_fs [''w''] (sample_args ?hs) sample_files = Inr action"
    "\<forall>h\<in>set ?hs. fulfilled (resolve_path ?os h [''w'']) (action_changes action (resolve_path ?os h [''w''])) s'"
    using preview_is_what_happens [OF fs_laws_map_fs args(1,3) run' ok(2), of "\<lambda>_ _. []"] unfolding args(2) text_at_map_fs by blast
  have "map (\<lambda>h. resolve_path ?os h [''w'']) ?hs = [[''w'', ''a''], [''w'', ''b''], [''w'', ''d'', ''e'']]" by code_simp
  with a(2) have "fulfilled [''w'', ''a''] (action_changes action [''w'', ''a'']) s' \<and>
      fulfilled [''w'', ''b''] (action_changes action [''w'', ''b'']) s' \<and>
      fulfilled [''w'', ''d'', ''e''] (action_changes action [''w'', ''d'', ''e'']) s'"
    by (simp add: sample_preview_hunks_def)
  with a(1) show ?thesis unfolding run prod.case by blast
qed

section \<open>Where they part\<close>

text \<open>
  A move onto the file itself loses it: when the destination of \<open>*** Move to:\<close> resolves
  to the path of the update, an application that succeeds with an exact delta reports the file as
  modified, had announced new contents for it, and leaves no file there.
\<close>

theorem move_onto_itself_deletes:
  assumes "fs_laws fs" "resolve_path_against_base os dest cwd = resolve_path os (UpdateFile path (Some dest) chunks) cwd"
    "apply_hunk os fs cwd (UpdateFile path (Some dest) chunks) s d = (Inr a, s', d')" "delta_exact d'"
  shows "a = PathModified dest \<and> text_at fs s' (resolve_path os (UpdateFile path (Some dest) chunks) cwd) = None \<and>
    (\<exists>diff c. verify_hunk text_diff os fs cwd (UpdateFile path (Some dest) chunks) s =
       Inr (ChangeUpdate diff (Some (resolve_path os (UpdateFile path (Some dest) chunks) cwd)) c))"
proof -
  have a: "a = PathModified dest" using assms(3)
    by (auto simp: apply_hunk_def apply_moved_update_def Let_def split: sum.splits prod.splits)
  obtain ch t where ch: "verify_hunk text_diff os fs cwd (UpdateFile path (Some dest) chunks) s = Inr ch"
    "text_at fs s' = announced (resolve_path os (UpdateFile path (Some dest) chunks) cwd) ch (text_at fs s)"
    by (rule applied_as_announced [OF assms(1,3,4)])
  from ch(1) assms(2) obtain diff c where
    "ch = ChangeUpdate diff (Some (resolve_path os (UpdateFile path (Some dest) chunks) cwd)) c"
    by (auto simp: verify_hunk_def abs_join_def Let_def result_simps split: sum.splits)
  with a ch show ?thesis by simp
qed

theorem move_onto_itself_deletes_witness:
  "case apply_hunk (sample_host None) map_fs [''w''] (sample_update ''a'' ''two'' ''2'' (Some ''./a'')) sample_files delta_empty of
     (r, s', _) \<Rightarrow> r = Inr (PathModified ''./a'') \<and> s' [''w'', ''a''] = None \<and> sample_files [''w'', ''a''] \<noteq> None"
proof -
  let ?os = "sample_host None" and ?h = "sample_update ''a'' ''two'' ''2'' (Some ''./a'')"
  let ?run = "apply_hunk ?os map_fs [''w''] ?h sample_files delta_empty"
  obtain r s' d' where run: "?run = (r, s', d')" by (metis prod_cases3)
  have "case ?run of (r, s', d') \<Rightarrow> is_ok r \<and> delta_exact d'" by code_simp
  then obtain a where ok: "r = Inr a" "delta_exact d'" unfolding run by (cases r) auto
  have "resolve_path_against_base ?os ''./a'' [''w''] = resolve_path ?os ?h [''w'']" "resolve_path ?os ?h [''w''] = [''w'', ''a'']"
    by code_simp+
  note res = this [unfolded sample_update_def]
  have "a = PathModified ''./a'' \<and> s' [''w'', ''a''] = None"
    using move_onto_itself_deletes [OF fs_laws_map_fs res(1) run [unfolded ok(1) sample_update_def] ok(2)]
    unfolding res(2) text_at_map_fs by blast
  moreover have "sample_files [''w'', ''a''] \<noteq> None" by code_simp
  ultimately show ?thesis unfolding run prod.case ok(1) by blast
qed

text \<open>
  Without the condition on the paths the preview can be wrong: of two updates of one file, the
  action shows the second one alone, worked out on the text before the patch, whereas the
  application makes both.
\<close>

theorem preview_forgets_the_first_update:
  "\<exists>hunks action. verify_apply_patch_args (\<lambda>_ _. []) (sample_host None) map_fs [''w''] (sample_args hunks) sample_files = Inr action \<and>
     action_changes action [''w'', ''a''] = Some (ChangeUpdate [] None (''one'' @ [nl] @ ''2'' @ [nl])) \<and>
     snd (apply_hunks (sample_host None) map_fs True True [''w''] hunks sample_files) [''w'', ''a'']
       = Some (''1'' @ [nl] @ ''2'' @ [nl])"
proof -
  let ?hs = "[sample_update ''a'' ''one'' ''1'' None, sample_update ''a'' ''two'' ''2'' None]"
  let ?v = "verify_apply_patch_args (\<lambda>_ _. []) (sample_host None) map_fs [''w''] (sample_args ?hs) sample_files"
  have "case ?v of Inr action \<Rightarrow>
      action_changes action [''w'', ''a''] = Some (ChangeUpdate [] None (''one'' @ [nl] @ ''2'' @ [nl])) | _ \<Rightarrow> False"
    by code_simp
  then obtain action where "?v = Inr action"
    "action_changes action [''w'', ''a''] = Some (ChangeUpdate [] None (''one'' @ [nl] @ ''2'' @ [nl]))"
    by (cases ?v) auto
  moreover have "snd (apply_hunks (sample_host None) map_fs True True [''w''] ?hs sample_files) [''w'', ''a'']
      = Some (''1'' @ [nl] @ ''2'' @ [nl])" by code_simp
  ultimately show ?thesis by blast
qed

end
