(* ===== verification/StreamText.thy ===== *)
theory StreamText
  imports Utf8
begin

text \<open>
  The streaming text parsers of \<open>utils/stream-parser\<close>: hidden inline tags and citations, tag blocks
  on lines of their own and proposed plans, their composition for assistant text, and the wrapper
  that takes raw bytes. A push returns an option, since the loop of the inline parser would not end
  for empty delimiters.
\<close>

section \<open>Chunks\<close>

record 'e stream_text_chunk =
  visible_text :: string
  extracted :: "'e list"

definition default_chunk :: "'e stream_text_chunk" where
  "default_chunk = \<lparr> visible_text = [], extracted = [] \<rparr>"

definition stream_chunk_is_empty :: "'e stream_text_chunk \<Rightarrow> bool" where
  "stream_chunk_is_empty c \<longleftrightarrow> visible_text c = [] \<and> extracted c = []"

section \<open>Hidden inline tags\<close>

record 't extracted_inline_tag =
  eit_tag :: 't
  eit_content :: string

record 't inline_tag_spec =
  its_tag :: 't
  its_open :: string
  its_close :: string

record 't active_tag =
  act_tag :: 't
  act_close :: string
  act_content :: string

record 't inline_hidden_tag_parser =
  ihp_specs :: "'t inline_tag_spec list"
  ihp_pending :: string
  ihp_active :: "'t active_tag option"

definition inline_parser :: "'t inline_tag_spec list \<Rightarrow> 't inline_hidden_tag_parser" where
  "inline_parser specs = \<lparr> ihp_specs = specs, ihp_pending = [], ihp_active = None \<rparr>"

text \<open>\<open>None\<close> is a failed assertion.\<close>

definition inline_new :: "'t inline_tag_spec list \<Rightarrow> 't inline_hidden_tag_parser option" where
  "inline_new specs =
     (if specs = [] then None
      else if list_ex (\<lambda>spec. its_open spec = [] \<or> its_close spec = []) specs then None
      else Some (inline_parser specs))"

text \<open>Earlier position, then longer delimiter, then earlier specification.\<close>

fun open_before :: "nat \<times> nat \<times> nat \<Rightarrow> nat \<times> nat \<times> nat \<Rightarrow> bool" where
  "open_before (pos_a, len_a, idx_a) (pos_b, len_b, idx_b) \<longleftrightarrow>
     pos_a < pos_b \<or> pos_a = pos_b \<and> (len_b < len_a \<or> len_a = len_b \<and> idx_a \<le> idx_b)"

fun min_open :: "(nat \<times> nat \<times> nat) list \<Rightarrow> (nat \<times> nat \<times> nat) option" where
  "min_open [] = None"
| "min_open (a # as) =
     (case min_open as of None \<Rightarrow> Some a | Some b \<Rightarrow> Some (if open_before a b then a else b))"

definition find_next_open :: "'t inline_hidden_tag_parser \<Rightarrow> (nat \<times> nat) option" where
  "find_next_open p =
     map_option (\<lambda>(pos, _, idx). (pos, idx))
       (min_open (List.map_filter
          (\<lambda>(idx, spec). map_option (\<lambda>pos. (pos, length (its_open spec), idx)) (find_sub (its_open spec) (ihp_pending p)))
          (enumerate 0 (ihp_specs p))))"

definition is_char_boundary :: "string \<Rightarrow> nat \<Rightarrow> bool" where
  "is_char_boundary s k \<longleftrightarrow> k = 0 \<or> k = length s \<or> k < length s \<and> \<not> is_cont_byte (s ! k)"

definition longest_suffix_prefix_len :: "string \<Rightarrow> string \<Rightarrow> nat" where
  "longest_suffix_prefix_len s needle =
     (let m = min (length s) (length needle - 1) in
      case find (\<lambda>k. is_char_boundary needle k \<and> ends_with (take k needle) s) (rev [1..<m + 1]) of
        Some k \<Rightarrow> k
      | None \<Rightarrow> 0)"

definition max_open_prefix_suffix_len :: "'t inline_hidden_tag_parser \<Rightarrow> nat" where
  "max_open_prefix_suffix_len p =
     foldr max (map (\<lambda>spec. longest_suffix_prefix_len (ihp_pending p) (its_open spec)) (ihp_specs p)) 0"

definition drain_visible_to_suffix_match ::
  "'t inline_hidden_tag_parser \<Rightarrow> 't extracted_inline_tag stream_text_chunk \<Rightarrow> nat
     \<Rightarrow> 't extracted_inline_tag stream_text_chunk \<times> 't inline_hidden_tag_parser" where
  "drain_visible_to_suffix_match p out keep =
     (let n = length (ihp_pending p) - keep in
      (out\<lparr> visible_text := visible_text out @ take n (ihp_pending p) \<rparr>,
       p\<lparr> ihp_pending := drop n (ihp_pending p) \<rparr>))"

partial_function (option) inline_loop ::
  "'t inline_hidden_tag_parser \<Rightarrow> 't extracted_inline_tag stream_text_chunk
     \<Rightarrow> ('t extracted_inline_tag stream_text_chunk \<times> 't inline_hidden_tag_parser) option" where
  "inline_loop p out =
     (case ihp_active p of
        Some active \<Rightarrow>
          (case find_sub (act_close active) (ihp_pending p) of
             Some close_idx \<Rightarrow>
               inline_loop
                 (p\<lparr> ihp_active := None,
                     ihp_pending := drop (close_idx + length (act_close active)) (ihp_pending p) \<rparr>)
                 (out\<lparr> extracted := extracted out @
                    [\<lparr> eit_tag = act_tag active, eit_content = act_content active @ take close_idx (ihp_pending p) \<rparr>] \<rparr>)
           | None \<Rightarrow>
               let n = length (ihp_pending p) - longest_suffix_prefix_len (ihp_pending p) (act_close active) in
               Some (out,
                 p\<lparr> ihp_active := Some (active\<lparr> act_content := act_content active @ take n (ihp_pending p) \<rparr>),
                    ihp_pending := drop n (ihp_pending p) \<rparr>))
      | None \<Rightarrow>
          (case find_next_open p of
             Some (open_idx, spec_idx) \<Rightarrow>
               let spec = ihp_specs p ! spec_idx in
               inline_loop
                 (p\<lparr> ihp_pending := drop (open_idx + length (its_open spec)) (ihp_pending p),
                     ihp_active := Some \<lparr> act_tag = its_tag spec, act_close = its_close spec, act_content = [] \<rparr> \<rparr>)
                 (out\<lparr> visible_text := visible_text out @ take open_idx (ihp_pending p) \<rparr>)
           | None \<Rightarrow> Some (drain_visible_to_suffix_match p out (max_open_prefix_suffix_len p))))"

declare inline_loop.simps [code]

definition inline_push_str ::
  "'t inline_hidden_tag_parser \<Rightarrow> string
     \<Rightarrow> ('t extracted_inline_tag stream_text_chunk \<times> 't inline_hidden_tag_parser) option" where
  "inline_push_str p chunk = inline_loop (p\<lparr> ihp_pending := ihp_pending p @ chunk \<rparr>) default_chunk"

definition inline_finish ::
  "'t inline_hidden_tag_parser \<Rightarrow> 't extracted_inline_tag stream_text_chunk \<times> 't inline_hidden_tag_parser" where
  "inline_finish p =
     (case ihp_active p of
        Some active \<Rightarrow>
          (\<lparr> visible_text = [],
             extracted = [\<lparr> eit_tag = act_tag active, eit_content = act_content active @ ihp_pending p \<rparr>] \<rparr>,
           p\<lparr> ihp_active := None, ihp_pending := [] \<rparr>)
      | None \<Rightarrow> (\<lparr> visible_text = ihp_pending p, extracted = [] \<rparr>, p\<lparr> ihp_pending := [] \<rparr>))"

section \<open>Citations\<close>

datatype citation_tag = Citation

type_synonym citation_stream_parser = "citation_tag inline_hidden_tag_parser"

definition CITATION_OPEN :: string where "CITATION_OPEN = ''<oai-mem-citation>''"
definition CITATION_CLOSE :: string where "CITATION_CLOSE = ''</oai-mem-citation>''"

definition citation_spec :: "citation_tag inline_tag_spec" where
  "citation_spec = \<lparr> its_tag = Citation, its_open = CITATION_OPEN, its_close = CITATION_CLOSE \<rparr>"

definition citation_new :: citation_stream_parser where
  "citation_new = inline_parser [citation_spec]"

definition citation_chunk_of :: "citation_tag extracted_inline_tag stream_text_chunk \<Rightarrow> string stream_text_chunk" where
  "citation_chunk_of inner = \<lparr> visible_text = visible_text inner, extracted = map eit_content (extracted inner) \<rparr>"

definition citation_push_str ::
  "citation_stream_parser \<Rightarrow> string \<Rightarrow> (string stream_text_chunk \<times> citation_stream_parser) option" where
  "citation_push_str p chunk = map_option (\<lambda>(inner, p). (citation_chunk_of inner, p)) (inline_push_str p chunk)"

definition citation_finish :: "citation_stream_parser \<Rightarrow> string stream_text_chunk \<times> citation_stream_parser" where
  "citation_finish p = (case inline_finish p of (inner, p) \<Rightarrow> (citation_chunk_of inner, p))"

definition strip_citations :: "string \<Rightarrow> (string \<times> string list) option" where
  "strip_citations s =
     (case citation_push_str citation_new s of
        None \<Rightarrow> None
      | Some (out, p) \<Rightarrow>
          let (tail, _) = citation_finish p in
          Some (visible_text out @ visible_text tail, extracted out @ extracted tail))"

section \<open>Tag blocks on lines of their own\<close>

record 't tag_spec =
  ts_open :: string
  ts_close :: string
  ts_tag :: 't

datatype 't tagged_line_segment =
    SegNormal string
  | SegTagStart 't
  | SegTagDelta 't string
  | SegTagEnd 't

record 't tagged_line_parser =
  tlp_specs :: "'t tag_spec list"
  tlp_active_tag :: "'t option"
  tlp_detect_tag :: bool
  tlp_line_buffer :: string

definition tagged_new :: "'t tag_spec list \<Rightarrow> 't tagged_line_parser" where
  "tagged_new specs = \<lparr> tlp_specs = specs, tlp_active_tag = None, tlp_detect_tag = True, tlp_line_buffer = [] \<rparr>"

fun push_segment :: "'t tagged_line_segment list \<Rightarrow> 't tagged_line_segment \<Rightarrow> 't tagged_line_segment list" where
  "push_segment segments (SegNormal delta) =
     (if delta = [] then segments
      else (case last_opt segments of
              Some (SegNormal existing) \<Rightarrow> butlast segments @ [SegNormal (existing @ delta)]
            | _ \<Rightarrow> segments @ [SegNormal delta]))"
| "push_segment segments (SegTagDelta tag delta) =
     (if delta = [] then segments
      else (case last_opt segments of
              Some (SegTagDelta existing_tag existing) \<Rightarrow>
                if existing_tag = tag then butlast segments @ [SegTagDelta tag (existing @ delta)]
                else segments @ [SegTagDelta tag delta]
            | _ \<Rightarrow> segments @ [SegTagDelta tag delta]))"
| "push_segment segments (SegTagStart tag) = segments @ [SegTagStart tag]"
| "push_segment segments (SegTagEnd tag) = segments @ [SegTagEnd tag]"

definition push_text ::
  "'t tagged_line_parser \<Rightarrow> string \<Rightarrow> 't tagged_line_segment list \<Rightarrow> 't tagged_line_segment list" where
  "push_text p s segments =
     push_segment segments (case tlp_active_tag p of Some tag \<Rightarrow> SegTagDelta tag s | None \<Rightarrow> SegNormal s)"

definition is_tag_prefix :: "'t tagged_line_parser \<Rightarrow> string \<Rightarrow> bool" where
  "is_tag_prefix p slug =
     (let slug = trim_end slug in
      list_ex (\<lambda>spec. starts_with slug (ts_open spec) \<or> starts_with slug (ts_close spec)) (tlp_specs p))"

definition match_open :: "'t tagged_line_parser \<Rightarrow> string \<Rightarrow> 't option" where
  "match_open p slug = map_option ts_tag (find (\<lambda>spec. ts_open spec = slug) (tlp_specs p))"

definition match_close :: "'t tagged_line_parser \<Rightarrow> string \<Rightarrow> 't option" where
  "match_close p slug = map_option ts_tag (find (\<lambda>spec. ts_close spec = slug) (tlp_specs p))"

text \<open>What a complete line does: the new active tag and the segment, shared by the two finishing steps.\<close>

definition classify_line :: "'t tagged_line_parser \<Rightarrow> string \<Rightarrow> 't tagged_line_segment option" where
  "classify_line p line =
     (let slug = trim_end (trim_start (unwrap_or line (strip_suffix [nl] line))) in
      if match_open p slug \<noteq> None \<and> tlp_active_tag p = None then Some (SegTagStart (the (match_open p slug)))
      else if match_close p slug \<noteq> None \<and> tlp_active_tag p = match_close p slug
      then Some (SegTagEnd (the (match_close p slug)))
      else None)"

definition tagged_finish_line ::
  "'t tagged_line_parser \<Rightarrow> 't tagged_line_segment list \<Rightarrow> 't tagged_line_segment list \<times> 't tagged_line_parser" where
  "tagged_finish_line p segments =
     (let line = tlp_line_buffer p; p = p\<lparr> tlp_line_buffer := [] \<rparr> in
      case classify_line p line of
        Some (SegTagStart tag) \<Rightarrow>
          (push_segment segments (SegTagStart tag), p\<lparr> tlp_active_tag := Some tag, tlp_detect_tag := True \<rparr>)
      | Some (SegTagEnd tag) \<Rightarrow>
          (push_segment segments (SegTagEnd tag), p\<lparr> tlp_active_tag := None, tlp_detect_tag := True \<rparr>)
      | _ \<Rightarrow> (push_text p line segments, p\<lparr> tlp_detect_tag := True \<rparr>))"

text \<open>One character of \<open>parse\<close>; the state is the run of plain text, the segments and the parser.\<close>

definition parse_char ::
  "string \<Rightarrow> string \<times> 't tagged_line_segment list \<times> 't tagged_line_parser
     \<Rightarrow> string \<times> 't tagged_line_segment list \<times> 't tagged_line_parser" where
  "parse_char ch = (\<lambda>(run, segments, p).
     if tlp_detect_tag p then
       let segments = (if run \<noteq> [] then push_text p run segments else segments);
           p = p\<lparr> tlp_line_buffer := tlp_line_buffer p @ ch \<rparr> in
       if ch = [nl] then (let (segments, p) = tagged_finish_line p segments in ([], segments, p))
       else
         let slug = trim_start (tlp_line_buffer p) in
         if slug = [] \<or> is_tag_prefix p slug then ([], segments, p)
         else
           let buffered = tlp_line_buffer p; p = p\<lparr> tlp_line_buffer := [], tlp_detect_tag := False \<rparr> in
           ([], push_text p buffered segments, p)
     else if ch = [nl] then ([], push_text p (run @ ch) segments, p\<lparr> tlp_detect_tag := True \<rparr>)
     else (run @ ch, segments, p))"

definition tagged_parse ::
  "'t tagged_line_parser \<Rightarrow> string \<Rightarrow> 't tagged_line_segment list \<times> 't tagged_line_parser" where
  "tagged_parse p delta =
     (let (run, segments, p) = fold parse_char (chars delta) ([], [], p) in
      (if run \<noteq> [] then push_text p run segments else segments, p))"

definition tagged_finish :: "'t tagged_line_parser \<Rightarrow> 't tagged_line_segment list \<times> 't tagged_line_parser" where
  "tagged_finish p =
     (let (segments, p) =
        (if tlp_line_buffer p = [] then ([], p)
         else
           let buffered = tlp_line_buffer p; p = p\<lparr> tlp_line_buffer := [] \<rparr> in
           case classify_line p buffered of
             Some (SegTagStart tag) \<Rightarrow> (push_segment [] (SegTagStart tag), p\<lparr> tlp_active_tag := Some tag \<rparr>)
           | Some (SegTagEnd tag) \<Rightarrow> (push_segment [] (SegTagEnd tag), p\<lparr> tlp_active_tag := None \<rparr>)
           | _ \<Rightarrow> (push_text p buffered [], p)) in
      (case tlp_active_tag p of Some tag \<Rightarrow> push_segment segments (SegTagEnd tag) | None \<Rightarrow> segments,
       p\<lparr> tlp_active_tag := None, tlp_detect_tag := True \<rparr>))"

section \<open>Proposed plans\<close>

definition OPEN_TAG :: string where "OPEN_TAG = ''<proposed_plan>''"
definition CLOSE_TAG :: string where "CLOSE_TAG = ''</proposed_plan>''"

datatype plan_tag = ProposedPlan

datatype proposed_plan_segment =
    PlanNormal string
  | ProposedPlanStart
  | ProposedPlanDelta string
  | ProposedPlanEnd

type_synonym proposed_plan_parser = "plan_tag tagged_line_parser"

definition plan_spec :: "plan_tag tag_spec" where
  "plan_spec = \<lparr> ts_open = OPEN_TAG, ts_close = CLOSE_TAG, ts_tag = ProposedPlan \<rparr>"

definition plan_new :: proposed_plan_parser where
  "plan_new = tagged_new [plan_spec]"

fun map_segment :: "plan_tag tagged_line_segment \<Rightarrow> proposed_plan_segment" where
  "map_segment (SegNormal s) = PlanNormal s"
| "map_segment (SegTagStart ProposedPlan) = ProposedPlanStart"
| "map_segment (SegTagDelta ProposedPlan s) = ProposedPlanDelta s"
| "map_segment (SegTagEnd ProposedPlan) = ProposedPlanEnd"

fun plan_normal :: "proposed_plan_segment \<Rightarrow> string" where
  "plan_normal (PlanNormal s) = s"
| "plan_normal _ = []"

definition map_segments :: "plan_tag tagged_line_segment list \<Rightarrow> proposed_plan_segment stream_text_chunk" where
  "map_segments segments =
     (let mapped = map map_segment segments in
      \<lparr> visible_text = concat (map plan_normal mapped), extracted = mapped \<rparr>)"

definition plan_push_str ::
  "proposed_plan_parser \<Rightarrow> string \<Rightarrow> proposed_plan_segment stream_text_chunk \<times> proposed_plan_parser" where
  "plan_push_str p chunk = (case tagged_parse p chunk of (segments, p) \<Rightarrow> (map_segments segments, p))"

definition plan_finish :: "proposed_plan_parser \<Rightarrow> proposed_plan_segment stream_text_chunk \<times> proposed_plan_parser" where
  "plan_finish p = (case tagged_finish p of (segments, p) \<Rightarrow> (map_segments segments, p))"

definition strip_proposed_plan_blocks :: "string \<Rightarrow> string" where
  "strip_proposed_plan_blocks s =
     (let (out, p) = plan_push_str plan_new s in visible_text out @ visible_text (fst (plan_finish p)))"

fun plan_text_step :: "proposed_plan_segment \<Rightarrow> string option \<Rightarrow> string option" where
  "plan_text_step ProposedPlanStart _ = Some []"
| "plan_text_step (ProposedPlanDelta delta) (Some plan) = Some (plan @ delta)"
| "plan_text_step _ plan = plan"

definition extract_proposed_plan_text :: "string \<Rightarrow> string option" where
  "extract_proposed_plan_text s =
     (let (out, p) = plan_push_str plan_new s in
      fold plan_text_step (extracted out @ extracted (fst (plan_finish p))) None)"

section \<open>Assistant text\<close>

record assistant_text_chunk =
  atc_visible_text :: string
  atc_citations :: "string list"
  atc_plan_segments :: "proposed_plan_segment list"

record assistant_text_stream_parser =
  atp_plan_mode :: bool
  atp_citations :: citation_stream_parser
  atp_plan :: proposed_plan_parser

definition assistant_new :: "bool \<Rightarrow> assistant_text_stream_parser" where
  "assistant_new plan_mode = \<lparr> atp_plan_mode = plan_mode, atp_citations = citation_new, atp_plan = plan_new \<rparr>"

definition parse_visible_text ::
  "assistant_text_stream_parser \<Rightarrow> string \<Rightarrow> assistant_text_chunk \<times> assistant_text_stream_parser" where
  "parse_visible_text p s =
     (if \<not> atp_plan_mode p then (\<lparr> atc_visible_text = s, atc_citations = [], atc_plan_segments = [] \<rparr>, p)
      else
        let (plan_chunk, plan) = plan_push_str (atp_plan p) s in
        (\<lparr> atc_visible_text = visible_text plan_chunk, atc_citations = [], atc_plan_segments = extracted plan_chunk \<rparr>,
         p\<lparr> atp_plan := plan \<rparr>))"

definition assistant_push_str ::
  "assistant_text_stream_parser \<Rightarrow> string \<Rightarrow> (assistant_text_chunk \<times> assistant_text_stream_parser) option" where
  "assistant_push_str p chunk =
     (case citation_push_str (atp_citations p) chunk of
        None \<Rightarrow> None
      | Some (citation_chunk, citations) \<Rightarrow>
          let (out, p) = parse_visible_text (p\<lparr> atp_citations := citations \<rparr>) (visible_text citation_chunk) in
          Some (out\<lparr> atc_citations := extracted citation_chunk \<rparr>, p))"

definition assistant_finish ::
  "assistant_text_stream_parser \<Rightarrow> assistant_text_chunk \<times> assistant_text_stream_parser" where
  "assistant_finish p =
     (let (citation_chunk, citations) = citation_finish (atp_citations p);
          (out, p) = parse_visible_text (p\<lparr> atp_citations := citations \<rparr>) (visible_text citation_chunk);
          (out, p) =
            (if atp_plan_mode p then
               let (tail, plan) = plan_finish (atp_plan p); p = p\<lparr> atp_plan := plan \<rparr> in
               (if \<not> stream_chunk_is_empty tail then
                  out\<lparr> atc_visible_text := atc_visible_text out @ visible_text tail,
                      atc_plan_segments := atc_plan_segments out @ extracted tail \<rparr>
                else out, p)
             else (out, p)) in
      (out\<lparr> atc_citations := extracted citation_chunk \<rparr>, p))"

section \<open>Raw bytes\<close>

datatype utf8_stream_parser_error = InvalidUtf8 nat nat | IncompleteUtf8AtEof

record 'p utf8_stream_parser =
  usp_inner :: 'p
  usp_pending_utf8 :: string

definition utf8_new :: "'p \<Rightarrow> 'p utf8_stream_parser" where
  "utf8_new inner = \<lparr> usp_inner = inner, usp_pending_utf8 = [] \<rparr>"

text \<open>
  The wrapped parser is the argument \<open>push\<close>. A push that does not return makes \<open>push_bytes\<close> not
  return; otherwise the result is the error or the chunk, with the parser after the call.
\<close>

definition push_bytes ::
  "('p \<Rightarrow> string \<Rightarrow> ('e stream_text_chunk \<times> 'p) option) \<Rightarrow> 'p utf8_stream_parser \<Rightarrow> string
     \<Rightarrow> ((utf8_stream_parser_error + 'e stream_text_chunk) \<times> 'p utf8_stream_parser) option" where
  "push_bytes push p chunk =
     (let buffered = usp_pending_utf8 p @ chunk;
          old = take (length (usp_pending_utf8 p)) buffered in
      case from_utf8 buffered of
        (_, Utf8All) \<Rightarrow>
          map_option (\<lambda>(out, inner). (Inr out, p\<lparr> usp_inner := inner, usp_pending_utf8 := [] \<rparr>)) (push (usp_inner p) buffered)
      | (valid_up_to, Utf8Invalid error_len) \<Rightarrow>
          Some (Inl (InvalidUtf8 valid_up_to error_len), p\<lparr> usp_pending_utf8 := old \<rparr>)
      | (valid_up_to, Utf8Incomplete) \<Rightarrow>
          if valid_up_to = 0 then Some (Inr default_chunk, p\<lparr> usp_pending_utf8 := buffered \<rparr>)
          else
            let s = take valid_up_to buffered in
            (case from_utf8 s of
               (_, Utf8All) \<Rightarrow>
                 map_option (\<lambda>(out, inner).
                     (Inr out, p\<lparr> usp_inner := inner, usp_pending_utf8 := drop valid_up_to buffered \<rparr>))
                   (push (usp_inner p) s)
             | (prefix_valid, Utf8Invalid error_len) \<Rightarrow>
                 Some (Inl (InvalidUtf8 prefix_valid error_len), p\<lparr> usp_pending_utf8 := old \<rparr>)
             | (prefix_valid, Utf8Incomplete) \<Rightarrow>
                 Some (Inl (InvalidUtf8 prefix_valid 0), p\<lparr> usp_pending_utf8 := old \<rparr>)))"

definition pending_error :: "string \<Rightarrow> utf8_stream_parser_error option" where
  "pending_error pending =
     (if pending = [] then None
      else (case from_utf8 pending of
              (_, Utf8All) \<Rightarrow> None
            | (valid_up_to, Utf8Invalid error_len) \<Rightarrow> Some (InvalidUtf8 valid_up_to error_len)
            | (_, Utf8Incomplete) \<Rightarrow> Some IncompleteUtf8AtEof))"

definition utf8_finish ::
  "('p \<Rightarrow> string \<Rightarrow> ('e stream_text_chunk \<times> 'p) option) \<Rightarrow> ('p \<Rightarrow> 'e stream_text_chunk \<times> 'p)
     \<Rightarrow> 'p utf8_stream_parser \<Rightarrow> ((utf8_stream_parser_error + 'e stream_text_chunk) \<times> 'p utf8_stream_parser) option" where
  "utf8_finish push finish p =
     (case pending_error (usp_pending_utf8 p) of
        Some e \<Rightarrow> Some (Inl e, p)
      | None \<Rightarrow>
          (case (if usp_pending_utf8 p = [] then Some (default_chunk, usp_inner p)
                 else push (usp_inner p) (usp_pending_utf8 p)) of
             None \<Rightarrow> None
           | Some (out, inner) \<Rightarrow>
               let (tail, inner) = finish inner in
               Some (Inr \<lparr> visible_text = visible_text out @ visible_text tail,
                          extracted = extracted out @ extracted tail \<rparr>,
                     p\<lparr> usp_inner := inner, usp_pending_utf8 := [] \<rparr>)))"

definition into_inner :: "'p utf8_stream_parser \<Rightarrow> utf8_stream_parser_error + 'p" where
  "into_inner p =
     (case pending_error (usp_pending_utf8 p) of Some e \<Rightarrow> Inl e | None \<Rightarrow> Inr (usp_inner p))"

end
