(* ===== verification/StreamText_Props.thy ===== *)
theory StreamText_Props
  imports StreamText
begin

text \<open>
  The streaming parsers against a reading of the whole text: how a stream is cut into chunks does
  not matter. One locale states the contract of a stream parser; citations and plans provide it, and
  the byte wrapper and the assistant parser are its clients.
\<close>

section \<open>Searching across a chunk boundary\<close>

lemma find_sub_append: "find_sub n s = Some i \<Longrightarrow> find_sub n (s @ r) = Some i"
proof (induction n s arbitrary: i rule: find_sub.induct)
  case (1 n)
  then show ?case by (cases r) (auto simp: rust_str split: if_splits)
next
  case (2 n c cs)
  show ?case
  proof (cases "starts_with n (c # cs)")
    case True
    then have "starts_with n ((c # cs) @ r)" unfolding starts_with_iff by (metis append.assoc)
    with True "2.prems" show ?thesis by simp
  next
    case False
    with "2.prems" obtain j where j: "find_sub n cs = Some j" "i = Suc j" by auto
    have "\<not> starts_with n (c # cs @ r)"
    proof
      assume "starts_with n (c # cs @ r)"
      then obtain z where z: "c # cs @ r = n @ z" by (auto simp: starts_with_iff)
      have "length n \<le> length cs" using find_sub_Some [OF j(1)] by simp
      with z have "c # cs = n @ take (length (c # cs) - length n) z"
        by (metis append_eq_conv_conj append_Cons le_SucI length_Cons take_all_iff take_append)
      with False show False by (auto simp: starts_with_iff)
    qed
    with "2.IH" [OF False j(1)] j(2) show ?thesis by simp
  qed
qed

lemma find_sub_skip:
  assumes "\<And>i. i < length a \<Longrightarrow> \<not> starts_with n (drop i (a @ y))"
  shows "find_sub n (a @ y) = map_option ((+) (length a)) (find_sub n y)"
  using assms
proof (induction a)
  case Nil
  then show ?case by (cases "find_sub n y") auto
next
  case (Cons c a)
  have "\<not> starts_with n (c # a @ y)" using Cons.prems [of 0] by simp
  moreover have "find_sub n (a @ y) = map_option ((+) (length a)) (find_sub n y)"
  proof (rule Cons.IH)
    show "\<not> starts_with n (drop i (a @ y))" if "i < length a" for i using Cons.prems [of "Suc i"] that by simp
  qed
  ultimately show ?case by (simp add: option.map_comp comp_def)
qed

definition ascii_only :: "string \<Rightarrow> bool" where
  "ascii_only s \<longleftrightarrow> list_all (\<lambda>c. \<not> is_cont_byte c) s"

lemma ascii_boundary: "ascii_only s \<Longrightarrow> k \<le> length s \<Longrightarrow> is_char_boundary s k"
  by (auto simp: ascii_only_def is_char_boundary_def list_all_length)

text \<open>The loop that counts down finds the largest number with the property.\<close>

lemma find_downto:
  "case find P (rev [1..<m + 1]) of
     None \<Rightarrow> \<forall>j. 0 < j \<and> j \<le> m \<longrightarrow> \<not> P j
   | Some i \<Rightarrow> 0 < i \<and> i \<le> m \<and> P i \<and> (\<forall>j. i < j \<and> j \<le> m \<longrightarrow> \<not> P j)"
proof (induction m)
  case (Suc m)
  have "rev [1..<Suc m + 1] = Suc m # rev [1..<m + 1]" by simp
  then show ?case using Suc.IH by (cases "P (Suc m)") (auto split: option.splits simp: le_Suc_eq simp del: upt_Suc)
qed simp

lemma longest_suffix_prefix:
  "longest_suffix_prefix_len s n \<le> length s" "n \<noteq> [] \<Longrightarrow> longest_suffix_prefix_len s n < length n"
  "ascii_only n \<Longrightarrow> 0 < j \<Longrightarrow> j \<le> length s \<Longrightarrow> j < length n \<Longrightarrow> ends_with (take j n) s \<Longrightarrow>
     j \<le> longest_suffix_prefix_len s n"
  "ends_with (take (longest_suffix_prefix_len s n) n) s"
proof -
  let ?P = "\<lambda>k. is_char_boundary n k \<and> ends_with (take k n) s"
  let ?m = "min (length s) (length n - 1)"
  note f = find_downto [where P = ?P and m = ?m]
  have k: "longest_suffix_prefix_len s n = (case find ?P (rev [1..<?m + 1]) of Some k \<Rightarrow> k | None \<Rightarrow> 0)"
    by (simp add: longest_suffix_prefix_len_def Let_def)
  with f have le: "longest_suffix_prefix_len s n \<le> ?m" by (auto split: option.splits simp del: upt_Suc)
  then show "longest_suffix_prefix_len s n \<le> length s" by simp
  from f show "ends_with (take (longest_suffix_prefix_len s n) n) s"
    unfolding k by (auto split: option.splits simp: ends_with_iff simp del: upt_Suc)
  from le show "n \<noteq> [] \<Longrightarrow> longest_suffix_prefix_len s n < length n" by (cases n) auto
  show "j \<le> longest_suffix_prefix_len s n"
    if j: "ascii_only n" "0 < j" "j \<le> length s" "j < length n" "ends_with (take j n) s"
  proof -
    have "?P j" "j \<le> ?m" using j by (auto simp: ascii_boundary)
    with f j(2) show ?thesis unfolding k by (cases "find ?P (rev [1..<?m + 1])") (auto simp del: upt_Suc simp: not_less [symmetric])
  qed
qed

text \<open>An occurrence that is not complete yet starts in the suffix that is kept.\<close>

lemma find_sub_keep:
  assumes "find_sub n s = None" "n \<noteq> []" "ascii_only n"
  defines "m \<equiv> length s - longest_suffix_prefix_len s n"
  shows "find_sub n (s @ r) = map_option ((+) m) (find_sub n (drop m s @ r))" "find_sub n (drop m s) = None"
proof -
  note k = longest_suffix_prefix [where s = s and n = n]
  have m: "length (take m s) = m" using k(1) by (simp add: m_def)
  have "\<not> starts_with n (drop i (take m s @ drop m s @ r))" if "i < m" for i
  proof
    assume "starts_with n (drop i (take m s @ drop m s @ r))"
    then have "starts_with n (drop i (s @ r))" by (metis append.assoc append_take_drop_id)
    moreover have i: "i < length s" using that m by simp
    ultimately obtain z where z: "drop i s @ r = n @ z" by (auto simp: starts_with_iff)
    show False
    proof (cases "length n \<le> length s - i")
      case True
      then have "drop i s = n @ take (length s - i - length n) z"
        using arg_cong [OF z, of "take (length s - i)"] by simp
      with find_sub_None [OF assms(1), of i] show False by (auto simp: starts_with_iff)
    next
      case False
      then have "drop i s = take (length s - i) n" using arg_cong [OF z, of "take (length s - i)"] by simp
      then have "ends_with (take (length s - i) n) s" unfolding ends_with_iff by (metis append_take_drop_id)
      with k(3) [OF assms(3), of "length s - i"] False i have "length s - i \<le> longest_suffix_prefix_len s n" by simp
      with that k(1) show False by (simp add: m_def)
    qed
  qed
  then have "find_sub n (take m s @ drop m s @ r) = map_option ((+) m) (find_sub n (drop m s @ r))"
    using find_sub_skip [of "take m s" n "drop m s @ r"] m by simp
  then show "find_sub n (s @ r) = map_option ((+) m) (find_sub n (drop m s @ r))" by (simp add: append_assoc [symmetric])
  have "length (drop m s) < length n" using k(1,2) assms(2) by (simp add: m_def)
  then show "find_sub n (drop m s) = None" using find_sub_Some [of n "drop m s"] by (cases "find_sub n (drop m s)") auto
qed

section \<open>Citations in a whole text\<close>

text \<open>The visible text and the citations of a text, outside and inside of a citation.\<close>

function (sequential) outside_citation :: "string \<Rightarrow> string \<times> string list"
  and inside_citation :: "string \<Rightarrow> string \<Rightarrow> string \<times> string list" where
  "outside_citation s =
     (case find_sub CITATION_OPEN s of
        None \<Rightarrow> (s, [])
      | Some i \<Rightarrow>
          (case inside_citation [] (drop (i + length CITATION_OPEN) s) of (v, cs) \<Rightarrow> (take i s @ v, cs)))"
| "inside_citation c s =
     (case find_sub CITATION_CLOSE s of
        None \<Rightarrow> ([], [c @ s])
      | Some i \<Rightarrow>
          (case outside_citation (drop (i + length CITATION_CLOSE) s) of (v, cs) \<Rightarrow> (v, (c @ take i s) # cs)))"
  by pat_completeness auto
termination
  by (relation "measure (case_sum length (length \<circ> snd))")
    (auto simp: CITATION_OPEN_def CITATION_CLOSE_def dest!: find_sub_Some)

declare outside_citation.simps [simp del] inside_citation.simps [simp del]

lemma citation_delimiters:
  "CITATION_OPEN \<noteq> []" "ascii_only CITATION_OPEN" "CITATION_CLOSE \<noteq> []" "ascii_only CITATION_CLOSE"
  by code_simp+

lemma citation_lengths: "0 < length CITATION_OPEN" "0 < length CITATION_CLOSE"
  by code_simp+

lemma outside_skip:
  assumes "find_sub CITATION_OPEN (a @ y) = map_option ((+) (length a)) (find_sub CITATION_OPEN y)"
  shows "outside_citation (a @ y) = (a @ fst (outside_citation y), snd (outside_citation y))"
  using assms outside_citation.simps [of "a @ y"] outside_citation.simps [of y]
  by (auto simp: add.assoc split: option.splits prod.splits)

lemma inside_skip:
  assumes "find_sub CITATION_CLOSE (a @ y) = map_option ((+) (length a)) (find_sub CITATION_CLOSE y)"
  shows "inside_citation c (a @ y) = inside_citation (c @ a) y"
  using assms inside_citation.simps [of c "a @ y"] inside_citation.simps [of "c @ a" y]
  by (auto simp: add.assoc split: option.splits prod.splits)

text \<open>What a citation parser makes of the rest of its input.\<close>

definition citation_meaning :: "citation_stream_parser \<Rightarrow> string \<Rightarrow> string \<times> string list" where
  "citation_meaning p r =
     (case ihp_active p of
        None \<Rightarrow> outside_citation (ihp_pending p @ r)
      | Some active \<Rightarrow> inside_citation (act_content active) (ihp_pending p @ r))"

definition citation_shape :: "citation_stream_parser \<Rightarrow> bool" where
  "citation_shape p \<longleftrightarrow> ihp_specs p = [citation_spec] \<and> valid_utf8 (ihp_pending p) \<and>
     pred_option (\<lambda>a. act_close a = CITATION_CLOSE) (ihp_active p)"

definition citation_ok :: "citation_stream_parser \<Rightarrow> bool" where
  "citation_ok p \<longleftrightarrow> citation_shape p \<and>
     find_sub (if ihp_active p = None then CITATION_OPEN else CITATION_CLOSE) (ihp_pending p) = None"

lemma find_next_citation:
  "ihp_specs p = [citation_spec] \<Longrightarrow>
    find_next_open p = map_option (\<lambda>i. (i, 0)) (find_sub CITATION_OPEN (ihp_pending p))"
  by (cases "find_sub CITATION_OPEN (ihp_pending p)")
    (simp_all add: find_next_open_def citation_spec_def List.map_filter_def)

lemma max_open_citation:
  "ihp_specs p = [citation_spec] \<Longrightarrow>
    max_open_prefix_suffix_len p = longest_suffix_prefix_len (ihp_pending p) CITATION_OPEN"
  by (simp add: max_open_prefix_suffix_len_def citation_spec_def)

text \<open>One round of the loop takes a part \<open>(v, cs)\<close> off the meaning.\<close>

definition emits ::
  "citation_stream_parser \<Rightarrow> string \<Rightarrow> string list \<Rightarrow> citation_stream_parser \<Rightarrow> bool" where
  "emits p v cs p' \<longleftrightarrow>
     (\<forall>r. citation_meaning p r = (v @ fst (citation_meaning p' r), cs @ snd (citation_meaning p' r)))"

lemma emits_trans: "emits p v cs p' \<Longrightarrow> emits p' v' cs' p'' \<Longrightarrow> emits p (v @ v') (cs @ cs') p''"
  by (simp add: emits_def)

lemma emits_close:
  assumes "ihp_active p = Some a" "act_close a = CITATION_CLOSE" "find_sub CITATION_CLOSE (ihp_pending p) = Some i"
  shows "emits p [] [act_content a @ take i (ihp_pending p)]
    (p\<lparr> ihp_active := None, ihp_pending := drop (i + length CITATION_CLOSE) (ihp_pending p) \<rparr>)"
  using assms find_sub_Some [OF assms(3)]
  by (auto simp: emits_def citation_meaning_def inside_citation.simps find_sub_append split: prod.splits)

lemma emits_open:
  assumes "ihp_active p = None" "find_sub CITATION_OPEN (ihp_pending p) = Some i" "act_content a = []"
  shows "emits p (take i (ihp_pending p)) []
    (p\<lparr> ihp_pending := drop (i + length CITATION_OPEN) (ihp_pending p), ihp_active := Some a \<rparr>)"
  using assms find_sub_Some [OF assms(2)]
  by (auto simp: emits_def citation_meaning_def outside_citation.simps find_sub_append split: prod.splits)

lemma emits_keep_inside:
  assumes "ihp_active p = Some a" "act_close a = CITATION_CLOSE" "find_sub CITATION_CLOSE (ihp_pending p) = None"
  defines "m \<equiv> length (ihp_pending p) - longest_suffix_prefix_len (ihp_pending p) CITATION_CLOSE"
  shows "emits p [] []
    (p\<lparr> ihp_active := Some (a\<lparr> act_content := act_content a @ take m (ihp_pending p) \<rparr>), ihp_pending := drop m (ihp_pending p) \<rparr>)"
    (is "emits p [] [] ?p'")
  unfolding emits_def
proof (intro allI)
  fix r
  have "inside_citation (act_content a) (take m (ihp_pending p) @ drop m (ihp_pending p) @ r) =
      inside_citation (act_content a @ take m (ihp_pending p)) (drop m (ihp_pending p) @ r)"
    using find_sub_keep(1) [OF assms(3) citation_delimiters(3,4), of r]
    by (intro inside_skip) (simp add: m_def append_assoc [symmetric] del: append_assoc)
  then have "citation_meaning p r = citation_meaning ?p' r"
    using assms(1) by (simp add: citation_meaning_def append_assoc [symmetric] del: append_assoc)
  then show "citation_meaning p r = ([] @ fst (citation_meaning ?p' r), [] @ snd (citation_meaning ?p' r))" by simp
qed

lemma emits_keep_outside:
  assumes "ihp_active p = None" "find_sub CITATION_OPEN (ihp_pending p) = None"
  defines "m \<equiv> length (ihp_pending p) - longest_suffix_prefix_len (ihp_pending p) CITATION_OPEN"
  shows "emits p (take m (ihp_pending p)) [] (p\<lparr> ihp_pending := drop m (ihp_pending p) \<rparr>)"
  unfolding emits_def
proof (intro allI)
  fix r
  have "outside_citation (take m (ihp_pending p) @ drop m (ihp_pending p) @ r) =
      (take m (ihp_pending p) @ fst (outside_citation (drop m (ihp_pending p) @ r)),
       snd (outside_citation (drop m (ihp_pending p) @ r)))"
    using find_sub_keep(1) [OF assms(2) citation_delimiters(1,2), of r]
    by (intro outside_skip) (simp add: m_def append_assoc [symmetric] del: append_assoc)
  then show "citation_meaning p r = (take m (ihp_pending p) @ fst (citation_meaning (p\<lparr> ihp_pending := drop m (ihp_pending p) \<rparr>) r),
      [] @ snd (citation_meaning (p\<lparr> ihp_pending := drop m (ihp_pending p) \<rparr>) r))"
    using assms(1) by (simp add: citation_meaning_def append_assoc [symmetric] del: append_assoc)
qed

text \<open>Cuts before and after a delimiter, and at a kept suffix, are at character boundaries.\<close>

lemma citation_valid: "valid_utf8 CITATION_OPEN" "valid_utf8 CITATION_CLOSE"
  "CITATION_OPEN = CHR ''<'' # tl CITATION_OPEN" "CITATION_CLOSE = CHR ''<'' # tl CITATION_CLOSE"
  by code_simp+

lemma valid_around:
  assumes "valid_utf8 s" "find_sub n s = Some i" "valid_utf8 n" "n = CHR ''<'' # n'"
  shows "valid_utf8 (take i s)" "valid_utf8 (drop (i + length n) s)"
proof -
  have s: "valid_utf8 (take i s @ n @ drop (i + length n) s)" using find_sub_Some [OF assms(2)] assms(1) by simp
  then show a: "valid_utf8 (take i s)"
    using valid_utf8_before_ascii [of "take i s" "CHR ''<''" "n' @ drop (i + length n) s"] assms(4) by (simp add: of_char_def)
  with s have "valid_utf8 (n @ drop (i + length n) s)" by (simp only: valid_utf8_append)
  with assms(3) show "valid_utf8 (drop (i + length n) s)" by (simp only: valid_utf8_append)
qed

lemma valid_keep:
  assumes "valid_utf8 s" "n = CHR ''<'' # n'"
  defines "m \<equiv> length s - longest_suffix_prefix_len s n"
  shows "valid_utf8 (take m s)" "valid_utf8 (drop m s)"
proof -
  have "drop m s = take (longest_suffix_prefix_len s n) n"
  proof -
    let ?k = "longest_suffix_prefix_len s n"
    obtain r where r: "s = r @ take ?k n" using longest_suffix_prefix(4) [of s n] by (auto simp: ends_with_iff)
    have "length (take ?k n) = ?k" using longest_suffix_prefix(2) [of n s] assms(2) by simp
    then have "m = length r" using arg_cong [OF r, of length] by (simp add: m_def)
    then show ?thesis using arg_cong [OF r, of "drop m"] by simp
  qed
  then have "drop m s = [] \<or> (\<exists>z. drop m s = CHR ''<'' # z)" using assms(2) by (cases "longest_suffix_prefix_len s n") auto
  then show a: "valid_utf8 (take m s)"
  proof
    assume "drop m s = []"
    with append_take_drop_id [of m s] assms(1) show ?thesis by simp
  next
    assume "\<exists>z. drop m s = CHR ''<'' # z"
    then obtain z where "drop m s = CHR ''<'' # z" ..
    with append_take_drop_id [of m s] assms(1) have "valid_utf8 (take m s @ CHR ''<'' # z)" by simp
    then show ?thesis using valid_utf8_before_ascii [of _ "CHR ''<''"] by (simp add: of_char_def)
  qed
  from assms(1) append_take_drop_id [of m s] valid_utf8_append [OF a, of "drop m s"] show "valid_utf8 (drop m s)" by simp
qed

lemma citation_loop:
  assumes "citation_shape p"
  shows "\<exists>out' p' v cs. inline_loop p out = Some (out', p') \<and> citation_ok p' \<and> emits p v cs p' \<and> valid_utf8 v \<and>
    visible_text out' = visible_text out @ v \<and>
    map eit_content (extracted out') = map eit_content (extracted out) @ cs"
  using assms
proof (induction "length (ihp_pending p)" arbitrary: p out rule: less_induct)
  case less
  have specs: "ihp_specs p = [citation_spec]" and valid: "valid_utf8 (ihp_pending p)"
    using less.prems by (simp_all add: citation_shape_def)
  show ?case
  proof (cases "ihp_active p")
    case active: (Some a)
    with less.prems have close: "act_close a = CITATION_CLOSE" by (simp add: citation_shape_def)
    show ?thesis
    proof (cases "find_sub CITATION_CLOSE (ihp_pending p)")
      case (Some i)
      let ?p = "p\<lparr> ihp_active := None, ihp_pending := drop (i + length CITATION_CLOSE) (ihp_pending p) \<rparr>"
      let ?out = "out\<lparr> extracted := extracted out @
        [\<lparr> eit_tag = act_tag a, eit_content = act_content a @ take i (ihp_pending p) \<rparr>] \<rparr>"
      have loop: "inline_loop p out = inline_loop ?p ?out"
        using active close Some by (subst inline_loop.simps) simp
      have "length (ihp_pending ?p) < length (ihp_pending p)"
        using find_sub_Some [OF Some, THEN conjunct1] citation_lengths(2) by (simp del: length_greater_0_conv)
      moreover have "citation_shape ?p" using specs valid_around(2) [OF valid Some citation_valid(2,4)] by (simp add: citation_shape_def)
      ultimately obtain out' p' v cs where IH: "inline_loop ?p ?out = Some (out', p')" "citation_ok p'"
        "emits ?p v cs p'" "valid_utf8 v" "visible_text out' = visible_text ?out @ v"
        "map eit_content (extracted out') = map eit_content (extracted ?out) @ cs"
        using less.hyps by blast
      from emits_trans [OF emits_close [OF active close Some] IH(3)] IH loop show ?thesis by fastforce
    next
      case None
      let ?m = "length (ihp_pending p) - longest_suffix_prefix_len (ihp_pending p) CITATION_CLOSE"
      let ?p = "p\<lparr> ihp_active := Some (a\<lparr> act_content := act_content a @ take ?m (ihp_pending p) \<rparr>),
        ihp_pending := drop ?m (ihp_pending p) \<rparr>"
      have "inline_loop p out = Some (out, ?p)"
        using active close None by (subst inline_loop.simps) (simp add: Let_def)
      moreover have "citation_ok ?p"
        using specs close find_sub_keep(2) [OF None citation_delimiters(3,4)] valid_keep(2) [OF valid citation_valid(4)]
        by (simp add: citation_ok_def citation_shape_def)
      ultimately show ?thesis using emits_keep_inside [OF active close None] by fastforce
    qed
  next
    case active: None
    show ?thesis
    proof (cases "find_sub CITATION_OPEN (ihp_pending p)")
      case (Some i)
      let ?a = "\<lparr> act_tag = Citation, act_close = CITATION_CLOSE, act_content = [] \<rparr>"
      let ?p = "p\<lparr> ihp_pending := drop (i + length CITATION_OPEN) (ihp_pending p), ihp_active := Some ?a \<rparr>"
      let ?out = "out\<lparr> visible_text := visible_text out @ take i (ihp_pending p) \<rparr>"
      have loop: "inline_loop p out = inline_loop ?p ?out"
        using active specs Some by (subst inline_loop.simps) (simp add: find_next_citation Let_def citation_spec_def)
      have "length (ihp_pending ?p) < length (ihp_pending p)"
        using find_sub_Some [OF Some, THEN conjunct1] citation_lengths(1) by (simp del: length_greater_0_conv)
      moreover have "citation_shape ?p" using specs valid_around(2) [OF valid Some citation_valid(1,3)] by (simp add: citation_shape_def)
      ultimately obtain out' p' v cs where IH: "inline_loop ?p ?out = Some (out', p')" "citation_ok p'"
        "emits ?p v cs p'" "valid_utf8 v" "visible_text out' = visible_text ?out @ v"
        "map eit_content (extracted out') = map eit_content (extracted ?out) @ cs"
        using less.hyps by blast
      from valid_around(1) [OF valid Some citation_valid(1,3)] IH(4)
      have "valid_utf8 (take i (ihp_pending p) @ v)" by (simp add: valid_utf8_append)
      with emits_trans [OF emits_open [OF active Some, of ?a] IH(3)] IH loop show ?thesis by fastforce
    next
      case None
      let ?m = "length (ihp_pending p) - longest_suffix_prefix_len (ihp_pending p) CITATION_OPEN"
      let ?p = "p\<lparr> ihp_pending := drop ?m (ihp_pending p) \<rparr>"
      have "inline_loop p out = Some (out\<lparr> visible_text := visible_text out @ take ?m (ihp_pending p) \<rparr>, ?p)"
        using active specs None
        by (subst inline_loop.simps)
          (simp add: find_next_citation max_open_citation drain_visible_to_suffix_match_def Let_def)
      moreover have "citation_ok ?p"
        using specs active find_sub_keep(2) [OF None citation_delimiters(1,2)] valid_keep(2) [OF valid citation_valid(3)]
        by (simp add: citation_ok_def citation_shape_def)
      ultimately show ?thesis using emits_keep_outside [OF active None] valid_keep(1) [OF valid citation_valid(3)] by fastforce
    qed
  qed
qed

lemma citation_push:
  assumes "citation_ok p" "valid_utf8 c"
  shows "\<exists>out p'. citation_push_str p c = Some (out, p') \<and> citation_ok p' \<and> valid_utf8 (visible_text out) \<and>
    (\<forall>r. citation_meaning p (c @ r) = (visible_text out @ fst (citation_meaning p' r), extracted out @ snd (citation_meaning p' r)))"
proof -
  let ?p = "p\<lparr> ihp_pending := ihp_pending p @ c \<rparr>"
  have "citation_shape ?p" using assms by (simp add: citation_ok_def citation_shape_def valid_utf8_append)
  from citation_loop [OF this, of default_chunk] obtain out p' v cs where
    l: "inline_loop ?p default_chunk = Some (out, p')" "citation_ok p'" "emits ?p v cs p'" "valid_utf8 v"
      "visible_text out = v" "map eit_content (extracted out) = cs" by (auto simp: default_chunk_def)
  have "citation_meaning p (c @ r) = citation_meaning ?p r" for r
    by (simp add: citation_meaning_def split: option.split)
  with l show ?thesis
    by (simp add: citation_push_str_def inline_push_str_def citation_chunk_of_def emits_def)
qed

lemma citation_finished:
  assumes "citation_ok p" "citation_finish p = (out, p')"
  shows "citation_meaning p [] = (visible_text out, extracted out)"
proof (cases "ihp_active p")
  case None
  with assms(1) have "outside_citation (ihp_pending p) = (ihp_pending p, [])"
    by (subst outside_citation.simps) (simp add: citation_ok_def)
  with None assms(2) show ?thesis
    by (auto simp: citation_finish_def inline_finish_def citation_chunk_of_def citation_meaning_def)
next
  case (Some a)
  with assms(1) have "inside_citation (act_content a) (ihp_pending p) = ([], [act_content a @ ihp_pending p])"
    by (subst inside_citation.simps) (simp add: citation_ok_def)
  with Some assms(2) show ?thesis
    by (auto simp: citation_finish_def inline_finish_def citation_chunk_of_def citation_meaning_def)
qed

section \<open>The contract of a stream parser\<close>

text \<open>Push the chunks of a stream, then finish: all visible text and everything extracted.\<close>

fun push_chunks ::
  "('p \<Rightarrow> string \<Rightarrow> ('e stream_text_chunk \<times> 'p) option) \<Rightarrow> 'p \<Rightarrow> string list
     \<Rightarrow> ('e stream_text_chunk \<times> 'p) option" where
  "push_chunks push p [] = Some (default_chunk, p)"
| "push_chunks push p (c # cs) =
     (case push p c of
        None \<Rightarrow> None
      | Some (out, p) \<Rightarrow>
          map_option (\<lambda>(more, p). (\<lparr> visible_text = visible_text out @ visible_text more,
              extracted = extracted out @ extracted more \<rparr>, p))
            (push_chunks push p cs))"

definition run_stream ::
  "('p \<Rightarrow> string \<Rightarrow> ('e stream_text_chunk \<times> 'p) option) \<Rightarrow> ('p \<Rightarrow> 'e stream_text_chunk \<times> 'p) \<Rightarrow> 'p
     \<Rightarrow> string list \<Rightarrow> (string \<times> 'e list) option" where
  "run_stream push finish p cs =
     map_option (\<lambda>(out, p). case finish p of (tail, _) \<Rightarrow>
         (visible_text out @ visible_text tail, extracted out @ extracted tail))
       (push_chunks push p cs)"

text \<open>
  \<open>meaning p r\<close> is what is still to come when the rest of the input is \<open>r\<close>; \<open>obs\<close> forgets how the
  extracted items are cut up.
\<close>

locale text_stream =
  fixes push :: "'p \<Rightarrow> string \<Rightarrow> ('e stream_text_chunk \<times> 'p) option"
    and finish :: "'p \<Rightarrow> 'e stream_text_chunk \<times> 'p"
    and ok :: "'p \<Rightarrow> bool"
    and obs :: "'e list \<Rightarrow> 'o list"
    and meaning :: "'p \<Rightarrow> string \<Rightarrow> string \<times> 'o list"
  assumes obs_nil: "obs [] = []"
    and obs_append: "obs (a @ b) = obs a @ obs b"
    and push_ok: "ok p \<Longrightarrow> valid_utf8 c \<Longrightarrow> \<exists>out p'. push p c = Some (out, p') \<and> ok p' \<and>
      (\<forall>r. valid_utf8 r \<longrightarrow> meaning p (c @ r) = (visible_text out @ fst (meaning p' r), obs (extracted out) @ snd (meaning p' r)))"
    and finish_ok: "ok p \<Longrightarrow> finish p = (out, p') \<Longrightarrow> meaning p [] = (visible_text out, obs (extracted out))"
begin

lemma push_chunks_ok:
  assumes "ok p" "list_all valid_utf8 cs"
  shows "\<exists>out p'. push_chunks push p cs = Some (out, p') \<and> ok p' \<and>
    (\<forall>r. valid_utf8 r \<longrightarrow> meaning p (concat cs @ r) = (visible_text out @ fst (meaning p' r), obs (extracted out) @ snd (meaning p' r)))"
  using assms
proof (induction cs arbitrary: p)
  case Nil
  then show ?case by (simp add: obs_nil default_chunk_def)
next
  case (Cons c cs)
  from push_ok [OF Cons.prems(1), of c] Cons.prems(2) obtain out p1 where
    1: "push p c = Some (out, p1)" "ok p1"
      "\<And>r. valid_utf8 r \<Longrightarrow> meaning p (c @ r) = (visible_text out @ fst (meaning p1 r), obs (extracted out) @ snd (meaning p1 r))"
    by auto
  from Cons.IH [OF 1(2)] Cons.prems(2) obtain more p2 where
    2: "push_chunks push p1 cs = Some (more, p2)" "ok p2"
      "\<And>r. valid_utf8 r \<Longrightarrow> meaning p1 (concat cs @ r) = (visible_text more @ fst (meaning p2 r), obs (extracted more) @ snd (meaning p2 r))"
    by auto
  have "valid_utf8 (concat cs @ r)" if "valid_utf8 r" for r
    using Cons.prems(2) that by (simp add: valid_utf8_append valid_utf8_concat)
  with 1 2 show ?case by (simp add: obs_append)
qed

lemma run_stream_ok:
  assumes "ok p" "list_all valid_utf8 cs"
  shows "\<exists>es. run_stream push finish p cs = Some (fst (meaning p (concat cs)), es) \<and> obs es = snd (meaning p (concat cs))"
proof -
  from push_chunks_ok [OF assms] obtain out p' where
    c: "push_chunks push p cs = Some (out, p')" "ok p'"
      "meaning p (concat cs @ []) = (visible_text out @ fst (meaning p' []), obs (extracted out) @ snd (meaning p' []))"
    using valid_utf8_Nil by blast
  obtain tail p'' where "finish p' = (tail, p'')" by fastforce
  with finish_ok [OF c(2) this] c show ?thesis by (simp add: run_stream_def obs_append)
qed

end

interpretation citation_stream: text_stream citation_push_str citation_finish citation_ok "\<lambda>cs. cs" citation_meaning
proof
  fix p c assume "citation_ok p" "valid_utf8 c"
  from citation_push [OF this] show "\<exists>out p'. citation_push_str p c = Some (out, p') \<and> citation_ok p' \<and>
      (\<forall>r. valid_utf8 r \<longrightarrow> citation_meaning p (c @ r) =
         (visible_text out @ fst (citation_meaning p' r), extracted out @ snd (citation_meaning p' r)))" by blast
qed (simp_all add: citation_finished)

lemma citation_ok_new: "citation_ok citation_new"
  by (simp add: citation_ok_def citation_shape_def citation_new_def inline_parser_def citation_delimiters)

lemma citation_meaning_new: "citation_meaning citation_new s = outside_citation s"
  by (simp add: citation_meaning_def citation_new_def inline_parser_def)

text \<open>
  Citations do not depend on how the text is streamed: pushing the chunks of any text through the
  citation parser and finishing it returns, and gives the visible text and the citations of the
  whole text, found by searching for the delimiters in it.
\<close>

theorem citations_chunk_independent:
  assumes "list_all valid_utf8 chunks"
  shows "run_stream citation_push_str citation_finish citation_new chunks = Some (outside_citation (concat chunks))"
  using citation_stream.run_stream_ok [OF citation_ok_new assms] by (auto simp: citation_meaning_new)

theorem citations_chunk_independent_witness:
  "run_stream citation_push_str citation_finish citation_new [''a<oai-mem-ci'', ''tation>doc</oai-'', ''mem-citation>b<oai-mem'']
     = Some (''ab<oai-mem'', [''doc''])"
proof -
  let ?cs = "[''a<oai-mem-ci'', ''tation>doc</oai-'', ''mem-citation>b<oai-mem'']"
  have "list_all valid_utf8 ?cs" by code_simp
  moreover have "outside_citation (concat ?cs) = (''ab<oai-mem'', [''doc''])" by code_simp
  ultimately show ?thesis using citations_chunk_independent by metis
qed

section \<open>Raw bytes\<close>

text \<open>The byte chunks of a stream up to the first error, and the end of the stream.\<close>

fun push_byte_chunks ::
  "('p \<Rightarrow> string \<Rightarrow> ('e stream_text_chunk \<times> 'p) option) \<Rightarrow> 'p utf8_stream_parser \<Rightarrow> string list
     \<Rightarrow> ((utf8_stream_parser_error + 'e stream_text_chunk) \<times> 'p utf8_stream_parser) option" where
  "push_byte_chunks push u [] = Some (Inr default_chunk, u)"
| "push_byte_chunks push u (c # cs) =
     (case push_bytes push u c of
        None \<Rightarrow> None
      | Some (Inl e, u) \<Rightarrow> Some (Inl e, u)
      | Some (Inr out, u) \<Rightarrow>
          map_option (\<lambda>(more, u). (map_sum id (\<lambda>more. \<lparr> visible_text = visible_text out @ visible_text more,
              extracted = extracted out @ extracted more \<rparr>) more, u))
            (push_byte_chunks push u cs))"

definition run_bytes ::
  "('p \<Rightarrow> string \<Rightarrow> ('e stream_text_chunk \<times> 'p) option) \<Rightarrow> ('p \<Rightarrow> 'e stream_text_chunk \<times> 'p) \<Rightarrow> 'p
     \<Rightarrow> string list \<Rightarrow> (utf8_stream_parser_error + string \<times> 'e list) option" where
  "run_bytes push finish inner cs =
     (case push_byte_chunks push (utf8_new inner) cs of
        None \<Rightarrow> None
      | Some (Inl e, _) \<Rightarrow> Some (Inl e)
      | Some (Inr out, u) \<Rightarrow>
          map_option (\<lambda>(tail, _). map_sum id (\<lambda>tail. (visible_text out @ visible_text tail,
              extracted out @ extracted tail)) tail)
            (utf8_finish push finish u))"

definition pending_prefix :: "string \<Rightarrow> bool" where
  "pending_prefix s \<longleftrightarrow> s = [] \<or> from_utf8 s = (0, Utf8Incomplete)"

lemma pending_prefix_valid: "pending_prefix s \<Longrightarrow> valid_utf8 s \<Longrightarrow> s = []"
  by (auto simp: pending_prefix_def valid_utf8_def)

context text_stream
begin

lemma push_bytes_ok:
  assumes "ok (usp_inner u)" "pending_prefix (usp_pending_utf8 u)" "valid_utf8 (usp_pending_utf8 u @ c @ r)"
  shows "\<exists>out u'. push_bytes push u c = Some (Inr out, u') \<and> ok (usp_inner u') \<and> pending_prefix (usp_pending_utf8 u') \<and>
    valid_utf8 (usp_pending_utf8 u' @ r) \<and>
    (\<forall>r. valid_utf8 (usp_pending_utf8 u' @ r) \<longrightarrow>
       meaning (usp_inner u) (usp_pending_utf8 u @ c @ r) =
         (visible_text out @ fst (meaning (usp_inner u') (usp_pending_utf8 u' @ r)),
          obs (extracted out) @ snd (meaning (usp_inner u') (usp_pending_utf8 u' @ r))))"
proof -
  let ?b = "usp_pending_utf8 u @ c"
  obtain k e where ke: "from_utf8 ?b = (k, e)" by fastforce
  have valid: "valid_utf8 (?b @ r)" using assms(3) by simp
  show ?thesis
  proof (cases e)
    case Utf8All
    then have b: "valid_utf8 ?b" using ke by (simp add: valid_utf8_def)
    with valid have r: "valid_utf8 r" using valid_utf8_append by blast
    from push_ok [OF assms(1) b] obtain out p' where "push (usp_inner u) ?b = Some (out, p')" "ok p'"
      "\<forall>r. valid_utf8 r \<longrightarrow> meaning (usp_inner u) (?b @ r) =
         (visible_text out @ fst (meaning p' r), obs (extracted out) @ snd (meaning p' r))" by blast
    with r ke Utf8All show ?thesis by (simp add: push_bytes_def pending_prefix_def)
  next
    case (Utf8Invalid n)
    with valid ke show ?thesis unfolding valid_utf8_def by (subst (asm) from_utf8_append) simp
  next
    case Utf8Incomplete
    have split: "from_utf8 (take k ?b) = (k, Utf8All)" "from_utf8 (drop k ?b) = (0, Utf8Incomplete)"
      using from_utf8_split [OF ke] Utf8Incomplete by simp_all
    then have pre: "pending_prefix (drop k ?b)" "valid_utf8 (take k ?b)"
      by (simp_all add: pending_prefix_def valid_utf8_def)
    have r: "valid_utf8 (drop k ?b @ r)"
      using valid pre(2) valid_utf8_append [of "take k ?b" "drop k ?b @ r"]
      by (simp only: append_assoc [symmetric] append_take_drop_id)
    show ?thesis
    proof (cases "k = 0")
      case True
      with ke Utf8Incomplete r pre(1) assms(1) show ?thesis
        by (simp add: push_bytes_def default_chunk_def obs_nil)
    next
      case False
      from push_ok [OF assms(1) pre(2)] obtain out p' where
        p': "push (usp_inner u) (take k ?b) = Some (out, p')" "ok p'"
          "\<forall>r. valid_utf8 r \<longrightarrow> meaning (usp_inner u) (take k ?b @ r) =
             (visible_text out @ fst (meaning p' r), obs (extracted out) @ snd (meaning p' r))" by blast
      let ?u = "u\<lparr> usp_inner := p', usp_pending_utf8 := drop k ?b \<rparr>"
      have "push_bytes push u c = Some (Inr out, ?u)"
        using ke Utf8Incomplete False split p'(1) by (simp add: push_bytes_def Let_def)
      moreover have "meaning (usp_inner u) (usp_pending_utf8 u @ c @ r) =
          (visible_text out @ fst (meaning p' (drop k ?b @ r)), obs (extracted out) @ snd (meaning p' (drop k ?b @ r)))"
        if "valid_utf8 (drop k ?b @ r)" for r
        using p'(3) [rule_format, OF that] by (simp only: append_assoc [symmetric] append_take_drop_id)
      ultimately show ?thesis using p'(2) pre(1) r by (intro exI [of _ out] exI [of _ ?u]) simp
    qed
  qed
qed

lemma push_byte_chunks_ok:
  assumes "ok (usp_inner u)" "pending_prefix (usp_pending_utf8 u)" "valid_utf8 (usp_pending_utf8 u @ concat cs)"
  shows "\<exists>out u'. push_byte_chunks push u cs = Some (Inr out, u') \<and> ok (usp_inner u') \<and> usp_pending_utf8 u' = [] \<and>
    meaning (usp_inner u) (usp_pending_utf8 u @ concat cs) =
      (visible_text out @ fst (meaning (usp_inner u') []), obs (extracted out) @ snd (meaning (usp_inner u') []))"
  using assms
proof (induction cs arbitrary: u)
  case Nil
  then have "usp_pending_utf8 u = []" using pending_prefix_valid by simp
  with Nil show ?case by (simp add: default_chunk_def obs_nil)
next
  case (Cons c cs)
  from push_bytes_ok [OF Cons.prems(1,2), of c "concat cs"] Cons.prems(3) obtain out u1 where
    1: "push_bytes push u c = Some (Inr out, u1)" "ok (usp_inner u1)" "pending_prefix (usp_pending_utf8 u1)"
      "valid_utf8 (usp_pending_utf8 u1 @ concat cs)"
      "\<And>r. valid_utf8 (usp_pending_utf8 u1 @ r) \<Longrightarrow> meaning (usp_inner u) (usp_pending_utf8 u @ c @ r) =
         (visible_text out @ fst (meaning (usp_inner u1) (usp_pending_utf8 u1 @ r)),
          obs (extracted out) @ snd (meaning (usp_inner u1) (usp_pending_utf8 u1 @ r)))" by auto
  from Cons.IH [OF 1(2,3,4)] obtain more u2 where
    2: "push_byte_chunks push u1 cs = Some (Inr more, u2)" "ok (usp_inner u2)" "usp_pending_utf8 u2 = []"
      "meaning (usp_inner u1) (usp_pending_utf8 u1 @ concat cs) =
        (visible_text more @ fst (meaning (usp_inner u2) []), obs (extracted more) @ snd (meaning (usp_inner u2) []))"
    by blast
  show ?case using 1(1) 1(5) [OF 1(4)] 2 by (simp add: obs_append)
qed

lemma run_bytes_ok:
  assumes "ok inner" "valid_utf8 (concat cs)"
  shows "\<exists>es. run_bytes push finish inner cs = Some (Inr (fst (meaning inner (concat cs)), es)) \<and>
    obs es = snd (meaning inner (concat cs))"
proof -
  have "ok (usp_inner (utf8_new inner))" "pending_prefix (usp_pending_utf8 (utf8_new inner))"
    "valid_utf8 (usp_pending_utf8 (utf8_new inner) @ concat cs)"
    using assms by (simp_all add: utf8_new_def pending_prefix_def)
  from push_byte_chunks_ok [OF this] obtain out u where
    c: "push_byte_chunks push (utf8_new inner) cs = Some (Inr out, u)" "ok (usp_inner u)" "usp_pending_utf8 u = []"
      "meaning inner (concat cs) = (visible_text out @ fst (meaning (usp_inner u) []), obs (extracted out) @ snd (meaning (usp_inner u) []))"
    by (auto simp: utf8_new_def)
  obtain tail p'' where f: "finish (usp_inner u) = (tail, p'')" by fastforce
  from finish_ok [OF c(2) f] c f show ?thesis
    by (simp add: run_bytes_def utf8_finish_def pending_error_def default_chunk_def obs_append)
qed

end

text \<open>
  Bytes may be cut anywhere: when the concatenation of the byte chunks is valid UTF-8, the byte wrapper
  around the citation parser reports no error, wherever the chunks end, also inside a character,
  and gives the visible text and the citations of the whole text.
\<close>

theorem byte_chunks_independent:
  assumes "valid_utf8 (concat chunks)"
  shows "run_bytes citation_push_str citation_finish citation_new chunks = Some (Inr (outside_citation (concat chunks)))"
  using citation_stream.run_bytes_ok [OF citation_ok_new assms] by (auto simp: citation_meaning_new)

text \<open>The two bytes of an e with an acute accent arrive in different chunks.\<close>

theorem byte_chunks_independent_witness:
  "run_bytes citation_push_str citation_finish citation_new [[CHR 0xC3], CHR 0xA9 # ''<oai-mem-citation>x'']
     = Some (Inr ([CHR 0xC3, CHR 0xA9], [''x'']))"
proof -
  let ?cs = "[[CHR 0xC3], CHR 0xA9 # ''<oai-mem-citation>x'']"
  have "valid_utf8 (concat ?cs)" by code_simp
  moreover have "outside_citation (concat ?cs) = ([CHR 0xC3, CHR 0xA9], [''x''])" by code_simp
  ultimately show ?thesis using byte_chunks_independent by metis
qed

section \<open>Any set of tags\<close>

lemma min_open_mem: "min_open xs = Some x \<Longrightarrow> x \<in> set xs"
  by (induction xs arbitrary: x) (auto split: option.splits if_splits)

lemma find_next_openD:
  assumes "find_next_open p = Some (pos, idx)"
  shows "idx < length (ihp_specs p) \<and> find_sub (its_open (ihp_specs p ! idx)) (ihp_pending p) = Some pos"
proof -
  from assms obtain len where "min_open (List.map_filter
      (\<lambda>(idx, spec). map_option (\<lambda>pos. (pos, length (its_open spec), idx)) (find_sub (its_open spec) (ihp_pending p)))
      (enumerate 0 (ihp_specs p))) = Some (pos, len, idx)" by (auto simp: find_next_open_def)
  from min_open_mem [OF this] show ?thesis
    by (auto simp: List.map_filter_def in_set_enumerate_eq)
qed

definition inline_wf :: "'t inline_hidden_tag_parser \<Rightarrow> bool" where
  "inline_wf p \<longleftrightarrow> list_all (\<lambda>spec. its_open spec \<noteq> [] \<and> its_close spec \<noteq> []) (ihp_specs p) \<and>
     pred_option (\<lambda>a. act_close a \<noteq> []) (ihp_active p)"

lemma find_sub_shrinks: "find_sub n s = Some i \<Longrightarrow> n \<noteq> [] \<Longrightarrow> length (drop (i + length n) s) < length s"
  using find_sub_Some [of n s i] by (cases n) auto

lemma inline_loop_returns:
  assumes "inline_wf p"
  shows "\<exists>out' p'. inline_loop p out = Some (out', p') \<and> inline_wf p'"
  using assms
proof (induction "length (ihp_pending p)" arbitrary: p out rule: less_induct)
  case less
  show ?case
  proof (cases "ihp_active p")
    case active: (Some a)
    with less.prems have close: "act_close a \<noteq> []" by (simp add: inline_wf_def)
    show ?thesis
    proof (cases "find_sub (act_close a) (ihp_pending p)")
      case (Some i)
      let ?p = "p\<lparr> ihp_active := None, ihp_pending := drop (i + length (act_close a)) (ihp_pending p) \<rparr>"
      have "inline_wf ?p" using less.prems by (simp add: inline_wf_def)
      moreover have "length (ihp_pending ?p) < length (ihp_pending p)" using find_sub_shrinks [OF Some close] by simp
      ultimately show ?thesis using active Some less.hyps [of ?p] by (subst inline_loop.simps) simp
    qed (use active close less.prems in \<open>subst inline_loop.simps, simp add: inline_wf_def Let_def\<close>)
  next
    case active: None
    show ?thesis
    proof (cases "find_next_open p")
      case None
      with active less.prems show ?thesis
        by (subst inline_loop.simps) (simp add: drain_visible_to_suffix_match_def inline_wf_def Let_def)
    next
      case (Some found)
      obtain pos idx where f: "found = (pos, idx)" by fastforce
      note d = find_next_openD [OF Some [unfolded f]]
      let ?spec = "ihp_specs p ! idx"
      have spec: "its_open ?spec \<noteq> []" "its_close ?spec \<noteq> []"
        using less.prems d by (auto simp: inline_wf_def list_all_length)
      let ?p = "p\<lparr> ihp_pending := drop (pos + length (its_open ?spec)) (ihp_pending p),
        ihp_active := Some \<lparr> act_tag = its_tag ?spec, act_close = its_close ?spec, act_content = [] \<rparr> \<rparr>"
      have "inline_wf ?p" using less.prems spec by (simp add: inline_wf_def)
      moreover have "length (ihp_pending ?p) < length (ihp_pending p)" using find_sub_shrinks [OF d [THEN conjunct2] spec(1)] by simp
      ultimately show ?thesis using active Some f less.hyps [of ?p] by (subst inline_loop.simps) (simp add: Let_def)
    qed
  qed
qed

lemma push_chunks_returns:
  assumes "inline_wf p"
  shows "push_chunks inline_push_str p chunks \<noteq> None"
  using assms
proof (induction chunks arbitrary: p)
  case (Cons c cs)
  let ?p = "p\<lparr> ihp_pending := ihp_pending p @ c \<rparr>"
  have "inline_wf ?p" using Cons.prems by (simp add: inline_wf_def)
  from inline_loop_returns [OF this, of default_chunk] obtain out p' where "inline_push_str p c = Some (out, p')" "inline_wf p'"
    by (auto simp: inline_push_str_def)
  with Cons.IH show ?case by simp
qed simp

text \<open>
  The loop of the inline tag parser ends: whatever tags the parser was made with, each push of a
  stream returns, since \<open>new\<close> refuses empty delimiters and every round consumes one.
\<close>

theorem inline_push_returns:
  assumes "inline_new specs = Some p"
  shows "\<exists>out p'. push_chunks inline_push_str p chunks = Some (out, p')"
proof -
  from assms have "inline_wf p"
    by (auto simp: inline_new_def inline_wf_def inline_parser_def list_all_iff list_ex_iff split: if_splits)
  from push_chunks_returns [OF this, of chunks] show ?thesis by auto
qed

text \<open>Two tags, one delimiter a prefix of the other.\<close>

theorem inline_push_returns_witness:
  "\<exists>p out p'. inline_new [\<lparr> its_tag = (0 :: nat), its_open = ''<a'', its_close = ''>'' \<rparr>,
       \<lparr> its_tag = 1, its_open = ''<ab'', its_close = ''>'' \<rparr>] = Some p \<and>
     push_chunks inline_push_str p [''x<'', ''ab1><a2'', ''>y''] = Some (out, p')"
proof -
  let ?specs = "[\<lparr> its_tag = (0 :: nat), its_open = ''<a'', its_close = ''>'' \<rparr>,
       \<lparr> its_tag = 1, its_open = ''<ab'', its_close = ''>'' \<rparr>]"
  have "inline_new ?specs = Some (inline_parser ?specs)" by code_simp
  with inline_push_returns [OF this] show ?thesis by blast
qed

end
