(* ===== verification/StreamPlan.thy ===== *)
theory StreamPlan
  imports StreamText_Props
begin

text \<open>
  Proposed plans against a reading of the whole text line by line, and the assistant parser, which
  feeds the visible text of the citation parser to the plan parser.
\<close>

section \<open>Characters and lines\<close>

lemma chars_group_tail: "g \<in> set (chars s) \<Longrightarrow> list_all is_cont_byte (tl g)"
proof (induction s arbitrary: g)
  case (Cons b bs)
  show ?case
  proof (cases "chars bs")
    case (Cons k ks)
    with Cons.IH [of k] Cons.prems Cons.IH chars_ne [of k bs] show ?thesis
      by (cases k) (auto split: if_splits)
  qed (use Cons.prems in auto)
qed simp

lemma nl_no_cont: "\<not> is_cont_byte nl"
  by code_simp

lemma nl_group:
  assumes "valid_utf8 s" "g \<in> set (chars s)"
  shows "g = [nl] \<or> nl \<notin> set g"
proof (cases "nl \<in> set g")
  case True
  then obtain x y where g: "g = x @ nl # y" by (auto simp: in_set_conv_decomp)
  note tail = chars_group_tail [OF assms(2)]
  have x: "x = []" using tail nl_no_cont by (cases x) (auto simp: g)
  have "y = []"
  proof (rule ccontr)
    assume "y \<noteq> []"
    from assms(2) obtain gs hs where "chars s = gs @ g # hs" by (auto simp: in_set_conv_decomp)
    then have "s = concat gs @ nl # (y @ concat hs)"
      using concat_chars [of s] by (simp add: g x del: concat_chars)
    moreover have "of_char nl < (128 :: nat)" by code_simp
    ultimately have "char_boundary (y @ concat hs)" using valid_utf8_boundaries [OF assms(1)] by blast
    with \<open>y \<noteq> []\<close> tail show False by (cases y) (auto simp: g x char_boundary_def)
  qed
  with g x show ?thesis by simp
qed simp

lemma split_lines_skip:
  "nl \<notin> set b \<Longrightarrow> split_inclusive_nl (b @ r) =
     (case split_inclusive_nl r of [] \<Rightarrow> if b = [] then [] else [b] | l # ls \<Rightarrow> (b @ l) # ls)"
  by (induction b) (auto split: list.splits)

lemma split_lines_nl: "nl \<notin> set b \<Longrightarrow> split_inclusive_nl (b @ nl # r) = (b @ [nl]) # split_inclusive_nl r"
  by (simp add: split_lines_skip)

lemma split_lines_first:
  "split_inclusive_nl r = l # ls \<Longrightarrow> \<exists>l0. nl \<notin> set l0 \<and> (l = l0 \<or> l = l0 @ [nl]) \<and> (\<exists>z. r = l0 @ z)"
proof (induction r arbitrary: l ls)
  case (Cons x xs)
  show ?case
  proof (cases "x = nl")
    case True
    with Cons.prems show ?thesis by (intro exI [of _ "[]"]) auto
  next
    case False
    show ?thesis
    proof (cases "split_inclusive_nl xs")
      case Nil
      then have "xs = []" by (cases xs) (auto split: if_splits list.splits)
      with Cons.prems False show ?thesis by (intro exI [of _ "[x]"]) auto
    next
      case (Cons k ks)
      then obtain l0 z where "nl \<notin> set l0" "k = l0 \<or> k = l0 @ [nl]" "xs = l0 @ z" using Cons.IH by blast
      with Cons.prems False Cons show ?thesis by (intro exI [of _ "x # l0"]) auto
    qed
  qed
qed simp

section \<open>Trimming a prefix\<close>

definition strip_end :: "('a \<Rightarrow> bool) \<Rightarrow> 'a list \<Rightarrow> 'a list" where
  "strip_end P xs = rev (dropWhile P (rev xs))"

lemma strip_end_prefix: "\<exists>z. strip_end P (xs @ ys) = strip_end P xs @ z"
proof (cases "dropWhile P (rev ys)")
  case Nil
  then show ?thesis by (simp add: strip_end_def dropWhile_append)
next
  case (Cons a as)
  then have "\<not> (\<forall>y\<in>set (rev ys). P y)" by (metis dropWhile_eq_Nil_conv list.distinct(1))
  with Cons have "strip_end P (xs @ ys) = xs @ rev (a # as)" by (auto simp: strip_end_def dropWhile_append)
  moreover have "xs = strip_end P xs @ rev (takeWhile P (rev xs))"
    unfolding strip_end_def rev_append [symmetric] takeWhile_dropWhile_id by simp
  ultimately show ?thesis by (metis append.assoc)
qed

lemma trim_conv: "trim s = concat (strip_end is_whitespace (dropWhile is_whitespace (chars s)))"
proof -
  have "chars (concat (dropWhile is_whitespace (chars s))) = dropWhile is_whitespace (chars s)"
    using chars_parts [of s "takeWhile is_whitespace (chars s)"] by simp
  then show ?thesis by (simp add: trim_def trim_end_def trim_start_def strip_end_def)
qed

lemma trim_prefix:
  assumes "char_boundary w" "trim_start b \<noteq> []"
  shows "\<exists>z. trim (b @ w) = trim b @ z"
proof -
  have "dropWhile is_whitespace (chars b) \<noteq> []"
    using assms(2) unfolding trim_start_def by (metis concat.simps(1))
  then have "dropWhile is_whitespace (chars b @ chars w) = dropWhile is_whitespace (chars b) @ chars w"
    by (metis dropWhile_append1 dropWhile_eq_Nil_conv)
  then show ?thesis
    using strip_end_prefix [of is_whitespace "dropWhile is_whitespace (chars b)" "chars w"] assms(1)
    by (auto simp: trim_conv chars_append)
qed

section \<open>Plans in a whole text\<close>

datatype plan_event = EvNormal char | EvStart | EvPlan char | EvEnd

fun plan_events :: "proposed_plan_segment \<Rightarrow> plan_event list" where
  "plan_events (PlanNormal s) = map EvNormal s"
| "plan_events ProposedPlanStart = [EvStart]"
| "plan_events (ProposedPlanDelta s) = map EvPlan s"
| "plan_events ProposedPlanEnd = [EvEnd]"

definition events :: "proposed_plan_segment list \<Rightarrow> plan_event list" where
  "events segments = concat (map plan_events segments)"

definition normal_text :: "plan_event list \<Rightarrow> string" where
  "normal_text evs = List.map_filter (\<lambda>e. case e of EvNormal c \<Rightarrow> Some c | _ \<Rightarrow> None) evs"

definition text_events :: "bool \<Rightarrow> string \<Rightarrow> plan_event list" where
  "text_events in_plan s = map (if in_plan then EvPlan else EvNormal) s"

definition line_slug :: "string \<Rightarrow> string" where
  "line_slug line = trim (unwrap_or line (strip_suffix [nl] line))"

text \<open>
  A line that holds only the opening tag starts a plan outside of one, a line that holds only the
  closing tag ends it; an open plan ends with the text.
\<close>

fun plan_lines :: "bool \<Rightarrow> string list \<Rightarrow> plan_event list" where
  "plan_lines in_plan [] = (if in_plan then [EvEnd] else [])"
| "plan_lines in_plan (line # lines) =
     (if \<not> in_plan \<and> line_slug line = OPEN_TAG then EvStart # plan_lines True lines
      else if in_plan \<and> line_slug line = CLOSE_TAG then EvEnd # plan_lines False lines
      else text_events in_plan line @ plan_lines in_plan lines)"

definition read_plans :: "string \<Rightarrow> plan_event list" where
  "read_plans s = plan_lines False (split_inclusive_nl s)"

section \<open>The plan parser\<close>

definition in_plan :: "proposed_plan_parser \<Rightarrow> bool" where
  "in_plan p \<longleftrightarrow> tlp_active_tag p \<noteq> None"

definition plan_rest :: "proposed_plan_parser \<Rightarrow> string \<Rightarrow> plan_event list" where
  "plan_rest p r =
     (if tlp_detect_tag p then plan_lines (in_plan p) (split_inclusive_nl (tlp_line_buffer p @ r))
      else (case split_inclusive_nl r of
              [] \<Rightarrow> plan_lines (in_plan p) []
            | l # ls \<Rightarrow> text_events (in_plan p) l @ plan_lines (in_plan p) ls))"

definition plan_meaning :: "proposed_plan_parser \<Rightarrow> string \<Rightarrow> string \<times> plan_event list" where
  "plan_meaning p r = (normal_text (plan_rest p r), plan_rest p r)"

definition plan_ok :: "proposed_plan_parser \<Rightarrow> bool" where
  "plan_ok p \<longleftrightarrow> tlp_specs p = [plan_spec] \<and> nl \<notin> set (tlp_line_buffer p) \<and>
     (tlp_detect_tag p \<or> tlp_line_buffer p = [])"

definition seg_events :: "plan_tag tagged_line_segment list \<Rightarrow> plan_event list" where
  "seg_events segments = events (map map_segment segments)"

lemma text_events_append [simp]: "text_events b (s @ t) = text_events b s @ text_events b t"
  by (simp add: text_events_def)

lemma text_events_Nil [simp]: "text_events b [] = []"
  by (simp add: text_events_def)

lemma seg_events_append [simp]: "seg_events (a @ b) = seg_events a @ seg_events b"
  by (simp add: seg_events_def events_def)

lemma map_segment_any [simp]:
  "map_segment (SegTagStart tag) = ProposedPlanStart"
  "map_segment (SegTagDelta tag s) = ProposedPlanDelta s"
  "map_segment (SegTagEnd tag) = ProposedPlanEnd"
  by (cases tag; simp)+

lemma plan_tag_eq [simp]: "(a :: plan_tag) = b"
  by (cases a; cases b) simp

lemma seg_events_push: "seg_events (push_segment segments seg) = seg_events segments @ seg_events [seg]"
proof (cases segments rule: rev_cases)
  case Nil
  then show ?thesis by (cases seg) (auto simp: seg_events_def events_def)
next
  case (snoc ss l)
  then show ?thesis
    by (cases seg; cases l) (auto simp: last_opt_conv seg_events_def events_def)
qed

lemma seg_events_one [simp]:
  "seg_events [SegNormal s] = text_events False s" "seg_events [SegTagDelta tag s] = text_events True s"
  "seg_events [SegTagStart tag] = [EvStart]" "seg_events [SegTagEnd tag] = [EvEnd]" "seg_events [] = []"
  by (simp_all add: seg_events_def events_def text_events_def)

lemma seg_events_text [simp]: "seg_events (push_text p s segments) = seg_events segments @ text_events (in_plan p) s"
  by (cases "tlp_active_tag p") (simp_all add: push_text_def seg_events_push in_plan_def del: push_segment.simps)

lemma classify_plan_line:
  assumes "tlp_specs p = [plan_spec]"
  shows "classify_line p line =
    (if \<not> in_plan p \<and> line_slug line = OPEN_TAG then Some (SegTagStart ProposedPlan)
     else if in_plan p \<and> line_slug line = CLOSE_TAG then Some (SegTagEnd ProposedPlan)
     else None)"
  using assms
  by (cases "tlp_active_tag p")
    (auto simp: classify_line_def match_open_def match_close_def plan_spec_def in_plan_def line_slug_def trim_def
      Let_def split: if_splits)

text \<open>The events so far, the run of plain text, and what the parser makes of the rest.\<close>

fun state_events :: "string \<times> plan_tag tagged_line_segment list \<times> proposed_plan_parser \<Rightarrow> string \<Rightarrow> plan_event list" where
  "state_events (run, segments, p) r = seg_events segments @ text_events (in_plan p) run @ plan_rest p r"

fun state_ok :: "string \<times> plan_tag tagged_line_segment list \<times> proposed_plan_parser \<Rightarrow> bool" where
  "state_ok (run, segments, p) \<longleftrightarrow> plan_ok p \<and> (tlp_detect_tag p \<longrightarrow> run = [])"

lemma finish_line_events:
  assumes "tlp_specs p = [plan_spec]" "tagged_finish_line p segments = (segments', p')"
  shows "seg_events segments' @ plan_rest p' r =
      seg_events segments @ plan_lines (in_plan p) (tlp_line_buffer p # split_inclusive_nl r)"
    "plan_ok p'" "tlp_detect_tag p'"
  using assms
  by (auto simp: tagged_finish_line_def classify_plan_line seg_events_push plan_rest_def plan_ok_def in_plan_def Let_def
      simp del: push_segment.simps split: if_splits)

lemma strip_nl_none: "nl \<notin> set s \<Longrightarrow> strip_suffix [nl] s = None"
  by (cases "strip_suffix [nl] s") (auto simp: strip_suffix_Some)

lemma is_plan_tag_prefix:
  "tlp_specs p = [plan_spec] \<Longrightarrow>
    is_tag_prefix p (trim_start b) \<longleftrightarrow> (\<exists>r. OPEN_TAG = trim b @ r) \<or> (\<exists>r. CLOSE_TAG = trim b @ r)"
  by (simp add: is_tag_prefix_def plan_spec_def trim_def starts_with_iff Let_def)

text \<open>Text that cannot become a tag any more is a line without a tag.\<close>

lemma no_tag_prefix_line:
  assumes "tlp_specs p = [plan_spec]" "nl \<notin> set b" "trim_start b \<noteq> []" "\<not> is_tag_prefix p (trim_start b)"
    "split_inclusive_nl r = l # ls" "char_boundary r"
  shows "line_slug (b @ l) \<noteq> OPEN_TAG \<and> line_slug (b @ l) \<noteq> CLOSE_TAG"
proof -
  obtain l0 z where l0: "nl \<notin> set l0" "l = l0 \<or> l = l0 @ [nl]" "r = l0 @ z" using split_lines_first [OF assms(5)] by blast
  have "unwrap_or (b @ l) (strip_suffix [nl] (b @ l)) = b @ l0"
  proof (cases "l = l0 @ [nl]")
    case True
    then show ?thesis using strip_suffix_append [of "[nl]" "b @ l0"] by simp
  next
    case False
    with l0 assms(2) have "strip_suffix [nl] (b @ l) = None" by (intro strip_nl_none) auto
    with False l0(2) show ?thesis by simp
  qed
  moreover have "char_boundary l0" using assms(6) l0(3) by (cases l0) (auto simp: char_boundary_def)
  ultimately obtain y where "line_slug (b @ l) = trim b @ y"
    using trim_prefix [OF _ assms(3)] unfolding line_slug_def by metis
  with assms(4) show ?thesis unfolding is_plan_tag_prefix [OF assms(1)] by metis
qed

lemma no_tag_prefix_rest:
  assumes "tlp_specs p = [plan_spec]" "nl \<notin> set b" "trim_start b \<noteq> []" "\<not> is_tag_prefix p (trim_start b)" "char_boundary r"
  shows "plan_lines q (split_inclusive_nl (b @ r)) =
    text_events q b @ (case split_inclusive_nl r of [] \<Rightarrow> plan_lines q [] | l # ls \<Rightarrow> text_events q l @ plan_lines q ls)"
proof (cases "split_inclusive_nl r")
  case Nil
  then have "r = []" by (cases r) (auto split: if_splits list.splits)
  have "b \<noteq> []" using assms(3) by (auto simp: trim_start_def)
  have "line_slug (b @ []) \<noteq> OPEN_TAG \<and> line_slug (b @ []) \<noteq> CLOSE_TAG"
  proof -
    from strip_nl_none [OF assms(2)] have "line_slug (b @ []) = trim b @ []" by (simp add: line_slug_def)
    with assms(4) show ?thesis unfolding is_plan_tag_prefix [OF assms(1)] by metis
  qed
  with Nil assms(2) \<open>b \<noteq> []\<close> show ?thesis by (simp add: split_lines_skip)
next
  case (Cons l ls)
  from no_tag_prefix_line [OF assms(1-4) Cons assms(5)] Cons assms(2) show ?thesis by (simp add: split_lines_skip)
qed

lemma parse_char_events:
  assumes "state_ok st" "ch = [nl] \<or> ch \<noteq> [] \<and> nl \<notin> set ch" "char_boundary r"
  shows "state_events st (ch @ r) = state_events (parse_char ch st) r \<and> state_ok (parse_char ch st)"
proof -
  obtain run segments p where st: "st = (run, segments, p)" by (metis prod_cases3)
  from assms(1) st have p: "tlp_specs p = [plan_spec]" "nl \<notin> set (tlp_line_buffer p)"
    "tlp_detect_tag p \<Longrightarrow> run = []" "\<not> tlp_detect_tag p \<Longrightarrow> tlp_line_buffer p = []" by (auto simp: plan_ok_def)
  show ?thesis
  proof (cases "tlp_detect_tag p")
    case detect: True
    note run = p(3) [OF detect]
    let ?p = "p\<lparr> tlp_line_buffer := tlp_line_buffer p @ ch \<rparr>"
    show ?thesis
    proof (cases "ch = [nl]")
      case True
      obtain segments' p' where f: "tagged_finish_line ?p segments = (segments', p')" by fastforce
      have "parse_char ch st = ([], segments', p')" using st detect run True f by (simp add: parse_char_def Let_def)
      moreover have sp: "tlp_specs ?p = [plan_spec]" using p(1) by simp
      ultimately show ?thesis
        using finish_line_events(1) [OF sp f, of r] finish_line_events(2,3) [OF sp f] True detect run st p(2)
        by (simp add: plan_rest_def split_lines_nl in_plan_def)
    next
      case False
      with assms(2) have ch: "nl \<notin> set ch" by simp
      let ?b = "tlp_line_buffer p @ ch"
      show ?thesis
      proof (cases "trim_start ?b = [] \<or> is_tag_prefix ?p (trim_start ?b)")
        case True
        then have "parse_char ch st = ([], segments, ?p)" using st detect run False by (simp add: parse_char_def Let_def)
        with st detect run p ch show ?thesis by (simp add: plan_rest_def in_plan_def plan_ok_def)
      next
        case no_tag: False
        let ?q = "p\<lparr> tlp_line_buffer := [], tlp_detect_tag := False \<rparr>"
        have "parse_char ch st = ([], push_text ?q ?b segments, ?q)"
          using st detect run False no_tag by (simp add: parse_char_def Let_def)
        moreover have "plan_rest p (ch @ r) = text_events (in_plan p) ?b @ plan_rest ?q r"
          using no_tag_prefix_rest [of ?p ?b r "in_plan p"] p(1,2) ch no_tag assms(3) detect
          by (simp add: plan_rest_def in_plan_def cong: list.case_cong)
        ultimately show ?thesis using st run p(1) by (simp add: plan_ok_def in_plan_def)
      qed
    qed
  next
    case plain: False
    show ?thesis
    proof (cases "ch = [nl]")
      case True
      then have "parse_char ch st = ([], push_text p (run @ ch) segments, p\<lparr> tlp_detect_tag := True \<rparr>)"
        using st plain by (simp add: parse_char_def)
      with True st plain p(1) p(4) [OF plain] show ?thesis by (simp add: plan_rest_def in_plan_def plan_ok_def)
    next
      case False
      then have "parse_char ch st = (run @ ch, segments, p)" using st plain by (simp add: parse_char_def)
      moreover have "plan_rest p (ch @ r) = text_events (in_plan p) ch @ plan_rest p r"
        using plain False assms(2) by (auto simp: plan_rest_def split_lines_skip split: list.split)
      ultimately show ?thesis using st plain assms(1) by simp
    qed
  qed
qed

lemma parse_chars_events:
  assumes "state_ok st" "\<And>g. g \<in> set gs \<Longrightarrow> g = [nl] \<or> g \<noteq> [] \<and> nl \<notin> set g"
    "\<And>xs ys. gs = xs @ ys \<Longrightarrow> xs \<noteq> [] \<Longrightarrow> char_boundary (concat ys @ r)"
  shows "state_events st (concat gs @ r) = state_events (fold parse_char gs st) r \<and> state_ok (fold parse_char gs st)"
  using assms
proof (induction gs arbitrary: st)
  case (Cons g gs)
  have "char_boundary (concat gs @ r)" using Cons.prems(3) [of "[g]" gs] by simp
  from parse_char_events [OF Cons.prems(1) Cons.prems(2) this]
  have 1: "state_events st (g @ concat gs @ r) = state_events (parse_char g st) (concat gs @ r)" "state_ok (parse_char g st)"
    by simp_all
  have "state_events (parse_char g st) (concat gs @ r) = state_events (fold parse_char gs (parse_char g st)) r \<and>
      state_ok (fold parse_char gs (parse_char g st))"
  proof (rule Cons.IH [OF 1(2)])
    show "h = [nl] \<or> h \<noteq> [] \<and> nl \<notin> set h" if "h \<in> set gs" for h using Cons.prems(2) that by simp
    show "char_boundary (concat ys @ r)" if "gs = xs @ ys" "xs \<noteq> []" for xs ys
      using Cons.prems(3) [of "g # xs" ys] that by simp
  qed
  with 1(1) show ?case by simp
qed simp

lemma boundary_append: "char_boundary a \<Longrightarrow> char_boundary b \<Longrightarrow> char_boundary (a @ b)"
  by (cases a) (auto simp: char_boundary_def)

lemma plan_push:
  assumes "plan_ok p" "valid_utf8 c" "plan_push_str p c = (out, p')"
  shows "plan_ok p' \<and> (\<forall>r. char_boundary r \<longrightarrow> plan_rest p (c @ r) = events (extracted out) @ plan_rest p' r)"
proof -
  obtain run segments q where f: "fold parse_char (chars c) ([], [], p) = (run, segments, q)" by (metis prod_cases3)
  have step: "state_events ([], [], p) (concat (chars c) @ r) = state_events (run, segments, q) r \<and> state_ok (run, segments, q)"
    if r: "char_boundary r" for r
    unfolding f [symmetric]
  proof (rule parse_chars_events)
    show "g = [nl] \<or> g \<noteq> [] \<and> nl \<notin> set g" if "g \<in> set (chars c)" for g
      using nl_group [OF assms(2) that] chars_ne [OF that] by blast
    show "char_boundary (concat ys @ r)" if "chars c = xs @ ys" "xs \<noteq> []" for xs ys
      using boundary_append [OF chars_later_boundary [OF that] r] .
  qed (use assms(1) in simp)
  have out: "extracted out = map map_segment (if run \<noteq> [] then push_text q run segments else segments)" "p' = q"
    using assms(3) f by (auto simp: plan_push_str_def tagged_parse_def map_segments_def)
  then have "events (extracted out) = seg_events segments @ text_events (in_plan q) run"
    using seg_events_text [of q run segments] by (auto simp: seg_events_def split: if_splits)
  with step out(2) show ?thesis using step [of "[]"] by (auto simp: seg_events_def events_def char_boundary_def)
qed

lemma normal_text_append [simp]: "normal_text (a @ b) = normal_text a @ normal_text b"
  by (simp add: normal_text_def List.map_filter_def)

lemma normal_text_events: "visible_text (map_segments segments) = normal_text (events (extracted (map_segments segments)))"
proof -
  have "normal_text (map EvNormal s) = s" "normal_text (map EvPlan s) = []" for s
    by (induction s) (simp_all add: normal_text_def List.map_filter_def)
  then have "normal_text (plan_events seg) = plan_normal seg" for seg
    by (cases seg) (simp_all add: normal_text_def List.map_filter_def)
  then have "normal_text (events segs) = concat (map plan_normal segs)" for segs
    by (induction segs) (simp_all add: events_def, simp add: normal_text_def List.map_filter_def)
  then show ?thesis by (simp add: map_segments_def)
qed

lemma plan_visible:
  "plan_push_str p c = (out, p') \<Longrightarrow> visible_text out = normal_text (events (extracted out))"
  "plan_finish p = (out, p') \<Longrightarrow> visible_text out = normal_text (events (extracted out))"
  using normal_text_events by (auto simp: plan_push_str_def plan_finish_def split: prod.splits)

lemma plan_finished:
  assumes "plan_ok p" "plan_finish p = (out, p')"
  shows "plan_rest p [] = events (extracted out)"
proof (cases "tlp_line_buffer p = []")
  case True
  then have "plan_rest p [] = plan_lines (in_plan p) []" by (simp add: plan_rest_def)
  moreover have "extracted out = map map_segment (case tlp_active_tag p of Some tag \<Rightarrow> [SegTagEnd tag] | None \<Rightarrow> [])"
    using assms(2) True by (auto simp: plan_finish_def tagged_finish_def map_segments_def split: option.splits)
  ultimately show ?thesis by (simp add: events_def in_plan_def split: option.split)
next
  case False
  with assms(1) have detect: "tlp_detect_tag p" "tlp_specs p = [plan_spec]" "nl \<notin> set (tlp_line_buffer p)"
    by (auto simp: plan_ok_def)
  then have rest: "plan_rest p [] = plan_lines (in_plan p) [tlp_line_buffer p]"
    using False split_lines_skip [of "tlp_line_buffer p" "[]"] by (simp add: plan_rest_def)
  let ?q = "p\<lparr> tlp_line_buffer := [] \<rparr>"
  have c: "classify_line ?q (tlp_line_buffer p) =
    (if \<not> in_plan p \<and> line_slug (tlp_line_buffer p) = OPEN_TAG then Some (SegTagStart ProposedPlan)
     else if in_plan p \<and> line_slug (tlp_line_buffer p) = CLOSE_TAG then Some (SegTagEnd ProposedPlan)
     else None)" using classify_plan_line [of ?q] detect(2) by (simp add: in_plan_def)
  obtain segs where segs: "extracted out = map map_segment segs" "fst (tagged_finish p) = segs"
    using assms(2) by (auto simp: plan_finish_def map_segments_def split: prod.splits)
  have "seg_events segs = plan_lines (in_plan p) [tlp_line_buffer p]"
    using segs(2) False c
    by (auto simp: tagged_finish_def Let_def seg_events_push in_plan_def simp del: push_segment.simps split: if_splits option.splits)
  with rest segs(1) show ?thesis by (simp add: seg_events_def)
qed

interpretation plan_stream: text_stream "\<lambda>p c. Some (plan_push_str p c)" plan_finish plan_ok events plan_meaning
proof
  fix p c assume "plan_ok p" "valid_utf8 c"
  obtain out p' where o: "plan_push_str p c = (out, p')" by fastforce
  from plan_push [OF \<open>plan_ok p\<close> \<open>valid_utf8 c\<close> o] plan_visible(1) [OF o] valid_utf8_boundaries
  show "\<exists>out p'. Some (plan_push_str p c) = Some (out, p') \<and> plan_ok p' \<and>
      (\<forall>r. valid_utf8 r \<longrightarrow> plan_meaning p (c @ r) =
         (visible_text out @ fst (plan_meaning p' r), events (extracted out) @ snd (plan_meaning p' r)))"
    by (auto simp: o plan_meaning_def)
next
  fix p out p' assume "plan_ok p" "plan_finish p = (out, p')"
  with plan_finished plan_visible(2) show "plan_meaning p [] = (visible_text out, events (extracted out))"
    by (simp add: plan_meaning_def)
qed (simp_all add: events_def)

section \<open>Assistant text\<close>

text \<open>All visible text, citations and plan segments of a stream.\<close>

fun push_assistant ::
  "assistant_text_stream_parser \<Rightarrow> string list \<Rightarrow> (assistant_text_chunk \<times> assistant_text_stream_parser) option" where
  "push_assistant p [] = Some (\<lparr> atc_visible_text = [], atc_citations = [], atc_plan_segments = [] \<rparr>, p)"
| "push_assistant p (c # cs) =
     (case assistant_push_str p c of
        None \<Rightarrow> None
      | Some (out, p) \<Rightarrow>
          map_option (\<lambda>(more, p). (\<lparr> atc_visible_text = atc_visible_text out @ atc_visible_text more,
              atc_citations = atc_citations out @ atc_citations more,
              atc_plan_segments = atc_plan_segments out @ atc_plan_segments more \<rparr>, p))
            (push_assistant p cs))"

definition run_assistant :: "bool \<Rightarrow> string list \<Rightarrow> assistant_text_chunk option" where
  "run_assistant plan_mode cs =
     map_option (\<lambda>(out, p). case assistant_finish p of (tail, _) \<Rightarrow>
         \<lparr> atc_visible_text = atc_visible_text out @ atc_visible_text tail,
           atc_citations = atc_citations out @ atc_citations tail,
           atc_plan_segments = atc_plan_segments out @ atc_plan_segments tail \<rparr>)
       (push_assistant (assistant_new plan_mode) cs)"

lemma citation_meaning_valid:
  assumes "citation_ok p" "valid_utf8 r"
  shows "valid_utf8 (fst (citation_meaning p r))"
proof -
  from citation_push [OF assms] obtain out p' where
    o: "citation_ok p'" "valid_utf8 (visible_text out)"
      "citation_meaning p (r @ []) = (visible_text out @ fst (citation_meaning p' []), extracted out @ snd (citation_meaning p' []))"
      "citation_push_str p r = Some (out, p')"
    by blast
  obtain tail p'' where f: "citation_finish p' = (tail, p'')" by fastforce
  have "valid_utf8 (visible_text tail)"
    using f o(1) by (auto simp: citation_finish_def inline_finish_def citation_chunk_of_def citation_ok_def citation_shape_def split: option.splits)
  with citation_finished [OF o(1) f] o(2,3) show ?thesis by (simp add: valid_utf8_append)
qed

definition assistant_ok :: "assistant_text_stream_parser \<Rightarrow> bool" where
  "assistant_ok p \<longleftrightarrow> citation_ok (atp_citations p) \<and> plan_ok (atp_plan p)"

definition assistant_rest :: "assistant_text_stream_parser \<Rightarrow> string \<Rightarrow> string \<times> string list \<times> plan_event list" where
  "assistant_rest p r =
     (case citation_meaning (atp_citations p) r of (v, cs) \<Rightarrow>
        if atp_plan_mode p then (normal_text (plan_rest (atp_plan p) v), cs, plan_rest (atp_plan p) v)
        else (v, cs, []))"

definition chunk_obs :: "assistant_text_chunk \<Rightarrow> string \<times> string list \<times> plan_event list" where
  "chunk_obs c = (atc_visible_text c, atc_citations c, events (atc_plan_segments c))"

fun obs_plus :: "string \<times> string list \<times> plan_event list \<Rightarrow> string \<times> string list \<times> plan_event list
    \<Rightarrow> string \<times> string list \<times> plan_event list" where
  "obs_plus (v, cs, es) (v', cs', es') = (v @ v', cs @ cs', es @ es')"

lemma parse_visible:
  assumes "assistant_ok p" "valid_utf8 s" "parse_visible_text p s = (out, p')"
  shows "assistant_ok p' \<and> atp_plan_mode p' = atp_plan_mode p \<and> atp_citations p' = atp_citations p \<and> atc_citations out = [] \<and>
    (\<forall>v. char_boundary v \<longrightarrow> plan_rest (atp_plan p) (s @ v) = events (atc_plan_segments out) @ plan_rest (atp_plan p') v \<or> \<not> atp_plan_mode p) \<and>
    atc_visible_text out = (if atp_plan_mode p then normal_text (events (atc_plan_segments out)) else s) \<and>
    (atp_plan_mode p \<or> atc_plan_segments out = [])"
proof (cases "atp_plan_mode p")
  case True
  obtain chunk plan where c: "plan_push_str (atp_plan p) s = (chunk, plan)" by fastforce
  from plan_push [OF _ assms(2) c] plan_visible(1) [OF c] assms(1,3) True c show ?thesis
    by (auto simp: parse_visible_text_def assistant_ok_def)
next
  case False
  with assms(1,3) show ?thesis by (auto simp: parse_visible_text_def)
qed

lemma assistant_push:
  assumes "assistant_ok p" "valid_utf8 c"
  shows "\<exists>out p'. assistant_push_str p c = Some (out, p') \<and> assistant_ok p' \<and> atp_plan_mode p' = atp_plan_mode p \<and>
    (\<forall>r. valid_utf8 r \<longrightarrow> assistant_rest p (c @ r) = obs_plus (chunk_obs out) (assistant_rest p' r))"
proof -
  from assms citation_push [of "atp_citations p" c] obtain cc cit where
    cit: "citation_push_str (atp_citations p) c = Some (cc, cit)" "citation_ok cit" "valid_utf8 (visible_text cc)"
      "\<And>r. citation_meaning (atp_citations p) (c @ r) =
         (visible_text cc @ fst (citation_meaning cit r), extracted cc @ snd (citation_meaning cit r))"
    unfolding assistant_ok_def by blast
  obtain out p' where o: "parse_visible_text (p\<lparr> atp_citations := cit \<rparr>) (visible_text cc) = (out, p')" by fastforce
  have ok: "assistant_ok (p\<lparr> atp_citations := cit \<rparr>)" using assms(1) cit(2) by (simp add: assistant_ok_def)
  note pv = parse_visible [OF ok cit(3) o, simplified]
  have "assistant_rest p (c @ r) = obs_plus (chunk_obs (out\<lparr> atc_citations := extracted cc \<rparr>)) (assistant_rest p' r)"
    if "valid_utf8 r" for r
  proof -
    obtain v cs where m: "citation_meaning cit r = (v, cs)" by fastforce
    then have "char_boundary v" using citation_meaning_valid [OF cit(2) that] valid_utf8_boundaries [of v] by simp
    with pv m cit(4) [of r] show ?thesis
      by (cases "atp_plan_mode p") (auto simp: assistant_rest_def chunk_obs_def events_def)
  qed
  with cit(1) o pv show ?thesis by (simp add: assistant_push_str_def)
qed

lemma assistant_finished:
  assumes "assistant_ok p" "assistant_finish p = (out, p')"
  shows "assistant_rest p [] = chunk_obs out"
proof -
  obtain cc cit where f: "citation_finish (atp_citations p) = (cc, cit)" by fastforce
  have m: "citation_meaning (atp_citations p) [] = (visible_text cc, extracted cc)"
    using citation_finished [OF _ f] assms(1) by (simp add: assistant_ok_def)
  have valid: "valid_utf8 (visible_text cc)"
    using citation_meaning_valid [of "atp_citations p" "[]"] m assms(1) by (simp add: assistant_ok_def)
  have "citation_ok cit" using f assms(1)
    by (auto simp: citation_finish_def inline_finish_def assistant_ok_def citation_ok_def citation_shape_def
        citation_delimiters split: option.splits)
  then have ok: "assistant_ok (p\<lparr> atp_citations := cit \<rparr>)" using assms(1) by (simp add: assistant_ok_def)
  obtain out1 p1 where o: "parse_visible_text (p\<lparr> atp_citations := cit \<rparr>) (visible_text cc) = (out1, p1)" by fastforce
  note pv = parse_visible [OF ok valid o, simplified]
  show ?thesis
  proof (cases "atp_plan_mode p")
    case True
    obtain tail plan where t: "plan_finish (atp_plan p1) = (tail, plan)" by fastforce
    have "plan_rest (atp_plan p1) [] = events (extracted tail)" using plan_finished [OF _ t] pv by (simp add: assistant_ok_def)
    moreover have "plan_rest (atp_plan p) (visible_text cc) = events (atc_plan_segments out1) @ plan_rest (atp_plan p1) []"
      using pv True by (metis append_Nil2 char_boundary_def)
    moreover have "chunk_obs out = (atc_visible_text out1 @ visible_text tail, extracted cc, events (atc_plan_segments out1 @ extracted tail))"
      using assms(2) f o t pv True
      by (auto simp: assistant_finish_def chunk_obs_def stream_chunk_is_empty_def split: if_splits)
    ultimately show ?thesis
      using m True pv plan_visible(2) [OF t] by (simp add: assistant_rest_def events_def)
  next
    case False
    with assms(2) f o pv have "chunk_obs out = (atc_visible_text out1, extracted cc, events (atc_plan_segments out1))"
      by (auto simp: assistant_finish_def chunk_obs_def)
    with m False pv show ?thesis by (simp add: assistant_rest_def events_def)
  qed
qed

lemma obs_plus_assoc: "obs_plus (obs_plus a b) c = obs_plus a (obs_plus b c)"
  by (cases a; cases b; cases c) auto

lemma push_assistant_ok:
  assumes "assistant_ok p" "list_all valid_utf8 cs"
  shows "\<exists>out p'. push_assistant p cs = Some (out, p') \<and> assistant_ok p' \<and>
    (\<forall>r. valid_utf8 r \<longrightarrow> assistant_rest p (concat cs @ r) = obs_plus (chunk_obs out) (assistant_rest p' r))"
  using assms
proof (induction cs arbitrary: p)
  case Nil
  have "obs_plus ([], [], []) x = x" for x by (cases x) auto
  with Nil show ?case by (simp add: chunk_obs_def events_def)
next
  case (Cons c cs)
  from assistant_push [OF Cons.prems(1), of c] Cons.prems(2) obtain out p1 where
    1: "assistant_push_str p c = Some (out, p1)" "assistant_ok p1"
      "\<And>r. valid_utf8 r \<Longrightarrow> assistant_rest p (c @ r) = obs_plus (chunk_obs out) (assistant_rest p1 r)" by auto
  from Cons.IH [OF 1(2)] Cons.prems(2) obtain more p2 where
    2: "push_assistant p1 cs = Some (more, p2)" "assistant_ok p2"
      "\<And>r. valid_utf8 r \<Longrightarrow> assistant_rest p1 (concat cs @ r) = obs_plus (chunk_obs more) (assistant_rest p2 r)" by auto
  let ?out = "\<lparr> atc_visible_text = atc_visible_text out @ atc_visible_text more,
              atc_citations = atc_citations out @ atc_citations more,
              atc_plan_segments = atc_plan_segments out @ atc_plan_segments more \<rparr>"
  have "assistant_rest p (concat (c # cs) @ r) = obs_plus (chunk_obs ?out) (assistant_rest p2 r)" if "valid_utf8 r" for r
  proof -
    have "valid_utf8 (concat cs @ r)" using Cons.prems(2) that by (simp add: valid_utf8_append valid_utf8_concat)
    from 1(3) [OF this] 2(3) [OF that] show ?thesis
      by (simp add: chunk_obs_def events_def obs_plus_assoc [symmetric])
  qed
  with 1(1) 2(1,2) show ?case by simp
qed

lemma push_assistant_no_plan:
  "push_assistant p cs = Some (out, p') \<Longrightarrow> \<not> atp_plan_mode p \<Longrightarrow> atc_plan_segments out = [] \<and> \<not> atp_plan_mode p'"
proof (induction cs arbitrary: p out)
  case (Cons c cs)
  then show ?case
    by (fastforce simp: assistant_push_str_def parse_visible_text_def split: option.splits prod.splits)
qed auto

lemma finish_no_plan: "\<not> atp_plan_mode p \<Longrightarrow> atc_plan_segments (fst (assistant_finish p)) = []"
  by (cases "citation_finish (atp_citations p)") (simp add: assistant_finish_def parse_visible_text_def)

lemma run_assistant_no_plan:
  assumes "run_assistant False cs = Some out"
  shows "atc_plan_segments out = []"
proof -
  from assms obtain o1 p where p: "push_assistant (assistant_new False) cs = Some (o1, p)"
    by (auto simp: run_assistant_def)
  obtain tail p' where t: "assistant_finish p = (tail, p')" by fastforce
  from push_assistant_no_plan [OF p] have "atc_plan_segments o1 = []" "\<not> atp_plan_mode p" by (simp_all add: assistant_new_def)
  with finish_no_plan [of p] t p assms show ?thesis by (auto simp: run_assistant_def)
qed

text \<open>
  C30. The assistant parser is the composition of the two readings: for every cutting of a text into
  chunks, in plan mode the citations are those of the whole text, the visible text is what is outside
  of the plans of the text without citations, and the plan segments say, event by event, what
  reading that text line by line says; outside of plan mode the text without citations is visible.
\<close>

theorem assistant_text_chunk_independent:
  assumes "list_all valid_utf8 chunks" "outside_citation (concat chunks) = (v, cites)"
  shows "run_assistant False chunks = Some \<lparr> atc_visible_text = v, atc_citations = cites, atc_plan_segments = [] \<rparr> \<and>
    (\<exists>segments. run_assistant True chunks =
        Some \<lparr> atc_visible_text = normal_text (read_plans v), atc_citations = cites, atc_plan_segments = segments \<rparr> \<and>
      events segments = read_plans v)"
proof -
  have run: "\<exists>out. run_assistant mode chunks = Some out \<and> chunk_obs out = assistant_rest (assistant_new mode) (concat chunks)" for mode
  proof -
    have "assistant_ok (assistant_new mode)"
      by (simp add: assistant_ok_def assistant_new_def citation_ok_new plan_new_def tagged_new_def plan_ok_def)
    from push_assistant_ok [OF this assms(1)] obtain out p where
      o: "push_assistant (assistant_new mode) chunks = Some (out, p)" "assistant_ok p"
        "assistant_rest (assistant_new mode) (concat chunks @ []) = obs_plus (chunk_obs out) (assistant_rest p [])"
      using valid_utf8_Nil by blast
    obtain tail p' where t: "assistant_finish p = (tail, p')" by fastforce
    from assistant_finished [OF o(2) t] o t show ?thesis
      by (simp add: run_assistant_def chunk_obs_def events_def)
  qed
  have rest: "assistant_rest (assistant_new mode) (concat chunks) =
      (if mode then (normal_text (read_plans v), cites, read_plans v) else (v, cites, []))" for mode
    using assms(2)
    by (simp add: assistant_rest_def assistant_new_def citation_meaning_new plan_rest_def plan_new_def tagged_new_def
        read_plans_def in_plan_def)
  obtain o1 where o1: "run_assistant False chunks = Some o1" "chunk_obs o1 = (v, cites, [])" using run [of False] rest by auto
  obtain o2 where o2: "run_assistant True chunks = Some o2" "chunk_obs o2 = (normal_text (read_plans v), cites, read_plans v)"
    using run [of True] rest by auto
  have "atc_plan_segments o1 = []" using run_assistant_no_plan [OF o1(1)] .
  then have "o1 = \<lparr> atc_visible_text = v, atc_citations = cites, atc_plan_segments = [] \<rparr>" using o1(2) by (simp add: chunk_obs_def)
  moreover have "o2 = \<lparr> atc_visible_text = normal_text (read_plans v), atc_citations = cites, atc_plan_segments = atc_plan_segments o2 \<rparr>"
    "events (atc_plan_segments o2) = read_plans v" using o2(2) by (simp_all add: chunk_obs_def)
  ultimately show ?thesis using o1(1) o2(1) by metis
qed

text \<open>A plan that starts in one chunk and is not closed, with a citation cut in two.\<close>

theorem assistant_text_chunk_independent_witness:
  "\<exists>segments. run_assistant True [''hi'' @ [nl] @ ''<propo'', ''sed_plan>'' @ [nl] @ ''do <oai-mem-citation>x</oai-mem-'', ''citation>it'' @ [nl]] =
      Some \<lparr> atc_visible_text = ''hi'' @ [nl], atc_citations = [''x''], atc_plan_segments = segments \<rparr> \<and>
    events segments = map EvNormal (''hi'' @ [nl]) @ [EvStart] @ map EvPlan (''do it'' @ [nl]) @ [EvEnd]"
proof -
  let ?cs = "[''hi'' @ [nl] @ ''<propo'', ''sed_plan>'' @ [nl] @ ''do <oai-mem-citation>x</oai-mem-'', ''citation>it'' @ [nl]]"
  let ?v = "''hi'' @ [nl] @ ''<proposed_plan>'' @ [nl] @ ''do it'' @ [nl]"
  have "list_all valid_utf8 ?cs" "outside_citation (concat ?cs) = (?v, [''x''])" by code_simp+
  from assistant_text_chunk_independent [OF this]
  obtain segments where "run_assistant True ?cs =
      Some \<lparr> atc_visible_text = normal_text (read_plans ?v), atc_citations = [''x''], atc_plan_segments = segments \<rparr>"
    "events segments = read_plans ?v" by blast
  moreover have "normal_text (read_plans ?v) = ''hi'' @ [nl]"
    "read_plans ?v = map EvNormal (''hi'' @ [nl]) @ [EvStart] @ map EvPlan (''do it'' @ [nl]) @ [EvEnd]" by code_simp+
  ultimately show ?thesis by metis
qed

end
