(* ===== verification/CommandSafety.thy ===== *)
theory CommandSafety
  imports ShellDetect
begin

text \<open>
  Command safety (\<open>shell-command/src/bash.rs\<close>, \<open>command_safety/is_safe_command.rs\<close> and
  \<open>command_safety/is_dangerous_command.rs\<close>), in the Linux build: splitting the script of
  \<open>bash -lc\<close> into plain commands, the list of commands that run without asking, and the list of
  commands that always ask. The tree-sitter parser is a parameter: it answers with a syntax tree,
  whose nodes carry the fields the code reads.
\<close>

section \<open>Syntax trees\<close>

datatype ts_node =
  TsNode (ts_kind: string) (ts_is_named: bool) (ts_start_byte: nat) (ts_end_byte: nat)
    (ts_children: "ts_node list")

record ts_tree =
  root_node :: ts_node
  root_has_error :: bool

type_synonym shell_parser = "string \<Rightarrow> ts_tree option"

definition named_children :: "ts_node \<Rightarrow> ts_node list" where
  "named_children n = filter ts_is_named (ts_children n)"

text \<open>\<open>Node::utf8_text\<close>: the bytes of the node, when they are UTF-8.\<close>

definition utf8_text :: "ts_node \<Rightarrow> string \<Rightarrow> string option" where
  "utf8_text n src =
     (let s = take (ts_end_byte n - ts_start_byte n) (drop (ts_start_byte n) src) in
      if valid_utf8 s then Some s else None)"

text \<open>The number of nodes of a stack of subtrees, the measure of the walks.\<close>

primrec ts_size :: "ts_node \<Rightarrow> nat" where
  "ts_size (TsNode k b s e cs) = Suc (sum_list (map ts_size cs))"

abbreviation stack_size :: "ts_node list \<Rightarrow> nat" where
  "stack_size st \<equiv> sum_list (map ts_size st)"

lemma ts_size_children: "ts_size n = Suc (stack_size (ts_children n))"
  by (cases n) simp

lemma stack_size_filter: "stack_size (filter p ns) \<le> stack_size ns"
  by (induction ns) auto

lemma stack_size_named: "stack_size (named_children n) < ts_size n"
  using stack_size_filter [of ts_is_named "ts_children n"]
  by (simp add: ts_size_children named_children_def)

lemma stack_size_rev [simp]: "stack_size (rev ns) = stack_size ns"
  by (simp add: rev_map [symmetric])

section \<open>Words of a command\<close>

definition parse_double_quoted_string :: "ts_node \<Rightarrow> string \<Rightarrow> string option" where
  "parse_double_quoted_string node src =
     (if ts_kind node \<noteq> ''string'' then None
      else if \<exists>part\<in>set (named_children node). ts_kind part \<noteq> ''string_content'' then None
      else Option.bind (utf8_text node src) (\<lambda>raw.
           Option.bind (strip_prefix [CHR 0x22] raw) (strip_suffix [CHR 0x22])))"

definition parse_raw_string :: "ts_node \<Rightarrow> string \<Rightarrow> string option" where
  "parse_raw_string node src =
     (if ts_kind node \<noteq> ''raw_string'' then None
      else Option.bind (utf8_text node src) (\<lambda>raw.
           Option.bind (strip_prefix [CHR 0x27] raw) (strip_suffix [CHR 0x27])))"

text \<open>The inner loop of a concatenation, and the loop over the children of a command.\<close>

fun concatenated_parts :: "ts_node list \<Rightarrow> string \<Rightarrow> string option" where
  "concatenated_parts [] src = Some []"
| "concatenated_parts (part # parts) src =
     Option.bind
       (if ts_kind part \<in> {''word'', ''number''} then utf8_text part src
        else if ts_kind part = ''string'' then parse_double_quoted_string part src
        else if ts_kind part = ''raw_string'' then parse_raw_string part src
        else None)
       (\<lambda>s. map_option ((@) s) (concatenated_parts parts src))"

definition plain_word :: "ts_node \<Rightarrow> string \<Rightarrow> string option" where
  "plain_word child src =
     (if ts_kind child = ''command_name'' then
        (case named_children child of [] \<Rightarrow> None
         | word_node # _ \<Rightarrow> if ts_kind word_node \<noteq> ''word'' then None else utf8_text word_node src)
      else if ts_kind child \<in> {''word'', ''number''} then utf8_text child src
      else if ts_kind child = ''string'' then parse_double_quoted_string child src
      else if ts_kind child = ''raw_string'' then parse_raw_string child src
      else if ts_kind child = ''concatenation'' then
        Option.bind (concatenated_parts (named_children child) src)
          (\<lambda>concatenated. if concatenated = [] then None else Some concatenated)
      else None)"

fun collect_options :: "('a \<Rightarrow> 'b option) \<Rightarrow> 'a list \<Rightarrow> 'b list option" where
  "collect_options f [] = Some []"
| "collect_options f (x # xs) =
     Option.bind (f x) (\<lambda>y. map_option (\<lambda>ys. y # ys) (collect_options f xs))"

definition parse_plain_command_from_node :: "ts_node \<Rightarrow> string \<Rightarrow> string list option" where
  "parse_plain_command_from_node cmd src =
     (if ts_kind cmd \<noteq> ''command'' then None
      else collect_options (\<lambda>child. plain_word child src) (named_children cmd))"

section \<open>Scripts of plain commands\<close>

definition allowed_kinds :: "string list" where
  "allowed_kinds =
     [''program'', ''list'', ''pipeline'', ''command'', ''command_name'', ''word'', ''string'',
      ''string_content'', ''raw_string'', ''number'', ''concatenation'']"

definition allowed_punct_tokens :: "string list" where
  "allowed_punct_tokens = [''&&'', ''||'', '';'', ''|'', [CHR 0x22], [CHR 0x27]]"

text \<open>The test of one node of the walk; \<open>False\<close> is the early return of \<open>None\<close>.\<close>

definition node_allowed :: "ts_node \<Rightarrow> bool" where
  "node_allowed node =
     (if ts_is_named node then ts_kind node \<in> set allowed_kinds
      else \<not> ((\<exists>c\<in>set (ts_kind node). c \<in> set ''&;|'') \<and> ts_kind node \<notin> set allowed_punct_tokens) \<and>
           (ts_kind node \<in> set allowed_punct_tokens \<or> trim (ts_kind node) = []))"

text \<open>The walk over a stack whose top is the head of the list.\<close>

function walk_word_only :: "ts_node list \<Rightarrow> ts_node list \<Rightarrow> ts_node list option" where
  "walk_word_only [] command_nodes = Some command_nodes"
| "walk_word_only (node # stack) command_nodes =
     (if \<not> node_allowed node then None
      else walk_word_only (rev (ts_children node) @ stack)
             (if ts_is_named node \<and> ts_kind node = ''command'' then command_nodes @ [node]
              else command_nodes))"
  by pat_completeness auto

termination
  by (relation "measure (\<lambda>(st, _). stack_size st)") (auto simp: ts_size_children)

declare walk_word_only.simps [simp del]

definition try_parse_word_only_commands_sequence :: "ts_tree \<Rightarrow> string \<Rightarrow> string list list option" where
  "try_parse_word_only_commands_sequence tree src =
     (if root_has_error tree then None
      else Option.bind (walk_word_only [root_node tree] []) (\<lambda>command_nodes.
             collect_options (\<lambda>node. parse_plain_command_from_node node src)
               (sort_key ts_start_byte command_nodes)))"

definition parse_shell_script_into_commands :: "shell_parser \<Rightarrow> string \<Rightarrow> string list list option" where
  "parse_shell_script_into_commands try_parse_shell script =
     Option.bind (try_parse_shell script) (\<lambda>tree. try_parse_word_only_commands_sequence tree script)"

definition extract_bash_command :: "string list \<Rightarrow> (string \<times> string) option" where
  "extract_bash_command command =
     (case command of
        [shell, flag, script] \<Rightarrow>
          if flag \<notin> {''-lc'', ''-c''} \<or> detect_shell_type shell \<notin> {Some Zsh, Some Bash, Some Sh}
          then None else Some (shell, script)
      | _ \<Rightarrow> None)"

definition parse_shell_lc_plain_commands :: "shell_parser \<Rightarrow> string list \<Rightarrow> string list list option" where
  "parse_shell_lc_plain_commands try_parse_shell command =
     Option.bind (extract_bash_command command) (\<lambda>(_, script).
       parse_shell_script_into_commands try_parse_shell script)"

section \<open>Here documents\<close>

definition is_literal_word_or_number :: "ts_node \<Rightarrow> bool" where
  "is_literal_word_or_number node \<longleftrightarrow>
     ts_kind node \<in> {''word'', ''number''} \<and> named_children node = []"

definition is_allowed_heredoc_attachment_kind :: "string \<Rightarrow> bool" where
  "is_allowed_heredoc_attachment_kind kind \<longleftrightarrow>
     kind \<in> {''heredoc_body'', ''simple_heredoc_body'', ''heredoc_redirect'', ''herestring_redirect'',
             ''redirected_statement''}"

text \<open>One child of the command: the word it adds, nothing, or the early return.\<close>

definition heredoc_word :: "ts_node \<Rightarrow> string \<Rightarrow> string list option" where
  "heredoc_word child src =
     (if ts_kind child = ''command_name'' then
        (case named_children child of [] \<Rightarrow> None
         | word_node # _ \<Rightarrow>
             if ts_kind word_node \<notin> {''word'', ''number''} \<or> \<not> is_literal_word_or_number word_node
             then None else map_option (\<lambda>w. [w]) (utf8_text word_node src))
      else if ts_kind child \<in> {''word'', ''number''} then
        (if \<not> is_literal_word_or_number child then None
         else map_option (\<lambda>w. [w]) (utf8_text child src))
      else if ts_kind child = ''comment'' then Some []
      else if is_allowed_heredoc_attachment_kind (ts_kind child) then Some []
      else None)"

definition parse_heredoc_command_words :: "ts_node \<Rightarrow> string \<Rightarrow> string list option" where
  "parse_heredoc_command_words cmd src =
     (if ts_kind cmd \<noteq> ''command'' then None
      else Option.bind (collect_options (\<lambda>child. heredoc_word child src) (named_children cmd))
             (\<lambda>ws. if concat ws = [] then None else Some (concat ws)))"

function find_single_command :: "ts_node list \<Rightarrow> ts_node option \<Rightarrow> ts_node option" where
  "find_single_command [] single_command = single_command"
| "find_single_command (node # stack) single_command =
     (if ts_kind node = ''command'' then
        (if single_command \<noteq> None then None
         else find_single_command (rev (named_children node) @ stack) (Some node))
      else find_single_command (rev (named_children node) @ stack) single_command)"
  by pat_completeness auto

termination
  by (relation "measure (\<lambda>(st, _). stack_size st)") (auto simp: stack_size_named)

declare find_single_command.simps [simp del]

definition find_single_command_node :: "ts_node \<Rightarrow> ts_node option" where
  "find_single_command_node root = find_single_command [root] None"

function has_kind_on_stack :: "ts_node list \<Rightarrow> string \<Rightarrow> bool" where
  "has_kind_on_stack [] kind = False"
| "has_kind_on_stack (current # stack) kind =
     (if ts_kind current = kind then True
      else has_kind_on_stack (rev (named_children current) @ stack) kind)"
  by pat_completeness auto

termination
  by (relation "measure (\<lambda>(st, _). stack_size st)") (auto simp: stack_size_named)

declare has_kind_on_stack.simps [simp del]

definition has_named_descendant_kind :: "ts_node \<Rightarrow> string \<Rightarrow> bool" where
  "has_named_descendant_kind node kind = has_kind_on_stack [node] kind"

definition parse_shell_lc_single_command_prefix :: "shell_parser \<Rightarrow> string list \<Rightarrow> string list option" where
  "parse_shell_lc_single_command_prefix try_parse_shell command =
     Option.bind (extract_bash_command command) (\<lambda>(_, script).
     Option.bind (try_parse_shell script) (\<lambda>tree.
       if root_has_error tree then None
       else if \<not> has_named_descendant_kind (root_node tree) ''heredoc_redirect'' then None
       else if has_named_descendant_kind (root_node tree) ''file_redirect'' then None
       else Option.bind (find_single_command_node (root_node tree)) (\<lambda>command_node.
              parse_heredoc_command_words command_node script)))"

section \<open>Git command lines\<close>

text \<open>\<open>Path::file_name\<close>.\<close>

definition path_file_name :: "string \<Rightarrow> string option" where
  "path_file_name p = (case last_opt (std_components p) of Some (Normal n) \<Rightarrow> Some n | _ \<Rightarrow> None)"

definition executable_name_lookup_key :: "string \<Rightarrow> string option" where
  "executable_name_lookup_key raw = path_file_name raw"

definition is_git_global_option_with_value :: "string \<Rightarrow> bool" where
  "is_git_global_option_with_value arg \<longleftrightarrow>
     arg \<in> set [''-C'', ''-c'', ''--config-env'', ''--exec-path'', ''--git-dir'', ''--namespace'',
              ''--super-prefix'', ''--work-tree'']"

definition is_git_global_option_with_inline_value :: "string \<Rightarrow> bool" where
  "is_git_global_option_with_inline_value arg \<longleftrightarrow>
     list_ex (\<lambda>p. starts_with p arg)
       [''--config-env='', ''--exec-path='', ''--git-dir='', ''--namespace='', ''--super-prefix='',
        ''--work-tree=''] \<or>
     (starts_with ''-C'' arg \<or> starts_with ''-c'' arg) \<and> length arg > 2"

text \<open>The loop of \<open>find_git_subcommand\<close> over the arguments from index \<open>idx\<close> on.\<close>

fun scan_git_subcommand :: "string list \<Rightarrow> bool \<Rightarrow> nat \<Rightarrow> string list \<Rightarrow> (nat \<times> string) option" where
  "scan_git_subcommand subcommands skip_next idx [] = None"
| "scan_git_subcommand subcommands skip_next idx (arg # args) =
     (if skip_next then scan_git_subcommand subcommands False (Suc idx) args
      else if is_git_global_option_with_inline_value arg
      then scan_git_subcommand subcommands False (Suc idx) args
      else if is_git_global_option_with_value arg
      then scan_git_subcommand subcommands True (Suc idx) args
      else if arg = ''--'' \<or> starts_with ''-'' arg
      then scan_git_subcommand subcommands False (Suc idx) args
      else if arg \<in> set subcommands then Some (idx, arg)
      else None)"

definition find_git_subcommand :: "string list \<Rightarrow> string list \<Rightarrow> (nat \<times> string) option" where
  "find_git_subcommand command subcommands =
     (case command of [] \<Rightarrow> None
      | cmd0 # args \<Rightarrow>
          if executable_name_lookup_key cmd0 \<noteq> Some ''git'' then None
          else scan_git_subcommand subcommands False 1 args)"

datatype git_option_pattern = Exact string | ShortWithInlineValue string | Prefix string

fun git_option_matches :: "git_option_pattern \<Rightarrow> string \<Rightarrow> bool" where
  "git_option_matches (Exact option) arg \<longleftrightarrow> arg = option"
| "git_option_matches (ShortWithInlineValue option) arg \<longleftrightarrow>
     starts_with option arg \<and> length arg > length option"
| "git_option_matches (Prefix p) arg \<longleftrightarrow> starts_with p arg"

definition unsafe_git_global_options :: "git_option_pattern list" where
  "unsafe_git_global_options =
     [Exact ''-C'', ShortWithInlineValue ''-C'', Exact ''-c'', ShortWithInlineValue ''-c'',
      Exact ''-p'', Exact ''--config-env'', Prefix ''--config-env='', Exact ''--exec-path'',
      Prefix ''--exec-path='', Exact ''--git-dir'', Prefix ''--git-dir='', Exact ''--namespace'',
      Prefix ''--namespace='', Exact ''--paginate'', Exact ''--super-prefix'',
      Prefix ''--super-prefix='', Exact ''--work-tree'', Prefix ''--work-tree='']"

definition unsafe_git_subcommand_options :: "git_option_pattern list" where
  "unsafe_git_subcommand_options =
     [Exact ''--output'', Prefix ''--output='', Exact ''--ext-diff'', Exact ''--textconv'',
      Exact ''--exec'', Prefix ''--exec='']"

definition git_matches_option_pattern :: "string \<Rightarrow> git_option_pattern list \<Rightarrow> bool" where
  "git_matches_option_pattern arg patterns \<longleftrightarrow> list_ex (\<lambda>p. git_option_matches p arg) patterns"

definition git_has_unsafe_global_option :: "string list \<Rightarrow> bool" where
  "git_has_unsafe_global_option global_args \<longleftrightarrow>
     list_ex (\<lambda>arg. git_matches_option_pattern arg unsafe_git_global_options) global_args"

definition git_subcommand_args_are_read_only :: "string list \<Rightarrow> bool" where
  "git_subcommand_args_are_read_only args \<longleftrightarrow>
     \<not> list_ex (\<lambda>arg. git_matches_option_pattern arg unsafe_git_subcommand_options) args"

text \<open>The loop of \<open>git_branch_is_read_only\<close>, with the flag it carries.\<close>

fun branch_flags_read_only :: "bool \<Rightarrow> string list \<Rightarrow> bool" where
  "branch_flags_read_only saw_read_only_flag [] = saw_read_only_flag"
| "branch_flags_read_only saw_read_only_flag (arg # args) =
     (if arg \<in> set [''--list'', ''-l'', ''--show-current'', ''-a'', ''--all'', ''-r'', ''--remotes'',
                  ''-v'', ''-vv'', ''--verbose'']
      then branch_flags_read_only True args
      else if starts_with ''--format='' arg then branch_flags_read_only True args
      else False)"

definition git_branch_is_read_only :: "string list \<Rightarrow> bool" where
  "git_branch_is_read_only branch_args =
     (if branch_args = [] then True else branch_flags_read_only False branch_args)"

definition is_safe_git_command :: "string list \<Rightarrow> bool" where
  "is_safe_git_command command =
     (case find_git_subcommand command [''status'', ''log'', ''diff'', ''show'', ''branch''] of
        None \<Rightarrow> False
      | Some (subcommand_idx, subcommand) \<Rightarrow>
          if git_has_unsafe_global_option (take (subcommand_idx - 1) (drop 1 command)) then False
          else
            let subcommand_args = drop (subcommand_idx + 1) command in
            if subcommand \<in> set [''status'', ''log'', ''diff'', ''show'']
            then git_subcommand_args_are_read_only subcommand_args
            else if subcommand = ''branch''
            then git_subcommand_args_are_read_only subcommand_args \<and>
                 git_branch_is_read_only subcommand_args
            else False)"

section \<open>Commands that run without asking\<close>

definition is_valid_sed_n_arg :: "string option \<Rightarrow> bool" where
  "is_valid_sed_n_arg arg =
     (case arg of None \<Rightarrow> False
      | Some s \<Rightarrow>
          (case strip_suffix ''p'' s of None \<Rightarrow> False
           | Some core \<Rightarrow>
               (case split_on (CHR '','') core of
                  [num] \<Rightarrow> num \<noteq> [] \<and> list_all is_ascii_digit num
                | [a, b] \<Rightarrow> a \<noteq> [] \<and> b \<noteq> [] \<and> list_all is_ascii_digit a \<and> list_all is_ascii_digit b
                | _ \<Rightarrow> False)))"

definition nth_opt :: "'a list \<Rightarrow> nat \<Rightarrow> 'a option" where
  "nth_opt xs i = (if i < length xs then Some (xs ! i) else None)"

definition always_safe_programs :: "string list" where
  "always_safe_programs =
     [''cat'', ''cd'', ''cut'', ''echo'', ''expr'', ''false'', ''grep'', ''head'', ''id'', ''ls'',
      ''nl'', ''paste'', ''pwd'', ''rev'', ''seq'', ''stat'', ''tail'', ''tr'', ''true'', ''uname'',
      ''uniq'', ''wc'', ''which'', ''whoami'']"

definition unsafe_find_options :: "string list" where
  "unsafe_find_options =
     [''-exec'', ''-execdir'', ''-ok'', ''-okdir'', ''-delete'', ''-fls'', ''-fprint'', ''-fprint0'',
      ''-fprintf'']"

definition is_safe_to_call_with_exec :: "string list \<Rightarrow> bool" where
  "is_safe_to_call_with_exec command =
     (case command of [] \<Rightarrow> False
      | cmd0 # args \<Rightarrow>
          (case executable_name_lookup_key cmd0 of None \<Rightarrow> False
           | Some cmd \<Rightarrow>
               if cmd \<in> set [''numfmt'', ''tac''] then True
               else if cmd \<in> set always_safe_programs then True
               else if cmd = ''base64'' then
                 \<not> list_ex (\<lambda>arg. arg \<in> set [''-o'', ''--output''] \<or> starts_with ''--output='' arg \<or>
                                 starts_with ''-o'' arg \<and> arg \<noteq> ''-o'') args
               else if cmd = ''find'' then
                 \<not> list_ex (\<lambda>arg. arg \<in> set unsafe_find_options) command
               else if cmd = ''rg'' then
                 \<not> list_ex (\<lambda>arg. arg \<in> set [''--search-zip'', ''-z''] \<or>
                                 list_ex (\<lambda>opt. arg = opt \<or> starts_with (opt @ ''='') arg)
                                   [''--pre'', ''--hostname-bin'']) command
               else if cmd = ''git'' then is_safe_git_command command
               else if cmd = ''sed'' then
                 length command \<le> 4 \<and> nth_opt command 1 = Some ''-n'' \<and>
                 is_valid_sed_n_arg (nth_opt command 2)
               else False))"

definition is_known_safe_command :: "shell_parser \<Rightarrow> string list \<Rightarrow> bool" where
  "is_known_safe_command try_parse_shell command0 =
     (let command = map (\<lambda>s. if s = ''zsh'' then ''bash'' else s) command0 in
      is_safe_to_call_with_exec command \<or>
      (case parse_shell_lc_plain_commands try_parse_shell command of
         None \<Rightarrow> False
       | Some all_commands \<Rightarrow> all_commands \<noteq> [] \<and> list_all is_safe_to_call_with_exec all_commands))"

section \<open>Commands that always ask\<close>

fun is_dangerous_to_call_with_exec :: "string list \<Rightarrow> bool" where
  "is_dangerous_to_call_with_exec [] = False"
| "is_dangerous_to_call_with_exec (cmd0 # args) =
     (if cmd0 = ''rm'' then nth_opt (cmd0 # args) 1 \<in> {Some ''-f'', Some ''-rf''}
      else if cmd0 = ''sudo'' then is_dangerous_to_call_with_exec args
      else False)"

definition command_might_be_dangerous :: "shell_parser \<Rightarrow> string list \<Rightarrow> bool" where
  "command_might_be_dangerous try_parse_shell command \<longleftrightarrow>
     is_dangerous_to_call_with_exec command \<or>
     (case parse_shell_lc_plain_commands try_parse_shell command of
        None \<Rightarrow> False
      | Some all_commands \<Rightarrow> list_ex is_dangerous_to_call_with_exec all_commands)"

end
