(* ===== verification/ExecPolicy.thy ===== *)
theory ExecPolicy
  imports CommandSafety FsSandbox "HOL-Library.List_Lexorder" "HOL-Library.Char_ord"
begin

text \<open>
  The execution policy (\<open>execpolicy/src\<close>): prefix rules, network rules and host executables; the
  builtins a rules file calls; the evaluation of a command; and the lines appended to a rules file.
  The Starlark interpreter is a parameter: it answers with the builtin calls a file makes, in order,
  and the error it stops with. Shell splitting and JSON string rendering are parameters too. Error
  messages are constructors; an error that renders a rule or an example carries it instead.
\<close>

section \<open>Decisions\<close>

datatype decision = Allow | Prompt | Forbidden

text \<open>The derived order of the enum: the later constructor is the stricter decision.\<close>

instantiation decision :: linorder
begin

primrec decision_rank :: "decision \<Rightarrow> nat" where
  "decision_rank Allow = 0"
| "decision_rank Prompt = 1"
| "decision_rank Forbidden = 2"

definition less_eq_decision :: "decision \<Rightarrow> decision \<Rightarrow> bool" where
  "less_eq_decision a b \<longleftrightarrow> decision_rank a \<le> decision_rank b"

definition less_decision :: "decision \<Rightarrow> decision \<Rightarrow> bool" where
  "less_decision a b \<longleftrightarrow> decision_rank a < decision_rank b"

instance
proof
  fix x y z :: decision
  show "x < y \<longleftrightarrow> x \<le> y \<and> \<not> y \<le> x" by (auto simp: less_eq_decision_def less_decision_def)
  show "x \<le> x" by (simp add: less_eq_decision_def)
  show "x \<le> y \<Longrightarrow> y \<le> z \<Longrightarrow> x \<le> z" by (simp add: less_eq_decision_def)
  show "x \<le> y \<Longrightarrow> y \<le> x \<Longrightarrow> x = y" by (cases x; cases y) (simp_all add: less_eq_decision_def)
  show "x \<le> y \<or> y \<le> x" by (auto simp: less_eq_decision_def)
qed

end

section \<open>Errors\<close>

datatype pattern_problem =
    PatternEmpty | PrefixEmpty | AlternativeNotString string | AlternativesEmpty | ElementNotString string

datatype example_problem =
    ExampleSyntax | ExampleEmptyString | ExampleEmptyList | ExampleTokenNotString string
  | ExampleNotString string

datatype rule_problem =
    HostEmpty | HostNotHostname | HostBadBracket | HostUnsupportedSuffix string | HostWildcard
  | HostWhitespace | BadProtocol string | JustificationEmpty | PathNotAbsolute string
  | InvalidAbsolutePath string | NameEmpty | NameNotBare string | PathNotString string
  | PathBasename string string

record error_location =
  loc_path :: string
  loc_start_line :: nat
  loc_start_column :: nat
  loc_end_line :: nat
  loc_end_column :: nat

section \<open>Rules\<close>

datatype pattern_token = Single string | Alts "string list"

fun token_matches :: "pattern_token \<Rightarrow> string \<Rightarrow> bool" where
  "token_matches (Single expected) token \<longleftrightarrow> expected = token"
| "token_matches (Alts alternatives) token \<longleftrightarrow> list_ex (\<lambda>alt. alt = token) alternatives"

fun token_alternatives :: "pattern_token \<Rightarrow> string list" where
  "token_alternatives (Single expected) = [expected]"
| "token_alternatives (Alts alternatives) = alternatives"

record prefix_pattern =
  pat_first :: string
  pat_rest :: "pattern_token list"

definition matches_prefix :: "prefix_pattern \<Rightarrow> string list \<Rightarrow> string list option" where
  "matches_prefix p cmd =
     (let pattern_length = length (pat_rest p) + 1 in
      if length cmd < pattern_length \<or> cmd ! 0 \<noteq> pat_first p then None
      else if \<not> list_all (\<lambda>(pattern_token, cmd_token). token_matches pattern_token cmd_token)
                (zip (pat_rest p) (take (pattern_length - 1) (drop 1 cmd)))
      then None
      else Some (take pattern_length cmd))"

record prefix_rule =
  rule_pattern :: prefix_pattern
  rule_decision :: decision
  rule_justification :: "string option"

datatype rule_match =
    PrefixRuleMatch "string list" decision "abs_path option" "string option"
  | HeuristicsRuleMatch "string list" decision

fun match_decision :: "rule_match \<Rightarrow> decision" where
  "match_decision (PrefixRuleMatch _ d _ _) = d"
| "match_decision (HeuristicsRuleMatch _ d) = d"

fun with_resolved_program :: "rule_match \<Rightarrow> abs_path \<Rightarrow> rule_match" where
  "with_resolved_program (PrefixRuleMatch matched_prefix d _ j) resolved =
     PrefixRuleMatch matched_prefix d (Some resolved) j"
| "with_resolved_program m resolved = m"

definition rule_program :: "prefix_rule \<Rightarrow> string" where
  "rule_program r = pat_first (rule_pattern r)"

definition rule_matches :: "prefix_rule \<Rightarrow> string list \<Rightarrow> rule_match option" where
  "rule_matches r cmd =
     map_option (\<lambda>matched_prefix.
         PrefixRuleMatch matched_prefix (rule_decision r) None (rule_justification r))
       (matches_prefix (rule_pattern r) cmd)"

datatype policy_error =
    InvalidDecision string
  | InvalidPattern pattern_problem
  | InvalidExample example_problem
  | InvalidRule rule_problem
  | ExampleDidNotMatch "prefix_rule list" "string list list" "error_location option"
  | ExampleDidMatch rule_match "string list" "error_location option"
  | StarlarkScript string
  | StarlarkBuiltin policy_error

fun with_location :: "policy_error \<Rightarrow> error_location \<Rightarrow> policy_error" where
  "with_location (ExampleDidNotMatch rules examples None) location =
     ExampleDidNotMatch rules examples (Some location)"
| "with_location (ExampleDidMatch rule example None) location =
     ExampleDidMatch rule example (Some location)"
| "with_location other location = other"

definition parse_decision :: "string \<Rightarrow> policy_error + decision" where
  "parse_decision raw =
     (if raw = ''allow'' then Inr Allow
      else if raw = ''prompt'' then Inr Prompt
      else if raw = ''forbidden'' then Inr Forbidden
      else Inl (InvalidDecision raw))"

section \<open>Network rules\<close>

datatype network_rule_protocol = Http | Https | Socks5Tcp | Socks5Udp

definition parse_protocol :: "string \<Rightarrow> policy_error + network_rule_protocol" where
  "parse_protocol raw =
     (if raw = ''http'' then Inr Http
      else if raw \<in> {''https'', ''https_connect'', ''http-connect''} then Inr Https
      else if raw = ''socks5_tcp'' then Inr Socks5Tcp
      else if raw = ''socks5_udp'' then Inr Socks5Udp
      else Inl (InvalidRule (BadProtocol raw)))"

fun as_policy_string :: "network_rule_protocol \<Rightarrow> string" where
  "as_policy_string Http = ''http''"
| "as_policy_string Https = ''https''"
| "as_policy_string Socks5Tcp = ''socks5_tcp''"
| "as_policy_string Socks5Udp = ''socks5_udp''"

record network_rule =
  net_host :: string
  net_protocol :: network_rule_protocol
  net_decision :: decision
  net_justification :: "string option"

text \<open>\<open>str::rsplit_once(c)\<close> and \<open>str::trim_end_matches(c)\<close>.\<close>

definition rsplit_once :: "'a \<Rightarrow> 'a list \<Rightarrow> ('a list \<times> 'a list) option" where
  "rsplit_once c s = map_option (\<lambda>(a, b). (rev b, rev a)) (split_once c (rev s))"

definition trim_end_matches :: "'a \<Rightarrow> 'a list \<Rightarrow> 'a list" where
  "trim_end_matches c s = rev (dropWhile (\<lambda>x. x = c) (rev s))"

definition is_port :: "string \<Rightarrow> bool" where
  "is_port port \<longleftrightarrow> port \<noteq> [] \<and> list_all is_ascii_digit port"

text \<open>The host without brackets and port, the middle part of \<open>normalize_network_rule_host\<close>.\<close>

definition strip_host_port :: "string \<Rightarrow> string \<Rightarrow> policy_error + string" where
  "strip_host_port raw host =
     (case strip_prefix ''['' host of
        Some stripped \<Rightarrow>
          (case split_once (CHR '']'') stripped of
             None \<Rightarrow> Inl (InvalidRule HostBadBracket)
           | Some (inside, rest) \<Rightarrow>
               let port_ok = (case strip_prefix '':'' rest of None \<Rightarrow> False | Some port \<Rightarrow> is_port port) in
               if rest \<noteq> [] \<and> \<not> port_ok then Inl (InvalidRule (HostUnsupportedSuffix raw))
               else Inr inside)
      | None \<Rightarrow>
          if count_list host (CHR '':'') = 1 then
            (case rsplit_once (CHR '':'') host of
               None \<Rightarrow> Inr host
             | Some (candidate, port) \<Rightarrow> if candidate \<noteq> [] \<and> is_port port then Inr candidate else Inr host)
          else Inr host)"

definition normalize_network_rule_host :: "string \<Rightarrow> policy_error + string" where
  "normalize_network_rule_host raw =
     (let host = trim raw in
      if host = [] then Inl (InvalidRule HostEmpty)
      else if str_contains ''://'' host \<or> CHR ''/'' \<in> set host \<or> CHR ''?'' \<in> set host \<or> CHR ''#'' \<in> set host
      then Inl (InvalidRule HostNotHostname)
      else try_bind (strip_host_port raw host) (\<lambda>host.
        let normalized = to_ascii_lowercase (trim (trim_end_matches (CHR ''.'') host)) in
        if normalized = [] then Inl (InvalidRule HostEmpty)
        else if CHR ''*'' \<in> set normalized then Inl (InvalidRule HostWildcard)
        else if list_ex is_whitespace (chars normalized) then Inl (InvalidRule HostWhitespace)
        else Inr normalized))"

section \<open>Policies\<close>

text \<open>\<open>MultiMap\<close>: the values of a key in the order they were inserted.\<close>

type_synonym 'v multimap = "(string \<times> 'v list) list"

fun mm_insert :: "string \<Rightarrow> 'v \<Rightarrow> 'v multimap \<Rightarrow> 'v multimap" where
  "mm_insert k v [] = [(k, [v])]"
| "mm_insert k v ((k', vs) # m) = (if k' = k then (k', vs @ [v]) # m else (k', vs) # mm_insert k v m)"

definition get_vec :: "'v multimap \<Rightarrow> string \<Rightarrow> 'v list option" where
  "get_vec m k = map_of m k"

definition iter_flat :: "'v multimap \<Rightarrow> (string \<times> 'v) list" where
  "iter_flat m = concat (map (\<lambda>(k, vs). map (Pair k) vs) m)"

record policy =
  rules_by_program :: "prefix_rule multimap"
  network_rules :: "network_rule list"
  host_executables_by_name :: "string \<rightharpoonup> abs_path list"

record match_options =
  resolve_host_executables :: bool

definition default_match_options :: match_options where
  "default_match_options = \<lparr> resolve_host_executables = False \<rparr>"

definition from_parts ::
  "prefix_rule multimap \<Rightarrow> network_rule list \<Rightarrow> (string \<rightharpoonup> abs_path list) \<Rightarrow> policy" where
  "from_parts rules net hosts =
     \<lparr> rules_by_program = rules, network_rules = net, host_executables_by_name = hosts \<rparr>"

definition policy_new :: "prefix_rule multimap \<Rightarrow> policy" where
  "policy_new rules = from_parts rules [] Map.empty"

definition policy_empty :: policy where
  "policy_empty = policy_new []"

fun render_pattern_token :: "pattern_token \<Rightarrow> string" where
  "render_pattern_token (Single v) = v"
| "render_pattern_token (Alts alternatives) = ''['' @ join_with ''|'' alternatives @ '']''"

definition get_allowed_prefixes :: "policy \<Rightarrow> string list list" where
  "get_allowed_prefixes p =
     remdups_adj (sort (map (\<lambda>(_, r). pat_first (rule_pattern r) #
                                       map render_pattern_token (pat_rest (rule_pattern r)))
                            (filter (\<lambda>(_, r). rule_decision r = Allow) (iter_flat (rules_by_program p)))))"

definition add_prefix_rule :: "policy \<Rightarrow> string list \<Rightarrow> decision \<Rightarrow> policy_error + policy" where
  "add_prefix_rule p tokens d =
     (case tokens of
        [] \<Rightarrow> Inl (InvalidPattern PrefixEmpty)
      | first_token # rest \<Rightarrow>
          Inr (p\<lparr> rules_by_program :=
            mm_insert first_token
              \<lparr> rule_pattern = \<lparr> pat_first = first_token, pat_rest = map Single rest \<rparr>,
                rule_decision = d, rule_justification = None \<rparr>
              (rules_by_program p) \<rparr>))"

definition blank_justification :: "string option \<Rightarrow> bool" where
  "blank_justification justification =
     (case justification of None \<Rightarrow> False | Some raw \<Rightarrow> trim raw = [])"

definition add_network_rule ::
  "policy \<Rightarrow> string \<Rightarrow> network_rule_protocol \<Rightarrow> decision \<Rightarrow> string option \<Rightarrow> policy_error + policy" where
  "add_network_rule p host protocol d justification =
     try_bind (normalize_network_rule_host host) (\<lambda>host.
       if blank_justification justification then Inl (InvalidRule JustificationEmpty)
       else Inr (p\<lparr> network_rules := network_rules p @
         [\<lparr> net_host = host, net_protocol = protocol, net_decision = d,
            net_justification = justification \<rparr>] \<rparr>))"

definition set_host_executable_paths :: "policy \<Rightarrow> string \<Rightarrow> abs_path list \<Rightarrow> policy" where
  "set_host_executable_paths p name paths =
     p\<lparr> host_executables_by_name := (host_executables_by_name p)(name \<mapsto> paths) \<rparr>"

definition merge_overlay :: "policy \<Rightarrow> policy \<Rightarrow> policy" where
  "merge_overlay self overlay =
     from_parts
       (fold (\<lambda>(program, rule) m. mm_insert program rule m) (iter_flat (rules_by_program overlay))
          (rules_by_program self))
       (network_rules self @ network_rules overlay)
       (host_executables_by_name self ++ host_executables_by_name overlay)"

definition upsert_domain :: "string list \<Rightarrow> string \<Rightarrow> string list" where
  "upsert_domain entries host = filter (\<lambda>entry. entry \<noteq> host) entries @ [host]"

definition compile_network_rule :: "string list \<times> string list \<Rightarrow> network_rule \<Rightarrow> string list \<times> string list" where
  "compile_network_rule = (\<lambda>(allowed, denied) rule.
     (case net_decision rule of
        Allow \<Rightarrow> (upsert_domain allowed (net_host rule), filter (\<lambda>e. e \<noteq> net_host rule) denied)
      | Forbidden \<Rightarrow> (filter (\<lambda>e. e \<noteq> net_host rule) allowed, upsert_domain denied (net_host rule))
      | Prompt \<Rightarrow> (allowed, denied)))"

definition compiled_network_domains :: "policy \<Rightarrow> string list \<times> string list" where
  "compiled_network_domains p = foldl compile_network_rule ([], []) (network_rules p)"

section \<open>Evaluation of a command\<close>

definition executable_lookup_key :: "string \<Rightarrow> string" where
  "executable_lookup_key raw = raw"

definition executable_path_lookup_key :: "abs_path \<Rightarrow> string option" where
  "executable_path_lookup_key path = map_option executable_lookup_key (last_opt path)"

definition filter_map :: "('a \<Rightarrow> 'b option) \<Rightarrow> 'a list \<Rightarrow> 'b list" where
  "filter_map f xs = List.map_filter f xs"

definition match_exact_rules :: "policy \<Rightarrow> string list \<Rightarrow> rule_match list option" where
  "match_exact_rules p cmd =
     (case cmd of [] \<Rightarrow> None
      | first # _ \<Rightarrow>
          Some (case get_vec (rules_by_program p) first of None \<Rightarrow> []
                | Some rules \<Rightarrow> filter_map (\<lambda>rule. rule_matches rule cmd) rules))"

definition match_host_executable_rules :: "host_os \<Rightarrow> policy \<Rightarrow> string list \<Rightarrow> rule_match list" where
  "match_host_executable_rules os p cmd =
     (case cmd of [] \<Rightarrow> []
      | first # args \<Rightarrow>
          (case from_absolute_path os first of None \<Rightarrow> []
           | Some program \<Rightarrow>
               (case executable_path_lookup_key program of None \<Rightarrow> []
                | Some basename \<Rightarrow>
                    (case get_vec (rules_by_program p) basename of None \<Rightarrow> []
                     | Some rules \<Rightarrow>
                         if (case host_executables_by_name p basename of None \<Rightarrow> False
                             | Some paths \<Rightarrow> \<not> list_ex (\<lambda>path. path = program) paths)
                         then []
                         else map (\<lambda>m. with_resolved_program m program)
                                (filter_map (\<lambda>rule. rule_matches rule (basename # args)) rules)))))"

definition matches_for_command_with_options ::
  "host_os \<Rightarrow> policy \<Rightarrow> string list \<Rightarrow> (string list \<Rightarrow> decision) option \<Rightarrow> match_options \<Rightarrow> rule_match list" where
  "matches_for_command_with_options os p cmd heuristics_fallback options =
     (let matched_rules =
            unwrap_or []
              (or_else (option_filter (\<lambda>ms. ms \<noteq> []) (match_exact_rules p cmd))
                 (option_filter (\<lambda>ms. ms \<noteq> [])
                    (if resolve_host_executables options
                     then Some (match_host_executable_rules os p cmd) else None))) in
      case heuristics_fallback of
        Some fallback \<Rightarrow>
          if matched_rules = [] then [HeuristicsRuleMatch cmd (fallback cmd)] else matched_rules
      | None \<Rightarrow> matched_rules)"

definition matches_for_command ::
  "host_os \<Rightarrow> policy \<Rightarrow> string list \<Rightarrow> (string list \<Rightarrow> decision) option \<Rightarrow> rule_match list" where
  "matches_for_command os p cmd heuristics_fallback =
     matches_for_command_with_options os p cmd heuristics_fallback default_match_options"

record evaluation =
  ev_decision :: decision
  ev_matched_rules :: "rule_match list"

fun is_heuristics_match :: "rule_match \<Rightarrow> bool" where
  "is_heuristics_match (HeuristicsRuleMatch _ _) = True"
| "is_heuristics_match (PrefixRuleMatch _ _ _ _) = False"

definition is_match :: "evaluation \<Rightarrow> bool" where
  "is_match e \<longleftrightarrow> list_ex (\<lambda>m. \<not> is_heuristics_match m) (ev_matched_rules e)"

text \<open>\<open>None\<close> is the panic on an empty list of matches.\<close>

definition from_matches :: "rule_match list \<Rightarrow> evaluation option" where
  "from_matches matched_rules =
     map_option (\<lambda>d. \<lparr> ev_decision = d, ev_matched_rules = matched_rules \<rparr>)
       (max_by_key (\<lambda>d. d) (map match_decision matched_rules))"

definition check_with_options ::
  "host_os \<Rightarrow> policy \<Rightarrow> string list \<Rightarrow> (string list \<Rightarrow> decision) \<Rightarrow> match_options \<Rightarrow> evaluation option" where
  "check_with_options os p cmd heuristics_fallback options =
     from_matches (matches_for_command_with_options os p cmd (Some heuristics_fallback) options)"

definition check ::
  "host_os \<Rightarrow> policy \<Rightarrow> string list \<Rightarrow> (string list \<Rightarrow> decision) \<Rightarrow> evaluation option" where
  "check os p cmd heuristics_fallback =
     from_matches (matches_for_command_with_options os p cmd (Some heuristics_fallback) default_match_options)"

definition check_multiple_with_options ::
  "host_os \<Rightarrow> policy \<Rightarrow> string list list \<Rightarrow> (string list \<Rightarrow> decision) \<Rightarrow> match_options \<Rightarrow> evaluation option" where
  "check_multiple_with_options os p commands heuristics_fallback options =
     from_matches (concat (map (\<lambda>command.
       matches_for_command_with_options os p command (Some heuristics_fallback) options) commands))"

definition check_multiple ::
  "host_os \<Rightarrow> policy \<Rightarrow> string list list \<Rightarrow> (string list \<Rightarrow> decision) \<Rightarrow> evaluation option" where
  "check_multiple os p commands heuristics_fallback =
     check_multiple_with_options os p commands heuristics_fallback default_match_options"

section \<open>Rules files\<close>

text \<open>Values of the interpreter, as far as the builtins look at them.\<close>

datatype sl_value = SlStr string | SlList "sl_value list" | SlOther string

fun get_type :: "sl_value \<Rightarrow> string" where
  "get_type (SlStr _) = ''string''"
| "get_type (SlList _) = ''list''"
| "get_type (SlOther t) = t"

fun unpack_str :: "sl_value \<Rightarrow> string option" where
  "unpack_str (SlStr s) = Some s"
| "unpack_str _ = None"

text \<open>A span of the interpreter counts lines and columns from 0.\<close>

record file_span =
  span_filename :: string
  span_begin :: "nat \<times> nat"
  span_end :: "nat \<times> nat"

datatype builtin_call =
    PrefixRuleCall "sl_value list" "string option" "sl_value list option" "sl_value list option"
      "string option" "file_span option"
  | NetworkRuleCall string string string "string option"
  | HostExecutableCall string "sl_value list"

record policy_world =
  pw_host :: host_os
  pw_shlex_split :: "string \<Rightarrow> string list option"
  pw_syntax_error :: "string \<Rightarrow> string \<Rightarrow> string option"
  pw_eval :: "string \<Rightarrow> string \<Rightarrow> builtin_call list \<times> string option"

record pending_example_validation =
  pend_rules :: "prefix_rule list"
  pend_matches :: "string list list"
  pend_not_matches :: "string list list"
  pend_location :: "error_location option"

record policy_builder =
  b_rules_by_program :: "prefix_rule multimap"
  b_network_rules :: "network_rule list"
  b_host_executables_by_name :: "string \<rightharpoonup> abs_path list"
  b_pending_example_validations :: "pending_example_validation list"

definition builder_new :: policy_builder where
  "builder_new =
     \<lparr> b_rules_by_program = [], b_network_rules = [], b_host_executables_by_name = Map.empty,
       b_pending_example_validations = [] \<rparr>"

definition builder_add_rule :: "policy_builder \<Rightarrow> prefix_rule \<Rightarrow> policy_builder" where
  "builder_add_rule b rule =
     b\<lparr> b_rules_by_program := mm_insert (rule_program rule) rule (b_rules_by_program b) \<rparr>"

definition builder_add_network_rule :: "policy_builder \<Rightarrow> network_rule \<Rightarrow> policy_builder" where
  "builder_add_network_rule b rule = b\<lparr> b_network_rules := b_network_rules b @ [rule] \<rparr>"

definition builder_add_host_executable :: "policy_builder \<Rightarrow> string \<Rightarrow> abs_path list \<Rightarrow> policy_builder" where
  "builder_add_host_executable b name paths =
     b\<lparr> b_host_executables_by_name := (b_host_executables_by_name b)(name \<mapsto> paths) \<rparr>"

definition add_pending_example_validation ::
  "policy_builder \<Rightarrow> prefix_rule list \<Rightarrow> string list list \<Rightarrow> string list list \<Rightarrow> error_location option \<Rightarrow>
   policy_builder" where
  "add_pending_example_validation b rules matches not_matches location =
     b\<lparr> b_pending_example_validations := b_pending_example_validations b @
       [\<lparr> pend_rules = rules, pend_matches = matches, pend_not_matches = not_matches,
          pend_location = location \<rparr>] \<rparr>"

definition build :: "policy_builder \<Rightarrow> policy" where
  "build b = from_parts (b_rules_by_program b) (b_network_rules b) (b_host_executables_by_name b)"

definition example_options :: match_options where
  "example_options = \<lparr> resolve_host_executables = True \<rparr>"

definition validate_match_examples ::
  "host_os \<Rightarrow> policy \<Rightarrow> prefix_rule list \<Rightarrow> string list list \<Rightarrow> policy_error + unit" where
  "validate_match_examples os p rules matches =
     (let unmatched_examples =
            filter (\<lambda>example. matches_for_command_with_options os p example None example_options = []) matches in
      if unmatched_examples = [] then Inr ()
      else Inl (ExampleDidNotMatch rules unmatched_examples None))"

fun validate_not_match_examples ::
  "host_os \<Rightarrow> policy \<Rightarrow> string list list \<Rightarrow> policy_error + unit" where
  "validate_not_match_examples os p [] = Inr ()"
| "validate_not_match_examples os p (example # examples) =
     (case matches_for_command_with_options os p example None example_options of
        rule # _ \<Rightarrow> Inl (ExampleDidMatch rule example None)
      | [] \<Rightarrow> validate_not_match_examples os p examples)"

definition attach_validation_location :: "policy_error \<Rightarrow> error_location option \<Rightarrow> policy_error" where
  "attach_validation_location error location =
     (case location of Some l \<Rightarrow> with_location error l | None \<Rightarrow> error)"

fun validate_pending :: "host_os \<Rightarrow> policy_builder \<Rightarrow> pending_example_validation list \<Rightarrow> policy_error + unit" where
  "validate_pending os b [] = Inr ()"
| "validate_pending os b (validation # rest) =
     (let p = from_parts (fold (\<lambda>rule m. mm_insert (rule_program rule) rule m) (pend_rules validation) [])
                [] (b_host_executables_by_name b);
          attach = (\<lambda>e. attach_validation_location e (pend_location validation)) in
      try_bind (map_err attach (validate_not_match_examples os p (pend_not_matches validation))) (\<lambda>_.
      try_bind (map_err attach
                  (validate_match_examples os p (pend_rules validation) (pend_matches validation))) (\<lambda>_.
        validate_pending os b rest)))"

definition validate_pending_examples_from :: "host_os \<Rightarrow> policy_builder \<Rightarrow> nat \<Rightarrow> policy_error + unit" where
  "validate_pending_examples_from os b start =
     validate_pending os b (drop start (b_pending_example_validations b))"

definition parse_pattern_token :: "sl_value \<Rightarrow> policy_error + pattern_token" where
  "parse_pattern_token v =
     (case v of
        SlStr s \<Rightarrow> Inr (Single s)
      | SlList content \<Rightarrow>
          try_bind (collect_results (\<lambda>v. ok_or (InvalidPattern (AlternativeNotString (get_type v)))
                                        (unpack_str v)) content) (\<lambda>tokens.
            case tokens of
              [] \<Rightarrow> Inl (InvalidPattern AlternativesEmpty)
            | [single] \<Rightarrow> Inr (Single single)
            | _ \<Rightarrow> Inr (Alts tokens))
      | SlOther t \<Rightarrow> Inl (InvalidPattern (ElementNotString (get_type v))))"

definition parse_pattern :: "sl_value list \<Rightarrow> policy_error + pattern_token list" where
  "parse_pattern items =
     try_bind (collect_results parse_pattern_token items) (\<lambda>tokens.
       if tokens = [] then Inl (InvalidPattern PatternEmpty) else Inr tokens)"

definition parse_string_example :: "policy_world \<Rightarrow> string \<Rightarrow> policy_error + string list" where
  "parse_string_example w raw =
     try_bind (ok_or (InvalidExample ExampleSyntax) (pw_shlex_split w raw)) (\<lambda>tokens.
       if tokens = [] then Inl (InvalidExample ExampleEmptyString) else Inr tokens)"

definition parse_list_example :: "sl_value list \<Rightarrow> policy_error + string list" where
  "parse_list_example content =
     try_bind (collect_results (\<lambda>v. ok_or (InvalidExample (ExampleTokenNotString (get_type v)))
                                   (unpack_str v)) content) (\<lambda>tokens.
       if tokens = [] then Inl (InvalidExample ExampleEmptyList) else Inr tokens)"

definition parse_example :: "policy_world \<Rightarrow> sl_value \<Rightarrow> policy_error + string list" where
  "parse_example w v =
     (case v of
        SlStr raw \<Rightarrow> parse_string_example w raw
      | SlList content \<Rightarrow> parse_list_example content
      | SlOther t \<Rightarrow> Inl (InvalidExample (ExampleNotString (get_type v))))"

definition parse_examples :: "policy_world \<Rightarrow> sl_value list \<Rightarrow> policy_error + string list list" where
  "parse_examples w items = collect_results (parse_example w) items"

definition parse_literal_absolute_path :: "host_os \<Rightarrow> string \<Rightarrow> policy_error + abs_path" where
  "parse_literal_absolute_path os raw =
     (if \<not> path_is_absolute raw then Inl (InvalidRule (PathNotAbsolute raw))
      else ok_or (InvalidRule (InvalidAbsolutePath raw)) (from_absolute_path os raw))"

definition validate_host_executable_name :: "string \<Rightarrow> policy_error + unit" where
  "validate_host_executable_name name =
     (if name = [] then Inl (InvalidRule NameEmpty)
      else if length (std_components name) \<noteq> 1 \<or> path_file_name name \<noteq> Some name
      then Inl (InvalidRule (NameNotBare name))
      else Inr ())"

definition parse_network_rule_decision :: "string \<Rightarrow> policy_error + decision" where
  "parse_network_rule_decision raw =
     (if raw = ''deny'' then Inr Forbidden else parse_decision raw)"

definition error_location_from_file_span :: "file_span \<Rightarrow> error_location" where
  "error_location_from_file_span s =
     \<lparr> loc_path = span_filename s, loc_start_line = fst (span_begin s) + 1,
       loc_start_column = snd (span_begin s) + 1, loc_end_line = fst (span_end s) + 1,
       loc_end_column = snd (span_end s) + 1 \<rparr>"

text \<open>\<open>match\<close> and \<open>not_match\<close> are optional lists of examples.\<close>

definition optional_examples :: "policy_world \<Rightarrow> sl_value list option \<Rightarrow> policy_error + string list list" where
  "optional_examples w items = (case items of None \<Rightarrow> Inr [] | Some vs \<Rightarrow> parse_examples w vs)"

definition prefix_rule_builtin ::
  "policy_world \<Rightarrow> sl_value list \<Rightarrow> string option \<Rightarrow> sl_value list option \<Rightarrow> sl_value list option \<Rightarrow>
   string option \<Rightarrow> file_span option \<Rightarrow> policy_builder \<Rightarrow> policy_error + policy_builder" where
  "prefix_rule_builtin w pattern decision match_items not_match justification span b =
     try_bind (case decision of Some raw \<Rightarrow> parse_decision raw | None \<Rightarrow> Inr Allow) (\<lambda>decision.
     if blank_justification justification then Inl (InvalidRule JustificationEmpty)
     else
     try_bind (parse_pattern pattern) (\<lambda>pattern_tokens.
     try_bind (optional_examples w match_items) (\<lambda>matches.
     try_bind (optional_examples w not_match) (\<lambda>not_matches.
     let location = map_option error_location_from_file_span span in
     case pattern_tokens of
       [] \<Rightarrow> Inl (InvalidPattern PatternEmpty)
     | first_token # rest \<Rightarrow>
         let rules = map (\<lambda>head. \<lparr> rule_pattern = \<lparr> pat_first = head, pat_rest = rest \<rparr>,
                                  rule_decision = decision, rule_justification = justification \<rparr>)
                       (token_alternatives first_token) in
         Inr (fold (\<lambda>rule b. builder_add_rule b rule) rules
                (add_pending_example_validation b rules matches not_matches location))))))"

definition network_rule_builtin ::
  "string \<Rightarrow> string \<Rightarrow> string \<Rightarrow> string option \<Rightarrow> policy_builder \<Rightarrow> policy_error + policy_builder" where
  "network_rule_builtin host protocol decision justification b =
     try_bind (parse_protocol protocol) (\<lambda>protocol.
     try_bind (parse_network_rule_decision decision) (\<lambda>decision.
     if blank_justification justification then Inl (InvalidRule JustificationEmpty)
     else try_bind (normalize_network_rule_host host) (\<lambda>host.
       Inr (builder_add_network_rule b
         \<lparr> net_host = host, net_protocol = protocol, net_decision = decision,
           net_justification = justification \<rparr>))))"

fun parse_host_paths ::
  "host_os \<Rightarrow> string \<Rightarrow> abs_path list \<Rightarrow> sl_value list \<Rightarrow> policy_error + abs_path list" where
  "parse_host_paths os name parsed_paths [] = Inr parsed_paths"
| "parse_host_paths os name parsed_paths (v # vs) =
     try_bind (ok_or (InvalidRule (PathNotString (get_type v))) (unpack_str v)) (\<lambda>raw.
     try_bind (parse_literal_absolute_path os raw) (\<lambda>path.
       case executable_path_lookup_key path of
         None \<Rightarrow> Inl (InvalidRule (PathBasename raw name))
       | Some path_name \<Rightarrow>
           if path_name \<noteq> executable_lookup_key name then Inl (InvalidRule (PathBasename raw name))
           else parse_host_paths os name
                  (if list_ex (\<lambda>existing. existing = path) parsed_paths then parsed_paths
                   else parsed_paths @ [path]) vs))"

definition host_executable_builtin ::
  "host_os \<Rightarrow> string \<Rightarrow> sl_value list \<Rightarrow> policy_builder \<Rightarrow> policy_error + policy_builder" where
  "host_executable_builtin os name paths b =
     try_bind (validate_host_executable_name name) (\<lambda>_.
     try_bind (parse_host_paths os name [] paths) (\<lambda>parsed_paths.
       Inr (builder_add_host_executable b (executable_lookup_key name) parsed_paths)))"

fun run_builtin :: "policy_world \<Rightarrow> builtin_call \<Rightarrow> policy_builder \<Rightarrow> policy_error + policy_builder" where
  "run_builtin w (PrefixRuleCall pattern d ms nms j span) b = prefix_rule_builtin w pattern d ms nms j span b"
| "run_builtin w (NetworkRuleCall host protocol d j) b = network_rule_builtin host protocol d j b"
| "run_builtin w (HostExecutableCall name paths) b = host_executable_builtin (pw_host w) name paths b"

text \<open>
  The evaluation of a module: a builtin that fails stops it, and the calls before it have taken
  effect on the builder.
\<close>

fun run_builtins ::
  "policy_world \<Rightarrow> builtin_call list \<Rightarrow> policy_builder \<Rightarrow> policy_builder \<times> policy_error option" where
  "run_builtins w [] b = (b, None)"
| "run_builtins w (call # calls) b =
     (case run_builtin w call b of
        Inl e \<Rightarrow> (b, Some (StarlarkBuiltin e))
      | Inr b' \<Rightarrow> run_builtins w calls b')"

definition policy_parse ::
  "policy_world \<Rightarrow> string \<Rightarrow> string \<Rightarrow> policy_builder \<Rightarrow> policy_builder \<times> policy_error option" where
  "policy_parse w policy_identifier contents b =
     (let pending_validation_count = length (b_pending_example_validations b) in
      case pw_syntax_error w policy_identifier contents of
        Some e \<Rightarrow> (b, Some (StarlarkScript e))
      | None \<Rightarrow>
          (case pw_eval w policy_identifier contents of (calls, script_error) \<Rightarrow>
            (case run_builtins w calls b of
               (b', Some e) \<Rightarrow> (b', Some e)
             | (b', None) \<Rightarrow>
                 (case script_error of
                    Some e \<Rightarrow> (b', Some (StarlarkScript e))
                  | None \<Rightarrow>
                      (case validate_pending_examples_from (pw_host w) b' pending_validation_count of
                         Inl e \<Rightarrow> (b', Some e)
                       | Inr _ \<Rightarrow> (b', None))))))"

text \<open>\<open>load_policies\<close> of the checking command: every file in turn, the first error ends it.\<close>

datatype load_error = LoadRead string | LoadParse string policy_error

fun load_policy_files ::
  "policy_world \<Rightarrow> (string \<Rightarrow> string option) \<Rightarrow> string list \<Rightarrow> policy_builder \<Rightarrow> load_error + policy_builder" where
  "load_policy_files w read_to_string [] b = Inr b"
| "load_policy_files w read_to_string (path # paths) b =
     (case read_to_string path of None \<Rightarrow> Inl (LoadRead path)
      | Some contents \<Rightarrow>
          (case policy_parse w path contents b of
             (b', Some e) \<Rightarrow> Inl (LoadParse path e)
           | (b', None) \<Rightarrow> load_policy_files w read_to_string paths b'))"

definition load_policies ::
  "policy_world \<Rightarrow> (string \<Rightarrow> string option) \<Rightarrow> string list \<Rightarrow> load_error + policy" where
  "load_policies w read_to_string policy_paths =
     try_bind (load_policy_files w read_to_string policy_paths builder_new) (\<lambda>b. Inr (build b))"

section \<open>Amending a rules file\<close>

datatype amend_error =
    EmptyPrefix
  | InvalidNetworkRule policy_error
  | MissingParent abs_path
  | CreatePolicyDir abs_path string
  | OpenPolicyFile abs_path string
  | WritePolicyFile abs_path string
  | LockPolicyFile abs_path string
  | SeekPolicyFile abs_path string
  | ReadPolicyFile abs_path string

datatype create_dir_outcome = DirCreated | DirAlreadyExists | DirFailed string

text \<open>
  What the operating system answers during an append. A write that fails has put a prefix of its
  bytes into the file.
\<close>

record amend_io =
  io_json :: "string \<Rightarrow> string"
  io_create_dir :: "abs_path \<Rightarrow> create_dir_outcome"
  io_open :: "string option"
  io_lock :: "string option"
  io_seek :: "string option"
  io_read :: "string option"
  io_write :: "nat \<Rightarrow> (nat \<times> string) option"

definition write_all :: "amend_io \<Rightarrow> nat \<Rightarrow> string \<Rightarrow> string \<Rightarrow> string \<times> string option" where
  "write_all io i file bytes =
     (case io_write io i of None \<Rightarrow> (file @ bytes, None) | Some (n, e) \<Rightarrow> (file @ take n bytes, Some e))"

definition append_locked_line ::
  "amend_io \<Rightarrow> abs_path \<Rightarrow> string \<Rightarrow> string option \<Rightarrow> string option \<times> amend_error option" where
  "append_locked_line io policy_path line file =
     (case io_open io of Some e \<Rightarrow> (file, Some (OpenPolicyFile policy_path e))
      | None \<Rightarrow>
        let contents = (case file of None \<Rightarrow> [] | Some s \<Rightarrow> s) in
        (case io_lock io of Some e \<Rightarrow> (Some contents, Some (LockPolicyFile policy_path e))
         | None \<Rightarrow>
        (case io_seek io of Some e \<Rightarrow> (Some contents, Some (SeekPolicyFile policy_path e))
         | None \<Rightarrow>
        (case io_read io of Some e \<Rightarrow> (Some contents, Some (ReadPolicyFile policy_path e))
         | None \<Rightarrow>
        if \<not> valid_utf8 contents
        then (Some contents, Some (ReadPolicyFile policy_path ''stream did not contain valid UTF-8''))
        else if list_ex (\<lambda>existing. existing = line) (str_lines contents) then (Some contents, None)
        else
          (case (if contents \<noteq> [] \<and> \<not> ends_with [nl] contents then write_all io 0 contents [nl]
                 else (contents, None)) of
             (written, Some e) \<Rightarrow> (Some written, Some (WritePolicyFile policy_path e))
           | (written, None) \<Rightarrow>
               (case write_all io 1 written (line @ [nl]) of
                  (written, Some e) \<Rightarrow> (Some written, Some (WritePolicyFile policy_path e))
                | (written, None) \<Rightarrow> (Some written, None)))))))"

definition append_rule_line ::
  "amend_io \<Rightarrow> abs_path \<Rightarrow> string \<Rightarrow> string option \<Rightarrow> string option \<times> amend_error option" where
  "append_rule_line io policy_path rule file =
     (case policy_path of
        [] \<Rightarrow> (file, Some (MissingParent policy_path))
      | _ \<Rightarrow>
          (case io_create_dir io (butlast policy_path) of
             DirFailed e \<Rightarrow> (file, Some (CreatePolicyDir (butlast policy_path) e))
           | _ \<Rightarrow> append_locked_line io policy_path rule file))"

text \<open>\<open>serde_json::to_string\<close> does not fail on a string.\<close>

definition dquote :: char where
  "dquote = CHR 0x22"

definition prefix_rule_line :: "(string \<Rightarrow> string) \<Rightarrow> string list \<Rightarrow> string" where
  "prefix_rule_line json tokens =
     ''prefix_rule(pattern=['' @ join_with '', '' (map json tokens) @ ''], decision='' @
     [dquote] @ ''allow'' @ [dquote] @ '')''"

definition blocking_append_allow_prefix_rule ::
  "amend_io \<Rightarrow> abs_path \<Rightarrow> string list \<Rightarrow> string option \<Rightarrow> string option \<times> amend_error option" where
  "blocking_append_allow_prefix_rule io policy_path tokens file =
     (if tokens = [] then (file, Some EmptyPrefix)
      else append_rule_line io policy_path (prefix_rule_line (io_json io) tokens) file)"

fun network_decision_name :: "decision \<Rightarrow> string" where
  "network_decision_name Allow = ''allow''"
| "network_decision_name Prompt = ''prompt''"
| "network_decision_name Forbidden = ''deny''"

definition network_rule_line ::
  "(string \<Rightarrow> string) \<Rightarrow> string \<Rightarrow> network_rule_protocol \<Rightarrow> decision \<Rightarrow> string option \<Rightarrow> string" where
  "network_rule_line json host protocol d justification =
     ''network_rule('' @
     join_with '', ''
       ([''host='' @ json host, ''protocol='' @ json (as_policy_string protocol),
         ''decision='' @ json (network_decision_name d)] @
        (case justification of None \<Rightarrow> [] | Some j \<Rightarrow> [''justification='' @ json j])) @ '')''"

definition blocking_append_network_rule ::
  "amend_io \<Rightarrow> abs_path \<Rightarrow> string \<Rightarrow> network_rule_protocol \<Rightarrow> decision \<Rightarrow> string option \<Rightarrow>
   string option \<Rightarrow> string option \<times> amend_error option" where
  "blocking_append_network_rule io policy_path host protocol d justification file =
     (case normalize_network_rule_host host of
        Inl e \<Rightarrow> (file, Some (InvalidNetworkRule e))
      | Inr host \<Rightarrow>
          if blank_justification justification
          then (file, Some (InvalidNetworkRule (InvalidRule JustificationEmpty)))
          else append_rule_line io policy_path
                 (network_rule_line (io_json io) host protocol d justification) file)"

end
