(* ===== verification/PolicyFile.thy ===== *)
theory PolicyFile
  imports ExecPolicy
begin

text \<open>
  Amending a rules file (\<open>execpolicy/src/amend.rs\<close>): whatever the operating system answers, the file
  keeps what it held; a successful append leaves the rule as a line of its own; and appending the
  same rule again changes nothing.
\<close>

section \<open>Lines of an extended file\<close>

lemma valid_utf8_appendI: "valid_utf8 a \<Longrightarrow> valid_utf8 b \<Longrightarrow> valid_utf8 (a @ b)"
  by (simp add: valid_utf8_append)

lemma valid_utf8_ascii: "list_all (\<lambda>c. of_char c < (128 :: nat)) s \<Longrightarrow> valid_utf8 s"
proof (induction s)
  case (Cons c s)
  then have "valid_utf8 [c]" by (simp add: valid_utf8_def utf8_step_def)
  with Cons valid_utf8_append [of "[c]" s] show ?case by simp
qed simp

lemma split_inclusive_nl_append:
  "split_inclusive_nl (a @ nl # b) = split_inclusive_nl (a @ [nl]) @ split_inclusive_nl b"
proof (induction a)
  case (Cons x a)
  have "split_inclusive_nl (a @ [nl]) \<noteq> []"
    by (cases a) (auto split: list.splits)
  then obtain y ys where "split_inclusive_nl (a @ [nl]) = y # ys" by (cases "split_inclusive_nl (a @ [nl])") auto
  with Cons show ?case by simp
qed simp

lemma str_lines_append: "str_lines (a @ nl # b) = str_lines (a @ [nl]) @ str_lines b"
  unfolding str_lines_def split_inclusive_nl_append [of a b] by simp

lemma split_one_line:
  "nl \<notin> set l \<Longrightarrow> l \<noteq> [] \<Longrightarrow> split_inclusive_nl l = [l]"
  "nl \<notin> set l \<Longrightarrow> split_inclusive_nl (l @ [nl]) = [l @ [nl]]"
proof (induction l)
  case (Cons x l)
  { case 1 with Cons show ?case by (cases l) auto }
  { case 2 with Cons show ?case by auto }
qed simp_all

lemma str_lines_one_line:
  assumes "nl \<notin> set l" "\<not> ends_with [cr] l"
  shows "str_lines (l @ [nl]) = [l]" "l \<noteq> [] \<Longrightarrow> str_lines l = [l]"
proof -
  have cr: "strip_suffix [cr] l = None"
    using assms(2) by (cases "strip_suffix [cr] l") (auto simp: ends_with_def)
  have nl: "strip_suffix [nl] l = None"
    using assms(1) by (cases "strip_suffix [nl] l") (auto simp: rust_str)
  show "str_lines (l @ [nl]) = [l]"
    using assms(1) cr by (simp add: str_lines_def split_one_line line_content_def)
  show "l \<noteq> [] \<Longrightarrow> str_lines l = [l]"
    using assms(1) nl by (simp add: str_lines_def split_one_line line_content_def)
qed

lemma str_lines_close:
  assumes "a \<noteq> []" "\<not> ends_with [nl] a" "\<not> ends_with [cr] a"
  shows "str_lines (a @ [nl]) = str_lines a"
proof (cases "nl \<in> set a")
  case False
  with assms show ?thesis by (simp add: str_lines_one_line)
next
  case True
  then obtain b l where a: "a = b @ nl # l" "nl \<notin> set l" by (meson split_list_last)
  from assms(2) a have "l \<noteq> []" by (auto simp: rust_str)
  have "\<not> ends_with [cr] l" using assms(3) a(1) by (auto simp: rust_str)
  with a(2) \<open>l \<noteq> []\<close> have "str_lines (l @ [nl]) = str_lines l" by (simp add: str_lines_one_line)
  then show ?thesis
    using str_lines_append [of b "l @ [nl]"] str_lines_append [of b l] by (simp add: a(1))
qed

section \<open>Appending a line\<close>

abbreviation text_of :: "string option \<Rightarrow> string" where
  "text_of file \<equiv> (case file of None \<Rightarrow> [] | Some s \<Rightarrow> s)"

text \<open>The file a successful append leaves.\<close>

definition with_line :: "string \<Rightarrow> string \<Rightarrow> string" where
  "with_line contents line =
     (if line \<in> set (str_lines contents) then contents
      else contents @ (if contents \<noteq> [] \<and> \<not> ends_with [nl] contents then [nl] else []) @ line @ [nl])"

lemma append_locked_line_keeps:
  "\<exists>added. text_of (fst (append_locked_line io path line file)) = text_of file @ added"
  by (auto simp: append_locked_line_def write_all_def Let_def list_ex_iff
      split: option.splits if_splits prod.splits)

lemma append_locked_line_ok:
  assumes "append_locked_line io path line file = (file', None)"
  shows "file' = Some (with_line (text_of file) line)" "valid_utf8 (text_of file)"
    "io_open io = None" "io_lock io = None" "io_seek io = None" "io_read io = None"
  using assms
  by (auto simp: append_locked_line_def with_line_def write_all_def Let_def list_ex_iff
      split: option.splits if_splits prod.splits)

lemma with_line_lines:
  assumes "nl \<notin> set line" "\<not> ends_with [cr] line"
  shows "line \<in> set (str_lines (with_line contents line))"
    and "\<not> ends_with [cr] contents \<Longrightarrow>
         str_lines (with_line contents line) =
           (if line \<in> set (str_lines contents) then str_lines contents else str_lines contents @ [line])"
proof -
  have one: "str_lines (line @ [nl]) = [line]" by (rule str_lines_one_line [OF assms])
  have nil: "str_lines [] = []" by (simp add: str_lines_def)
  have closed: "str_lines (c @ line @ [nl]) = str_lines c @ [line]" if "c = [] \<or> ends_with [nl] c" for c
    using that one nil str_lines_append [of _ "line @ [nl]"] by (auto simp: rust_str)
  have opened: "str_lines (contents @ nl # line @ [nl]) = str_lines (contents @ [nl]) @ [line]"
    using str_lines_append [of contents "line @ [nl]"] one by simp
  show "line \<in> set (str_lines (with_line contents line))"
    using closed [of contents] opened by (auto simp: with_line_def)
  assume "\<not> ends_with [cr] contents"
  then show "str_lines (with_line contents line) =
      (if line \<in> set (str_lines contents) then str_lines contents else str_lines contents @ [line])"
    using closed [of contents] opened str_lines_close [of contents] by (auto simp: with_line_def)
qed

lemma with_line_again:
  assumes "nl \<notin> set line" "\<not> ends_with [cr] line"
  shows "with_line (with_line contents line) line = with_line contents line"
  using with_line_lines(1) [OF assms, of contents] by (subst with_line_def) simp

lemma with_line_valid:
  assumes "valid_utf8 contents" "valid_utf8 line"
  shows "valid_utf8 (with_line contents line)"
proof -
  have nl: "valid_utf8 [nl]" by code_simp
  then have "valid_utf8 (line @ [nl])" using assms(2) by (simp add: valid_utf8_append)
  moreover have "valid_utf8 (nl # line @ [nl])" using nl calculation valid_utf8_append [OF nl] by simp
  ultimately show ?thesis using assms(1) by (auto simp: with_line_def valid_utf8_append)
qed

lemma append_locked_line_again:
  assumes "append_locked_line io path line file = (file', None)"
    and "nl \<notin> set line" "\<not> ends_with [cr] line" "valid_utf8 line"
  shows "append_locked_line io path line file' = (file', None)"
proof -
  note ok = append_locked_line_ok [OF assms(1)]
  have "valid_utf8 (with_line (text_of file) line)" by (rule with_line_valid [OF ok(2) assms(4)])
  moreover have "line \<in> set (str_lines (with_line (text_of file) line))"
    by (rule with_line_lines(1) [OF assms(2,3)])
  ultimately show ?thesis
    using ok by (simp add: append_locked_line_def list_ex_iff)
qed

section \<open>Appending a prefix rule\<close>

lemma join_with_all:
  "list_all P (join_with sep xs) \<longleftrightarrow>
     list_all (list_all P) xs \<and> (length xs \<ge> 2 \<longrightarrow> list_all P sep)"
  by (induction sep xs rule: join_with.induct) auto

lemma join_with_valid:
  "valid_utf8 sep \<Longrightarrow> list_all valid_utf8 xs \<Longrightarrow> valid_utf8 (join_with sep xs)"
  by (induction sep xs rule: join_with.induct) (simp_all add: valid_utf8_append)

lemma prefix_rule_line_shape:
  assumes "\<And>s. nl \<notin> set (json s)" "\<And>s. valid_utf8 (json s)"
  shows "nl \<notin> set (prefix_rule_line json tokens)" "\<not> ends_with [cr] (prefix_rule_line json tokens)"
    "valid_utf8 (prefix_rule_line json tokens)"
proof -
  have "list_all (\<lambda>c. c \<noteq> nl) (join_with '', '' (map json tokens))"
    unfolding join_with_all using assms(1) by (auto simp: list_all_iff)
  then show "nl \<notin> set (prefix_rule_line json tokens)"
    by (auto simp: prefix_rule_line_def dquote_def list_all_iff)
  show "\<not> ends_with [cr] (prefix_rule_line json tokens)"
    by (auto simp: prefix_rule_line_def rust_str)
  have "valid_utf8 (join_with '', '' (map json tokens))"
    using assms(2) by (intro join_with_valid) (simp_all add: list_all_iff, code_simp)
  moreover have "valid_utf8 ''prefix_rule(pattern=[''" "valid_utf8 ''], decision=''" "valid_utf8 [dquote]"
    "valid_utf8 ''allow''" "valid_utf8 '')''" by code_simp+
  ultimately show "valid_utf8 (prefix_rule_line json tokens)"
    unfolding prefix_rule_line_def by (intro valid_utf8_appendI)
qed

text \<open>
  C36. Appending an allow rule to a rules file never loses what the file held: after any outcome,
  failed writes included, the old text is a prefix of the new one. When the append succeeds, the rule
  is a line of the file, the lines before it are those the file had, in order, provided its last
  character was not a carriage return, and appending the same rule again succeeds and changes nothing. The JSON rendering of a string
  is assumed to be UTF-8 text on one line.
\<close>

theorem append_rule_keeps_the_file:
  assumes json: "\<And>s. nl \<notin> set (io_json io s)" "\<And>s. valid_utf8 (io_json io s)"
    and run: "blocking_append_allow_prefix_rule io path tokens file = (file', result)"
  defines "line \<equiv> prefix_rule_line (io_json io) tokens"
  shows "(\<exists>added. text_of file' = text_of file @ added) \<and>
    (result = None \<longrightarrow>
       line \<in> set (str_lines (text_of file')) \<and>
       (\<not> ends_with [cr] (text_of file) \<longrightarrow>
          str_lines (text_of file') =
            (if line \<in> set (str_lines (text_of file)) then str_lines (text_of file)
             else str_lines (text_of file) @ [line])) \<and>
       blocking_append_allow_prefix_rule io path tokens file' = (file', None))"
proof -
  note shape = prefix_rule_line_shape [of "io_json io" tokens, OF json, folded line_def]
  consider "file' = file" "result \<noteq> None"
    | "tokens \<noteq> []" "path \<noteq> []" "\<nexists>e. io_create_dir io (butlast path) = DirFailed e"
      "append_locked_line io path line file = (file', result)"
    using run
    by (cases "tokens = []"; cases path; cases "io_create_dir io (butlast path)")
       (auto simp: blocking_append_allow_prefix_rule_def append_rule_line_def line_def)
  then show ?thesis
  proof cases
    case 1
    then show ?thesis by auto
  next
    case 2
    have keeps: "\<exists>added. text_of file' = text_of file @ added"
      using append_locked_line_keeps [of io path line "file"] 2(4) by simp
    have again: "blocking_append_allow_prefix_rule io path tokens file' = (file', None)"
        if "append_locked_line io path line file' = (file', None)"
      using 2(1-3) that
      by (auto simp: blocking_append_allow_prefix_rule_def append_rule_line_def line_def
          split: list.split create_dir_outcome.split)
    show ?thesis
    proof (cases result)
      case None
      with 2(4) have ok: "append_locked_line io path line file = (file', None)" by simp
      have "file' = Some (with_line (text_of file) line)" by (rule append_locked_line_ok [OF ok])
      then show ?thesis
        using keeps again [OF append_locked_line_again [OF ok shape]] with_line_lines [OF shape(1,2), of "text_of file"]
        by auto
    qed (use keeps in simp)
  qed
qed

definition sample_amend_io :: amend_io where
  "sample_amend_io =
     \<lparr> io_json = (\<lambda>s. [dquote] @ filter is_ascii_alphanumeric s @ [dquote]),
       io_create_dir = (\<lambda>_. DirAlreadyExists), io_open = None, io_lock = None, io_seek = None,
       io_read = None, io_write = (\<lambda>_. None) \<rparr>"

lemma sample_json:
  "nl \<notin> set (io_json sample_amend_io s)" "valid_utf8 (io_json sample_amend_io s)"
proof -
  have alnum: "of_char c < (128 :: nat) \<and> c \<noteq> nl" if "is_ascii_alphanumeric c" for c
    using that by (auto simp: is_ascii_alphanumeric_def is_ascii_alphabetic_def is_ascii_digit_def Let_def)
  show "nl \<notin> set (io_json sample_amend_io s)"
    using alnum by (auto simp: sample_amend_io_def dquote_def)
  show "valid_utf8 (io_json sample_amend_io s)"
    using alnum by (intro valid_utf8_ascii) (auto simp: sample_amend_io_def dquote_def list_all_iff)
qed

theorem append_rule_keeps_the_file_witness:
  "\<exists>file'. blocking_append_allow_prefix_rule sample_amend_io [''rules'', ''default.rules''] [''ls'']
             (Some ''# mine'') = (Some file', None) \<and>
     str_lines file' = [''# mine'', prefix_rule_line (io_json sample_amend_io) [''ls'']]"
proof -
  obtain file' result where run: "blocking_append_allow_prefix_rule sample_amend_io
      [''rules'', ''default.rules''] [''ls''] (Some ''# mine'') = (file', result)" by fastforce
  have res: "snd (blocking_append_allow_prefix_rule sample_amend_io
      [''rules'', ''default.rules''] [''ls''] (Some ''# mine'')) = None"
    "fst (blocking_append_allow_prefix_rule sample_amend_io
      [''rules'', ''default.rules''] [''ls''] (Some ''# mine'')) \<noteq> None" by code_simp+
  have old: "str_lines ''# mine'' = [''# mine'']" "\<not> ends_with [cr] ''# mine''"
    "prefix_rule_line (io_json sample_amend_io) [''ls''] \<noteq> ''# mine''" by code_simp+
  from append_rule_keeps_the_file [OF sample_json run] run res old show ?thesis by auto
qed

end
