(* ===== verification/ExecApproval.thy ===== *)
theory ExecApproval
  imports ExecPolicy EnvSwitch
begin

text \<open>
  Approval of commands (\<open>core/src/exec_policy.rs\<close> and \<open>config/src/requirements_exec_policy.rs\<close>), in
  the Linux build: which rules files are loaded and how the rules of \<open>requirements.toml\<close> are laid
  over them, what happens to a command no rule matches, whether a command runs, is asked for or is
  refused, which rule is offered to remember an approval, and how an approved rule enters the policy
  and the rules file. The syntax-tree parser, the interpreter of rules files, shell quoting and the
  file system are parameters.
\<close>

section \<open>Rules of requirements.toml\<close>

datatype requirements_decision = ReqAllow | ReqPrompt | ReqForbid

fun as_decision :: "requirements_decision \<Rightarrow> decision" where
  "as_decision ReqAllow = Allow"
| "as_decision ReqPrompt = Prompt"
| "as_decision ReqForbid = Forbidden"

record requirements_token =
  rt_token :: "string option"
  rt_any_of :: "string list option"

record requirements_prefix_rule =
  rp_pattern :: "requirements_token list"
  rp_decision :: "requirements_decision option"
  rp_justification :: "string option"

datatype token_reason = TokenEmpty | AnyOfEmpty | AnyOfHasEmpty | BothSet | NoneSet

datatype requirements_error =
    EmptyPrefixRules
  | EmptyPattern nat
  | InvalidPatternToken nat nat token_reason
  | EmptyJustification nat
  | MissingDecision nat
  | AllowDecisionNotAllowed nat

definition requirements_pattern_token ::
  "requirements_token \<Rightarrow> nat \<Rightarrow> nat \<Rightarrow> requirements_error + pattern_token" where
  "requirements_pattern_token t rule_index token_index =
     (case (rt_token t, rt_any_of t) of
        (Some single, None) \<Rightarrow>
          if trim single = [] then Inl (InvalidPatternToken rule_index token_index TokenEmpty)
          else Inr (Single single)
      | (None, Some alternatives) \<Rightarrow>
          if alternatives = [] then Inl (InvalidPatternToken rule_index token_index AnyOfEmpty)
          else if list_ex (\<lambda>alt. trim alt = []) alternatives
          then Inl (InvalidPatternToken rule_index token_index AnyOfHasEmpty)
          else Inr (Alts alternatives)
      | (Some _, Some _) \<Rightarrow> Inl (InvalidPatternToken rule_index token_index BothSet)
      | (None, None) \<Rightarrow> Inl (InvalidPatternToken rule_index token_index NoneSet))"

text \<open>The body of the loop over the rules: the store after one rule.\<close>

definition requirements_rule ::
  "nat \<Rightarrow> requirements_prefix_rule \<Rightarrow> prefix_rule multimap \<Rightarrow> requirements_error + prefix_rule multimap" where
  "requirements_rule rule_index rule m =
     (if blank_justification (rp_justification rule) then Inl (EmptyJustification rule_index)
      else if rp_pattern rule = [] then Inl (EmptyPattern rule_index)
      else
      try_bind (collect_results (\<lambda>(token_index, t). requirements_pattern_token t rule_index token_index)
                  (List.enumerate 0 (rp_pattern rule))) (\<lambda>pattern_tokens.
      try_bind (case rp_decision rule of
                  Some ReqAllow \<Rightarrow> Inl (AllowDecisionNotAllowed rule_index)
                | Some decision \<Rightarrow> Inr (as_decision decision)
                | None \<Rightarrow> Inl (MissingDecision rule_index)) (\<lambda>decision.
      case pattern_tokens of
        [] \<Rightarrow> Inl (EmptyPattern rule_index)
      | first_token # rest \<Rightarrow>
          Inr (fold (\<lambda>head m. mm_insert head
                 \<lparr> rule_pattern = \<lparr> pat_first = head, pat_rest = rest \<rparr>, rule_decision = decision,
                   rule_justification = rp_justification rule \<rparr> m)
               (token_alternatives first_token) m))))"

fun requirements_rules ::
  "nat \<Rightarrow> requirements_prefix_rule list \<Rightarrow> prefix_rule multimap \<Rightarrow>
   requirements_error + prefix_rule multimap" where
  "requirements_rules rule_index [] m = Inr m"
| "requirements_rules rule_index (rule # rules) m =
     try_bind (requirements_rule rule_index rule m) (requirements_rules (Suc rule_index) rules)"

definition to_policy :: "requirements_prefix_rule list \<Rightarrow> requirements_error + policy" where
  "to_policy prefix_rules =
     (if prefix_rules = [] then Inl EmptyPrefixRules
      else try_bind (requirements_rules 0 prefix_rules []) (\<lambda>m. Inr (policy_new m)))"

section \<open>Loading the policy\<close>

text \<open>Where a configuration layer comes from; only the user and project layers are told apart.\<close>

datatype layer_source = UserLayer | ProjectLayer | OtherLayer

record config_layer =
  layer_name :: layer_source
  layer_config_folder :: "abs_path option"

text \<open>The enabled layers of a stack, lowest precedence first, and what it says about rules.\<close>

record config_layer_stack =
  cls_layers :: "config_layer list"
  cls_ignore_user_and_project_exec_policy_rules :: bool
  cls_requirements_exec_policy :: "policy option"

datatype dir_item = ItemError string | Item string "string + bool"

datatype read_dir_outcome = ReadDirNotFound | ReadDirError string | ReadDirItems "dir_item list"

record policy_files =
  pf_read_dir :: "abs_path \<Rightarrow> read_dir_outcome"
  pf_read_to_string :: "abs_path \<Rightarrow> string + string"

datatype exec_policy_error =
    ReadDir abs_path string
  | ReadFile abs_path string
  | ParsePolicy string policy_error

text \<open>\<open>Path::extension\<close> of a file name.\<close>

definition name_extension :: "string \<Rightarrow> string option" where
  "name_extension n =
     (let ext = takeWhile (\<lambda>c. c \<noteq> CHR ''.'') (rev n); before = drop (length ext) (rev n) in
      if length before \<le> 1 then None else Some (rev ext))"

fun collect_rule_files :: "abs_path \<Rightarrow> dir_item list \<Rightarrow> exec_policy_error + abs_path list" where
  "collect_rule_files dir [] = Inr []"
| "collect_rule_files dir (ItemError e # items) = Inl (ReadDir dir e)"
| "collect_rule_files dir (Item name (Inl e) # items) = Inl (ReadDir dir e)"
| "collect_rule_files dir (Item name (Inr is_file) # items) =
     try_bind (collect_rule_files dir items) (\<lambda>paths.
       Inr (if name_extension name = Some ''rules'' \<and> is_file then (dir @ [name]) # paths else paths))"

definition collect_policy_files :: "policy_files \<Rightarrow> abs_path \<Rightarrow> exec_policy_error + abs_path list" where
  "collect_policy_files files dir =
     (case pf_read_dir files dir of
        ReadDirNotFound \<Rightarrow> Inr []
      | ReadDirError e \<Rightarrow> Inl (ReadDir dir e)
      | ReadDirItems items \<Rightarrow> try_bind (collect_rule_files dir items) (\<lambda>paths. Inr (sort paths)))"

fun layer_policy_files ::
  "host_os \<Rightarrow> policy_files \<Rightarrow> bool \<Rightarrow> config_layer list \<Rightarrow> exec_policy_error + abs_path list" where
  "layer_policy_files os files ignore [] = Inr []"
| "layer_policy_files os files ignore (layer # layers) =
     (if ignore \<and> layer_name layer \<in> {UserLayer, ProjectLayer}
      then layer_policy_files os files ignore layers
      else case layer_config_folder layer of
        None \<Rightarrow> layer_policy_files os files ignore layers
      | Some config_folder \<Rightarrow>
          try_bind (collect_policy_files files (abs_join os config_folder ''rules'')) (\<lambda>paths.
          try_bind (layer_policy_files os files ignore layers) (\<lambda>more. Inr (paths @ more))))"

fun parse_policy_files ::
  "policy_world \<Rightarrow> policy_files \<Rightarrow> abs_path list \<Rightarrow> policy_builder \<Rightarrow> exec_policy_error + policy_builder" where
  "parse_policy_files w files [] b = Inr b"
| "parse_policy_files w files (path # paths) b =
     try_bind (map_err (ReadFile path) (pf_read_to_string files path)) (\<lambda>contents.
       case policy_parse w (abs_path_str path) contents b of
         (b', Some e) \<Rightarrow> Inl (ParsePolicy (abs_path_str path) e)
       | (b', None) \<Rightarrow> parse_policy_files w files paths b')"

definition load_exec_policy ::
  "policy_world \<Rightarrow> policy_files \<Rightarrow> config_layer_stack \<Rightarrow> exec_policy_error + policy" where
  "load_exec_policy w files stack =
     try_bind (layer_policy_files (pw_host w) files
                 (cls_ignore_user_and_project_exec_policy_rules stack) (cls_layers stack)) (\<lambda>policy_paths.
     try_bind (parse_policy_files w files policy_paths builder_new) (\<lambda>b.
       case cls_requirements_exec_policy stack of
         None \<Rightarrow> Inr (build b)
       | Some requirements_policy \<Rightarrow> Inr (merge_overlay (build b) requirements_policy)))"

definition load_exec_policy_with_warning ::
  "policy_world \<Rightarrow> policy_files \<Rightarrow> config_layer_stack \<Rightarrow>
   exec_policy_error + policy \<times> exec_policy_error option" where
  "load_exec_policy_with_warning w files stack =
     (case load_exec_policy w files stack of
        Inr p \<Rightarrow> Inr (p, None)
      | Inl (ParsePolicy path e) \<Rightarrow> Inr (policy_empty, Some (ParsePolicy path e))
      | Inl e \<Rightarrow> Inl e)"

definition check_execpolicy_for_warnings ::
  "policy_world \<Rightarrow> policy_files \<Rightarrow> config_layer_stack \<Rightarrow> exec_policy_error + exec_policy_error option" where
  "check_execpolicy_for_warnings w files stack =
     try_bind (load_exec_policy_with_warning w files stack) (\<lambda>(_, warning). Inr warning)"

text \<open>The manager holds the current policy; an update replaces it.\<close>

record exec_policy_manager =
  current_policy :: policy

definition manager_load ::
  "policy_world \<Rightarrow> policy_files \<Rightarrow> config_layer_stack \<Rightarrow> exec_policy_error + exec_policy_manager" where
  "manager_load w files stack =
     try_bind (load_exec_policy_with_warning w files stack) (\<lambda>(p, _). Inr \<lparr> current_policy = p \<rparr>)"

section \<open>Commands no rule matches\<close>

datatype sandbox_permissions = UseDefault | RequireEscalated | WithAdditionalPermissions

definition requests_sandbox_override :: "sandbox_permissions \<Rightarrow> bool" where
  "requests_sandbox_override s \<longleftrightarrow> s \<noteq> UseDefault"

datatype windows_sandbox_level = WinDisabled | WinRestrictedToken | WinElevated

text \<open>\<open>cfg!(windows)\<close> of the build.\<close>

definition cfg_windows :: bool where
  "cfg_windows = False"

record approval_world =
  aw_host :: host_os
  aw_parse_shell :: shell_parser
  aw_shlex_join :: "string list \<Rightarrow> string option"

record unmatched_command_context =
  uc_approval_policy :: ask_for_approval
  uc_permission_profile :: permission_profile
  uc_windows_sandbox_level :: windows_sandbox_level
  uc_sandbox_permissions :: sandbox_permissions
  uc_used_complex_parsing :: bool

definition profile_has_managed_filesystem_restrictions :: "permission_profile \<Rightarrow> bool" where
  "profile_has_managed_filesystem_restrictions profile \<longleftrightarrow>
     (let policy = file_system_sandbox_policy_of profile in
      (case profile of Managed _ _ \<Rightarrow> True | _ \<Rightarrow> False) \<and>
      fsp_kind policy = Restricted \<and> \<not> has_full_disk_write_access policy)"

definition render_decision_for_unmatched_command ::
  "shell_parser \<Rightarrow> string list \<Rightarrow> unmatched_command_context \<Rightarrow> decision" where
  "render_decision_for_unmatched_command try_parse_shell command context =
     (let kind = fsp_kind (file_system_sandbox_policy_of (uc_permission_profile context));
          is_known_safe = is_known_safe_command try_parse_shell command;
          windows_managed_fs_restrictions_without_sandbox_backend =
            (cfg_windows \<and> uc_windows_sandbox_level context = WinDisabled \<and>
             profile_has_managed_filesystem_restrictions (uc_permission_profile context)) in
      if is_known_safe \<and> \<not> uc_used_complex_parsing context \<and>
         (uc_approval_policy context = UnlessTrusted \<or>
          windows_managed_fs_restrictions_without_sandbox_backend)
      then Allow
      else if command_might_be_dangerous try_parse_shell command \<or>
              windows_managed_fs_restrictions_without_sandbox_backend
      then (case uc_approval_policy context of
              Never \<Rightarrow>
                (case uc_permission_profile context of
                   ProfileDisabled \<Rightarrow> Allow | External _ \<Rightarrow> Allow | Managed _ _ \<Rightarrow> Forbidden)
            | _ \<Rightarrow> Prompt)
      else (case uc_approval_policy context of
              Never \<Rightarrow> Allow
            | OnFailure \<Rightarrow> Allow
            | UnlessTrusted \<Rightarrow> Prompt
            | OnRequest \<Rightarrow>
                if kind = Restricted \<and> requests_sandbox_override (uc_sandbox_permissions context)
                then Prompt else Allow
            | Granular _ \<Rightarrow>
                if kind = Restricted \<and> requests_sandbox_override (uc_sandbox_permissions context)
                then Prompt else Allow))"

record exec_policy_commands =
  epc_commands :: "string list list"
  epc_used_complex_parsing :: bool

definition commands_for_exec_policy :: "shell_parser \<Rightarrow> string list \<Rightarrow> exec_policy_commands" where
  "commands_for_exec_policy try_parse_shell command =
     (case option_filter (\<lambda>cs. cs \<noteq> []) (parse_shell_lc_plain_commands try_parse_shell command) of
        Some commands \<Rightarrow> \<lparr> epc_commands = commands, epc_used_complex_parsing = False \<rparr>
      | None \<Rightarrow>
          (case parse_shell_lc_single_command_prefix try_parse_shell command of
             Some single_command \<Rightarrow>
               \<lparr> epc_commands = [single_command], epc_used_complex_parsing = True \<rparr>
           | None \<Rightarrow> \<lparr> epc_commands = [command], epc_used_complex_parsing = False \<rparr>))"

section \<open>Prompts, reasons and amendments\<close>

fun is_policy_match :: "rule_match \<Rightarrow> bool" where
  "is_policy_match (PrefixRuleMatch _ _ _ _) = True"
| "is_policy_match (HeuristicsRuleMatch _ _) = False"

definition prompt_conflict_reason :: string where
  "prompt_conflict_reason = ''approval required by policy, but AskForApproval is set to Never''"

definition reject_sandbox_approval_reason :: string where
  "reject_sandbox_approval_reason =
     ''approval required by policy, but AskForApproval::Granular.sandbox_approval is false''"

definition reject_rules_approval_reason :: string where
  "reject_rules_approval_reason =
     ''approval required by policy rule, but AskForApproval::Granular.rules is false''"

fun prompt_is_rejected_by_policy :: "ask_for_approval \<Rightarrow> bool \<Rightarrow> string option" where
  "prompt_is_rejected_by_policy Never prompt_is_rule = Some prompt_conflict_reason"
| "prompt_is_rejected_by_policy OnFailure prompt_is_rule = None"
| "prompt_is_rejected_by_policy OnRequest prompt_is_rule = None"
| "prompt_is_rejected_by_policy UnlessTrusted prompt_is_rule = None"
| "prompt_is_rejected_by_policy (Granular config) prompt_is_rule =
     (if prompt_is_rule then
        (if \<not> rules_approval config then Some reject_rules_approval_reason else None)
      else if \<not> sandbox_approval config then Some reject_sandbox_approval_reason
      else None)"

definition banned_prefix_suggestions :: "string list list" where
  "banned_prefix_suggestions =
     [[''python3''], [''python3'', ''-''], [''python3'', ''-c''], [''python''], [''python'', ''-''],
      [''python'', ''-c''], [''py''], [''py'', ''-3''], [''pythonw''], [''pyw''], [''pypy''],
      [''pypy3''], [''git''], [''bash''], [''bash'', ''-lc''], [''sh''], [''sh'', ''-c''],
      [''sh'', ''-lc''], [''zsh''], [''zsh'', ''-lc''], [''/bin/zsh''], [''/bin/zsh'', ''-lc''],
      [''/bin/bash''], [''/bin/bash'', ''-lc''], [''pwsh''], [''pwsh'', ''-Command''],
      [''pwsh'', ''-c''], [''powershell''], [''powershell'', ''-Command''], [''powershell'', ''-c''],
      [''powershell.exe''], [''powershell.exe'', ''-Command''], [''powershell.exe'', ''-c''],
      [''env''], [''sudo''], [''node''], [''node'', ''-e''], [''perl''], [''perl'', ''-e''],
      [''ruby''], [''ruby'', ''-e''], [''php''], [''php'', ''-r''], [''lua''], [''lua'', ''-e''],
      [''osascript'']]"

definition try_derive_execpolicy_amendment_for_prompt_rules :: "rule_match list \<Rightarrow> string list option" where
  "try_derive_execpolicy_amendment_for_prompt_rules matched_rules =
     (if list_ex (\<lambda>m. is_policy_match m \<and> match_decision m = Prompt) matched_rules then None
      else find_map (\<lambda>m. case m of HeuristicsRuleMatch command Prompt \<Rightarrow> Some command | _ \<Rightarrow> None)
             matched_rules)"

definition try_derive_execpolicy_amendment_for_allow_rules :: "rule_match list \<Rightarrow> string list option" where
  "try_derive_execpolicy_amendment_for_allow_rules matched_rules =
     (if list_ex is_policy_match matched_rules then None
      else find_map (\<lambda>m. case m of HeuristicsRuleMatch command Allow \<Rightarrow> Some command | _ \<Rightarrow> None)
             matched_rules)"

definition prefix_rule_would_approve_all_commands ::
  "host_os \<Rightarrow> policy \<Rightarrow> string list \<Rightarrow> string list list \<Rightarrow> (string list \<Rightarrow> decision) \<Rightarrow> match_options \<Rightarrow> bool" where
  "prefix_rule_would_approve_all_commands os exec_policy rule commands fallback options =
     (case add_prefix_rule exec_policy rule Allow of
        Inl _ \<Rightarrow> False
      | Inr policy_with_prefix_rule \<Rightarrow>
          list_all (\<lambda>command.
              map_option ev_decision (check_with_options os policy_with_prefix_rule command fallback options)
                = Some Allow) commands)"

definition derive_requested_execpolicy_amendment_from_prefix_rule ::
  "host_os \<Rightarrow> string list option \<Rightarrow> rule_match list \<Rightarrow> policy \<Rightarrow> string list list \<Rightarrow>
   (string list \<Rightarrow> decision) \<Rightarrow> match_options \<Rightarrow> string list option" where
  "derive_requested_execpolicy_amendment_from_prefix_rule os rule matched_rules exec_policy commands
     fallback options =
     (case rule of None \<Rightarrow> None
      | Some rule \<Rightarrow>
          if rule = [] then None
          else if list_ex (\<lambda>banned. rule = banned) banned_prefix_suggestions then None
          else if list_ex is_policy_match matched_rules then None
          else if prefix_rule_would_approve_all_commands os exec_policy rule commands fallback options
          then Some rule else None)"

definition render_shlex_command :: "approval_world \<Rightarrow> string list \<Rightarrow> string" where
  "render_shlex_command aw args =
     (case aw_shlex_join aw args of Some s \<Rightarrow> s | None \<Rightarrow> join_with '' '' args)"

definition backquote :: char where
  "backquote = CHR 0x60"

definition derive_prompt_reason :: "approval_world \<Rightarrow> string list \<Rightarrow> evaluation \<Rightarrow> string option" where
  "derive_prompt_reason aw command_args ev =
     (let command = [backquote] @ render_shlex_command aw command_args @ [backquote];
          most_specific_prompt =
            max_by_key (\<lambda>(matched_prefix_len, _). matched_prefix_len)
              (filter_map (\<lambda>m. case m of
                   PrefixRuleMatch matched_prefix Prompt _ justification \<Rightarrow>
                     Some (length matched_prefix, justification)
                 | _ \<Rightarrow> None) (ev_matched_rules ev)) in
      case most_specific_prompt of
        Some (_, Some justification) \<Rightarrow> Some (command @ '' requires approval: '' @ justification)
      | Some (_, None) \<Rightarrow> Some (command @ '' requires approval by policy'')
      | None \<Rightarrow> None)"

definition derive_forbidden_reason :: "approval_world \<Rightarrow> string list \<Rightarrow> evaluation \<Rightarrow> string" where
  "derive_forbidden_reason aw command_args ev =
     (let command = [backquote] @ render_shlex_command aw command_args @ [backquote];
          most_specific_forbidden =
            max_by_key (\<lambda>(matched_prefix, _). length matched_prefix)
              (filter_map (\<lambda>m. case m of
                   PrefixRuleMatch matched_prefix Forbidden _ justification \<Rightarrow>
                     Some (matched_prefix, justification)
                 | _ \<Rightarrow> None) (ev_matched_rules ev)) in
      case most_specific_forbidden of
        Some (_, Some justification) \<Rightarrow> command @ '' rejected: '' @ justification
      | Some (matched_prefix, None) \<Rightarrow>
          command @ '' rejected: policy forbids commands starting with '' @
          [backquote] @ render_shlex_command aw matched_prefix @ [backquote]
      | None \<Rightarrow> command @ '' rejected: blocked by policy'')"

section \<open>The requirement for a command\<close>

record exec_approval_request =
  req_command :: "string list"
  req_approval_policy :: ask_for_approval
  req_permission_profile :: permission_profile
  req_windows_sandbox_level :: windows_sandbox_level
  req_sandbox_permissions :: sandbox_permissions
  req_prefix_rule :: "string list option"

datatype exec_approval_requirement =
    ReqSkip bool "string list option"
  | ReqNeedsApproval "string option" "string list option"
  | ReqForbidden string

definition host_match_options :: match_options where
  "host_match_options = \<lparr> resolve_host_executables = True \<rparr>"

definition exec_policy_fallback ::
  "approval_world \<Rightarrow> exec_approval_request \<Rightarrow> string list \<Rightarrow> decision" where
  "exec_policy_fallback aw req cmd =
     render_decision_for_unmatched_command (aw_parse_shell aw) cmd
       \<lparr> uc_approval_policy = req_approval_policy req,
         uc_permission_profile = req_permission_profile req,
         uc_windows_sandbox_level = req_windows_sandbox_level req,
         uc_sandbox_permissions = req_sandbox_permissions req,
         uc_used_complex_parsing =
           epc_used_complex_parsing (commands_for_exec_policy (aw_parse_shell aw) (req_command req)) \<rparr>"

text \<open>\<open>None\<close> is the panic of an evaluation without matches.\<close>

definition create_exec_approval_requirement_for_command ::
  "approval_world \<Rightarrow> exec_policy_manager \<Rightarrow> exec_approval_request \<Rightarrow> exec_approval_requirement option" where
  "create_exec_approval_requirement_for_command aw manager req =
     (let exec_policy = current_policy manager;
          parsed = commands_for_exec_policy (aw_parse_shell aw) (req_command req);
          commands = epc_commands parsed;
          auto_amendment_allowed = (\<not> epc_used_complex_parsing parsed);
          fallback = exec_policy_fallback aw req in
      case check_multiple_with_options (aw_host aw) exec_policy commands fallback host_match_options of
        None \<Rightarrow> None
      | Some ev \<Rightarrow>
          let requested_amendment =
                (if auto_amendment_allowed
                 then derive_requested_execpolicy_amendment_from_prefix_rule (aw_host aw)
                        (req_prefix_rule req) (ev_matched_rules ev) exec_policy commands fallback
                        host_match_options
                 else None) in
          Some (case ev_decision ev of
            Forbidden \<Rightarrow> ReqForbidden (derive_forbidden_reason aw (req_command req) ev)
          | Prompt \<Rightarrow>
              let prompt_is_rule =
                    list_ex (\<lambda>m. is_policy_match m \<and> match_decision m = Prompt) (ev_matched_rules ev) in
              (case prompt_is_rejected_by_policy (req_approval_policy req) prompt_is_rule of
                 Some reason \<Rightarrow> ReqForbidden reason
               | None \<Rightarrow>
                   ReqNeedsApproval (derive_prompt_reason aw (req_command req) ev)
                     (or_else requested_amendment
                        (if auto_amendment_allowed
                         then try_derive_execpolicy_amendment_for_prompt_rules (ev_matched_rules ev)
                         else None)))
          | Allow \<Rightarrow>
              ReqSkip
                (list_all (\<lambda>command.
                   list_ex (\<lambda>m. is_policy_match m \<and> match_decision m = Allow)
                     (matches_for_command_with_options (aw_host aw) exec_policy command None
                        host_match_options)) commands)
                (if auto_amendment_allowed
                 then try_derive_execpolicy_amendment_for_allow_rules (ev_matched_rules ev)
                 else None)))"

fun proposed_execpolicy_amendment :: "exec_approval_requirement \<Rightarrow> string list option" where
  "proposed_execpolicy_amendment (ReqNeedsApproval _ a) = a"
| "proposed_execpolicy_amendment (ReqSkip _ a) = a"
| "proposed_execpolicy_amendment (ReqForbidden _) = None"

section \<open>Remembering an approval\<close>

datatype exec_policy_update_error = AppendRule abs_path amend_error | AddRule policy_error

definition default_policy_path :: "abs_path \<Rightarrow> abs_path" where
  "default_policy_path codex_home = codex_home @ [''rules'', ''default.rules'']"

text \<open>
  The two updates, under the update lock: the rules file first, then the policy in memory. The new
  manager, the new text of the rules file, and the error.
\<close>

definition append_amendment_and_update ::
  "approval_world \<Rightarrow> amend_io \<Rightarrow> abs_path \<Rightarrow> string list \<Rightarrow> exec_policy_manager \<Rightarrow> string option \<Rightarrow>
   exec_policy_manager \<times> string option \<times> exec_policy_update_error option" where
  "append_amendment_and_update aw io codex_home amendment manager policy_file =
     (let policy_path = default_policy_path codex_home in
      case blocking_append_allow_prefix_rule io policy_path amendment policy_file of
        (policy_file', Some e) \<Rightarrow> (manager, policy_file', Some (AppendRule policy_path e))
      | (policy_file', None) \<Rightarrow>
          let already_allowed =
                (case check_multiple_with_options (aw_host aw) (current_policy manager) [amendment]
                        (\<lambda>_. Forbidden) host_match_options of
                   None \<Rightarrow> False
                 | Some ev \<Rightarrow>
                     ev_decision ev = Allow \<and>
                     list_ex (\<lambda>m. is_policy_match m \<and> match_decision m = Allow) (ev_matched_rules ev)) in
          if already_allowed then (manager, policy_file', None)
          else (case add_prefix_rule (current_policy manager) amendment Allow of
                  Inl e \<Rightarrow> (manager, policy_file', Some (AddRule e))
                | Inr updated_policy \<Rightarrow> (\<lparr> current_policy = updated_policy \<rparr>, policy_file', None)))"

definition append_network_rule_and_update ::
  "amend_io \<Rightarrow> abs_path \<Rightarrow> string \<Rightarrow> network_rule_protocol \<Rightarrow> decision \<Rightarrow> string option \<Rightarrow>
   exec_policy_manager \<Rightarrow> string option \<Rightarrow>
   exec_policy_manager \<times> string option \<times> exec_policy_update_error option" where
  "append_network_rule_and_update io codex_home host protocol d justification manager policy_file =
     (let policy_path = default_policy_path codex_home in
      case blocking_append_network_rule io policy_path host protocol d justification policy_file of
        (policy_file', Some e) \<Rightarrow> (manager, policy_file', Some (AppendRule policy_path e))
      | (policy_file', None) \<Rightarrow>
          (case add_network_rule (current_policy manager) host protocol d justification of
             Inl e \<Rightarrow> (manager, policy_file', Some (AddRule e))
           | Inr updated_policy \<Rightarrow> (\<lparr> current_policy = updated_policy \<rparr>, policy_file', None)))"

end
