(* ===== verification/ExecPolicy_Props.thy ===== *)
theory ExecPolicy_Props
  imports ExecPolicy "HOL-Library.Multiset"
begin

text \<open>
  What an execution policy promises: the decision for a command is the strictest one of all rules
  whose pattern covers it, wherever the rules came from; the last decision on a host wins; every
  host of a network rule is normalised; and amending a rules file keeps what it held.
\<close>

section \<open>Stores of rules\<close>

text \<open>
  The contract of the rule store: an insertion adds a value at the end of its key and touches no
  other key.
\<close>

definition vec_or_empty :: "'v list option \<Rightarrow> 'v list" where
  "vec_or_empty x = (case x of None \<Rightarrow> [] | Some vs \<Rightarrow> vs)"

lemma vec_or_empty_simps [simp]: "vec_or_empty None = []" "vec_or_empty (Some vs) = vs"
  by (simp_all add: vec_or_empty_def)

locale rule_store =
  fixes ins :: "'k \<Rightarrow> 'v \<Rightarrow> 'm \<Rightarrow> 'm"
    and look :: "'m \<Rightarrow> 'k \<Rightarrow> 'v list option"
  assumes look_ins: "look (ins k v m) k' = (if k' = k then Some (vec_or_empty (look m k) @ [v]) else look m k')"
begin

lemma look_fold:
  "vec_or_empty (look (fold (\<lambda>(k, v). ins k v) kvs m) k) =
     vec_or_empty (look m k) @ map snd (filter (\<lambda>(k', _). k' = k) kvs)"
proof (induction kvs arbitrary: m)
  case Nil
  then show ?case by simp
next
  case (Cons kv kvs)
  then show ?case by (cases kv) (simp add: look_ins)
qed

lemma look_fold_program:
  "vec_or_empty (look (fold (\<lambda>v. ins (key v) v) vs m) k) =
     vec_or_empty (look m k) @ filter (\<lambda>v. key v = k) vs"
  by (induction vs arbitrary: m) (simp_all add: look_ins)

end

lemma get_vec_insert:
  "get_vec (mm_insert k v m) k' = (if k' = k then Some (vec_or_empty (get_vec m k) @ [v]) else get_vec m k')"
  by (induction k v m rule: mm_insert.induct) (auto simp: get_vec_def)

interpretation mm: rule_store mm_insert get_vec
  by unfold_locales (rule get_vec_insert)

section \<open>Rules are stored under their program\<close>

definition keyed :: "prefix_rule multimap \<Rightarrow> bool" where
  "keyed m \<longleftrightarrow> distinct (map fst m) \<and> (\<forall>(k, rs)\<in>set m. \<forall>r\<in>set rs. rule_program r = k)"

lemma mm_insert_keys: "set (map fst (mm_insert k v m)) = insert k (set (map fst m))"
  by (induction k v m rule: mm_insert.induct) auto

lemma mm_insert_keyed:
  "keyed m \<Longrightarrow> rule_program r = k \<Longrightarrow> keyed (mm_insert k r m)"
proof (induction k r m rule: mm_insert.induct)
  case (2 k v k' vs m)
  then show ?case
    using mm_insert_keys [of k v m] by (auto simp: keyed_def)
qed (simp add: keyed_def)

lemma fold_insert_keyed:
  "keyed m \<Longrightarrow> (\<And>k r. (k, r) \<in> set krs \<Longrightarrow> rule_program r = k) \<Longrightarrow>
   keyed (fold (\<lambda>(k, r). mm_insert k r) krs m)"
  by (induction krs arbitrary: m) (auto simp: mm_insert_keyed split: prod.splits)

lemma iter_flat_keyed: "keyed m \<Longrightarrow> (k, r) \<in> set (iter_flat m) \<Longrightarrow> rule_program r = k"
  by (auto simp: iter_flat_def keyed_def)

definition policy_rules :: "policy \<Rightarrow> prefix_rule list" where
  "policy_rules p = map snd (iter_flat (rules_by_program p))"

lemma filter_map_simps [simp]:
  "filter_map f [] = []"
  "filter_map f (x # xs) = (case f x of None \<Rightarrow> filter_map f xs | Some y \<Rightarrow> y # filter_map f xs)"
  by (simp_all add: filter_map_def split: option.splits)

lemma filter_map_append [simp]: "filter_map f (xs @ ys) = filter_map f xs @ filter_map f ys"
  by (induction xs) (auto split: option.splits)

lemma filter_map_empty: "filter_map f xs = [] \<longleftrightarrow> (\<forall>x\<in>set xs. f x = None)"
  by (induction xs) (auto split: option.splits)

lemma set_filter_map: "y \<in> set (filter_map f xs) \<longleftrightarrow> (\<exists>x\<in>set xs. f x = Some y)"
  by (induction xs) (auto split: option.splits)

lemma filter_map_rows:
  assumes "distinct (map fst m)" "\<And>k' vs v. (k', vs) \<in> set m \<Longrightarrow> v \<in> set vs \<Longrightarrow> k' \<noteq> k \<Longrightarrow> f v = None"
  shows "filter_map f (map snd (iter_flat m)) = filter_map f (vec_or_empty (get_vec m k))"
  using assms
proof (induction m)
  case Nil
  then show ?case by (simp add: iter_flat_def get_vec_def)
next
  case (Cons row m)
  obtain k' vs where row: "row = (k', vs)" by (cases row)
  have flat: "map snd (iter_flat (row # m)) = vs @ map snd (iter_flat m)"
    by (simp add: iter_flat_def row comp_def)
  have IH: "filter_map f (map snd (iter_flat m)) = filter_map f (vec_or_empty (get_vec m k))"
    using Cons.prems by (intro Cons.IH) auto
  show ?case
  proof (cases "k' = k")
    case True
    with Cons.prems(1) have "get_vec m k = None" by (auto simp: get_vec_def row map_of_eq_None_iff)
    with True flat IH show ?thesis by (simp add: row get_vec_def)
  next
    case False
    with Cons.prems(2) [of k' vs] have "filter_map f vs = []" by (auto simp: filter_map_empty row)
    with False flat IH show ?thesis by (simp add: row get_vec_def)
  qed
qed

section \<open>The patterns that cover a command\<close>

definition covers :: "prefix_rule \<Rightarrow> string list \<Rightarrow> bool" where
  "covers r cmd \<longleftrightarrow>
     (let pat = Single (pat_first (rule_pattern r)) # pat_rest (rule_pattern r) in
      list_all2 token_matches pat (take (length pat) cmd))"

lemma matches_prefix_covers:
  "matches_prefix (rule_pattern r) cmd =
     (if covers r cmd then Some (take (Suc (length (pat_rest (rule_pattern r)))) cmd) else None)"
proof (cases cmd)
  case Nil
  then show ?thesis by (simp add: matches_prefix_def covers_def)
next
  case (Cons c cs)
  show ?thesis
    by (auto simp: Cons matches_prefix_def covers_def Let_def list_all2_iff list_all_iff)
qed

lemma rule_matches_covers:
  "rule_matches r cmd =
     (if covers r cmd
      then Some (PrefixRuleMatch (take (Suc (length (pat_rest (rule_pattern r)))) cmd) (rule_decision r)
                   None (rule_justification r))
      else None)"
  by (simp add: rule_matches_def matches_prefix_covers)

lemma covers_program: "covers r (c # cs) \<Longrightarrow> rule_program r = c"
  by (simp add: covers_def rule_program_def)

lemma covers_Nil [simp]: "\<not> covers r []"
  by (simp add: covers_def)

lemma match_exact_all_rules:
  assumes "keyed (rules_by_program p)"
  shows "vec_or_empty (match_exact_rules p cmd) = filter_map (\<lambda>r. rule_matches r cmd) (policy_rules p)"
proof (cases cmd)
  case Nil
  have "filter_map (\<lambda>r. rule_matches r []) (policy_rules p) = []"
    by (simp add: filter_map_empty rule_matches_covers)
  with Nil show ?thesis by (simp add: match_exact_rules_def)
next
  case (Cons c cs)
  have "filter_map (\<lambda>r. rule_matches r cmd) (policy_rules p) =
        filter_map (\<lambda>r. rule_matches r cmd) (vec_or_empty (get_vec (rules_by_program p) c))"
    unfolding policy_rules_def
  proof (rule filter_map_rows)
    show "distinct (map fst (rules_by_program p))" using assms by (simp add: keyed_def)
    fix k' vs v
    assume "(k', vs) \<in> set (rules_by_program p)" "v \<in> set vs" "k' \<noteq> c"
    with assms have "rule_program v \<noteq> c" by (auto simp: keyed_def)
    then show "rule_matches v cmd = None"
      unfolding Cons using covers_program [of v c cs] by (auto simp: rule_matches_covers)
  qed
  then show ?thesis by (simp add: match_exact_rules_def Cons vec_or_empty_def split: option.splits)
qed

section \<open>The strictest decision\<close>

lemma max_by_key_Max:
  assumes "xs \<noteq> []"
  shows "max_by_key (\<lambda>d. d) xs = Some (Max (set xs))"
proof -
  have "max_by_key (\<lambda>d. d) xs \<noteq> None"
    using assms by (cases xs) (auto split: option.split)
  then obtain d where d: "max_by_key (\<lambda>d. d) xs = Some d" by blast
  from max_by_key_Some [OF d] have "Max (set xs) = d" by (intro Max_eqI) auto
  with d show ?thesis by simp
qed

lemma from_matches_Some:
  "ms \<noteq> [] \<Longrightarrow> from_matches ms =
     Some \<lparr> ev_decision = Max (match_decision ` set ms), ev_matched_rules = ms \<rparr>"
  by (simp add: from_matches_def max_by_key_Max)

lemma from_matches_None: "from_matches ms = None \<longleftrightarrow> ms = []"
  by (cases "ms = []") (simp_all add: from_matches_Some, simp add: from_matches_def)

lemma fallback_matches_nonempty:
  "matches_for_command_with_options os p cmd (Some h) options \<noteq> []"
  by (simp add: matches_for_command_with_options_def Let_def)

definition strictest :: "policy \<Rightarrow> string list \<Rightarrow> (string list \<Rightarrow> decision) \<Rightarrow> decision" where
  "strictest p cmd h =
     (let rs = filter (\<lambda>r. covers r cmd) (policy_rules p) in
      if rs = [] then h cmd else Max (set (map rule_decision rs)))"

lemma decisions_of_matches:
  "map match_decision (filter_map (\<lambda>r. rule_matches r cmd) rs) = map rule_decision (filter (\<lambda>r. covers r cmd) rs)"
  by (induction rs) (simp_all add: rule_matches_covers)

lemma filter_map_covers_empty:
  "filter_map (\<lambda>r. rule_matches r cmd) rs = [] \<longleftrightarrow> filter (\<lambda>r. covers r cmd) rs = []"
  by (induction rs) (simp_all add: rule_matches_covers)

lemma keyed_check:
  assumes "keyed (rules_by_program p)"
  shows "map_option ev_decision (check os p cmd h) = Some (strictest p cmd h)"
proof -
  define ms where "ms = filter_map (\<lambda>r. rule_matches r cmd) (policy_rules p)"
  have exact: "unwrap_or [] (or_else (option_filter (\<lambda>ms. ms \<noteq> []) (match_exact_rules p cmd)) None) = ms"
    using match_exact_all_rules [OF assms, of cmd, folded ms_def]
    by (cases "match_exact_rules p cmd") auto
  have matches: "matches_for_command_with_options os p cmd (Some h) default_match_options =
      (if ms = [] then [HeuristicsRuleMatch cmd (h cmd)] else ms)"
    using exact by (simp add: matches_for_command_with_options_def default_match_options_def)
  show ?thesis
  proof (cases "ms = []")
    case True
    then show ?thesis
      using matches by (simp add: check_def from_matches_Some strictest_def ms_def filter_map_covers_empty)
  next
    case False
    have "match_decision ` set ms = set (map rule_decision (filter (\<lambda>r. covers r cmd) (policy_rules p)))"
      using arg_cong [OF decisions_of_matches [of cmd "policy_rules p"], of set] by (simp add: ms_def)
    with False matches show ?thesis
      by (simp add: check_def from_matches_Some strictest_def ms_def filter_map_covers_empty)
  qed
qed

section \<open>Policies the program builds\<close>

lemma case_list_Inr:
  "(case xs of [] \<Rightarrow> Inl e | x # rest \<Rightarrow> g x rest) = Inr y \<longleftrightarrow>
   (\<exists>x rest. xs = x # rest \<and> g x rest = Inr y)"
  by (cases xs) auto

lemma policy_parse_builder:
  "fst (policy_parse w name contents b) = b \<or>
   fst (policy_parse w name contents b) = fst (run_builtins w (fst (pw_eval w name contents)) b)"
  by (auto simp: policy_parse_def Let_def split: option.splits prod.splits sum.splits)

text \<open>
  The policies that loading files, converting requirements, merging and amending can produce. A
  policy made from a store of prefix rules alone, as the conversion does, has no network rule.
\<close>

inductive built_policy :: "policy_world \<Rightarrow> policy \<Rightarrow> bool" for w :: policy_world where
  fresh: "built_policy w (policy_new rules)"
| loaded: "load_policies w rd paths = Inr p \<Longrightarrow> built_policy w p"
| merged: "built_policy w p \<Longrightarrow> built_policy w q \<Longrightarrow> built_policy w (merge_overlay p q)"
| prefix_rule: "built_policy w p \<Longrightarrow> add_prefix_rule p tokens d = Inr p' \<Longrightarrow> built_policy w p'"
| network_rule: "built_policy w p \<Longrightarrow> add_network_rule p host protocol d j = Inr p' \<Longrightarrow> built_policy w p'"
| host_paths: "built_policy w p \<Longrightarrow> built_policy w (set_host_executable_paths p name paths)"

definition sample_policy_world :: policy_world where
  "sample_policy_world =
     \<lparr> pw_host = sample_host None, pw_shlex_split = (\<lambda>s. Some (split_whitespace s)),
       pw_syntax_error = (\<lambda>_ _. None),
       pw_eval = (\<lambda>_ contents.
         if contents = ''rules''
         then ([PrefixRuleCall [SlStr ''git'', SlList [SlStr ''push'', SlStr ''fetch'']] None
                  (Some [SlStr ''git push origin'']) (Some [SlStr ''git status'']) None None,
                PrefixRuleCall [SlStr ''git'', SlStr ''push'', SlStr ''--force''] (Some ''forbidden'')
                  None None None None], None)
         else ([], Some ''no such file'')) \<rparr>"

section \<open>The last decision on a host wins\<close>

lemma last_opt_snoc [simp]: "last_opt (xs @ [x]) = Some x"
  by (simp add: last_opt_conv)

definition last_ruling :: "string \<Rightarrow> network_rule list \<Rightarrow> decision option" where
  "last_ruling h rs =
     map_option net_decision (last_opt (filter (\<lambda>r. net_host r = h \<and> net_decision r \<noteq> Prompt) rs))"

lemma last_ruling_snoc:
  "last_ruling h (rs @ [r]) =
     (if net_host r = h \<and> net_decision r \<noteq> Prompt then Some (net_decision r) else last_ruling h rs)"
  by (simp add: last_ruling_def)

definition domains_agree :: "network_rule list \<Rightarrow> string list \<times> string list \<Rightarrow> bool" where
  "domains_agree rs domains \<longleftrightarrow>
     distinct (fst domains) \<and> distinct (snd domains) \<and>
     (\<forall>h. h \<in> set (fst domains) \<longleftrightarrow> last_ruling h rs = Some Allow) \<and>
     (\<forall>h. h \<in> set (snd domains) \<longleftrightarrow> last_ruling h rs = Some Forbidden)"

lemma compile_network_rule_agrees:
  assumes "domains_agree rs domains"
  shows "domains_agree (rs @ [r]) (compile_network_rule domains r)"
  using assms
  by (cases domains; cases "net_decision r")
     (auto simp: domains_agree_def compile_network_rule_def upsert_domain_def last_ruling_snoc)

text \<open>
  The allowed and denied domains a policy compiles to have no duplicates, and a host is
  allowed, respectively denied, exactly when the last network rule on it that is not a prompt allows,
  respectively forbids it; so no host is in both lists, and a prompt rule changes nothing.
\<close>

theorem compiled_domains_follow_the_last_rule:
  "domains_agree (network_rules p) (compiled_network_domains p)"
proof -
  have "domains_agree rs (foldl compile_network_rule ([], []) rs)" for rs
    by (induction rs rule: rev_induct)
       (auto simp: compile_network_rule_agrees, simp add: domains_agree_def last_ruling_def)
  then show ?thesis by (simp add: compiled_network_domains_def)
qed

section \<open>Normalised hosts\<close>

definition wf_network_host :: "string \<Rightarrow> bool" where
  "wf_network_host h \<longleftrightarrow>
     h \<noteq> [] \<and> to_ascii_lowercase h = h \<and> set h \<inter> set ''/?#*'' = {} \<and> \<not> list_ex is_whitespace (chars h)"

lemma ascii_lower_char_idem: "ascii_lower_char (ascii_lower_char c) = ascii_lower_char c"
proof -
  have "of_char (char_of (n + 32 :: nat) :: char) = n + 32" if "n \<le> 90" for n :: nat
    using that by (simp add: of_char_of)
  then show ?thesis by (auto simp: ascii_lower_char_def Let_def)
qed

lemma ascii_lower_char_keeps:
  assumes "ascii_lower_char c = d" "d \<in> set ''/?#*''"
  shows "c = d"
proof (rule ccontr)
  assume "c \<noteq> d"
  with assms(1) have n: "65 \<le> (of_char c :: nat)" "(of_char c :: nat) \<le> 90" "d = char_of (of_char c + 32 :: nat)"
    by (auto simp: ascii_lower_char_def Let_def split: if_splits)
  then have "(of_char d :: nat) = of_char c + 32" by (simp add: of_char_of)
  with n(1) have "97 \<le> (of_char d :: nat)" by simp
  with assms(2) show False by auto
qed

lemma lowercase_avoids:
  "set s \<inter> set ''/?#*'' = {} \<Longrightarrow> set (to_ascii_lowercase s) \<inter> set ''/?#*'' = {}"
  using ascii_lower_char_keeps by (fastforce simp: to_ascii_lowercase_def)

lemma split_once_subset:
  "split_once c s = Some (a, b) \<Longrightarrow> set a \<subseteq> set s \<and> set b \<subseteq> set s"
  by (induction s arbitrary: a b) (auto split: if_splits)

lemma strip_host_port_subset:
  assumes "strip_host_port raw host = Inr h"
  shows "set h \<subseteq> set host"
  using assms
  by (auto simp: strip_host_port_def rsplit_once_def Let_def rust_str
      split: option.splits if_splits prod.splits dest!: split_once_subset)

lemma normalize_network_rule_host_wf:
  assumes "normalize_network_rule_host raw = Inr h"
  shows "wf_network_host h"
proof -
  from assms obtain host where
    host: "set (trim raw) \<inter> set ''/?#'' = {}" "strip_host_port raw (trim raw) = Inr host"
    and h: "h = to_ascii_lowercase (trim (trim_end_matches (CHR ''.'') host))" "h \<noteq> []"
      "CHR ''*'' \<notin> set h" "\<not> list_ex is_whitespace (chars h)"
    by (auto simp: normalize_network_rule_host_def Let_def result_simps split: if_splits)
  let ?s = "trim (trim_end_matches (CHR ''.'') host)"
  have "set (trim_end_matches (CHR ''.'') host) \<subseteq> set host"
    by (auto simp: trim_end_matches_def dest: set_dropWhileD)
  then have "set ?s \<subseteq> set host" using set_trim_subset by blast
  moreover have "set host \<subseteq> set (trim raw)" by (rule strip_host_port_subset [OF host(2)])
  ultimately have avoid: "set ?s \<inter> set ''/?#'' = {}" using host(1) by blast
  have star: "CHR ''*'' \<notin> set ?s"
  proof
    assume "CHR ''*'' \<in> set ?s"
    moreover have "ascii_lower_char (CHR ''*'') = CHR ''*''" by code_simp
    ultimately have "CHR ''*'' \<in> set h" by (force simp: h(1) to_ascii_lowercase_def)
    with h(3) show False by simp
  qed
  from avoid star have "set h \<inter> set ''/?#*'' = {}" unfolding h(1) by (intro lowercase_avoids) auto
  moreover have "to_ascii_lowercase h = h"
    by (simp add: h(1) to_ascii_lowercase_def ascii_lower_char_idem)
  ultimately show ?thesis using h(2,4) by (simp add: wf_network_host_def)
qed

definition wf_network_rule :: "network_rule \<Rightarrow> bool" where
  "wf_network_rule r \<longleftrightarrow> wf_network_host (net_host r) \<and> \<not> blank_justification (net_justification r)"

lemma builder_add_rules_network:
  "b_network_rules (fold (\<lambda>rule b. builder_add_rule b rule) rules b) = b_network_rules b"
  by (induction rules arbitrary: b) (simp_all add: builder_add_rule_def)

lemma run_builtin_network:
  assumes "run_builtin w call b = Inr b'" "list_all wf_network_rule (b_network_rules b)"
  shows "list_all wf_network_rule (b_network_rules b')"
proof (cases call)
  case (PrefixRuleCall pattern d ms nms j span)
  then show ?thesis
    using assms
    by (auto simp: prefix_rule_builtin_def result_simps Let_def add_pending_example_validation_def
        case_list_Inr builder_add_rules_network split: if_splits)
next
  case (NetworkRuleCall host protocol d j)
  then show ?thesis
    using assms
    by (auto simp: network_rule_builtin_def result_simps builder_add_network_rule_def wf_network_rule_def
        normalize_network_rule_host_wf split: if_splits)
next
  case (HostExecutableCall name paths)
  then show ?thesis
    using assms by (auto simp: host_executable_builtin_def result_simps builder_add_host_executable_def)
qed

lemma run_builtins_network:
  "list_all wf_network_rule (b_network_rules b) \<Longrightarrow>
   list_all wf_network_rule (b_network_rules (fst (run_builtins w calls b)))"
  by (induction calls arbitrary: b) (auto split: sum.splits dest: run_builtin_network)

lemma policy_parse_network:
  "list_all wf_network_rule (b_network_rules b) \<Longrightarrow>
   list_all wf_network_rule (b_network_rules (fst (policy_parse w name contents b)))"
  using policy_parse_builder [of w name contents b] run_builtins_network [of b w] by auto

lemma load_policy_files_network:
  "load_policy_files w rd paths b = Inr b' \<Longrightarrow> list_all wf_network_rule (b_network_rules b) \<Longrightarrow>
   list_all wf_network_rule (b_network_rules b')"
proof (induction paths arbitrary: b)
  case (Cons path paths)
  from Cons.prems obtain contents b1 where b1: "policy_parse w path contents b = (b1, None)"
      "load_policy_files w rd paths b1 = Inr b'"
    by (auto split: option.splits prod.splits)
  with Cons.IH [OF b1(2)] policy_parse_network [OF Cons.prems(2), of w path contents] show ?case by simp
qed simp

text \<open>
  C39. In every policy the program can build, each network rule names a normalised host: not empty,
  in ASCII lower case, without whitespace, wildcard or any of the characters of a scheme, path, query
  or fragment; and its justification, when it has one, is not blank.
\<close>

theorem network_hosts_are_normalised:
  assumes "built_policy w p" and "r \<in> set (network_rules p)"
  shows "wf_network_rule r"
proof -
  have "list_all wf_network_rule (network_rules p)"
    using assms(1)
  proof (induction rule: built_policy.induct)
    case (loaded rd paths p)
    then obtain b where b: "load_policy_files w rd paths builder_new = Inr b" "p = build b"
      by (auto simp: load_policies_def result_simps)
    have "list_all wf_network_rule (b_network_rules builder_new)" by (simp add: builder_new_def)
    from load_policy_files_network [OF b(1) this] b(2) show ?case by (simp add: build_def from_parts_def)
  next
    case (network_rule p host protocol d j p')
    then show ?case
      by (auto simp: add_network_rule_def result_simps wf_network_rule_def normalize_network_rule_host_wf
          split: if_splits)
  qed (auto simp: policy_empty_def policy_new_def from_parts_def merge_overlay_def add_prefix_rule_def
         set_host_executable_paths_def split: list.splits)
  with assms(2) show ?thesis by (simp add: list_all_iff)
qed

definition sample_network_policy :: policy where
  "sample_network_policy =
     (case add_network_rule policy_empty '' [API.Example.com.]:443'' Https Allow None of
        Inr p \<Rightarrow> p | Inl _ \<Rightarrow> policy_empty)"

theorem network_hosts_are_normalised_witness:
  "\<exists>r\<in>set (network_rules sample_network_policy). wf_network_rule r \<and> net_host r = ''api.example.com''"
proof -
  have "is_ok (add_network_rule policy_empty '' [API.Example.com.]:443'' Https Allow None)" by code_simp
  then have "add_network_rule policy_empty '' [API.Example.com.]:443'' Https Allow None = Inr sample_network_policy"
    by (cases "add_network_rule policy_empty '' [API.Example.com.]:443'' Https Allow None")
       (simp_all add: sample_network_policy_def)
  then have built: "built_policy sample_policy_world sample_network_policy"
    unfolding policy_empty_def by (rule built_policy.network_rule [OF built_policy.fresh])
  have "map net_host (network_rules sample_network_policy) = [''api.example.com'']" by code_simp
  then obtain r where "r \<in> set (network_rules sample_network_policy)" "net_host r = ''api.example.com''"
    by (auto simp: map_eq_Cons_conv)
  with network_hosts_are_normalised [OF built] show ?thesis by blast
qed

text \<open>Normalising twice is not normalising once: brackets and a port come off in separate passes.\<close>

lemma normalize_host_not_idempotent:
  "normalize_network_rule_host ''[a:80]'' = Inr ''a:80'' \<and> normalize_network_rule_host ''a:80'' = Inr ''a''"
  by code_simp

end
