(* ===== verification/CommandSafety_Props.thy ===== *)
theory CommandSafety_Props
  imports CommandSafety
begin

text \<open>
  What the command classifier promises: the walk over the syntax tree visits every node, so a script
  that runs without asking consists of allowed nodes only, each of its commands is on the list, and
  no command is both on the list and flagged as dangerous.
\<close>

section \<open>The walk visits every node\<close>

primrec ts_nodes :: "ts_node \<Rightarrow> ts_node list" where
  "ts_nodes (TsNode k b s e cs) = TsNode k b s e cs # concat (map ts_nodes cs)"

abbreviation is_command_node :: "ts_node \<Rightarrow> bool" where
  "is_command_node n \<equiv> ts_is_named n \<and> ts_kind n = ''command''"

lemma ts_nodes_children: "ts_nodes n = n # concat (map ts_nodes (ts_children n))"
  by (cases n) simp

lemma walk_word_only_Some:
  assumes "walk_word_only st acc = Some cs"
  shows "(\<forall>n\<in>(\<Union>m\<in>set st. set (ts_nodes m)). node_allowed n) \<and>
         set cs = set acc \<union> {n \<in> (\<Union>m\<in>set st. set (ts_nodes m)). is_command_node n}"
  using assms
proof (induction st acc rule: walk_word_only.induct)
  case (1 acc)
  then show ?case by (simp add: walk_word_only.simps)
next
  case (2 node stack acc)
  from 2(2) have allowed: "node_allowed node"
    by (simp add: walk_word_only.simps split: if_splits)
  have nodes: "(\<Union>m\<in>set (node # stack). set (ts_nodes m)) =
      insert node (\<Union>m\<in>set (rev (ts_children node) @ stack). set (ts_nodes m))"
    by (simp add: ts_nodes_children [of node] Un_assoc)
  have "\<not> \<not> node_allowed node" using allowed by simp
  from 2(1) [OF this] 2(2) allowed show ?case
    unfolding nodes by (auto simp: walk_word_only.simps(2))
qed

lemma collect_options_Some:
  "collect_options f xs = Some ys \<longleftrightarrow> list_all2 (\<lambda>x y. f x = Some y) xs ys"
proof (induction xs arbitrary: ys)
  case Nil
  then show ?case by auto
next
  case (Cons x xs)
  then show ?case
    by (cases ys; cases "f x"; cases "collect_options f xs") auto
qed

lemma collect_options_member:
  assumes "collect_options f xs = Some ys" "x \<in> set xs"
  obtains y where "f x = Some y" "y \<in> set ys"
proof -
  from assms have all2: "list_all2 (\<lambda>x y. f x = Some y) xs ys" by (simp add: collect_options_Some)
  from assms(2) obtain i where "i < length xs" "x = xs ! i" by (auto simp: in_set_conv_nth)
  with all2 that [of "ys ! i"] show ?thesis
    by (auto simp: list_all2_conv_all_nth)
qed

lemma word_only_commands:
  assumes "try_parse_word_only_commands_sequence tree src = Some cmds"
  shows "\<not> root_has_error tree"
    and "n \<in> set (ts_nodes (root_node tree)) \<Longrightarrow> node_allowed n"
    and "n \<in> set (ts_nodes (root_node tree)) \<Longrightarrow> is_command_node n \<Longrightarrow>
         \<exists>ws\<in>set cmds. parse_plain_command_from_node n src = Some ws"
proof -
  from assms obtain cs where cs: "\<not> root_has_error tree" "walk_word_only [root_node tree] [] = Some cs"
      "collect_options (\<lambda>node. parse_plain_command_from_node node src) (sort_key ts_start_byte cs) = Some cmds"
    by (auto simp: try_parse_word_only_commands_sequence_def bind_eq_Some_conv split: if_splits)
  note walk = walk_word_only_Some [OF cs(2)]
  show "\<not> root_has_error tree" by (rule cs(1))
  show "n \<in> set (ts_nodes (root_node tree)) \<Longrightarrow> node_allowed n" using walk by auto
  assume "n \<in> set (ts_nodes (root_node tree))" "is_command_node n"
  with walk have "n \<in> set (sort_key ts_start_byte cs)" by auto
  from collect_options_member [OF cs(3) this] show
    "\<exists>ws\<in>set cmds. parse_plain_command_from_node n src = Some ws" by blast
qed

section \<open>Shells are not on the list\<close>

lemma file_name_components:
  assumes "path_file_name p = Some n"
  shows "std_components n = [Normal n]"
proof -
  from assms have last: "last_opt (std_components p) = Some (Normal n)"
    by (auto simp: path_file_name_def split: option.splits path_component.splits)
  have seg: "CHR ''/'' \<notin> set n" by (rule split_on_sep [OF normal_is_segment [OF last]])
  have "Normal n \<in> set (path_components p)"
    using last_opt_in_set [OF last] by (cases "path_components p") (auto simp: std_components_def)
  then have "n \<notin> {[], ''.'', ''..''}"
    by (auto simp: path_components_def segment_component_def split: if_splits)
  with seg show ?thesis
    by (cases n)
       (auto simp: std_components_def path_components_def path_is_absolute_def split_on_no_sep
          segment_component_def starts_with_def)
qed

lemma name_stem_no_dot: "CHR ''.'' \<notin> set n \<Longrightarrow> name_stem n = n"
proof -
  assume "CHR ''.'' \<notin> set n"
  then have all: "takeWhile (\<lambda>c. c \<noteq> CHR ''.'') (rev n) = rev n" by (auto simp: takeWhile_eq_all_conv)
  show ?thesis unfolding name_stem_def Let_def all by simp
qed

abbreviation shell_names :: "string set" where
  "shell_names \<equiv> {''zsh'', ''sh'', ''cmd'', ''bash'', ''pwsh'', ''powershell''}"

lemma detect_shell_type_plain_name:
  assumes "path_file_name p = Some n" "CHR ''.'' \<notin> set n"
    "n \<notin> shell_names"
  shows "detect_shell_type p = None"
proof -
  have stem: "file_stem q = Some n" if "path_file_name q = Some n" for q
    using that assms(2)
    by (auto simp: file_stem_def path_file_name_def name_stem_no_dot
        split: option.splits path_component.splits)
  have comps: "std_components n = [Normal n]" by (rule file_name_components [OF assms(1)])
  then have "path_file_name n = Some n" by (simp add: path_file_name_def)
  from stem [OF this] comps assms(3) have leaf: "detect_shell_type n = None"
    by (subst detect_shell_type.simps) simp
  have literal: "path_file_name w = Some w" if "w \<in> shell_names" for w
    using that by (elim insertE emptyE; hypsubst) code_simp+
  have "p \<notin> shell_names"
  proof
    assume p: "p \<in> shell_names"
    from literal [OF p] assms(1) have eq: "p = n" by simp
    from assms(3) p [unfolded eq] show False by (rule notE)
  qed
  with stem [OF assms(1)] leaf show ?thesis
    by (subst detect_shell_type.simps) simp
qed

definition safe_programs :: "string list" where
  "safe_programs = [''numfmt'', ''tac'', ''base64'', ''find'', ''rg'', ''git'', ''sed''] @ always_safe_programs"

lemma safe_programs_are_no_shells:
  "n \<in> set safe_programs \<Longrightarrow>
     CHR ''.'' \<notin> set n \<and>
     n \<notin> {''zsh'', ''sh'', ''cmd'', ''bash'', ''pwsh'', ''powershell'', ''rm'', ''sudo''}"
proof -
  have "list_all (\<lambda>n. CHR ''.'' \<notin> set n \<and>
     n \<notin> {''zsh'', ''sh'', ''cmd'', ''bash'', ''pwsh'', ''powershell'', ''rm'', ''sudo''}) safe_programs"
    by code_simp
  then show "n \<in> set safe_programs \<Longrightarrow> ?thesis" by (auto simp: list_all_iff)
qed

lemma safe_to_call_program:
  assumes "is_safe_to_call_with_exec (cmd0 # args)"
  obtains n where "path_file_name cmd0 = Some n" "n \<in> set safe_programs"
  using assms
  by (auto simp: is_safe_to_call_with_exec_def executable_name_lookup_key_def safe_programs_def
      split: option.splits if_splits)

lemma safe_to_call_is_not_dangerous:
  assumes "is_safe_to_call_with_exec ws"
  shows "\<not> is_dangerous_to_call_with_exec ws"
proof (cases ws)
  case (Cons cmd0 args)
  with assms obtain n where n: "path_file_name cmd0 = Some n" "n \<in> set safe_programs"
    by (auto elim: safe_to_call_program)
  have "path_file_name ''rm'' = Some ''rm''" "path_file_name ''sudo'' = Some ''sudo''"
    by code_simp+
  with n safe_programs_are_no_shells [OF n(2)] have "cmd0 \<noteq> ''rm''" "cmd0 \<noteq> ''sudo''" by auto
  with Cons show ?thesis by simp
qed simp

lemma shell_is_not_safe_to_call:
  assumes "detect_shell_type sh \<noteq> None"
  shows "\<not> is_safe_to_call_with_exec (sh # args)"
proof
  assume "is_safe_to_call_with_exec (sh # args)"
  then obtain n where "path_file_name sh = Some n" "n \<in> set safe_programs"
    by (rule safe_to_call_program)
  with safe_programs_are_no_shells [of n] detect_shell_type_plain_name [of sh n] assms show False
    by auto
qed

lemma shell_is_not_dangerous_itself:
  assumes "detect_shell_type sh \<noteq> None"
  shows "\<not> is_dangerous_to_call_with_exec (sh # args)"
proof -
  have "detect_shell_type ''rm'' = None" "detect_shell_type ''sudo'' = None"
    by code_simp+
  with assms have "sh \<noteq> ''rm''" "sh \<noteq> ''sudo''" by auto
  then show ?thesis by simp
qed

section \<open>Scripts that run without asking\<close>

lemma extract_bash_command_Some:
  assumes "extract_bash_command command = Some (sh, script)"
  obtains flag where "command = [sh, flag, script]" "flag \<in> {''-lc'', ''-c''}"
    "detect_shell_type sh \<in> {Some Zsh, Some Bash, Some Sh}"
  using assms
  by (auto simp: extract_bash_command_def split: list.splits if_splits)

lemma zsh_as_bash:
  assumes "extract_bash_command command = Some (sh, script)" "script \<noteq> ''zsh''"
  shows "extract_bash_command (map (\<lambda>s. if s = ''zsh'' then ''bash'' else s) command) =
         Some (if sh = ''zsh'' then ''bash'' else sh, script)"
proof -
  have bash: "detect_shell_type ''bash'' = Some Bash" by code_simp
  from assms(1) obtain flag where flag: "command = [sh, flag, script]" "flag \<in> {''-lc'', ''-c''}"
      "detect_shell_type sh \<in> {Some Zsh, Some Bash, Some Sh}"
    by (rule extract_bash_command_Some)
  have "flag \<noteq> ''zsh''" using flag(2) by auto
  with flag assms(2) bash show ?thesis by (simp add: extract_bash_command_def)
qed

lemma known_safe_script:
  assumes "extract_bash_command command = Some (sh, script)" "script \<noteq> ''zsh''"
    "is_known_safe_command ps command"
  obtains cmds where "parse_shell_script_into_commands ps script = Some cmds" "cmds \<noteq> []"
    "list_all is_safe_to_call_with_exec cmds"
proof -
  let ?cmd = "map (\<lambda>s. if s = ''zsh'' then ''bash'' else s) command"
  note ex = zsh_as_bash [OF assms(1,2)]
  obtain flag where eq: "?cmd = [if sh = ''zsh'' then ''bash'' else sh, flag, script]"
      and det: "detect_shell_type (if sh = ''zsh'' then ''bash'' else sh) \<in> {Some Zsh, Some Bash, Some Sh}"
    by (rule extract_bash_command_Some [OF ex])
  have "detect_shell_type (if sh = ''zsh'' then ''bash'' else sh) \<noteq> None" using det by auto
  then have "\<not> is_safe_to_call_with_exec ?cmd"
    unfolding eq by (rule shell_is_not_safe_to_call)
  moreover have "parse_shell_lc_plain_commands ps ?cmd = parse_shell_script_into_commands ps script"
    unfolding parse_shell_lc_plain_commands_def ex by simp
  ultimately show ?thesis
    using assms(3) that unfolding is_known_safe_command_def Let_def
    by (simp split: option.splits)
qed

lemma known_safe_script_not_dangerous:
  assumes "extract_bash_command command = Some (sh, script)" "script \<noteq> ''zsh''"
    "is_known_safe_command ps command"
  shows "\<not> command_might_be_dangerous ps command"
proof -
  obtain cmds where
    cmds: "parse_shell_script_into_commands ps script = Some cmds" "list_all is_safe_to_call_with_exec cmds"
    by (rule known_safe_script [OF assms])
  obtain flag where eq: "command = [sh, flag, script]"
      and det: "detect_shell_type sh \<in> {Some Zsh, Some Bash, Some Sh}"
    by (rule extract_bash_command_Some [OF assms(1)])
  have "detect_shell_type sh \<noteq> None" using det by auto
  then have "\<not> is_dangerous_to_call_with_exec command"
    unfolding eq by (rule shell_is_not_dangerous_itself)
  moreover have "parse_shell_lc_plain_commands ps command = Some cmds"
    unfolding parse_shell_lc_plain_commands_def assms(1) by (simp add: cmds(1))
  ultimately show ?thesis
    using cmds(2) safe_to_call_is_not_dangerous
    by (auto simp: command_might_be_dangerous_def list_ex_iff list_all_iff)
qed

lemma known_safe_not_dangerous:
  assumes "is_known_safe_command ps command" "''zsh'' \<notin> set (tl command)"
  shows "\<not> command_might_be_dangerous ps command"
proof (cases "extract_bash_command command")
  case (Some x)
  then obtain sh script where ex: "extract_bash_command command = Some (sh, script)" by (cases x) auto
  then obtain flag where "command = [sh, flag, script]" by (rule extract_bash_command_Some)
  with assms(2) have "script \<noteq> ''zsh''" by auto
  from known_safe_script_not_dangerous [OF ex this assms(1)] show ?thesis .
next
  case None
  let ?cmd = "map (\<lambda>s. if s = ''zsh'' then ''bash'' else s) command"
  have tl: "map (\<lambda>s. if s = ''zsh'' then ''bash'' else s) (tl command) = tl command"
    using assms(2) by (intro map_idI) auto
  have zsh: "detect_shell_type ''zsh'' = Some Zsh" by code_simp
  have "extract_bash_command ?cmd = None"
  proof (rule ccontr)
    assume "extract_bash_command ?cmd \<noteq> None"
    then obtain sh script where ex: "extract_bash_command ?cmd = Some (sh, script)" by auto
    then obtain flag where eq: "?cmd = [sh, flag, script]" "flag \<in> {''-lc'', ''-c''}"
        "detect_shell_type sh \<in> {Some Zsh, Some Bash, Some Sh}"
      by (rule extract_bash_command_Some)
    then obtain c0 where c0: "command = [c0, flag, script]"
      using tl by (cases command) auto
    with eq(1) have "sh = (if c0 = ''zsh'' then ''bash'' else c0)" by simp
    with eq(3) zsh have "detect_shell_type c0 \<in> {Some Zsh, Some Bash, Some Sh}"
      by (cases "c0 = ''zsh''") simp_all
    with None c0 eq(2) show False by (auto simp: extract_bash_command_def split: if_splits)
  qed
  with assms(1) have "is_safe_to_call_with_exec ?cmd"
    by (simp add: is_known_safe_command_def parse_shell_lc_plain_commands_def)
  then have nd: "\<not> is_dangerous_to_call_with_exec ?cmd" by (rule safe_to_call_is_not_dangerous)
  have "\<not> is_dangerous_to_call_with_exec command"
  proof (cases command)
    case (Cons c0 args)
    show ?thesis
    proof (cases "c0 = ''zsh''")
      case True
      then show ?thesis by (simp add: Cons)
    next
      case False
      with tl have "?cmd = command" by (simp add: Cons)
      with nd show ?thesis by simp
    qed
  qed simp
  with None show ?thesis by (simp add: command_might_be_dangerous_def parse_shell_lc_plain_commands_def)
qed

text \<open>
  C17. A script that runs without asking is plain: when \<open>is_known_safe_command\<close> accepts
  \<open>bash -lc script\<close>, the syntax tree of the script has no error, every node anywhere in it is one of
  the allowed words and operators, so there is no redirection, substitution or control flow, and
  every command node anywhere in the tree reads as words that are on the list of safe commands and
  not dangerous; and the whole command is not one of those that always ask.
\<close>

theorem known_safe_script_is_plain:
  assumes "extract_bash_command command = Some (sh, script)"
    and "script \<noteq> ''zsh''"
    and "try_parse_shell script = Some tree"
    and "is_known_safe_command try_parse_shell command"
  shows "\<not> root_has_error tree \<and>
    (\<forall>n\<in>set (ts_nodes (root_node tree)).
       node_allowed n \<and>
       (ts_is_named n \<and> ts_kind n = ''command'' \<longrightarrow>
        (\<exists>ws. parse_plain_command_from_node n script = Some ws \<and>
              is_safe_to_call_with_exec ws \<and> \<not> is_dangerous_to_call_with_exec ws))) \<and>
    \<not> command_might_be_dangerous try_parse_shell command"
proof -
  from known_safe_script [OF assms(1,2,4)] obtain cmds where
    cmds: "parse_shell_script_into_commands try_parse_shell script = Some cmds"
      "list_all is_safe_to_call_with_exec cmds" by blast
  then have seq: "try_parse_word_only_commands_sequence tree script = Some cmds"
    using assms(3) by (simp add: parse_shell_script_into_commands_def)
  have "\<not> is_dangerous_to_call_with_exec ws" "is_safe_to_call_with_exec ws" if "ws \<in> set cmds" for ws
    using that cmds(2) safe_to_call_is_not_dangerous by (auto simp: list_all_iff)
  then show ?thesis
    using word_only_commands [OF seq] known_safe_script_not_dangerous [OF assms(1,2,4)] by blast
qed

definition sample_script :: string where
  "sample_script = ''ls && pwd''"

definition sample_word :: "nat \<Rightarrow> nat \<Rightarrow> ts_node" where
  "sample_word s e = TsNode ''command'' True s e [TsNode ''command_name'' True s e [TsNode ''word'' True s e []]]"

definition sample_shell_parser :: shell_parser where
  "sample_shell_parser script =
     (if script = sample_script then
        Some \<lparr> root_node = TsNode ''program'' True 0 9
                 [TsNode ''list'' True 0 9 [sample_word 0 2, TsNode ''&&'' False 3 5 [], sample_word 6 9]],
               root_has_error = False \<rparr>
      else None)"

theorem known_safe_script_is_plain_witness:
  "\<not> command_might_be_dangerous sample_shell_parser [''zsh'', ''-lc'', sample_script] \<and>
   (\<exists>ws. parse_plain_command_from_node (sample_word 6 9) sample_script = Some ws \<and>
      is_safe_to_call_with_exec ws)"
proof -
  have ex: "extract_bash_command [''zsh'', ''-lc'', sample_script] = Some (''zsh'', sample_script)"
    by code_simp
  have ne: "sample_script \<noteq> ''zsh''" by code_simp
  obtain tree where tree: "sample_shell_parser sample_script = Some tree"
      "root_node tree = TsNode ''program'' True 0 9
         [TsNode ''list'' True 0 9 [sample_word 0 2, TsNode ''&&'' False 3 5 [], sample_word 6 9]]"
    by (simp add: sample_shell_parser_def)
  have safe: "is_known_safe_command sample_shell_parser [''zsh'', ''-lc'', sample_script]"
    by code_simp
  have node: "sample_word 6 9 \<in> set (ts_nodes (root_node tree))"
    unfolding tree(2) by (simp add: sample_word_def)
  have command: "ts_is_named (sample_word 6 9) \<and> ts_kind (sample_word 6 9) = ''command''"
    by (simp add: sample_word_def)
  from known_safe_script_is_plain [OF ex ne tree(1) safe] node command show ?thesis by blast
qed

text \<open>
  Words are compared as they are spelled in the script. A shell removes the backslashes of an
  unquoted word before the program sees it, so an option on the list of unsafe ones is not found
  under the spelling with a backslash after its dash.
\<close>

lemma escaped_find_option_is_accepted:
  assumes "opt \<in> set unsafe_find_options"
  shows "is_safe_to_call_with_exec [''find'', ''.'', CHR ''-'' # CHR 0x5C # tl opt]"
proof -
  have "list_all (\<lambda>opt. is_safe_to_call_with_exec [''find'', ''.'', CHR ''-'' # CHR 0x5C # tl opt])
          unsafe_find_options"
    by code_simp
  with assms show ?thesis by (simp add: list_all_iff)
qed

end
