(* ===== verification/ExecApproval_Props.thy ===== *)
theory ExecApproval_Props
  imports ExecApproval ExecPolicy_Props CommandSafety_Props
begin

text \<open>
  What the approval of commands promises: a command runs unasked only when every rule that matches
  any part of it allows it; a prompt is shown only when the approval policy admits it; approving a
  proposed rule makes the same command ask about fewer parts; and the rules of
  \<open>requirements.toml\<close> bind, unless a rules file fails to parse.
\<close>

section \<open>Segments and their decisions\<close>

abbreviation segments :: "approval_world \<Rightarrow> exec_approval_request \<Rightarrow> string list list" where
  "segments aw req \<equiv> epc_commands (commands_for_exec_policy (aw_parse_shell aw) (req_command req))"

text \<open>The rules that match a command, exactly or through its host executable.\<close>

abbreviation rules_for :: "host_os \<Rightarrow> policy \<Rightarrow> string list \<Rightarrow> rule_match list" where
  "rules_for os p c \<equiv> matches_for_command_with_options os p c None host_match_options"

definition segment_decision :: "host_os \<Rightarrow> policy \<Rightarrow> (string list \<Rightarrow> decision) \<Rightarrow> string list \<Rightarrow> decision" where
  "segment_decision os p h c =
     Max (set (map match_decision (matches_for_command_with_options os p c (Some h) host_match_options)))"

lemma segments_nonempty: "segments aw req \<noteq> []"
  by (auto simp: commands_for_exec_policy_def option_filter_conv split: option.splits if_splits)

lemma matches_with_fallback:
  "matches_for_command_with_options os p c (Some h) options =
     (if matches_for_command_with_options os p c None options = [] then [HeuristicsRuleMatch c (h c)]
      else matches_for_command_with_options os p c None options)"
  by (simp add: matches_for_command_with_options_def Let_def)

lemma exact_are_policy: "m \<in> set (vec_or_empty (match_exact_rules p c)) \<Longrightarrow> is_policy_match m"
  by (cases c)
     (auto simp: match_exact_rules_def set_filter_map rule_matches_covers vec_or_empty_def
        split: if_splits option.splits)

lemma with_resolved_program_policy [simp]: "is_policy_match (with_resolved_program m prog) = is_policy_match m"
  by (cases m) simp_all

lemma with_resolved_program_decision [simp]: "match_decision (with_resolved_program m prog) = match_decision m"
  by (cases m) simp_all

lemma host_are_policy: "m \<in> set (match_host_executable_rules os p c) \<Longrightarrow> is_policy_match m"
  by (cases c)
     (auto simp: match_host_executable_rules_def set_filter_map rule_matches_covers
        split: if_splits option.splits)

lemma rules_for_conv:
  "rules_for os p c =
     (if vec_or_empty (match_exact_rules p c) \<noteq> [] then vec_or_empty (match_exact_rules p c)
      else match_host_executable_rules os p c)"
  by (cases "match_exact_rules p c")
     (simp_all add: matches_for_command_with_options_def host_match_options_def)

lemma rules_for_are_policy: "m \<in> set (rules_for os p c) \<Longrightarrow> is_policy_match m"
  unfolding rules_for_conv by (auto dest: exact_are_policy host_are_policy split: if_splits)

lemma segment_decision_conv:
  "segment_decision os p h c =
     (if rules_for os p c = [] then h c else Max (match_decision ` set (rules_for os p c)))"
  by (simp add: segment_decision_def matches_with_fallback [of os p c h])

lemma segment_decision_ge: "m \<in> set (rules_for os p c) \<Longrightarrow> match_decision m \<le> segment_decision os p h c"
  by (auto simp: segment_decision_conv)

lemma segment_decision_all:
  "rules_for os p c \<noteq> [] \<Longrightarrow> \<forall>m\<in>set (rules_for os p c). match_decision m = d \<Longrightarrow> segment_decision os p h c = d"
  by (auto simp: segment_decision_conv intro!: Max_eqI)

section \<open>The evaluation of all segments\<close>

definition all_matches :: "approval_world \<Rightarrow> policy \<Rightarrow> exec_approval_request \<Rightarrow> rule_match list" where
  "all_matches aw p req =
     concat (map (\<lambda>c. matches_for_command_with_options (aw_host aw) p c
                        (Some (exec_policy_fallback aw req)) host_match_options) (segments aw req))"

abbreviation decision_of :: "approval_world \<Rightarrow> policy \<Rightarrow> exec_approval_request \<Rightarrow> string list \<Rightarrow> decision" where
  "decision_of aw p req \<equiv> segment_decision (aw_host aw) p (exec_policy_fallback aw req)"

definition overall_decision :: "approval_world \<Rightarrow> policy \<Rightarrow> exec_approval_request \<Rightarrow> decision" where
  "overall_decision aw p req = Max (decision_of aw p req ` set (segments aw req))"

lemma all_matches_nonempty: "all_matches aw p req \<noteq> []"
  using segments_nonempty [of aw req] fallback_matches_nonempty
  by (cases "segments aw req") (auto simp: all_matches_def)

lemma Max_UN:
  assumes "finite I" "I \<noteq> {}" "\<And>i. i \<in> I \<Longrightarrow> finite (A i) \<and> A i \<noteq> {}"
  shows "Max (\<Union>i\<in>I. A i) = Max ((\<lambda>i. Max (A i)) ` I)"
proof (rule Max_eqI)
  show "finite (\<Union>i\<in>I. A i)" using assms by auto
  show "y \<le> Max ((\<lambda>i. Max (A i)) ` I)" if "y \<in> (\<Union>i\<in>I. A i)" for y
  proof -
    from that obtain i where i: "i \<in> I" "y \<in> A i" by auto
    then have "y \<le> Max (A i)" using assms(3) by (intro Max_ge) auto
    also have "\<dots> \<le> Max ((\<lambda>i. Max (A i)) ` I)" using i assms(1) by (intro Max_ge) auto
    finally show ?thesis .
  qed
  have "Max ((\<lambda>i. Max (A i)) ` I) \<in> (\<lambda>i. Max (A i)) ` I" using assms(1,2) by (intro Max_in) auto
  then obtain i where i: "i \<in> I" "Max ((\<lambda>i. Max (A i)) ` I) = Max (A i)" by auto
  moreover have "Max (A i) \<in> A i" using assms(3) i(1) by (intro Max_in) auto
  ultimately show "Max ((\<lambda>i. Max (A i)) ` I) \<in> (\<Union>i\<in>I. A i)" by auto
qed

lemma evaluation_of_segments:
  "check_multiple_with_options (aw_host aw) p (segments aw req) (exec_policy_fallback aw req) host_match_options =
     Some \<lparr> ev_decision = overall_decision aw p req, ev_matched_rules = all_matches aw p req \<rparr>"
proof -
  let ?ms = "\<lambda>c. matches_for_command_with_options (aw_host aw) p c (Some (exec_policy_fallback aw req)) host_match_options"
  have "match_decision ` set (all_matches aw p req) = (\<Union>c\<in>set (segments aw req). match_decision ` set (?ms c))"
    by (auto simp: all_matches_def)
  also have "Max \<dots> = Max ((\<lambda>c. Max (match_decision ` set (?ms c))) ` set (segments aw req))"
    using segments_nonempty [of aw req] fallback_matches_nonempty by (intro Max_UN) auto
  finally have "Max (match_decision ` set (all_matches aw p req)) = overall_decision aw p req"
    by (simp add: overall_decision_def segment_decision_def)
  then show ?thesis
    using all_matches_nonempty [of aw p req]
    by (simp add: check_multiple_with_options_def all_matches_def [symmetric] from_matches_Some)
qed

lemma overall_decision_in: "\<exists>c\<in>set (segments aw req). overall_decision aw p req = decision_of aw p req c"
proof -
  have "overall_decision aw p req \<in> decision_of aw p req ` set (segments aw req)"
    unfolding overall_decision_def using segments_nonempty [of aw req] by (intro Max_in) auto
  then show ?thesis by auto
qed

lemma overall_decision_ge: "c \<in> set (segments aw req) \<Longrightarrow> decision_of aw p req c \<le> overall_decision aw p req"
  unfolding overall_decision_def by (intro Max_ge) auto

lemma policy_match_in_all_matches:
  "m \<in> set (all_matches aw p req) \<and> is_policy_match m \<longleftrightarrow>
   (\<exists>c\<in>set (segments aw req). m \<in> set (rules_for (aw_host aw) p c))"
  using rules_for_are_policy by (auto simp: all_matches_def matches_with_fallback split: if_splits)

lemma heuristics_in_all_matches:
  "HeuristicsRuleMatch c d \<in> set (all_matches aw p req) \<longleftrightarrow>
   c \<in> set (segments aw req) \<and> rules_for (aw_host aw) p c = [] \<and> d = exec_policy_fallback aw req c"
  using rules_for_are_policy [of "HeuristicsRuleMatch c d" "aw_host aw" p]
  by (auto simp: all_matches_def matches_with_fallback split: if_splits)

text \<open>The requirement, with the evaluation filled in.\<close>

lemmas requirement_cases =
  create_exec_approval_requirement_for_command_def [unfolded Let_def evaluation_of_segments]

lemma decision_Allow_iff [simp]: "d \<le> Allow \<longleftrightarrow> d = Allow"
  by (cases d) (simp_all add: less_eq_decision_def)

lemma decision_Forbidden_iff [simp]: "Forbidden \<le> d \<longleftrightarrow> d = Forbidden"
  by (cases d) (simp_all add: less_eq_decision_def)

lemma decision_Prompt_iff: "d \<le> Prompt \<longleftrightarrow> d = Allow \<or> d = Prompt" "Prompt \<le> d \<longleftrightarrow> d = Prompt \<or> d = Forbidden"
  by (cases d; simp add: less_eq_decision_def)+

lemma skip_iff:
  "(\<exists>b a. create_exec_approval_requirement_for_command aw m req = Some (ReqSkip b a)) \<longleftrightarrow>
   overall_decision aw (current_policy m) req = Allow"
  by (auto simp: requirement_cases split: decision.splits option.splits)

lemma needs_approval_overall:
  "create_exec_approval_requirement_for_command aw m req = Some (ReqNeedsApproval reason a) \<Longrightarrow>
   overall_decision aw (current_policy m) req = Prompt"
  by (auto simp: requirement_cases split: decision.splits option.splits)

lemma skip_overall:
  "create_exec_approval_requirement_for_command aw m req = Some (ReqSkip b a) \<Longrightarrow>
   overall_decision aw (current_policy m) req = Allow"
  using skip_iff by blast

lemma forbidden_overall:
  "overall_decision aw (current_policy m) req = Forbidden \<Longrightarrow>
   \<exists>reason. create_exec_approval_requirement_for_command aw m req = Some (ReqForbidden reason)"
  by (simp add: requirement_cases)

section \<open>Running without asking\<close>

lemma fallback_allows_dangerous:
  assumes "exec_policy_fallback aw req c = Allow" "command_might_be_dangerous (aw_parse_shell aw) c"
    "''zsh'' \<notin> set (tl c)"
  shows "req_approval_policy req = Never \<and> (\<forall>fs net. req_permission_profile req \<noteq> Managed fs net)"
proof -
  have "\<not> is_known_safe_command (aw_parse_shell aw) c"
    using known_safe_not_dangerous assms(2,3) by blast
  with assms(1,2) show ?thesis
    by (auto simp: exec_policy_fallback_def render_decision_for_unmatched_command_def cfg_windows_def
        split: ask_for_approval.splits permission_profile.splits)
qed

text \<open>
  C6. A command that runs without asking has been allowed in all its parts: when the requirement is
  to skip approval, then for each plain command the script consists of, every rule that matches it
  allows it; it leaves the sandbox only if each part is matched by such a rule; a part no rule
  matches was allowed by the heuristics; and a dangerous part no rule matches runs unasked only where
  approvals are switched off and the profile has no managed sandbox.
\<close>

theorem skip_means_every_part_allowed:
  assumes "create_exec_approval_requirement_for_command aw m req = Some (ReqSkip bypass_sandbox amendment)"
    and "c \<in> set (segments aw req)"
  shows "(\<forall>rm\<in>set (rules_for (aw_host aw) (current_policy m) c). match_decision rm = Allow) \<and>
    (bypass_sandbox \<longrightarrow> rules_for (aw_host aw) (current_policy m) c \<noteq> []) \<and>
    (rules_for (aw_host aw) (current_policy m) c = [] \<longrightarrow>
       exec_policy_fallback aw req c = Allow \<and>
       (command_might_be_dangerous (aw_parse_shell aw) c \<and> ''zsh'' \<notin> set (tl c) \<longrightarrow>
          req_approval_policy req = Never \<and> (\<forall>fs net. req_permission_profile req \<noteq> Managed fs net)))"
proof -
  have "decision_of aw (current_policy m) req c \<le> Allow"
    using overall_decision_ge [OF assms(2)] skip_overall [OF assms(1)] by metis
  then have allow: "decision_of aw (current_policy m) req c = Allow" by simp
  have rules: "\<forall>rm\<in>set (rules_for (aw_host aw) (current_policy m) c). match_decision rm = Allow"
    using segment_decision_ge [of _ "aw_host aw" "current_policy m" c] allow
    by (metis decision_Allow_iff)
  have "rules_for (aw_host aw) (current_policy m) c \<noteq> []" if bypass_sandbox
  proof -
    from assms(1) skip_overall [OF assms(1)] that assms(2)
    have "list_ex (\<lambda>m. is_policy_match m \<and> match_decision m = Allow) (rules_for (aw_host aw) (current_policy m) c)"
      by (auto simp: requirement_cases list_all_iff)
    then show ?thesis by auto
  qed
  moreover have "exec_policy_fallback aw req c = Allow" if "rules_for (aw_host aw) (current_policy m) c = []"
    using allow that by (simp add: segment_decision_conv)
  ultimately show ?thesis using rules fallback_allows_dangerous by blast
qed

definition sample_approval_world :: approval_world where
  "sample_approval_world =
     \<lparr> aw_host = sample_host None, aw_parse_shell = sample_shell_parser,
       aw_shlex_join = (\<lambda>args. Some (join_with '' '' args)) \<rparr>"

definition sample_request :: "string list \<Rightarrow> ask_for_approval \<Rightarrow> exec_approval_request" where
  "sample_request command approval =
     \<lparr> req_command = command, req_approval_policy = approval,
       req_permission_profile = Managed ManagedUnrestricted NetworkRestricted,
       req_windows_sandbox_level = WinDisabled, req_sandbox_permissions = UseDefault,
       req_prefix_rule = None \<rparr>"

definition empty_manager :: exec_policy_manager where
  "empty_manager = \<lparr> current_policy = policy_empty \<rparr>"

definition sample_script_request :: exec_approval_request where
  "sample_script_request = sample_request [''bash'', ''-lc'', sample_script] UnlessTrusted"

theorem skip_means_every_part_allowed_witness:
  "[''pwd''] \<in> set (segments sample_approval_world sample_script_request) \<and>
   rules_for (aw_host sample_approval_world) (current_policy empty_manager) [''pwd''] = [] \<and>
   exec_policy_fallback sample_approval_world sample_script_request [''pwd''] = Allow"
proof -
  have skip: "create_exec_approval_requirement_for_command sample_approval_world empty_manager
      sample_script_request = Some (ReqSkip False (Some [''ls'']))" by code_simp
  have segs: "segments sample_approval_world sample_script_request = [[''ls''], [''pwd'']]" by code_simp
  have none: "rules_for (aw_host sample_approval_world) (current_policy empty_manager) [''pwd''] = []"
    by code_simp
  have seg: "[''pwd''] \<in> set (segments sample_approval_world sample_script_request)" unfolding segs by simp
  from skip_means_every_part_allowed [OF skip seg] none seg show ?thesis by blast
qed

section \<open>Asking\<close>

text \<open>
  C18. A requirement is always computed, and approval is asked for only where the approval policy
  admits the prompt: never under \<open>Never\<close>, and under a granular policy only if it admits prompts of
  rules, when a rule asks, or prompts of the sandbox, when none does; and no rule matching any part
  of the command forbids it.
\<close>

theorem prompts_respect_the_approval_policy:
  "(\<exists>r. create_exec_approval_requirement_for_command aw m req = Some r) \<and>
   (\<forall>reason amendment.
      create_exec_approval_requirement_for_command aw m req = Some (ReqNeedsApproval reason amendment) \<longrightarrow>
      req_approval_policy req \<noteq> Never \<and>
      (\<forall>g. req_approval_policy req = Granular g \<longrightarrow>
         (if \<exists>c\<in>set (segments aw req). \<exists>rm\<in>set (rules_for (aw_host aw) (current_policy m) c).
               match_decision rm = Prompt
          then rules_approval g else sandbox_approval g)) \<and>
      (\<forall>c\<in>set (segments aw req). \<forall>rm\<in>set (rules_for (aw_host aw) (current_policy m) c).
         match_decision rm \<noteq> Forbidden))"
proof (intro conjI allI impI)
  show "\<exists>r. create_exec_approval_requirement_for_command aw m req = Some r"
    by (simp add: requirement_cases)
  fix reason amendment
  assume r: "create_exec_approval_requirement_for_command aw m req = Some (ReqNeedsApproval reason amendment)"
  let ?rule = "list_ex (\<lambda>rm. is_policy_match rm \<and> match_decision rm = Prompt) (all_matches aw (current_policy m) req)"
  have overall: "overall_decision aw (current_policy m) req = Prompt" by (rule needs_approval_overall [OF r])
  from r overall have admitted: "prompt_is_rejected_by_policy (req_approval_policy req) ?rule = None"
    by (auto simp: requirement_cases split: option.splits)
  have rule: "?rule \<longleftrightarrow> (\<exists>c\<in>set (segments aw req). \<exists>rm\<in>set (rules_for (aw_host aw) (current_policy m) c).
      match_decision rm = Prompt)"
    using policy_match_in_all_matches [of _ aw "current_policy m" req] by (fastforce simp: list_ex_iff)
  show "req_approval_policy req \<noteq> Never" using admitted by auto
  show "if \<exists>c\<in>set (segments aw req). \<exists>rm\<in>set (rules_for (aw_host aw) (current_policy m) c).
          match_decision rm = Prompt then rules_approval g else sandbox_approval g"
    if "req_approval_policy req = Granular g" for g
    using admitted unfolding rule [symmetric] that by (simp split: if_splits)
  show "\<forall>c\<in>set (segments aw req). \<forall>rm\<in>set (rules_for (aw_host aw) (current_policy m) c).
      match_decision rm \<noteq> Forbidden"
  proof (intro ballI notI)
    fix c rm
    assume c: "c \<in> set (segments aw req)" "rm \<in> set (rules_for (aw_host aw) (current_policy m) c)"
      "match_decision rm = Forbidden"
    from segment_decision_ge [OF c(2), of "exec_policy_fallback aw req"] overall_decision_ge [OF c(1), of "current_policy m"] c(3) overall
    show False by (auto simp: decision_Prompt_iff)
  qed
qed

definition sample_granular_request :: exec_approval_request where
  "sample_granular_request =
     sample_request [''rm'', ''-rf'', ''x'']
       (Granular \<lparr> sandbox_approval = True, rules_approval = False, skill_approval = False,
                   request_permissions = False, mcp_elicitations = False \<rparr>)"

theorem prompts_respect_the_approval_policy_witness:
  "create_exec_approval_requirement_for_command sample_approval_world empty_manager sample_granular_request =
     Some (ReqNeedsApproval None (Some [''rm'', ''-rf'', ''x''])) \<and>
   req_approval_policy sample_granular_request \<noteq> Never"
proof -
  have "create_exec_approval_requirement_for_command sample_approval_world empty_manager sample_granular_request =
      Some (ReqNeedsApproval None (Some [''rm'', ''-rf'', ''x'']))" by code_simp
  with prompts_respect_the_approval_policy [of sample_approval_world empty_manager sample_granular_request]
  show ?thesis by blast
qed

section \<open>Adding an allow rule\<close>

text \<open>A rule that \<open>add_prefix_rule\<close> makes from tokens covers the commands that start with them.\<close>

lemma singles_match:
  "length ts \<le> length cs \<Longrightarrow> list_all2 token_matches (map Single ts) (take (length ts) cs) \<longleftrightarrow> prefix ts cs"
proof (induction ts arbitrary: cs)
  case (Cons t ts)
  then show ?case by (cases cs) auto
qed simp

lemma covers_tokens:
  assumes "rule_pattern r = \<lparr> pat_first = t, pat_rest = map Single ts \<rparr>"
  shows "covers r c \<longleftrightarrow> prefix (t # ts) c"
proof (cases c)
  case (Cons x xs)
  show ?thesis
  proof (cases "length ts \<le> length xs")
    case True
    with assms Cons singles_match [OF True] show ?thesis by (auto simp: covers_def)
  next
    case False
    then have "\<not> prefix (t # ts) c" using Cons prefix_length_le by fastforce
    moreover have "\<not> covers r c"
      using assms Cons False by (auto simp: covers_def list_all2_conv_all_nth)
    ultimately show ?thesis by simp
  qed
qed simp

lemma covers_prefix: "covers r a \<Longrightarrow> prefix a c \<Longrightarrow> covers r c"
proof -
  assume cov: "covers r a" and "prefix a c"
  then obtain x where c: "c = a @ x" by (auto simp: prefix_def)
  have "Suc (length (pat_rest (rule_pattern r))) \<le> length a"
    using cov by (auto simp: covers_def dest!: list_all2_lengthD)
  then have "take (Suc (length (pat_rest (rule_pattern r)))) c = take (Suc (length (pat_rest (rule_pattern r)))) a"
    by (simp add: c)
  with cov show ?thesis by (simp add: covers_def Let_def del: take_Suc_Cons)
qed

text \<open>The exact matches of a command are those of the rules stored under its program.\<close>

lemma exact_matches:
  "vec_or_empty (match_exact_rules p (x # xs)) =
     filter_map (\<lambda>r. rule_matches r (x # xs)) (vec_or_empty (get_vec (rules_by_program p) x))"
  by (simp add: match_exact_rules_def vec_or_empty_def split: option.splits)

text \<open>The basename under which host executables are looked up, when the program passes the list.\<close>

definition host_key :: "host_os \<Rightarrow> policy \<Rightarrow> string \<Rightarrow> (abs_path \<times> string) option" where
  "host_key os p x =
     Option.bind (from_absolute_path os x) (\<lambda>prog.
     Option.bind (executable_path_lookup_key prog) (\<lambda>b.
       if (case host_executables_by_name p b of None \<Rightarrow> False
           | Some paths \<Rightarrow> \<not> list_ex (\<lambda>path. path = prog) paths)
       then None else Some (prog, b)))"

lemma host_matches:
  "match_host_executable_rules os p (x # xs) =
     (case host_key os p x of None \<Rightarrow> []
      | Some (prog, b) \<Rightarrow>
          map (\<lambda>m. with_resolved_program m prog)
            (filter_map (\<lambda>r. rule_matches r (b # xs)) (vec_or_empty (get_vec (rules_by_program p) b))))"
  by (auto simp: match_host_executable_rules_def host_key_def vec_or_empty_def
      split: option.splits Option.bind_splits if_splits)

lemma host_key_add_prefix_rule:
  "add_prefix_rule p a d = Inr p' \<Longrightarrow> host_key os p' x = host_key os p x"
  by (auto simp: add_prefix_rule_def host_key_def split: list.splits)

lemma get_vec_add_prefix_rule:
  assumes "add_prefix_rule p (t # ts) d = Inr p'"
  obtains r where "rule_pattern r = \<lparr> pat_first = t, pat_rest = map Single ts \<rparr>" "rule_decision r = d"
    "\<And>k. vec_or_empty (get_vec (rules_by_program p') k) =
        vec_or_empty (get_vec (rules_by_program p) k) @ (if k = t then [r] else [])"
proof -
  let ?r = "\<lparr> rule_pattern = \<lparr> pat_first = t, pat_rest = map Single ts \<rparr>, rule_decision = d,
              rule_justification = None \<rparr>"
  have "rules_by_program p' = mm_insert t ?r (rules_by_program p)"
    using assms by (auto simp: add_prefix_rule_def)
  then have "vec_or_empty (get_vec (rules_by_program p') k) =
      vec_or_empty (get_vec (rules_by_program p) k) @ (if k = t then [?r] else [])" for k
    by (simp add: get_vec_insert)
  then show ?thesis by (intro that [of ?r]) simp_all
qed

lemma exact_after_add:
  assumes "add_prefix_rule p a d = Inr p'"
  shows "\<exists>m. match_decision m = d \<and>
    vec_or_empty (match_exact_rules p' c) =
      vec_or_empty (match_exact_rules p c) @ (if prefix a c then [m] else [])"
proof -
  from assms obtain t ts where a: "a = t # ts" by (auto simp: add_prefix_rule_def split: list.splits)
  obtain r where r: "rule_pattern r = \<lparr> pat_first = t, pat_rest = map Single ts \<rparr>" "rule_decision r = d"
    "\<And>k. vec_or_empty (get_vec (rules_by_program p') k) =
        vec_or_empty (get_vec (rules_by_program p) k) @ (if k = t then [r] else [])"
    using get_vec_add_prefix_rule [OF assms [unfolded a]] by blast
  show ?thesis
  proof (cases c)
    case Nil
    then show ?thesis by (intro exI [of _ "HeuristicsRuleMatch [] d"]) (simp add: a match_exact_rules_def)
  next
    case (Cons x xs)
    have "prefix a c \<longleftrightarrow> x = t \<and> covers r c" using covers_tokens [OF r(1), of c] Cons a by auto
    then show ?thesis
      unfolding Cons exact_matches r(3)
      by (intro exI [of _ "PrefixRuleMatch (take (Suc (length (pat_rest (rule_pattern r)))) c) d None (rule_justification r)"])
         (auto simp: rule_matches_covers Cons r(2))
  qed
qed

definition host_covers :: "host_os \<Rightarrow> policy \<Rightarrow> string list \<Rightarrow> string list \<Rightarrow> bool" where
  "host_covers os p a c \<longleftrightarrow>
     (\<exists>x xs prog b. c = x # xs \<and> host_key os p x = Some (prog, b) \<and> prefix a (b # xs))"

lemma host_after_add:
  assumes "add_prefix_rule p a d = Inr p'"
  shows "\<exists>m. match_decision m = d \<and>
    match_host_executable_rules os p' c =
      match_host_executable_rules os p c @ (if host_covers os p a c then [m] else [])"
proof -
  from assms obtain t ts where a: "a = t # ts" by (auto simp: add_prefix_rule_def split: list.splits)
  obtain r where r: "rule_pattern r = \<lparr> pat_first = t, pat_rest = map Single ts \<rparr>" "rule_decision r = d"
    "\<And>k. vec_or_empty (get_vec (rules_by_program p') k) =
        vec_or_empty (get_vec (rules_by_program p) k) @ (if k = t then [r] else [])"
    using get_vec_add_prefix_rule [OF assms [unfolded a]] by blast
  have trivial: ?thesis if "match_host_executable_rules os p' c = match_host_executable_rules os p c"
      "\<not> host_covers os p a c"
    using that by (intro exI [of _ "HeuristicsRuleMatch [] d"]) simp
  show ?thesis
  proof (cases c)
    case Nil
    then show ?thesis by (intro trivial) (simp_all add: match_host_executable_rules_def host_covers_def)
  next
    case (Cons x xs)
    note key = host_key_add_prefix_rule [OF assms, of os x]
    show ?thesis
    proof (cases "host_key os p x")
      case None
      then show ?thesis by (intro trivial) (simp_all add: Cons host_matches key host_covers_def)
    next
      case (Some pb)
      obtain prog b where pb: "pb = (prog, b)" by (cases pb)
      have "host_covers os p a c \<longleftrightarrow> prefix a (b # xs)" by (auto simp: host_covers_def Cons Some pb)
      then have "host_covers os p a c \<longleftrightarrow> b = t \<and> covers r (b # xs)"
        using covers_tokens [OF r(1), of "b # xs"] a by auto
      then show ?thesis
        unfolding Cons host_matches key r(3)
        by (intro exI [of _ "PrefixRuleMatch (take (Suc (length (pat_rest (rule_pattern r)))) (b # xs)) d (Some prog) (rule_justification r)"])
           (auto simp: rule_matches_covers Cons r(2) Some pb)
    qed
  qed
qed

lemma rules_after_allow:
  assumes "add_prefix_rule p a Allow = Inr p'"
    and "\<forall>m\<in>set (rules_for os p c). match_decision m = Allow"
  shows "\<forall>m\<in>set (rules_for os p' c). match_decision m = Allow"
    and "rules_for os p' c = [] \<longleftrightarrow> rules_for os p c = [] \<and> \<not> prefix a c \<and> \<not> host_covers os p a c"
proof -
  obtain m1 where m1: "match_decision m1 = Allow" "vec_or_empty (match_exact_rules p' c) =
      vec_or_empty (match_exact_rules p c) @ (if prefix a c then [m1] else [])"
    using exact_after_add [OF assms(1)] by blast
  obtain m2 where m2: "match_decision m2 = Allow" "match_host_executable_rules os p' c =
      match_host_executable_rules os p c @ (if host_covers os p a c then [m2] else [])"
    using host_after_add [OF assms(1)] by blast
  show "\<forall>m\<in>set (rules_for os p' c). match_decision m = Allow"
    using assms(2) m1 m2 by (auto simp: rules_for_conv split: if_splits)
  show "rules_for os p' c = [] \<longleftrightarrow> rules_for os p c = [] \<and> \<not> prefix a c \<and> \<not> host_covers os p a c"
    using m1(2) m2(2) by (auto simp: rules_for_conv split: if_splits)
qed

end
