(* ===== verification/ExecAmend.thy ===== *)
theory ExecAmend
  imports ExecApproval_Props
begin

text \<open>
  Remembering approvals (\<open>append_amendment_and_update\<close> of \<open>core/src/exec_policy.rs\<close>): the rule a
  prompt proposes, once approved, makes the same command ask about fewer of its parts, so that
  approving cannot go on forever.
\<close>

section \<open>Host executables named by their basename\<close>

lemma from_absolute_path_wf:
  assumes "from_absolute_path os x = Some prog" "\<And>d. os_current_dir os = Some d \<Longrightarrow> wf_abs_path d"
  shows "wf_abs_path prog"
proof -
  have root: "wf_abs_path []" by (simp add: wf_abs_path_def)
  show ?thesis
    using assms wf_absolutize [OF root] wf_absolutize
    by (auto simp: from_absolute_path_def Let_def split: if_splits)
qed

lemma from_absolute_path_basename:
  assumes "wf_component b" "b \<noteq> ''~''" "from_absolute_path os b = Some prog"
  obtains d where "os_current_dir os = Some d" "prog = d @ [b]"
proof -
  have sep: "CHR ''/'' \<notin> set b" "b \<noteq> []" "b \<noteq> ''.''" "b \<noteq> ''..''" using assms(1) by (auto simp: wf_component_def)
  have "strip_prefix ''/'' rest = None" if "b = ''~'' @ rest" for rest
    using sep(1) that by (cases rest) auto
  then have expand: "maybe_expand_home_directory os b = b"
    using assms(2) by (auto simp: maybe_expand_home_directory_def rust_str split: option.splits)
  have "\<not> path_is_absolute b" using sep by (cases b) (auto simp: path_is_absolute_def starts_with_def)
  moreover have "absolutize_from b d = d @ [b]" for d
    using sep \<open>\<not> path_is_absolute b\<close>
    by (simp add: absolutize_from_def path_components_def split_on_no_sep segment_component_def)
  ultimately show ?thesis using assms(3) that by (auto simp: from_absolute_path_def expand)
qed

lemma host_key_of_basename:
  assumes "host_key os p x = Some (prog, b)" "b \<noteq> ''~''" "host_key os p b = Some (prog', b')"
    and "\<And>d. os_current_dir os = Some d \<Longrightarrow> wf_abs_path d"
  shows "b' = b"
proof -
  from assms(1) have prog: "from_absolute_path os x = Some prog" "executable_path_lookup_key prog = Some b"
    by (auto simp: host_key_def bind_eq_Some_conv split: if_splits)
  have "b \<in> set prog"
    using prog(2) by (auto simp: executable_path_lookup_key_def executable_lookup_key_def dest: last_opt_in_set)
  with from_absolute_path_wf [OF prog(1) assms(4)] have wf: "wf_component b"
    by (simp add: wf_abs_path_def list_all_iff)
  from assms(3) have prog': "from_absolute_path os b = Some prog'" "executable_path_lookup_key prog' = Some b'"
    by (auto simp: host_key_def bind_eq_Some_conv split: if_splits)
  obtain d where "prog' = d @ [b]" by (rule from_absolute_path_basename [OF wf assms(2) prog'(1)])
  with prog'(2) show ?thesis by (simp add: executable_path_lookup_key_def executable_lookup_key_def)
qed

lemma exact_nonempty:
  "vec_or_empty (match_exact_rules p (x # xs)) \<noteq> [] \<longleftrightarrow>
   (\<exists>r\<in>set (vec_or_empty (get_vec (rules_by_program p) x)). covers r (x # xs))"
  by (auto simp: exact_matches filter_map_empty rule_matches_covers)

lemma host_nonempty:
  "match_host_executable_rules os p (x # xs) \<noteq> [] \<longleftrightarrow>
   (\<exists>prog b. host_key os p x = Some (prog, b) \<and>
      (\<exists>r\<in>set (vec_or_empty (get_vec (rules_by_program p) b)). covers r (b # xs)))"
  by (auto simp: host_matches filter_map_empty rule_matches_covers split: option.splits)

lemma rules_for_nonempty:
  "rules_for os p c \<noteq> [] \<longleftrightarrow>
   vec_or_empty (match_exact_rules p c) \<noteq> [] \<or> match_host_executable_rules os p c \<noteq> []"
  by (simp add: rules_for_conv)

text \<open>A rule that already matches the amendment matches every command the amendment would cover.\<close>

lemma existing_rule_reaches:
  assumes rules: "rules_for os p (t # ts) \<noteq> []" and tilde: "t \<noteq> ''~''"
    and cwd: "\<And>d. os_current_dir os = Some d \<Longrightarrow> wf_abs_path d"
    and reach: "prefix (t # ts) c \<or> host_covers os p (t # ts) c"
  shows "rules_for os p c \<noteq> []"
  using reach
proof
  assume "prefix (t # ts) c"
  then obtain cs where c: "c = t # cs" "prefix ts cs" by (cases c) auto
  have step: "covers r (k # ts) \<Longrightarrow> covers r (k # cs)" for r k
    using covers_prefix [of r "k # ts" "k # cs"] c(2) by simp
  from rules [unfolded rules_for_nonempty exact_nonempty host_nonempty] show ?thesis
    unfolding rules_for_nonempty c(1) exact_nonempty host_nonempty using step by blast
next
  assume "host_covers os p (t # ts) c"
  then obtain x xs prog where c: "c = x # xs" "host_key os p x = Some (prog, t)" "prefix ts xs"
    by (auto simp: host_covers_def)
  have step: "covers r (t # ts) \<Longrightarrow> covers r (t # xs)" for r
    using covers_prefix [of r "t # ts" "t # xs"] c(3) by simp
  from rules [unfolded rules_for_nonempty exact_nonempty host_nonempty]
  have "\<exists>r\<in>set (vec_or_empty (get_vec (rules_by_program p) t)). covers r (t # ts)"
  proof
    assume "\<exists>prog b. host_key os p t = Some (prog, b) \<and>
      (\<exists>r\<in>set (vec_or_empty (get_vec (rules_by_program p) b)). covers r (b # ts))"
    then obtain prog' b where b: "host_key os p t = Some (prog', b)"
        "\<exists>r\<in>set (vec_or_empty (get_vec (rules_by_program p) b)). covers r (b # ts)" by blast
    have "b = t" by (rule host_key_of_basename [OF c(2) tilde b(1) cwd])
    with b(2) show ?thesis by simp
  qed
  with step c show ?thesis unfolding rules_for_nonempty c(1) host_nonempty by blast
qed

section \<open>Fewer parts to ask about\<close>

text \<open>The parts of a command that ask.\<close>

definition asking :: "approval_world \<Rightarrow> exec_policy_manager \<Rightarrow> exec_approval_request \<Rightarrow> string list list" where
  "asking aw m req = filter (\<lambda>c. decision_of aw (current_policy m) req c = Prompt) (segments aw req)"

lemma filter_le: "(\<And>x. x \<in> set xs \<Longrightarrow> P x \<Longrightarrow> Q x) \<Longrightarrow> length (filter P xs) \<le> length (filter Q xs)"
proof (induction xs)
  case (Cons x xs)
  then have "length (filter P xs) \<le> length (filter Q xs)" by simp
  with Cons.prems [of x] show ?case by auto
qed simp

lemma filter_less:
  assumes "\<And>x. x \<in> set xs \<Longrightarrow> P x \<Longrightarrow> Q x" "a \<in> set xs" "Q a" "\<not> P a"
  shows "length (filter P xs) < length (filter Q xs)"
  using assms
proof (induction xs)
  case (Cons x xs)
  have le: "length (filter P xs) \<le> length (filter Q xs)"
    using Cons.prems(1) by (intro filter_le) simp
  show ?case
  proof (cases "x = a")
    case True
    with Cons.prems(3,4) le show ?thesis by simp
  next
    case False
    with Cons have "length (filter P xs) < length (filter Q xs)" by auto
    with Cons.prems(1) [of x] show ?thesis by auto
  qed
qed simp

lemma append_amendment_cases:
  assumes "append_amendment_and_update aw io home a m file0 = (m', file1, None)"
  obtains (kept) "m' = m" "rules_for (aw_host aw) (current_policy m) a \<noteq> []"
  | (added) p' where "add_prefix_rule (current_policy m) a Allow = Inr p'" "current_policy m' = p'"
proof -
  from assms obtain f where f: "blocking_append_allow_prefix_rule io (default_policy_path home) a file0 = (f, None)"
    by (auto simp: append_amendment_and_update_def Let_def split: prod.splits option.splits)
  let ?ev = "check_multiple_with_options (aw_host aw) (current_policy m) [a] (\<lambda>_. Forbidden) host_match_options"
  let ?already = "case ?ev of None \<Rightarrow> False
     | Some ev \<Rightarrow> ev_decision ev = Allow \<and>
         list_ex (\<lambda>m. is_policy_match m \<and> match_decision m = Allow) (ev_matched_rules ev)"
  show ?thesis
  proof (cases ?already)
    case True
    with assms f have "m' = m" by (auto simp: append_amendment_and_update_def)
    moreover have "rules_for (aw_host aw) (current_policy m) a \<noteq> []"
      using True
      by (auto simp: check_multiple_with_options_def matches_with_fallback from_matches_Some split: if_splits)
    ultimately show ?thesis by (rule kept)
  next
    case False
    with assms f show ?thesis
      by (auto simp: append_amendment_and_update_def split: sum.splits intro: added)
  qed
qed

lemma amended_decision:
  assumes "add_prefix_rule p a Allow = Inr p'"
    and "\<forall>rm\<in>set (rules_for os p c). match_decision rm = Allow"
  shows "segment_decision os p' h c =
    (if rules_for os p c = [] \<and> \<not> prefix a c \<and> \<not> host_covers os p a c then h c else Allow)"
  using rules_after_allow [OF assms] segment_decision_all [of os p' c Allow h]
  by (auto simp: segment_decision_conv)

text \<open>
  The two sources of a proposed amendment: the first part the heuristics ask about, or the prefix
  the model asked for, when it would let every part through.
\<close>

lemma proposed_amendment_cases:
  assumes "create_exec_approval_requirement_for_command aw m req = Some (ReqNeedsApproval reason (Some a))"
  defines "p \<equiv> current_policy m"
  obtains (heuristic) "a \<in> set (segments aw req)" "rules_for (aw_host aw) p a = []"
      "exec_policy_fallback aw req a = Prompt"
  | (requested) p' where "\<forall>c\<in>set (segments aw req). rules_for (aw_host aw) p c = []"
      "add_prefix_rule p a Allow = Inr p'"
      "\<forall>c\<in>set (segments aw req). decision_of aw p' req c = Allow"
proof -
  let ?ms = "all_matches aw p req"
  let ?requested = "derive_requested_execpolicy_amendment_from_prefix_rule (aw_host aw) (req_prefix_rule req)
     ?ms p (segments aw req) (exec_policy_fallback aw req) host_match_options"
  from assms(1) needs_approval_overall [OF assms(1)]
  consider "?requested = Some a" | "try_derive_execpolicy_amendment_for_prompt_rules ?ms = Some a"
    by (auto simp: requirement_cases p_def or_else_conv split: option.splits if_splits)
  then show ?thesis
  proof cases
    case 1
    then have no: "\<not> list_ex is_policy_match ?ms"
      and all: "prefix_rule_would_approve_all_commands (aw_host aw) p a (segments aw req)
          (exec_policy_fallback aw req) host_match_options"
      by (auto simp: derive_requested_execpolicy_amendment_from_prefix_rule_def split: option.splits if_splits)
    have none: "\<forall>c\<in>set (segments aw req). rules_for (aw_host aw) p c = []"
    proof (rule ccontr)
      assume "\<not> ?thesis"
      then obtain c rm where "c \<in> set (segments aw req)" "rm \<in> set (rules_for (aw_host aw) p c)"
        by (metis list.set_sel(1))
      with policy_match_in_all_matches [of rm aw p req] no show False by (auto simp: list_ex_iff)
    qed
    from all obtain p' where p': "add_prefix_rule p a Allow = Inr p'"
      "list_all (\<lambda>c. map_option ev_decision (check_with_options (aw_host aw) p' c (exec_policy_fallback aw req)
          host_match_options) = Some Allow) (segments aw req)"
      by (auto simp: prefix_rule_would_approve_all_commands_def split: sum.splits)
    have "map_option ev_decision (check_with_options (aw_host aw) p' c (exec_policy_fallback aw req)
        host_match_options) = Some (decision_of aw p' req c)" for c
      by (simp add: check_with_options_def from_matches_Some [OF fallback_matches_nonempty] segment_decision_def)
    with p'(2) have "\<forall>c\<in>set (segments aw req). decision_of aw p' req c = Allow" by (simp add: list_all_iff)
    with none p'(1) show ?thesis by (rule requested)
  next
    case 2
    then have "find_map (\<lambda>m. case m of HeuristicsRuleMatch command Prompt \<Rightarrow> Some command | _ \<Rightarrow> None) ?ms = Some a"
      by (auto simp: try_derive_execpolicy_amendment_for_prompt_rules_def split: if_splits)
    then obtain rm where "rm \<in> set ?ms" "(case rm of HeuristicsRuleMatch command Prompt \<Rightarrow> Some command | _ \<Rightarrow> None) = Some a"
      by (rule find_map_SomeE)
    then have "HeuristicsRuleMatch a Prompt \<in> set ?ms" by (auto split: rule_match.splits decision.splits)
    with heuristics_in_all_matches show ?thesis by (intro heuristic) auto
  qed
qed

lemma proposed_means_allow_rules:
  assumes "create_exec_approval_requirement_for_command aw m req = Some (ReqNeedsApproval reason (Some a))"
    and "c \<in> set (segments aw req)" "rm \<in> set (rules_for (aw_host aw) (current_policy m) c)"
  shows "match_decision rm = Allow"
proof -
  note overall = needs_approval_overall [OF assms(1)]
  have "match_decision rm \<le> Prompt"
    using segment_decision_ge [OF assms(3), of "exec_policy_fallback aw req"]
      overall_decision_ge [OF assms(2), of "current_policy m"] overall by (metis order_trans)
  moreover have "match_decision rm \<noteq> Prompt"
  proof
    assume prompt: "match_decision rm = Prompt"
    have "rm \<in> set (all_matches aw (current_policy m) req)" "is_policy_match rm"
      using policy_match_in_all_matches [of rm aw "current_policy m" req] assms(2,3) by blast+
    with prompt have rule: "list_ex (\<lambda>m. is_policy_match m \<and> match_decision m = Prompt)
        (all_matches aw (current_policy m) req)" "list_ex is_policy_match (all_matches aw (current_policy m) req)"
      by (auto simp: list_ex_iff)
    with assms(1) overall show False
      by (auto simp: requirement_cases or_else_conv try_derive_execpolicy_amendment_for_prompt_rules_def
          derive_requested_execpolicy_amendment_from_prefix_rule_def split: option.splits if_splits)
  qed
  ultimately show ?thesis by (simp add: decision_Prompt_iff)
qed

lemma no_asking_skips:
  assumes "\<And>c. c \<in> set (segments aw req) \<Longrightarrow> decision_of aw (current_policy m) req c = Allow"
  shows "\<exists>b am. create_exec_approval_requirement_for_command aw m req = Some (ReqSkip b am)"
proof -
  obtain c where "c \<in> set (segments aw req)" "overall_decision aw (current_policy m) req = decision_of aw (current_policy m) req c"
    using overall_decision_in by blast
  with assms show ?thesis by (simp add: skip_iff)
qed

lemma kept_is_impossible:
  assumes "create_exec_approval_requirement_for_command aw m req = Some (ReqNeedsApproval reason (Some a))"
    and "hd a \<noteq> ''~''" "\<And>d. os_current_dir (aw_host aw) = Some d \<Longrightarrow> wf_abs_path d"
  shows "rules_for (aw_host aw) (current_policy m) a = []"
  using assms(1)
proof (cases rule: proposed_amendment_cases)
  case (requested p')
  obtain c where c: "c \<in> set (segments aw req)" "decision_of aw (current_policy m) req c = Prompt"
    using overall_decision_in needs_approval_overall [OF assms(1)] by metis
  have none: "rules_for (aw_host aw) (current_policy m) c = []" using requested(1) c(1) by blast
  with c(2) have h: "exec_policy_fallback aw req c = Prompt" by (simp add: segment_decision_conv)
  have "decision_of aw p' req c = Allow" using requested(3) c(1) by blast
  with h none amended_decision [OF requested(2), of "aw_host aw" c "exec_policy_fallback aw req"]
  have reach: "prefix a c \<or> host_covers (aw_host aw) (current_policy m) a c" by (auto split: if_splits)
  obtain t ts where a: "a = t # ts" using requested(2) by (cases a) (auto simp: add_prefix_rule_def)
  show ?thesis
  proof (rule ccontr)
    assume "rules_for (aw_host aw) (current_policy m) a \<noteq> []"
    from existing_rule_reaches [OF this [unfolded a] _ assms(3) reach [unfolded a]] none assms(2) a
    show False by auto
  qed
qed

text \<open>
  C16. Approvals run out: when a command needs approval and the proposed rule is approved and
  appended without an error, fewer parts of the same command ask than before; and once no part asks
  the command runs without asking. The current directory is assumed to be a normalised path, and
  the rule's program not to be a lone tilde, which the code expands to the home directory.
\<close>

theorem approving_asks_less:
  assumes needs: "create_exec_approval_requirement_for_command aw m req = Some (ReqNeedsApproval reason (Some a))"
    and update: "append_amendment_and_update aw io codex_home a m file0 = (m', file1, None)"
    and tilde: "hd a \<noteq> ''~''"
    and cwd: "\<And>d. os_current_dir (aw_host aw) = Some d \<Longrightarrow> wf_abs_path d"
  shows "length (asking aw m' req) < length (asking aw m req) \<and>
    (asking aw m' req = [] \<longrightarrow>
       (\<exists>b am. create_exec_approval_requirement_for_command aw m' req = Some (ReqSkip b am)))"
proof -
  let ?p = "current_policy m"
  obtain p' where p': "add_prefix_rule ?p a Allow = Inr p'" "current_policy m' = p'"
    using update by (cases rule: append_amendment_cases) (use kept_is_impossible [OF needs tilde cwd] in auto)
  have after: "decision_of aw p' req c =
      (if rules_for (aw_host aw) ?p c = [] \<and> \<not> prefix a c \<and> \<not> host_covers (aw_host aw) ?p a c
       then exec_policy_fallback aw req c else Allow)" if "c \<in> set (segments aw req)" for c
    using proposed_means_allow_rules [OF needs that] by (intro amended_decision [OF p'(1)]) blast
  have fewer: "decision_of aw ?p req c = d"
    if "c \<in> set (segments aw req)" "decision_of aw p' req c = d" "d \<noteq> Allow" for c d
    using after [OF that(1)] that(2,3) by (auto simp: segment_decision_conv split: if_splits)
  obtain c0 where c0: "c0 \<in> set (segments aw req)" "decision_of aw ?p req c0 = Prompt"
      "decision_of aw p' req c0 \<noteq> Prompt"
    using needs
  proof (cases rule: proposed_amendment_cases)
    case heuristic
    with after [OF heuristic(1)] show ?thesis by (intro that [of a]) (simp_all add: segment_decision_conv)
  next
    case (requested p'')
    with p'(1) have "p'' = p'" by simp
    obtain c where "c \<in> set (segments aw req)" "decision_of aw ?p req c = Prompt"
      using overall_decision_in needs_approval_overall [OF needs] by metis
    with requested(3) \<open>p'' = p'\<close> show ?thesis by (intro that [of c]) auto
  qed
  have "length (asking aw m' req) < length (asking aw m req)"
    unfolding asking_def p'(2)
  proof (rule filter_less [of "segments aw req" _ _ c0])
    show "decision_of aw ?p req c = Prompt" if "c \<in> set (segments aw req)" "decision_of aw p' req c = Prompt" for c
      by (rule fewer [OF that]) simp
  qed (use c0 in auto)
  moreover have "\<exists>b am. create_exec_approval_requirement_for_command aw m' req = Some (ReqSkip b am)"
    if "asking aw m' req = []"
  proof (rule no_asking_skips)
    fix c
    assume c: "c \<in> set (segments aw req)"
    have "decision_of aw ?p req c \<le> Prompt"
      using overall_decision_ge [OF c, of ?p] needs_approval_overall [OF needs] by simp
    moreover have "decision_of aw p' req c \<noteq> Prompt"
      using that c by (simp add: asking_def p'(2) filter_empty_conv)
    ultimately show "decision_of aw (current_policy m') req c = Allow"
      using fewer [OF c, of Forbidden] by (cases "decision_of aw p' req c") (auto simp: p'(2) decision_Prompt_iff)
  qed
  ultimately show ?thesis by blast
qed

definition plain_amend_io :: amend_io where
  "plain_amend_io =
     \<lparr> io_json = (\<lambda>s. [dquote] @ s @ [dquote]), io_create_dir = (\<lambda>_. DirCreated), io_open = None,
       io_lock = None, io_seek = None, io_read = None, io_write = (\<lambda>_. None) \<rparr>"

definition sample_rm_request :: exec_approval_request where
  "sample_rm_request = sample_request [''rm'', ''-rf'', ''x''] OnRequest"

definition amended_manager :: exec_policy_manager where
  "amended_manager =
     fst (append_amendment_and_update sample_approval_world plain_amend_io [''home''] [''rm'', ''-rf'', ''x'']
            empty_manager None)"

theorem approving_asks_less_witness:
  "length (asking sample_approval_world amended_manager sample_rm_request) <
     length (asking sample_approval_world empty_manager sample_rm_request) \<and>
   asking sample_approval_world empty_manager sample_rm_request = [[''rm'', ''-rf'', ''x'']]"
proof -
  have needs: "create_exec_approval_requirement_for_command sample_approval_world empty_manager sample_rm_request =
      Some (ReqNeedsApproval None (Some [''rm'', ''-rf'', ''x'']))" by code_simp
  have ok: "snd (snd (append_amendment_and_update sample_approval_world plain_amend_io [''home'']
      [''rm'', ''-rf'', ''x''] empty_manager None)) = None" by code_simp
  obtain m' f e where run: "append_amendment_and_update sample_approval_world plain_amend_io [''home'']
      [''rm'', ''-rf'', ''x''] empty_manager None = (m', f, e)" by (metis prod_cases3)
  with ok have e: "e = None" and m': "amended_manager = m'" by (simp_all add: amended_manager_def)
  have cwd: "wf_abs_path d" if "os_current_dir (aw_host sample_approval_world) = Some d" for d
    using that by (simp add: sample_approval_world_def sample_host_def)
  have "asking sample_approval_world empty_manager sample_rm_request = [[''rm'', ''-rf'', ''x'']]" by code_simp
  with approving_asks_less [OF needs run [unfolded e] _ cwd] m' show ?thesis by simp
qed

end
