(* ===== verification/ExecRequirements.thy ===== *)
theory ExecRequirements
  imports ExecAmend
begin

text \<open>
  Rules of \<open>requirements.toml\<close> from the file to the decision: they pass the conversion, the merge
  with the rules files and the evaluation, and bind the approval of every command they cover; and
  they are lost, with every other rule, when a rules file fails to parse.
\<close>

section \<open>From requirements.toml to the store\<close>

text \<open>A token of \<open>requirements.toml\<close> admits a word: it names it, or lists it.\<close>

definition admits :: "requirements_token \<Rightarrow> string \<Rightarrow> bool" where
  "admits t x \<longleftrightarrow>
     rt_token t = Some x \<or> (case rt_any_of t of None \<Rightarrow> False | Some alternatives \<Rightarrow> x \<in> set alternatives)"

lemma requirements_token_matches:
  assumes "requirements_pattern_token t i j = Inr tok"
  shows "token_matches tok x \<longleftrightarrow> admits t x" "x \<in> set (token_alternatives tok) \<longleftrightarrow> admits t x"
  using assms
  by (auto simp: requirements_pattern_token_def admits_def list_ex_iff split: option.splits if_splits)

lemma requirements_tokens_match:
  assumes "collect_results (\<lambda>(j, t). requirements_pattern_token t i j) (List.enumerate 0 ts) = Inr toks"
  shows "list_all2 (\<lambda>t tok. \<exists>j. requirements_pattern_token t i j = Inr tok) ts toks"
  using assms
  by (auto simp: collect_results_Inr list_all2_conv_all_nth nth_enumerate_eq)

lemma fold_heads:
  "vec_or_empty (get_vec (fold (\<lambda>head m. mm_insert head (f head) m) heads m) k) =
     vec_or_empty (get_vec m k) @ map f (filter (\<lambda>head. head = k) heads)"
  by (induction heads arbitrary: m) (simp_all add: get_vec_insert)

lemma requirements_rule_store:
  assumes "requirements_rule i rule m = Inr m'"
  shows "set (vec_or_empty (get_vec m k)) \<subseteq> set (vec_or_empty (get_vec m' k))"
    and "list_all2 admits (rp_pattern rule) (take (length (rp_pattern rule)) (x # xs)) \<Longrightarrow>
      \<exists>r d. r \<in> set (vec_or_empty (get_vec m' x)) \<and> covers r (x # xs) \<and>
          rp_decision rule = Some d \<and> rule_decision r = as_decision d"
proof -
  from assms obtain toks d first rest where
    toks: "collect_results (\<lambda>(j, t). requirements_pattern_token t i j) (List.enumerate 0 (rp_pattern rule)) = Inr toks"
      "toks = first # rest" and d: "rp_decision rule = Some d"
    and m': "m' = fold (\<lambda>head m. mm_insert head
                 \<lparr> rule_pattern = \<lparr> pat_first = head, pat_rest = rest \<rparr>, rule_decision = as_decision d,
                   rule_justification = rp_justification rule \<rparr> m) (token_alternatives first) m"
    by (auto simp: requirements_rule_def result_simps case_list_Inr
        split: if_splits option.splits requirements_decision.splits)
  let ?r = "\<lambda>head. \<lparr> rule_pattern = \<lparr> pat_first = head, pat_rest = rest \<rparr>, rule_decision = as_decision d,
                   rule_justification = rp_justification rule \<rparr>"
  show "set (vec_or_empty (get_vec m k)) \<subseteq> set (vec_or_empty (get_vec m' k))"
    unfolding m' fold_heads by auto
  assume cover: "list_all2 admits (rp_pattern rule) (take (length (rp_pattern rule)) (x # xs))"
  note tok = requirements_tokens_match [OF toks(1), unfolded toks(2)]
  then obtain t0 ts where ts: "rp_pattern rule = t0 # ts" by (cases "rp_pattern rule") auto
  have hd_admits: "admits t0 x" and tl_admits: "list_all2 admits ts (take (length ts) xs)"
    using cover by (simp_all add: ts)
  from tok have hd_tok: "\<exists>j. requirements_pattern_token t0 i j = Inr first"
    and tl_tok: "list_all2 (\<lambda>t tok. \<exists>j. requirements_pattern_token t i j = Inr tok) ts rest" by (simp_all add: ts)
  have len: "length rest = length ts" using tl_tok by (simp add: list_all2_lengthD)
  have "x \<in> set (token_alternatives first)" using hd_tok hd_admits requirements_token_matches(2) by blast
  then have "?r x \<in> set (vec_or_empty (get_vec m' x))" unfolding m' fold_heads by auto
  moreover have "list_all2 token_matches rest (take (length rest) xs)"
    using tl_admits tl_tok requirements_token_matches(1)
    by (auto simp: list_all2_conv_all_nth len)
  then have "covers (?r x) (x # xs)" by (simp add: covers_def)
  ultimately show "\<exists>r d. r \<in> set (vec_or_empty (get_vec m' x)) \<and> covers r (x # xs) \<and>
      rp_decision rule = Some d \<and> rule_decision r = as_decision d"
    using d by (intro exI [of _ "?r x"] exI [of _ d]) simp
qed

lemma requirements_rules_store:
  assumes "requirements_rules i rules m = Inr m'"
  shows "set (vec_or_empty (get_vec m k)) \<subseteq> set (vec_or_empty (get_vec m' k))"
    and "rule \<in> set rules \<Longrightarrow> list_all2 admits (rp_pattern rule) (take (length (rp_pattern rule)) (x # xs)) \<Longrightarrow>
      \<exists>r d. r \<in> set (vec_or_empty (get_vec m' x)) \<and> covers r (x # xs) \<and>
          rp_decision rule = Some d \<and> rule_decision r = as_decision d"
proof -
  have mono: "set (vec_or_empty (get_vec m k)) \<subseteq> set (vec_or_empty (get_vec m' k))"
    if "requirements_rules i rules m = Inr m'" for i rules m k
    using that
  proof (induction rules arbitrary: i m)
    case (Cons r rules)
    then show ?case using requirements_rule_store(1) by (fastforce simp: result_simps)
  qed simp
  show "set (vec_or_empty (get_vec m k)) \<subseteq> set (vec_or_empty (get_vec m' k))" by (rule mono [OF assms])
  assume "rule \<in> set rules" "list_all2 admits (rp_pattern rule) (take (length (rp_pattern rule)) (x # xs))"
  then show "\<exists>r d. r \<in> set (vec_or_empty (get_vec m' x)) \<and> covers r (x # xs) \<and>
      rp_decision rule = Some d \<and> rule_decision r = as_decision d"
    using assms
  proof (induction rules arbitrary: i m)
    case (Cons r0 rules)
    from Cons.prems(3) obtain m1 where m1: "requirements_rule i r0 m = Inr m1" "requirements_rules (Suc i) rules m1 = Inr m'"
      by (auto simp: result_simps)
    show ?case
    proof (cases "rule = r0")
      case True
      with requirements_rule_store(2) [OF m1(1)] Cons.prems(2) mono [OF m1(2), of x] show ?thesis by blast
    next
      case False
      with Cons m1(2) show ?thesis by auto
    qed
  qed simp
qed

lemma requirements_rules_no_allow:
  assumes "requirements_rules i rules m = Inr m'" "rule \<in> set rules"
  shows "rp_decision rule \<noteq> Some ReqAllow"
  using assms
proof (induction rules arbitrary: i m)
  case (Cons r rules)
  then show ?case by (auto simp: result_simps requirements_rule_def split: if_splits)
qed simp

section \<open>Through the merge and the evaluation\<close>

lemma merge_keeps_overlay_rule:
  assumes "r \<in> set (vec_or_empty (get_vec (rules_by_program q) x))"
  shows "r \<in> set (vec_or_empty (get_vec (rules_by_program (merge_overlay p q)) x))"
proof -
  from assms obtain rs where "map_of (rules_by_program q) x = Some rs" "r \<in> set rs"
    by (cases "map_of (rules_by_program q) x") (auto simp: get_vec_def)
  then have "(x, r) \<in> set (iter_flat (rules_by_program q))"
    by (auto simp: iter_flat_def dest!: map_of_SomeD intro!: bexI [of _ "(x, rs)"])
  moreover have "vec_or_empty (get_vec (rules_by_program (merge_overlay p q)) x) =
      vec_or_empty (get_vec (rules_by_program p) x) @
      map snd (filter (\<lambda>(k', _). k' = x) (iter_flat (rules_by_program q)))"
    using mm.look_fold [of "iter_flat (rules_by_program q)" "rules_by_program p" x]
    by (simp add: merge_overlay_def from_parts_def)
  ultimately show ?thesis by force
qed

lemma stored_rule_binds:
  assumes "r \<in> set (vec_or_empty (get_vec (rules_by_program p) x))" "covers r (x # xs)"
  shows "rule_decision r \<le> segment_decision os p h (x # xs)"
proof -
  let ?m = "PrefixRuleMatch (take (Suc (length (pat_rest (rule_pattern r)))) (x # xs)) (rule_decision r) None
      (rule_justification r)"
  have "?m \<in> set (vec_or_empty (match_exact_rules p (x # xs)))"
    using assms by (auto simp: exact_matches set_filter_map rule_matches_covers intro!: bexI [of _ r])
  then have "?m \<in> set (rules_for os p (x # xs))" by (auto simp: rules_for_conv)
  from segment_decision_ge [OF this, of h] show ?thesis by simp
qed

lemma loaded_with_requirements:
  assumes "load_exec_policy w files stack = Inr p" "cls_requirements_exec_policy stack = Some q"
  obtains p0 where "p = merge_overlay p0 q"
  using assms by (auto simp: load_exec_policy_def result_simps)

lemma requirement_binds:
  assumes convert: "to_policy toml = Inr q"
    and stack: "cls_requirements_exec_policy stack = Some q"
    and load: "load_exec_policy w files stack = Inr (current_policy m)"
    and rule: "rule \<in> set toml"
    and part: "c \<in> set (segments aw req)" "c \<noteq> []"
    and cover: "list_all2 admits (rp_pattern rule) (take (length (rp_pattern rule)) c)"
  obtains d where "rp_decision rule = Some d" "d \<noteq> ReqAllow"
    "as_decision d \<le> overall_decision aw (current_policy m) req"
proof -
  obtain x xs where c: "c = x # xs" using part(2) by (cases c) auto
  obtain mm' where store: "requirements_rules 0 toml [] = Inr mm'" "q = policy_new mm'"
    using convert by (auto simp: to_policy_def result_simps split: if_splits)
  from requirements_rules_store(2) [OF store(1) rule cover [unfolded c]] obtain r d where
    r: "r \<in> set (vec_or_empty (get_vec (rules_by_program q) x))" "covers r (x # xs)"
      "rp_decision rule = Some d" "rule_decision r = as_decision d"
    by (auto simp: store(2) policy_new_def from_parts_def)
  obtain p0 where p0: "current_policy m = merge_overlay p0 q" by (rule loaded_with_requirements [OF load stack])
  have "as_decision d \<le> decision_of aw (current_policy m) req c"
    using stored_rule_binds [OF merge_keeps_overlay_rule [OF r(1)] r(2)] r(4) by (simp add: p0 c)
  also have "\<dots> \<le> overall_decision aw (current_policy m) req" by (rule overall_decision_ge [OF part(1)])
  finally have "as_decision d \<le> overall_decision aw (current_policy m) req" .
  moreover have "d \<noteq> ReqAllow" using requirements_rules_no_allow [OF store(1) rule] r(3) by auto
  ultimately show ?thesis using that r(3) by blast
qed

lemma forbidding_requirement:
  assumes "to_policy toml = Inr q" "cls_requirements_exec_policy stack = Some q"
    and "load_exec_policy w files stack = Inr (current_policy m)"
    and "rule \<in> set toml" "c \<in> set (segments aw req)" "c \<noteq> []"
    and "list_all2 admits (rp_pattern rule) (take (length (rp_pattern rule)) c)"
    and "rp_decision rule = Some ReqForbid"
  shows "\<exists>reason. create_exec_approval_requirement_for_command aw m req = Some (ReqForbidden reason)"
proof -
  obtain d where "rp_decision rule = Some d" "as_decision d \<le> overall_decision aw (current_policy m) req"
    using requirement_binds [OF assms(1-7)] by blast
  with assms(8) show ?thesis by (intro forbidden_overall) simp
qed

text \<open>
  C5. Rules of \<open>requirements.toml\<close> bind: when they convert to a policy and the rules files load, then
  for every command one of whose parts is covered, word by word, by the pattern of a rule there, a
  forbidding rule makes the command forbidden and a prompting rule keeps it from running without
  asking, whatever the rules files of any layer allow.
\<close>

theorem requirements_bind:
  assumes convert: "to_policy toml = Inr q"
    and stack: "cls_requirements_exec_policy stack = Some q"
    and load: "load_exec_policy w files stack = Inr (current_policy m)"
    and rule: "rule \<in> set toml"
    and part: "c \<in> set (segments aw req)" "c \<noteq> []"
    and cover: "list_all2 admits (rp_pattern rule) (take (length (rp_pattern rule)) c)"
  shows "(rp_decision rule = Some ReqForbid \<longrightarrow>
            (\<exists>reason. create_exec_approval_requirement_for_command aw m req = Some (ReqForbidden reason))) \<and>
         (\<forall>b a. create_exec_approval_requirement_for_command aw m req \<noteq> Some (ReqSkip b a))"
proof -
  obtain d where d: "d \<noteq> ReqAllow" "as_decision d \<le> overall_decision aw (current_policy m) req"
    using requirement_binds [OF assms] by blast
  then have "overall_decision aw (current_policy m) req \<noteq> Allow" by (cases d) auto
  then have "\<forall>b a. create_exec_approval_requirement_for_command aw m req \<noteq> Some (ReqSkip b a)"
    using skip_overall by blast
  with forbidding_requirement [OF assms] show ?thesis by blast
qed

definition forbid_rm :: requirements_prefix_rule where
  "forbid_rm =
     \<lparr> rp_pattern = [\<lparr> rt_token = None, rt_any_of = Some [''rm'', ''rmdir''] \<rparr>],
       rp_decision = Some ReqForbid, rp_justification = None \<rparr>"

definition rm_requirements :: policy where
  "rm_requirements = (case to_policy [forbid_rm] of Inr q \<Rightarrow> q | Inl _ \<Rightarrow> policy_empty)"

text \<open>A user layer with one rules file, read as the calls it makes; \<open>broken\<close> is one with an error.\<close>

definition rules_world :: policy_world where
  "rules_world =
     \<lparr> pw_host = sample_host None, pw_shlex_split = (\<lambda>s. Some (split_whitespace s)),
       pw_syntax_error = (\<lambda>_ contents. if contents = ''broken'' then Some ''unexpected token'' else None),
       pw_eval = (\<lambda>_ contents. ([PrefixRuleCall [SlStr contents] None None None None None], None)) \<rparr>"

definition one_rules_file :: "string \<Rightarrow> policy_files" where
  "one_rules_file contents =
     \<lparr> pf_read_dir = (\<lambda>_. ReadDirItems [Item ''default.rules'' (Inr True), Item ''notes.txt'' (Inr True)]),
       pf_read_to_string = (\<lambda>_. Inr contents) \<rparr>"

definition user_stack :: config_layer_stack where
  "user_stack =
     \<lparr> cls_layers = [\<lparr> layer_name = UserLayer, layer_config_folder = Some [''home''] \<rparr>],
       cls_ignore_user_and_project_exec_policy_rules = False,
       cls_requirements_exec_policy = Some rm_requirements \<rparr>"

definition manager_with :: "string \<Rightarrow> exec_policy_manager" where
  "manager_with contents =
     (case manager_load rules_world (one_rules_file contents) user_stack of
        Inr m \<Rightarrow> m | Inl _ \<Rightarrow> empty_manager)"

definition plain_rm :: exec_approval_request where
  "plain_rm = sample_request [''rm'', ''x''] OnRequest"

lemma rm_requirements_convert: "to_policy [forbid_rm] = Inr rm_requirements"
proof -
  have "is_ok (to_policy [forbid_rm])" by code_simp
  then show ?thesis by (cases "to_policy [forbid_rm]") (simp_all add: rm_requirements_def)
qed

lemma forbid_rm_covers:
  "list_all2 admits (rp_pattern forbid_rm) (take (length (rp_pattern forbid_rm)) [''rm'', ''x''])"
  by (simp add: forbid_rm_def admits_def)

theorem requirements_bind_witness:
  "\<exists>reason. create_exec_approval_requirement_for_command sample_approval_world (manager_with ''rm'') plain_rm =
     Some (ReqForbidden reason)"
proof -
  have stack: "cls_requirements_exec_policy user_stack = Some rm_requirements" by (simp add: user_stack_def)
  have "is_ok (load_exec_policy rules_world (one_rules_file ''rm'') user_stack)" by code_simp
  then have load: "load_exec_policy rules_world (one_rules_file ''rm'') user_stack =
      Inr (current_policy (manager_with ''rm''))"
    by (cases "load_exec_policy rules_world (one_rules_file ''rm'') user_stack")
       (simp_all add: manager_with_def manager_load_def load_exec_policy_with_warning_def)
  have seg: "segments sample_approval_world plain_rm = [[''rm'', ''x'']]" by code_simp
  have "rp_decision forbid_rm = Some ReqForbid" by (simp add: forbid_rm_def)
  with requirements_bind [OF rm_requirements_convert stack load, of forbid_rm "[''rm'', ''x'']" sample_approval_world plain_rm] seg forbid_rm_covers
  show ?thesis by simp
qed

section \<open>A rules file that does not parse\<close>

lemma rules_for_empty: "rules_for os policy_empty c = []"
  by (cases c)
     (auto simp: rules_for_conv match_exact_rules_def match_host_executable_rules_def policy_empty_def
        policy_new_def from_parts_def get_vec_def split: option.splits)

lemma unparsable_file_stops_loading:
  assumes "path \<in> set paths" "list_all (\<lambda>p. is_ok (pf_read_to_string files p)) paths"
    and "pf_read_to_string files path = Inr contents" "pw_syntax_error w (abs_path_str path) contents = Some e"
  shows "\<exists>name e'. parse_policy_files w files paths b = Inl (ParsePolicy name e')"
  using assms(1,2)
proof (induction paths arbitrary: b)
  case (Cons p paths)
  obtain body where body: "pf_read_to_string files p = Inr body"
    using Cons.prems(2) by (cases "pf_read_to_string files p") auto
  obtain b' r where parse: "policy_parse w (abs_path_str p) body b = (b', r)" by fastforce
  show ?case
  proof (cases r)
    case (Some e')
    with body parse show ?thesis by simp
  next
    case None
    have "p \<noteq> path"
      using assms(3,4) body parse None by (auto simp: policy_parse_def)
    with Cons.prems Cons.IH [of b'] obtain name e' where
      "parse_policy_files w files paths b' = Inl (ParsePolicy name e')" by auto
    with body parse None show ?thesis by simp
  qed
qed simp

lemma no_rules_skip:
  assumes "list_all (\<lambda>c. exec_policy_fallback aw req c = Allow) (segments aw req)"
  shows "\<exists>a. create_exec_approval_requirement_for_command aw \<lparr> current_policy = policy_empty \<rparr> req =
    Some (ReqSkip False a)"
proof -
  have "decision_of aw policy_empty req c = Allow" if "c \<in> set (segments aw req)" for c
    using that assms by (simp add: segment_decision_conv rules_for_empty list_all_iff)
  with overall_decision_in [of aw req policy_empty] have "overall_decision aw policy_empty req = Allow" by auto
  moreover have "\<not> list_all (\<lambda>c. list_ex (\<lambda>m. is_policy_match m \<and> match_decision m = Allow)
      (rules_for (aw_host aw) policy_empty c)) (segments aw req)"
    using segments_nonempty [of aw req] by (cases "segments aw req") (simp_all add: rules_for_empty)
  ultimately show ?thesis by (simp add: requirement_cases)
qed

text \<open>
  C40. One rules file with a syntax error lifts every requirement. Let the rules files of the enabled
  layers be readable, one of them with a syntax error, and let a rule of \<open>requirements.toml\<close> forbid a
  part of a command. With any rules files that load, the command is forbidden. With these, the manager
  starts with the empty policy, and when the heuristics allow the parts of the command, it runs
  without asking, in the sandbox.
\<close>

theorem parse_error_drops_requirements:
  assumes "to_policy toml = Inr q" and "cls_requirements_exec_policy stack = Some q"
    and "rule \<in> set toml" and "rp_decision rule = Some ReqForbid"
    and "c \<in> set (segments aw req)" and "c \<noteq> []"
    and "list_all2 admits (rp_pattern rule) (take (length (rp_pattern rule)) c)"
    and "layer_policy_files (pw_host w) files (cls_ignore_user_and_project_exec_policy_rules stack)
           (cls_layers stack) = Inr paths"
    and "list_all (\<lambda>p. is_ok (pf_read_to_string files p)) paths"
    and "path \<in> set paths" and "pf_read_to_string files path = Inr contents"
    and "pw_syntax_error w (abs_path_str path) contents = Some e"
    and "list_all (\<lambda>c. exec_policy_fallback aw req c = Allow) (segments aw req)"
  shows "manager_load w files stack = Inr \<lparr> current_policy = policy_empty \<rparr> \<and>
    (\<exists>a. create_exec_approval_requirement_for_command aw \<lparr> current_policy = policy_empty \<rparr> req =
       Some (ReqSkip False a)) \<and>
    (\<forall>files' m. load_exec_policy w files' stack = Inr (current_policy m) \<longrightarrow>
       (\<exists>reason. create_exec_approval_requirement_for_command aw m req = Some (ReqForbidden reason)))"
proof -
  obtain name e' where "parse_policy_files w files paths builder_new = Inl (ParsePolicy name e')"
    using unparsable_file_stops_loading [OF assms(10,9,11,12)] by blast
  then have "manager_load w files stack = Inr \<lparr> current_policy = policy_empty \<rparr>"
    using assms(8) by (simp add: manager_load_def load_exec_policy_with_warning_def load_exec_policy_def)
  with no_rules_skip [OF assms(13)] forbidding_requirement [OF assms(1,2) _ assms(3,5-7,4)] show ?thesis by blast
qed

theorem parse_error_drops_requirements_witness:
  "manager_load rules_world (one_rules_file ''broken'') user_stack = Inr \<lparr> current_policy = policy_empty \<rparr> \<and>
   (\<exists>a. create_exec_approval_requirement_for_command sample_approval_world \<lparr> current_policy = policy_empty \<rparr> plain_rm =
      Some (ReqSkip False a))"
proof -
  let ?path = "[''home'', ''rules'', ''default.rules'']"
  have 1: "cls_requirements_exec_policy user_stack = Some rm_requirements" by (simp add: user_stack_def)
  have 2: "forbid_rm \<in> set [forbid_rm]" "rp_decision forbid_rm = Some ReqForbid" by (simp_all add: forbid_rm_def)
  have "segments sample_approval_world plain_rm = [[''rm'', ''x'']]" by code_simp
  then have 3: "[''rm'', ''x''] \<in> set (segments sample_approval_world plain_rm)" "[''rm'', ''x''] \<noteq> []" by simp_all
  have 4: "layer_policy_files (pw_host rules_world) (one_rules_file ''broken'')
      (cls_ignore_user_and_project_exec_policy_rules user_stack) (cls_layers user_stack) = Inr [?path]"
    by code_simp
  have 5: "list_all (\<lambda>p. is_ok (pf_read_to_string (one_rules_file ''broken'') p)) [?path]" "?path \<in> set [?path]"
    "pf_read_to_string (one_rules_file ''broken'') ?path = Inr ''broken''"
    "pw_syntax_error rules_world (abs_path_str ?path) ''broken'' = Some ''unexpected token''"
    by (simp_all add: one_rules_file_def rules_world_def)
  have 6: "list_all (\<lambda>c. exec_policy_fallback sample_approval_world plain_rm c = Allow)
      (segments sample_approval_world plain_rm)" by code_simp
  show ?thesis
    using parse_error_drops_requirements [OF rm_requirements_convert 1 2 3 forbid_rm_covers 4 5 6] by blast
qed

text \<open>
  A requirement on a program name also binds an absolute path to it, through the host executable,
  but not when a rules file has an allow rule for that path: the exact match is used alone.
\<close>

lemma exact_rule_shadows_requirement:
  "(\<exists>reason. create_exec_approval_requirement_for_command sample_approval_world (manager_with ''ls'')
       (sample_request [''/bin/rm'', ''x''] OnRequest) = Some (ReqForbidden reason)) \<and>
   (\<exists>a. create_exec_approval_requirement_for_command sample_approval_world (manager_with ''/bin/rm'')
       (sample_request [''/bin/rm'', ''x''] OnRequest) = Some (ReqSkip True a))"
proof -
  have "(case create_exec_approval_requirement_for_command sample_approval_world (manager_with ''ls'')
       (sample_request [''/bin/rm'', ''x''] OnRequest) of Some (ReqForbidden _) \<Rightarrow> True | _ \<Rightarrow> False)"
    "create_exec_approval_requirement_for_command sample_approval_world (manager_with ''/bin/rm'')
       (sample_request [''/bin/rm'', ''x''] OnRequest) = Some (ReqSkip True None)"
    by code_simp+
  then show ?thesis by (auto split: option.splits exec_approval_requirement.splits)
qed

text \<open>
  A relative program is resolved against the current directory before its basename is looked up, so
  a rule for a program name also matches a file of that name in the working tree.
\<close>

lemma relative_program_matches_name:
  "rules_for ((sample_host None)\<lparr> os_current_dir := Some [''work''] \<rparr>)
     (current_policy (manager_with ''git'')) [''./git'', ''push''] =
   [PrefixRuleMatch [''git''] Allow (Some [''work'', ''git'']) None]"
  by code_simp

end
