(* ===== verification/PolicyBuild.thy ===== *)
theory PolicyBuild
  imports ExecRequirements
begin

text \<open>
  From the rules as they are written, in rules files, in \<open>requirements.toml\<close> and in amendments, to the
  decision: whichever way the program builds a policy, its store holds exactly the written rules, and
  the check of a command returns the strictest of those that cover it.
\<close>

section \<open>Rules as written\<close>

text \<open>A written rule: for each position the words it admits there, and its decision.\<close>

type_synonym ruling = "string list list \<times> decision"

definition covered :: "string list list \<Rightarrow> string list \<Rightarrow> bool" where
  "covered pat cmd \<longleftrightarrow> pat \<noteq> [] \<and> list_all2 (\<lambda>words x. x \<in> set words) pat (take (length pat) cmd)"

definition strictest_ruling :: "ruling list \<Rightarrow> string list \<Rightarrow> (string list \<Rightarrow> decision) \<Rightarrow> decision" where
  "strictest_ruling rs cmd h =
     (let ds = map snd (filter (\<lambda>(pat, _). covered pat cmd) rs) in
      if ds = [] then h cmd else Max (set ds))"

text \<open>In a rules file a position is a string or a list of strings, and the decision defaults to allow.\<close>

fun element_words :: "sl_value \<Rightarrow> string list" where
  "element_words (SlStr s) = [s]"
| "element_words (SlList vs) = filter_map unpack_str vs"
| "element_words (SlOther t) = []"

definition written_decision :: "string option \<Rightarrow> decision" where
  "written_decision d =
     (if d = Some ''forbidden'' then Forbidden else if d = Some ''prompt'' then Prompt else Allow)"

fun call_rulings :: "builtin_call \<Rightarrow> ruling list" where
  "call_rulings (PrefixRuleCall pattern d _ _ _ _) = [(map element_words pattern, written_decision d)]"
| "call_rulings _ = []"

definition file_rulings :: "policy_world \<Rightarrow> string \<Rightarrow> string \<Rightarrow> ruling list" where
  "file_rulings w name contents = concat (map call_rulings (fst (pw_eval w name contents)))"

definition token_words :: "requirements_token \<Rightarrow> string list" where
  "token_words t = (case rt_token t of Some s \<Rightarrow> [s] | None \<Rightarrow> unwrap_or [] (rt_any_of t))"

definition required_rulings :: "requirements_prefix_rule list \<Rightarrow> ruling list" where
  "required_rulings toml =
     map (\<lambda>rule. (map token_words (rp_pattern rule),
                   case rp_decision rule of Some d \<Rightarrow> as_decision d | None \<Rightarrow> Allow)) toml"

section \<open>What a store holds\<close>

definition stored :: "prefix_rule multimap \<Rightarrow> prefix_rule set" where
  "stored m = snd ` set (iter_flat m)"

definition store_holds :: "prefix_rule multimap \<Rightarrow> ruling list \<Rightarrow> bool" where
  "store_holds m rs \<longleftrightarrow> keyed m \<and>
     (\<forall>cmd d. (\<exists>r \<in> stored m. covers r cmd \<and> rule_decision r = d) \<longleftrightarrow>
              (\<exists>pat. (pat, d) \<in> set rs \<and> covered pat cmd))"

lemma stored_simps [simp]: "stored [] = {}" "stored ((k, rs) # m) = set rs \<union> stored m"
  by (simp_all add: stored_def iter_flat_def image_Un image_image)

lemma stored_insert: "stored (mm_insert k r m) = insert r (stored m)"
  by (induction k r m rule: mm_insert.induct) auto

lemma stored_fold: "stored (fold (\<lambda>(k, r). mm_insert k r) krs m) = snd ` set krs \<union> stored m"
  by (induction krs arbitrary: m) (auto simp: stored_insert split: prod.splits)

lemma store_holds_empty: "store_holds [] []"
  by (simp add: store_holds_def keyed_def)

lemma store_holds_merge:
  assumes "store_holds m rs" "store_holds m' ss"
  shows "store_holds (fold (\<lambda>(k, r). mm_insert k r) (iter_flat m') m) (rs @ ss)"
proof -
  have "keyed (fold (\<lambda>(k, r). mm_insert k r) (iter_flat m') m)"
    using assms iter_flat_keyed by (intro fold_insert_keyed) (auto simp: store_holds_def)
  moreover have "stored (fold (\<lambda>(k, r). mm_insert k r) (iter_flat m') m) = stored m' \<union> stored m"
    by (simp add: stored_fold) (simp add: stored_def)
  ultimately show ?thesis using assms unfolding store_holds_def by (simp add: bex_Un) blast
qed

text \<open>A written rule is stored once for each word of its first position.\<close>

definition rule_for :: "pattern_token list \<Rightarrow> decision \<Rightarrow> string option \<Rightarrow> string \<Rightarrow> prefix_rule" where
  "rule_for rest d j head =
     \<lparr> rule_pattern = \<lparr> pat_first = head, pat_rest = rest \<rparr>, rule_decision = d, rule_justification = j \<rparr>"

lemma token_matches_words: "token_matches tok x \<longleftrightarrow> x \<in> set (token_alternatives tok)"
  by (cases tok) (auto simp: list_ex_iff)

lemma rule_for_covers:
  "(\<exists>head \<in> set (token_alternatives first). covers (rule_for rest d j head) cmd) \<longleftrightarrow>
   covered (map token_alternatives (first # rest)) cmd"
proof (cases cmd)
  case Nil
  then show ?thesis by (simp add: covered_def)
next
  case (Cons x xs)
  have "token_matches = (\<lambda>tok y. y \<in> set (token_alternatives tok))"
    by (intro ext) (rule token_matches_words)
  with Cons show ?thesis by (auto simp: covers_def covered_def rule_for_def list_all2_map1)
qed

lemma store_holds_rule:
  assumes "store_holds m rs"
  shows "store_holds (fold (\<lambda>head. mm_insert head (rule_for rest d j head)) (token_alternatives first) m)
    (rs @ [(map token_alternatives (first # rest), d)])"
proof -
  let ?krs = "map (\<lambda>head. (head, rule_for rest d j head)) (token_alternatives first)"
  have fold: "fold (\<lambda>head. mm_insert head (rule_for rest d j head)) (token_alternatives first) m =
      fold (\<lambda>(k, r). mm_insert k r) ?krs m"
    by (simp add: fold_map comp_def)
  have "keyed (fold (\<lambda>(k, r). mm_insert k r) ?krs m)"
    using assms by (intro fold_insert_keyed) (auto simp: store_holds_def rule_for_def rule_program_def)
  moreover have "stored (fold (\<lambda>(k, r). mm_insert k r) ?krs m) =
      rule_for rest d j ` set (token_alternatives first) \<union> stored m"
    by (simp add: stored_fold image_image)
  moreover have "rule_decision (rule_for rest d j head) = d" for head by (simp add: rule_for_def)
  ultimately show ?thesis
    using assms rule_for_covers [of first rest d j] unfolding store_holds_def fold
    by (simp add: bex_Un) blast
qed

section \<open>Reading rules\<close>

lemma collect_results_words:
  assumes "collect_results f xs = Inr ys" "\<And>x y. f x = Inr y \<Longrightarrow> g y = k x"
  shows "map g ys = map k xs"
  using assms by (auto simp: collect_results_Inr list_all2_conv_all_nth intro: nth_equalityI)

lemma unpack_all: "collect_results (\<lambda>v. ok_or (e v) (unpack_str v)) vs = Inr ss \<Longrightarrow> filter_map unpack_str vs = ss"
  by (induction vs arbitrary: ss) (auto simp: result_simps ok_or_Inr split: sum.splits)

lemma parse_pattern_token_words:
  assumes "parse_pattern_token v = Inr tok"
  shows "token_alternatives tok = element_words v"
proof (cases v)
  case (SlList content)
  with assms obtain ss where ss: "filter_map unpack_str content = ss"
    and tok: "(case ss of [] \<Rightarrow> Inl (InvalidPattern AlternativesEmpty) | [single] \<Rightarrow> Inr (Single single)
      | _ \<Rightarrow> Inr (Alts ss)) = Inr tok"
    by (auto simp: parse_pattern_token_def try_bind_Inr dest: unpack_all)
  from tok have "token_alternatives tok = ss" by (auto split: list.splits)
  with ss SlList show ?thesis by simp
qed (use assms in \<open>auto simp: parse_pattern_token_def\<close>)

lemma parse_decision_written:
  "(case d of Some raw \<Rightarrow> parse_decision raw | None \<Rightarrow> Inr Allow) = Inr decision \<Longrightarrow> written_decision d = decision"
  by (auto simp: parse_decision_def written_decision_def split: option.splits if_splits)

lemma run_builtin_holds:
  assumes "run_builtin w call b = Inr b'" "store_holds (b_rules_by_program b) rs"
  shows "store_holds (b_rules_by_program b') (rs @ call_rulings call)"
proof (cases call)
  case (PrefixRuleCall pattern d ms nms j span)
  with assms(1) obtain decision first rest matches not_matches where
    d: "(case d of Some raw \<Rightarrow> parse_decision raw | None \<Rightarrow> Inr Allow) = Inr decision"
    and pat: "parse_pattern pattern = Inr (first # rest)"
    and b': "b_rules_by_program b' = b_rules_by_program (fold (\<lambda>rule b. builder_add_rule b rule)
        (map (rule_for rest decision j) (token_alternatives first))
        (add_pending_example_validation b (map (rule_for rest decision j) (token_alternatives first))
           matches not_matches (map_option error_location_from_file_span span)))"
    by (auto simp: prefix_rule_builtin_def result_simps Let_def case_list_Inr rule_for_def [abs_def] split: if_splits)
  have "b_rules_by_program (fold (\<lambda>rule b. builder_add_rule b rule) (map (rule_for rest decision j) heads) b0) =
      fold (\<lambda>head. mm_insert head (rule_for rest decision j head)) heads (b_rules_by_program b0)" for heads b0
    by (induction heads arbitrary: b0) (simp_all add: builder_add_rule_def rule_program_def rule_for_def)
  then have "b_rules_by_program b' =
      fold (\<lambda>head. mm_insert head (rule_for rest decision j head)) (token_alternatives first) (b_rules_by_program b)"
    by (simp add: b' add_pending_example_validation_def)
  moreover have "map token_alternatives (first # rest) = map element_words pattern"
    using pat collect_results_words [of parse_pattern_token pattern "first # rest" token_alternatives element_words]
      parse_pattern_token_words by (auto simp: parse_pattern_def result_simps split: if_splits)
  ultimately show ?thesis
    using store_holds_rule [OF assms(2), of rest decision j first] parse_decision_written [OF d]
    by (simp add: PrefixRuleCall)
next
  case (NetworkRuleCall host protocol d j)
  then show ?thesis
    using assms
    by (auto simp: network_rule_builtin_def result_simps builder_add_network_rule_def split: if_splits)
next
  case (HostExecutableCall name paths)
  then show ?thesis
    using assms by (auto simp: host_executable_builtin_def result_simps builder_add_host_executable_def)
qed

lemma run_builtins_holds:
  "run_builtins w calls b = (b', None) \<Longrightarrow> store_holds (b_rules_by_program b) rs \<Longrightarrow>
   store_holds (b_rules_by_program b') (rs @ concat (map call_rulings calls))"
proof (induction calls arbitrary: b rs)
  case (Cons call calls)
  then obtain b1 where "run_builtin w call b = Inr b1" "run_builtins w calls b1 = (b', None)"
    by (auto split: sum.splits)
  with Cons.IH [OF this(2) run_builtin_holds [OF this(1) Cons.prems(2)]] show ?case by simp
qed simp

lemma policy_parse_holds:
  assumes "policy_parse w name contents b = (b', None)" "store_holds (b_rules_by_program b) rs"
  shows "store_holds (b_rules_by_program b') (rs @ file_rulings w name contents)"
proof -
  have "run_builtins w (fst (pw_eval w name contents)) b = (b', None)"
    using assms(1) by (auto simp: policy_parse_def Let_def split: option.splits prod.splits sum.splits)
  from run_builtins_holds [OF this assms(2)] show ?thesis by (simp add: file_rulings_def)
qed

lemma requirements_token_words: "requirements_pattern_token t i k = Inr tok \<Longrightarrow> token_alternatives tok = token_words t"
  by (auto simp: requirements_pattern_token_def token_words_def split: option.splits if_splits)

lemma requirements_rule_holds:
  assumes "requirements_rule i rule m = Inr m'" "store_holds m rs"
  shows "store_holds m' (rs @ required_rulings [rule])"
proof -
  from assms(1) obtain toks d first rest where
    toks: "collect_results (\<lambda>(k, t). requirements_pattern_token t i k) (List.enumerate 0 (rp_pattern rule)) = Inr toks"
      "toks = first # rest" and d: "rp_decision rule = Some d"
    and m': "m' = fold (\<lambda>head. mm_insert head (rule_for rest (as_decision d) (rp_justification rule) head))
                 (token_alternatives first) m"
    by (auto simp: requirements_rule_def result_simps case_list_Inr rule_for_def
        split: if_splits option.splits requirements_decision.splits)
  have "map token_alternatives toks = map (\<lambda>(k, t). token_words t) (List.enumerate 0 (rp_pattern rule))"
    by (rule collect_results_words [OF toks(1)]) (auto dest: requirements_token_words)
  also have "\<dots> = map token_words (rp_pattern rule)"
    by (intro nth_equalityI) (simp_all add: nth_enumerate_eq)
  finally show ?thesis
    using store_holds_rule [OF assms(2), of rest "as_decision d" "rp_justification rule" first]
    by (simp add: m' d toks(2) required_rulings_def)
qed

lemma requirements_rules_holds:
  "requirements_rules i rules m = Inr m' \<Longrightarrow> store_holds m rs \<Longrightarrow> store_holds m' (rs @ required_rulings rules)"
proof (induction rules arbitrary: i m rs)
  case (Cons rule rules)
  then obtain m1 where "requirements_rule i rule m = Inr m1" "requirements_rules (Suc i) rules m1 = Inr m'"
    by (auto simp: result_simps)
  with Cons.IH [OF this(2) requirements_rule_holds [OF this(1) Cons.prems(2)]] show ?case
    by (simp add: required_rulings_def)
qed (simp add: required_rulings_def)

section \<open>Policies and the rules they are built from\<close>

definition given_rulings :: "policy_world \<Rightarrow> (string \<Rightarrow> string option) \<Rightarrow> string list \<Rightarrow> ruling list" where
  "given_rulings w rd paths =
     concat (map (\<lambda>path. case rd path of Some contents \<Rightarrow> file_rulings w path contents | None \<Rightarrow> []) paths)"

definition layer_rulings :: "policy_world \<Rightarrow> policy_files \<Rightarrow> abs_path list \<Rightarrow> ruling list" where
  "layer_rulings w files paths =
     concat (map (\<lambda>path. case pf_read_to_string files path of
       Inr contents \<Rightarrow> file_rulings w (abs_path_str path) contents | Inl _ \<Rightarrow> []) paths)"

text \<open>
  The ways the program builds a policy, with the rules written in what it was built from: the rules
  files given to the checking command, the rules files of the configuration layers, the rules of
  \<open>requirements.toml\<close>, an overlay, an amendment, and the changes that touch no prefix rule.
\<close>

inductive built_from :: "policy_world \<Rightarrow> policy \<Rightarrow> ruling list \<Rightarrow> bool" for w :: policy_world where
  none: "built_from w policy_empty []"
| given: "load_policies w rd paths = Inr p \<Longrightarrow> built_from w p (given_rulings w rd paths)"
| layers: "parse_policy_files w files paths builder_new = Inr b \<Longrightarrow> built_from w (build b) (layer_rulings w files paths)"
| required: "to_policy toml = Inr p \<Longrightarrow> built_from w p (required_rulings toml)"
| overlay: "built_from w p rs \<Longrightarrow> built_from w q ss \<Longrightarrow> built_from w (merge_overlay p q) (rs @ ss)"
| amended: "built_from w p rs \<Longrightarrow> add_prefix_rule p tokens d = Inr p' \<Longrightarrow>
    built_from w p' (rs @ [(map (\<lambda>t. [t]) tokens, d)])"
| network: "built_from w p rs \<Longrightarrow> add_network_rule p host protocol d j = Inr p' \<Longrightarrow> built_from w p' rs"
| executable: "built_from w p rs \<Longrightarrow> built_from w (set_host_executable_paths p name paths) rs"

lemma given_holds:
  "load_policy_files w rd paths b = Inr b' \<Longrightarrow> store_holds (b_rules_by_program b) rs \<Longrightarrow>
   store_holds (b_rules_by_program b') (rs @ given_rulings w rd paths)"
proof (induction paths arbitrary: b rs)
  case (Cons path paths)
  from Cons.prems(1) obtain contents b1 where b1: "rd path = Some contents" "policy_parse w path contents b = (b1, None)"
      "load_policy_files w rd paths b1 = Inr b'"
    by (auto split: option.splits prod.splits)
  with Cons.IH [OF b1(3) policy_parse_holds [OF b1(2) Cons.prems(2)]] show ?case by (simp add: given_rulings_def)
qed (simp add: given_rulings_def)

lemma layers_hold:
  "parse_policy_files w files paths b = Inr b' \<Longrightarrow> store_holds (b_rules_by_program b) rs \<Longrightarrow>
   store_holds (b_rules_by_program b') (rs @ layer_rulings w files paths)"
proof (induction paths arbitrary: b rs)
  case (Cons path paths)
  from Cons.prems(1) obtain contents where contents: "pf_read_to_string files path = Inr contents"
    and rest: "(case policy_parse w (abs_path_str path) contents b of
       (b', Some e) \<Rightarrow> Inl (ParsePolicy (abs_path_str path) e) | (b', None) \<Rightarrow> parse_policy_files w files paths b') = Inr b'"
    by (auto simp: result_simps)
  then obtain b1 where b1: "policy_parse w (abs_path_str path) contents b = (b1, None)"
      "parse_policy_files w files paths b1 = Inr b'"
    by (cases "policy_parse w (abs_path_str path) contents b") (auto split: option.splits)
  with contents Cons.IH [OF b1(2) policy_parse_holds [OF b1(1) Cons.prems(2)]] show ?case
    by (simp add: layer_rulings_def)
qed (simp add: layer_rulings_def)

lemma builder_new_holds: "store_holds (b_rules_by_program builder_new) []"
  by (simp add: builder_new_def store_holds_empty)

lemma amended_holds:
  assumes "add_prefix_rule p tokens d = Inr p'" "store_holds (rules_by_program p) rs"
  shows "store_holds (rules_by_program p') (rs @ [(map (\<lambda>t. [t]) tokens, d)])"
proof -
  obtain first rest where t: "tokens = first # rest"
    and p': "rules_by_program p' = mm_insert first (rule_for (map Single rest) d None first) (rules_by_program p)"
    using assms(1) by (auto simp: add_prefix_rule_def rule_for_def split: list.splits)
  from store_holds_rule [OF assms(2), of "map Single rest" d None "Single first"] show ?thesis
    by (simp add: t p' comp_def)
qed

lemma built_from_holds: "built_from w p rs \<Longrightarrow> store_holds (rules_by_program p) rs"
proof (induction rule: built_from.induct)
  case none
  then show ?case by (simp add: policy_empty_def policy_new_def from_parts_def store_holds_empty)
next
  case (given rd paths p)
  then obtain b where "load_policy_files w rd paths builder_new = Inr b" "p = build b"
    by (auto simp: load_policies_def result_simps)
  with given_holds [OF this(1) builder_new_holds] show ?case by (simp add: build_def from_parts_def)
next
  case (layers files paths b)
  with layers_hold [OF this builder_new_holds] show ?case by (simp add: build_def from_parts_def)
next
  case (required toml p)
  then obtain m where "requirements_rules 0 toml [] = Inr m" "p = policy_new m"
    by (auto simp: to_policy_def result_simps split: if_splits)
  with requirements_rules_holds [OF this(1) store_holds_empty] show ?case by (simp add: policy_new_def from_parts_def)
next
  case (overlay p rs q ss)
  with store_holds_merge [OF overlay.IH] show ?case by (simp add: merge_overlay_def from_parts_def)
next
  case (amended p rs tokens d p')
  with amended_holds show ?case by blast
next
  case (network p rs host protocol d j p')
  then show ?case by (auto simp: add_network_rule_def result_simps split: if_splits)
next
  case (executable p rs name paths)
  then show ?case by (simp add: set_host_executable_paths_def)
qed

text \<open>The policy the session starts with: the layers' rules and the requirements on top.\<close>

lemma loaded_built_from:
  assumes "load_exec_policy w files stack = Inr p"
    and "cls_requirements_exec_policy stack = Some q" "to_policy toml = Inr q"
  obtains paths where "built_from w p (layer_rulings w files paths @ required_rulings toml)"
proof -
  from assms obtain paths b where "parse_policy_files w files paths builder_new = Inr b" "p = merge_overlay (build b) q"
    by (auto simp: load_exec_policy_def result_simps)
  with overlay [OF layers required [OF assms(3)]] that show ?thesis by blast
qed

section \<open>The decision\<close>

lemma held_strictest:
  assumes "store_holds (rules_by_program p) rs"
  shows "strictest p cmd h = strictest_ruling rs cmd h"
proof -
  let ?rules = "filter (\<lambda>r. covers r cmd) (policy_rules p)"
  let ?ds = "map snd (filter (\<lambda>(pat, _). covered pat cmd) rs)"
  have "d \<in> set (map rule_decision ?rules) \<longleftrightarrow> d \<in> set ?ds" for d
  proof -
    have "d \<in> set (map rule_decision ?rules) \<longleftrightarrow> (\<exists>r \<in> stored (rules_by_program p). covers r cmd \<and> rule_decision r = d)"
      by (auto simp: policy_rules_def stored_def)
    also have "\<dots> \<longleftrightarrow> (\<exists>pat. (pat, d) \<in> set rs \<and> covered pat cmd)" using assms unfolding store_holds_def by blast
    also have "\<dots> \<longleftrightarrow> d \<in> set ?ds" by force
    finally show ?thesis .
  qed
  then have same: "set (map rule_decision ?rules) = set ?ds" by blast
  then have "?rules = [] \<longleftrightarrow> ?ds = []" by (metis map_is_Nil_conv set_empty)
  with same show ?thesis by (simp add: strictest_def strictest_ruling_def Let_def)
qed

text \<open>
  C4. For every policy the program can build, from rules files, \<open>requirements.toml\<close>, overlays and
  amendments, the check of any command returns a decision, and it is the strictest one among the rules
  as they are written there whose positions admit the words of the command one by one, in whichever
  file, layer or overlay they stand. Only a command that no written rule covers gets the decision of
  the fallback.
\<close>

theorem check_is_strictest_rule:
  assumes "built_from w p rs"
  shows "map_option ev_decision (check os p cmd h) = Some (strictest_ruling rs cmd h)"
proof -
  have holds: "store_holds (rules_by_program p) rs" using built_from_holds [OF assms] .
  then have "keyed (rules_by_program p)" by (simp add: store_holds_def)
  from keyed_check [OF this] held_strictest [OF holds] show ?thesis by simp
qed

text \<open>A rules file allows \<open>git push\<close>, requirements forbid it with \<open>--force\<close>, an amendment allows that again.\<close>

definition forbid_force :: requirements_prefix_rule where
  "forbid_force =
     \<lparr> rp_pattern = [\<lparr> rt_token = Some ''git'', rt_any_of = None \<rparr>,
                     \<lparr> rt_token = None, rt_any_of = Some [''push'', ''send-pack''] \<rparr>,
                     \<lparr> rt_token = Some ''--force'', rt_any_of = None \<rparr>],
       rp_decision = Some ReqForbid, rp_justification = None \<rparr>"

theorem check_is_strictest_rule_witness:
  "\<exists>p q p'. load_policies sample_policy_world (\<lambda>_. Some ''rules'') [''default.rules''] = Inr p \<and>
     to_policy [forbid_force] = Inr q \<and>
     add_prefix_rule (merge_overlay p q) [''git'', ''push''] Allow = Inr p' \<and>
     map_option ev_decision (check (sample_host None) p' [''git'', ''push'', ''--force'', ''x''] (\<lambda>_. Prompt)) =
       Some Forbidden"
proof -
  let ?cmd = "[''git'', ''push'', ''--force'', ''x'']"
  have "is_ok (load_policies sample_policy_world (\<lambda>_. Some ''rules'') [''default.rules''])"
    "is_ok (to_policy [forbid_force])" by code_simp+
  then obtain p q where p: "load_policies sample_policy_world (\<lambda>_. Some ''rules'') [''default.rules''] = Inr p"
    and q: "to_policy [forbid_force] = Inr q"
    by (metis is_ok.simps(1) sum.exhaust)
  obtain p' where p': "add_prefix_rule (merge_overlay p q) [''git'', ''push''] Allow = Inr p'"
    by (simp add: add_prefix_rule_def)
  have "strictest_ruling ((given_rulings sample_policy_world (\<lambda>_. Some ''rules'') [''default.rules''] @
      required_rulings [forbid_force]) @ [(map (\<lambda>t. [t]) [''git'', ''push''], Allow)]) ?cmd (\<lambda>_. Prompt) = Forbidden"
    by code_simp
  with check_is_strictest_rule [OF amended [OF overlay [OF given [OF p] required [OF q]] p'],
      of "sample_host None" ?cmd "\<lambda>_. Prompt"] p q p'
  show ?thesis by auto
qed

end
