(* ===== verification/OutputText.thy ===== *)
theory OutputText
  imports Prelude
begin

text \<open>
  Output of tools, kept within a budget: the buffer that keeps the head and the tail of a process's
  output (\<open>core/src/unified_exec/head_tail_buffer.rs\<close>), truncation in the middle of a string
  (\<open>utils/string/src/truncate.rs\<close>) and of the items of a tool's answer
  (\<open>utils/output-truncation/src/lib.rs\<close>). A \<open>usize\<close> is a natural number of at most \<open>USIZE_MAX\<close>;
  saturating additions and multiplications are written out, and a saturating subtraction is the
  subtraction of natural numbers.
\<close>

definition USIZE_MAX :: nat where
  "USIZE_MAX = 2 ^ 64 - 1"

definition saturating_add :: "nat \<Rightarrow> nat \<Rightarrow> nat" where
  "saturating_add a b = min (a + b) USIZE_MAX"

definition saturating_mul :: "nat \<Rightarrow> nat \<Rightarrow> nat" where
  "saturating_mul a b = min (a * b) USIZE_MAX"

lemma saturating_add_exact: "a + b \<le> USIZE_MAX \<Longrightarrow> saturating_add a b = a + b"
  by (simp add: saturating_add_def)

section \<open>The head-and-tail buffer\<close>

record head_tail_buffer =
  max_bytes :: nat
  head_budget :: nat
  tail_budget :: nat
  buf_head :: "string list"
  buf_tail :: "string list"
  head_bytes :: nat
  tail_bytes :: nat
  buf_omitted_bytes :: nat

definition htb_new :: "nat \<Rightarrow> head_tail_buffer" where
  "htb_new m =
     (let h = m div 2 in
      \<lparr> max_bytes = m, head_budget = h, tail_budget = m - h, buf_head = [], buf_tail = [],
        head_bytes = 0, tail_bytes = 0, buf_omitted_bytes = 0 \<rparr>)"

definition retained_bytes :: "head_tail_buffer \<Rightarrow> nat" where
  "retained_bytes b = saturating_add (head_bytes b) (tail_bytes b)"

definition omitted_bytes :: "head_tail_buffer \<Rightarrow> nat" where
  "omitted_bytes b = buf_omitted_bytes b"

text \<open>The loop of \<open>trim_tail_to_budget\<close>: the chunks, their number of bytes and the omitted bytes.\<close>

fun trim_front :: "nat \<Rightarrow> string list \<Rightarrow> nat \<Rightarrow> nat \<Rightarrow> string list \<times> nat \<times> nat" where
  "trim_front excess [] bytes omitted = ([], bytes, omitted)"
| "trim_front excess (front # rest) bytes omitted =
     (if excess = 0 then (front # rest, bytes, omitted)
      else if excess \<ge> length front
      then trim_front (excess - length front) rest (bytes - length front)
             (saturating_add omitted (length front))
      else (drop excess front # rest, bytes - excess, saturating_add omitted excess))"

definition trim_tail_to_budget :: "head_tail_buffer \<Rightarrow> head_tail_buffer" where
  "trim_tail_to_budget b =
     (case trim_front (tail_bytes b - tail_budget b) (buf_tail b) (tail_bytes b) (buf_omitted_bytes b) of
        (tail, bytes, omitted) \<Rightarrow>
          b\<lparr> buf_tail := tail, tail_bytes := bytes, buf_omitted_bytes := omitted \<rparr>)"

definition push_to_tail :: "head_tail_buffer \<Rightarrow> string \<Rightarrow> head_tail_buffer" where
  "push_to_tail b chunk =
     (if tail_budget b = 0
      then b\<lparr> buf_omitted_bytes := saturating_add (buf_omitted_bytes b) (length chunk) \<rparr>
      else if length chunk \<ge> tail_budget b
      then
        let start = length chunk - tail_budget b;
            kept = drop start chunk;
            dropped = length chunk - length kept in
        b\<lparr> buf_omitted_bytes := saturating_add (saturating_add (buf_omitted_bytes b) (tail_bytes b)) dropped,
           tail_bytes := length kept, buf_tail := [kept] \<rparr>
      else
        trim_tail_to_budget
          (b\<lparr> tail_bytes := saturating_add (tail_bytes b) (length chunk), buf_tail := buf_tail b @ [chunk] \<rparr>))"

definition push_chunk :: "head_tail_buffer \<Rightarrow> string \<Rightarrow> head_tail_buffer" where
  "push_chunk b chunk =
     (if max_bytes b = 0
      then b\<lparr> buf_omitted_bytes := saturating_add (buf_omitted_bytes b) (length chunk) \<rparr>
      else if head_bytes b < head_budget b
      then
        let remaining_head = head_budget b - head_bytes b in
        if length chunk \<le> remaining_head
        then b\<lparr> head_bytes := saturating_add (head_bytes b) (length chunk), buf_head := buf_head b @ [chunk] \<rparr>
        else
          let head_part = take remaining_head chunk; tail_part = drop remaining_head chunk in
          push_to_tail
            (if head_part \<noteq> []
             then b\<lparr> head_bytes := saturating_add (head_bytes b) (length head_part),
                     buf_head := buf_head b @ [head_part] \<rparr>
             else b) tail_part
      else push_to_tail b chunk)"

definition snapshot_chunks :: "head_tail_buffer \<Rightarrow> string list" where
  "snapshot_chunks b = buf_head b @ buf_tail b"

definition to_bytes :: "head_tail_buffer \<Rightarrow> string" where
  "to_bytes b = concat (buf_head b) @ concat (buf_tail b)"

definition drain_chunks :: "head_tail_buffer \<Rightarrow> string list \<times> head_tail_buffer" where
  "drain_chunks b =
     (buf_head b @ buf_tail b,
      b\<lparr> buf_head := [], buf_tail := [], head_bytes := 0, tail_bytes := 0, buf_omitted_bytes := 0 \<rparr>)"

section \<open>Truncation in the middle\<close>

definition APPROX_BYTES_PER_TOKEN :: nat where
  "APPROX_BYTES_PER_TOKEN = 4"

definition approx_token_count :: "string \<Rightarrow> nat" where
  "approx_token_count text =
     saturating_add (length text) (APPROX_BYTES_PER_TOKEN - 1) div APPROX_BYTES_PER_TOKEN"

definition approx_bytes_for_tokens :: "nat \<Rightarrow> nat" where
  "approx_bytes_for_tokens tokens = saturating_mul tokens APPROX_BYTES_PER_TOKEN"

definition approx_tokens_from_byte_count :: "nat \<Rightarrow> nat" where
  "approx_tokens_from_byte_count bytes =
     saturating_add bytes (APPROX_BYTES_PER_TOKEN - 1) div APPROX_BYTES_PER_TOKEN"

text \<open>
  The loop over \<open>char_indices\<close> from the byte index \<open>idx\<close> on: the end of the prefix, the start of the
  suffix, the number of characters between them, and whether the suffix has started.
\<close>

fun split_loop ::
  "nat \<Rightarrow> nat \<Rightarrow> nat \<Rightarrow> string list \<Rightarrow> nat \<times> nat \<times> nat \<times> bool \<Rightarrow> nat \<times> nat \<times> nat \<times> bool" where
  "split_loop beginning_bytes tail_start_target idx [] st = st"
| "split_loop beginning_bytes tail_start_target idx (ch # chs)
     (prefix_end, suffix_start, removed_chars, suffix_started) =
     split_loop beginning_bytes tail_start_target (idx + length ch) chs
       (if idx + length ch \<le> beginning_bytes
        then (idx + length ch, suffix_start, removed_chars, suffix_started)
        else if idx \<ge> tail_start_target
        then (if \<not> suffix_started then (prefix_end, idx, removed_chars, True)
              else (prefix_end, suffix_start, removed_chars, suffix_started))
        else (prefix_end, suffix_start, saturating_add removed_chars 1, suffix_started))"

definition split_string :: "string \<Rightarrow> nat \<Rightarrow> nat \<Rightarrow> nat \<times> string \<times> string" where
  "split_string s beginning_bytes end_bytes =
     (if s = [] then (0, [], [])
      else
        case split_loop beginning_bytes (length s - end_bytes) 0 (chars s) (0, length s, 0, False) of
          (prefix_end, suffix_start, removed_chars, _) \<Rightarrow>
            let suffix_start = (if suffix_start < prefix_end then prefix_end else suffix_start) in
            (removed_chars, take prefix_end s, drop suffix_start s))"

definition split_budget :: "nat \<Rightarrow> nat \<times> nat" where
  "split_budget budget = (let left = budget div 2 in (left, budget - left))"

text \<open>The decimal digits of a number, as \<open>format!\<close> prints them.\<close>

fun decimal :: "nat \<Rightarrow> string" where
  "decimal n = (if n < 10 then [char_of (48 + n)] else decimal (n div 10) @ [char_of (48 + n mod 10)])"

declare decimal.simps [simp del]

definition ellipsis :: string where
  "ellipsis = [CHR 0xE2, CHR 0x80, CHR 0xA6]"

definition format_truncation_marker :: "bool \<Rightarrow> nat \<Rightarrow> string" where
  "format_truncation_marker use_tokens removed_count =
     (if use_tokens then ellipsis @ decimal removed_count @ '' tokens truncated'' @ ellipsis
      else ellipsis @ decimal removed_count @ '' chars truncated'' @ ellipsis)"

definition removed_units :: "bool \<Rightarrow> nat \<Rightarrow> nat \<Rightarrow> nat" where
  "removed_units use_tokens removed_bytes removed_chars =
     (if use_tokens then approx_tokens_from_byte_count removed_bytes else removed_chars)"

definition assemble_truncated_output :: "string \<Rightarrow> string \<Rightarrow> string \<Rightarrow> string" where
  "assemble_truncated_output p q marker = p @ marker @ q"

definition truncate_with_byte_estimate :: "string \<Rightarrow> nat \<Rightarrow> bool \<Rightarrow> string" where
  "truncate_with_byte_estimate s limit use_tokens =
     (if s = [] then []
      else if limit = 0
      then format_truncation_marker use_tokens (removed_units use_tokens (length s) (length (chars s)))
      else if length s \<le> limit then s
      else
        case split_budget limit of (left_budget, right_budget) \<Rightarrow>
        case split_string s left_budget right_budget of (removed_chars, left, right) \<Rightarrow>
          assemble_truncated_output left right
            (format_truncation_marker use_tokens (removed_units use_tokens (length s - limit) removed_chars)))"

definition truncate_middle_chars :: "string \<Rightarrow> nat \<Rightarrow> string" where
  "truncate_middle_chars s limit = truncate_with_byte_estimate s limit False"

definition truncate_middle_with_token_budget :: "string \<Rightarrow> nat \<Rightarrow> string \<times> nat option" where
  "truncate_middle_with_token_budget s max_tokens =
     (if s = [] then ([], None)
      else if max_tokens > 0 \<and> length s \<le> approx_bytes_for_tokens max_tokens then (s, None)
      else
        let truncated = truncate_with_byte_estimate s (approx_bytes_for_tokens max_tokens) True in
        if truncated = s then (truncated, None) else (truncated, Some (approx_token_count s)))"

section \<open>Truncation of tool output\<close>

datatype truncation_policy = Bytes nat | Tokens nat

fun token_budget :: "truncation_policy \<Rightarrow> nat" where
  "token_budget (Bytes bytes) = approx_tokens_from_byte_count bytes"
| "token_budget (Tokens tokens) = tokens"

fun byte_budget :: "truncation_policy \<Rightarrow> nat" where
  "byte_budget (Bytes bytes) = bytes"
| "byte_budget (Tokens tokens) = approx_bytes_for_tokens tokens"

fun truncate_text :: "string \<Rightarrow> truncation_policy \<Rightarrow> string" where
  "truncate_text content (Bytes bytes) = truncate_middle_chars content bytes"
| "truncate_text content (Tokens tokens) = fst (truncate_middle_with_token_budget content tokens)"

definition formatted_truncate_text :: "string \<Rightarrow> truncation_policy \<Rightarrow> string" where
  "formatted_truncate_text content policy =
     (if length content \<le> byte_budget policy then content
      else ''Total output lines: '' @ decimal (length (str_lines content)) @ [nl, nl] @
           truncate_text content policy)"

datatype image_detail = Auto | Low | High | Original

datatype content_item =
    InputText string
  | InputImage string "image_detail option"
  | EncryptedContent string

fun text_of_item :: "content_item \<Rightarrow> string option" where
  "text_of_item (InputText text) = Some text"
| "text_of_item _ = None"

fun join_texts :: "string \<Rightarrow> string list \<Rightarrow> string" where
  "join_texts combined [] = combined"
| "join_texts combined (text # texts) =
     join_texts ((if combined \<noteq> [] then combined @ [nl] else combined) @ text) texts"

definition formatted_truncate_text_content_items_with_policy ::
  "content_item list \<Rightarrow> truncation_policy \<Rightarrow> content_item list \<times> nat option" where
  "formatted_truncate_text_content_items_with_policy items policy =
     (let text_segments = List.map_filter text_of_item items in
      if text_segments = [] then (items, None)
      else
        let combined = join_texts [] text_segments in
        if length combined \<le> byte_budget policy then (items, None)
        else (InputText (formatted_truncate_text combined policy) #
                filter (\<lambda>item. text_of_item item = None) items,
              Some (approx_token_count combined)))"

text \<open>The loop over the items: the items kept and the number of omitted texts.\<close>

definition item_cost :: "truncation_policy \<Rightarrow> string \<Rightarrow> nat" where
  "item_cost policy text = (case policy of Bytes _ \<Rightarrow> length text | Tokens _ \<Rightarrow> approx_token_count text)"

fun truncate_items :: "truncation_policy \<Rightarrow> nat \<Rightarrow> content_item list \<Rightarrow> content_item list \<times> nat" where
  "truncate_items policy remaining_budget [] = ([], 0)"
| "truncate_items policy remaining_budget (InputText text # items) =
     (if remaining_budget = 0
      then (case truncate_items policy remaining_budget items of (out, omitted) \<Rightarrow> (out, Suc omitted))
      else if item_cost policy text \<le> remaining_budget
      then (case truncate_items policy (remaining_budget - item_cost policy text) items of
              (out, omitted) \<Rightarrow> (InputText text # out, omitted))
      else
        let snippet = truncate_text text (case policy of Bytes _ \<Rightarrow> Bytes remaining_budget
                                          | Tokens _ \<Rightarrow> Tokens remaining_budget) in
        case truncate_items policy 0 items of (out, omitted) \<Rightarrow>
          if snippet = [] then (out, Suc omitted) else (InputText snippet # out, omitted))"
| "truncate_items policy remaining_budget (item # items) =
     (case truncate_items policy remaining_budget items of (out, omitted) \<Rightarrow> (item # out, omitted))"

definition truncate_function_output_items_with_policy ::
  "content_item list \<Rightarrow> truncation_policy \<Rightarrow> content_item list" where
  "truncate_function_output_items_with_policy items policy =
     (case truncate_items policy
             (case policy of Bytes _ \<Rightarrow> byte_budget policy | Tokens _ \<Rightarrow> token_budget policy) items of
        (out, omitted_text_items) \<Rightarrow>
          if omitted_text_items > 0
          then out @ [InputText (''[omitted '' @ decimal omitted_text_items @ '' text items ...]'')]
          else out)"

definition I64_MAX :: int where
  "I64_MAX = 2 ^ 63 - 1"

definition approx_tokens_from_byte_count_i64 :: "int \<Rightarrow> int" where
  "approx_tokens_from_byte_count_i64 bytes =
     (if bytes \<le> 0 then 0
      else min (int (approx_tokens_from_byte_count (nat bytes))) I64_MAX)"

end
