(* ===== verification/OutputText_Props.thy ===== *)
theory OutputText_Props
  imports OutputText
begin

text \<open>
  What is kept of a tool's output: the head-and-tail buffer refines the string it has received, the
  truncation of a string cuts between characters, and the truncation of items loses no image.
\<close>

lemma exI2: "P a b \<Longrightarrow> \<exists>x y. P x y"
  by blast

lemma exI3: "P a b c \<Longrightarrow> \<exists>x y z. P x y z"
  by blast

section \<open>The head-and-tail buffer\<close>

text \<open>The buffer \<open>b\<close> with the limit \<open>m\<close> has received the bytes \<open>s\<close> since it was last empty.\<close>

definition received :: "nat \<Rightarrow> string \<Rightarrow> head_tail_buffer \<Rightarrow> bool" where
  "received m s b \<longleftrightarrow>
     max_bytes b = m \<and> head_budget b = m div 2 \<and> tail_budget b = m - m div 2 \<and>
     head_bytes b = length (concat (buf_head b)) \<and> tail_bytes b = length (concat (buf_tail b)) \<and>
     concat (buf_head b) = take (m div 2) s \<and>
     concat (buf_tail b) = drop (length s - m div 2 - (m - m div 2)) (drop (m div 2) s) \<and>
     buf_omitted_bytes b = min (length s - m) USIZE_MAX"

lemma saturating_add_assoc: "saturating_add (saturating_add a b) c = saturating_add a (b + c)"
  by (simp add: saturating_add_def min_def)

lemma saturating_add_min: "saturating_add (min a USIZE_MAX) b = min (a + b) USIZE_MAX"
  by (simp add: saturating_add_def min_def)

lemma received_new: "received m [] (htb_new m)"
  by (simp add: received_def htb_new_def Let_def)

lemma trim_front_drops:
  assumes "excess \<le> length (concat cs)" and "omitted \<le> USIZE_MAX"
  shows "\<exists>cs'. trim_front excess cs (length (concat cs)) omitted =
           (cs', length (concat cs) - excess, saturating_add omitted excess) \<and>
         concat cs' = drop excess (concat cs)"
  using assms
proof (induction cs arbitrary: excess omitted)
  case Nil
  then show ?case by (simp add: saturating_add_def)
next
  case (Cons c cs)
  show ?case
  proof (cases "length c \<le> excess")
    case True
    define e where "e = excess - length c"
    have e: "excess = length c + e" "e \<le> length (concat cs)" using True Cons.prems(1) by (auto simp: e_def)
    have "saturating_add omitted (length c) \<le> USIZE_MAX" by (simp add: saturating_add_def)
    from Cons.IH [OF e(2) this] obtain cs' where
      "trim_front e cs (length (concat cs)) (saturating_add omitted (length c)) =
         (cs', length (concat cs) - e, saturating_add omitted excess)" "concat cs' = drop e (concat cs)"
      by (auto simp: saturating_add_assoc e(1))
    with e Cons.prems(2) show ?thesis by (cases "excess = 0") (auto simp: saturating_add_def)
  next
    case False
    with Cons.prems show ?thesis by (auto simp: saturating_add_def)
  qed
qed

lemma push_to_tail_received:
  assumes "received m s b" and "m div 2 \<le> length s" and "0 < m" and "m \<le> USIZE_MAX"
  shows "received m (s @ chunk) (push_to_tail b chunk)"
proof -
  define h t where "h = m div 2" and "t = m - h"
  have m: "m = h + t" "0 < t" "t + t \<le> Suc m" using assms(3) by (auto simp: h_def t_def)
  have hs: "h \<le> length s" using assms(2) by (simp add: h_def)
  define u where "u = drop h s"
  have s: "s = take h s @ u" and lu: "length u = length s - h" by (simp_all add: u_def)
  have lm: "length s - m = length u - t" using m(1) lu by simp
  have b: "max_bytes b = m" "head_budget b = h" "tail_budget b = t"
    "head_bytes b = length (concat (buf_head b))" "tail_bytes b = length (concat (buf_tail b))"
    "concat (buf_head b) = take h s" "concat (buf_tail b) = drop (length u - t) u"
    "buf_omitted_bytes b = min (length u - t) USIZE_MAX"
    using assms(1) lm unfolding received_def h_def [symmetric] t_def [symmetric] u_def [symmetric]
    by (simp_all add: lu)
  have goal: "received m (s @ chunk) b'"
    if "max_bytes b' = m" "head_budget b' = h" "tail_budget b' = t"
      "head_bytes b' = head_bytes b" "buf_head b' = buf_head b"
      "tail_bytes b' = length (concat (buf_tail b'))"
      "concat (buf_tail b') = drop (length (u @ chunk) - t) (u @ chunk)"
      "buf_omitted_bytes b' = min (length (u @ chunk) - t) USIZE_MAX" for b'
  proof -
    have "drop h (s @ chunk) = u @ chunk" "take h (s @ chunk) = take h s"
      "length (s @ chunk) - h - t = length (u @ chunk) - t"
      "length (s @ chunk) - m = length (u @ chunk) - t"
      using hs lu m(1) by (simp_all add: u_def)
    with that b show ?thesis
      unfolding received_def h_def [symmetric] t_def [symmetric] by metis
  qed
  have tb: "length (concat (buf_tail b)) = min (length u) t" using b(7) by simp
  show ?thesis
  proof (cases "t \<le> length chunk")
    case True
    then have "push_to_tail b chunk =
        b\<lparr> buf_omitted_bytes := saturating_add (buf_omitted_bytes b) (min (length u) t + (length chunk - t)),
           tail_bytes := t, buf_tail := [drop (length chunk - t) chunk] \<rparr>"
      using m(2) b tb by (simp add: push_to_tail_def Let_def saturating_add_assoc)
    moreover have "length u - t + (min (length u) t + (length chunk - t)) = length (u @ chunk) - t"
      using True by simp
    moreover have "drop (length (u @ chunk) - t) (u @ chunk) = drop (length chunk - t) chunk"
    proof -
      have "length (u @ chunk) - t = length u + (length chunk - t)" using True by simp
      then show ?thesis by (simp only: drop_append) simp
    qed
    ultimately show ?thesis
      using b(1-3) True by (intro goal) (simp_all only: b(8) saturating_add_min, simp_all)
  next
    case False
    have add: "saturating_add (tail_bytes b) (length chunk) = length (concat (buf_tail b @ [chunk]))"
      using False m(3) assms(4) b tb by (subst saturating_add_exact) auto
    define e where "e = length (concat (buf_tail b @ [chunk])) - t"
    have "e \<le> length (concat (buf_tail b @ [chunk]))" by (simp add: e_def)
    moreover have "buf_omitted_bytes b \<le> USIZE_MAX" using b by simp
    ultimately obtain cs where cs:
      "trim_front e (buf_tail b @ [chunk]) (length (concat (buf_tail b @ [chunk]))) (buf_omitted_bytes b) =
         (cs, length (concat (buf_tail b @ [chunk])) - e, saturating_add (buf_omitted_bytes b) e)"
      "concat cs = drop e (concat (buf_tail b @ [chunk]))"
      using trim_front_drops by blast
    have push: "push_to_tail b chunk =
        b\<lparr> tail_bytes := length (concat cs), buf_tail := cs,
           buf_omitted_bytes := saturating_add (buf_omitted_bytes b) e \<rparr>"
      using False m(2) b(3) add cs
      by (simp add: push_to_tail_def trim_tail_to_budget_def e_def)
    have "concat cs = drop (length (u @ chunk) - t) (u @ chunk)"
      using cs(2) b(7) False by (cases "t \<le> length u") (simp_all add: e_def add.commute)
    moreover have "length u - t + e = length (u @ chunk) - t"
      using tb False by (simp add: e_def min_def)
    ultimately show ?thesis
      using b unfolding push by (intro goal) (simp_all add: saturating_add_min)
  qed
qed

lemma received_short:
  assumes "length s \<le> m div 2"
  shows "received m s b \<longleftrightarrow>
    max_bytes b = m \<and> head_budget b = m div 2 \<and> tail_budget b = m - m div 2 \<and>
    head_bytes b = length s \<and> tail_bytes b = 0 \<and>
    concat (buf_head b) = s \<and> concat (buf_tail b) = [] \<and> buf_omitted_bytes b = 0"
proof -
  have "take (m div 2) s = s" "drop (m div 2) s = []" "length s - m = 0" using assms by simp_all
  then show ?thesis unfolding received_def by (auto simp del: concat_eq_Nil_conv)
qed

lemma push_to_head_received:
  assumes "received m s b" "length s + length chunk \<le> m div 2" "m \<le> USIZE_MAX"
  shows "received m (s @ chunk)
    (b\<lparr> head_bytes := saturating_add (head_bytes b) (length chunk), buf_head := buf_head b @ [chunk] \<rparr>)"
proof -
  have "length s + length chunk \<le> USIZE_MAX" using assms(2,3) by linarith
  then have "saturating_add (length s) (length chunk) = length s + length chunk"
    by (rule saturating_add_exact)
  moreover have "length s \<le> m div 2" "length (s @ chunk) \<le> m div 2" using assms(2) by simp_all
  ultimately show ?thesis
    using assms(1) by (simp only: received_short) (simp del: concat_eq_Nil_conv)
qed

lemma push_chunk_received:
  assumes "received m s b" and "m \<le> USIZE_MAX"
  shows "received m (s @ chunk) (push_chunk b chunk)"
proof -
  have b: "max_bytes b = m" "head_budget b = m div 2" "head_bytes b = min (length s) (m div 2)"
    using assms(1) by (auto simp: received_def)
  consider "m = 0" | "0 < m" "m div 2 \<le> length s"
    | "0 < m" "length s < m div 2" "length chunk \<le> m div 2 - length s"
    | "0 < m" "length s < m div 2" "m div 2 - length s < length chunk" by linarith
  then show ?thesis
  proof cases
    case 1
    with assms show ?thesis by (simp add: push_chunk_def received_def saturating_add_min)
  next
    case 2
    with assms b push_to_tail_received show ?thesis by (simp add: push_chunk_def)
  next
    case 3
    then have "length s + length chunk \<le> m div 2" by linarith
    from push_to_head_received [OF assms(1) this assms(2)] 3 b show ?thesis
      by (simp add: push_chunk_def)
  next
    case 4
    define r where "r = m div 2 - length s"
    define b' where "b' = b\<lparr> head_bytes := saturating_add (head_bytes b) (length (take r chunk)),
                             buf_head := buf_head b @ [take r chunk] \<rparr>"
    have r: "r > 0" "r < length chunk" "length s + r = m div 2" using 4 by (auto simp: r_def)
    then have "received m (s @ take r chunk) b'"
      unfolding b'_def by (intro push_to_head_received assms) simp
    then have "received m ((s @ take r chunk) @ drop r chunk) (push_to_tail b' (drop r chunk))"
      by (rule push_to_tail_received) (use r 4 assms(2) in simp_all)
    moreover have "push_chunk b chunk = push_to_tail b' (drop r chunk)"
    proof -
      have hb: "head_bytes b = length s" using b(3) 4(2) by simp
      have "take r chunk \<noteq> []" using r by auto
      then show ?thesis
        using 4 unfolding push_chunk_def b'_def b(1,2) hb r_def [symmetric] by (simp add: Let_def)
    qed
    ultimately show ?thesis by simp
  qed
qed

lemma push_chunks_received:
  "m \<le> USIZE_MAX \<Longrightarrow> received m s b \<Longrightarrow> received m (s @ concat chunks) (foldl push_chunk b chunks)"
  by (induction chunks arbitrary: s b) (simp, metis append_assoc concat.simps(2) foldl_Cons push_chunk_received)

lemma received_bytes:
  assumes "received m s b"
  shows "to_bytes b = (if length s \<le> m then s
           else take (m div 2) s @ drop (length s - (m - m div 2)) s)"
proof (cases "length s \<le> m")
  case True
  with assms show ?thesis by (simp add: to_bytes_def received_def)
next
  case False
  then have "length s - m div 2 - (m - m div 2) + m div 2 = length s - (m - m div 2)" by linarith
  with False assms show ?thesis by (simp add: to_bytes_def received_def)
qed

lemma received_retained:
  assumes "received m s b" and "m \<le> USIZE_MAX"
  shows "retained_bytes b = length (to_bytes b) \<and> length (to_bytes b) \<le> m"
proof -
  have len: "length (to_bytes b) = head_bytes b + tail_bytes b"
    using assms(1) by (simp only: to_bytes_def received_def length_append)
  have "length (to_bytes b) \<le> m"
    unfolding received_bytes [OF assms(1)] by (cases "length s \<le> m") simp_all
  with len assms(2) show ?thesis by (simp add: retained_bytes_def saturating_add_def)
qed

text \<open>
  C37. A head-and-tail buffer with the limit \<open>m\<close>, given any chunks, holds all their bytes when they
  are at most \<open>m\<close>, and else the first \<open>m / 2\<close> bytes and the last \<open>m - m / 2\<close>, however the bytes
  were cut into chunks. It never holds more than \<open>m\<close> bytes, counts those it holds and those it
  omitted (up to the largest \<open>usize\<close>), and draining returns what it holds and leaves a new buffer.
\<close>

theorem buffer_keeps_head_and_tail:
  assumes "m \<le> USIZE_MAX"
  shows "let b = foldl push_chunk (htb_new m) chunks; s = concat chunks in
    to_bytes b = (if length s \<le> m then s
                  else take (m div 2) s @ drop (length s - (m - m div 2)) s) \<and>
    retained_bytes b = length (to_bytes b) \<and> length (to_bytes b) \<le> m \<and>
    omitted_bytes b = min (length s - m) USIZE_MAX \<and>
    concat (fst (drain_chunks b)) = to_bytes b \<and> snd (drain_chunks b) = htb_new m"
proof -
  define b where "b = foldl push_chunk (htb_new m) chunks"
  have r: "received m (concat chunks) b"
    using push_chunks_received [OF assms received_new] by (simp add: b_def)
  moreover have "snd (drain_chunks b) = htb_new m"
    using r by (cases b) (simp add: drain_chunks_def htb_new_def received_def Let_def)
  moreover have "concat (fst (drain_chunks b)) = to_bytes b"
    by (simp add: drain_chunks_def to_bytes_def)
  moreover have "omitted_bytes b = min (length (concat chunks) - m) USIZE_MAX"
    using r by (simp add: omitted_bytes_def received_def)
  ultimately show ?thesis
    using received_bytes [OF r] received_retained [OF r assms] unfolding Let_def b_def [symmetric]
    by blast
qed

theorem buffer_keeps_head_and_tail_witness:
  "(5::nat) \<le> USIZE_MAX \<and>
   to_bytes (foldl push_chunk (htb_new 5) [''abc'', ''def'', ''gh'']) = ''abfgh''"
proof
  show m: "(5::nat) \<le> USIZE_MAX" by (simp add: USIZE_MAX_def)
  show "to_bytes (foldl push_chunk (htb_new 5) [''abc'', ''def'', ''gh'']) = ''abfgh''"
    using buffer_keeps_head_and_tail [OF m, of "[''abc'', ''def'', ''gh'']"] by (simp add: Let_def)
qed

section \<open>Truncation in the middle\<close>

lemma split_loop_suffix:
  assumes "L \<le> T" "T \<le> idx" "\<forall>g \<in> set gs. g \<noteq> []"
  shows "split_loop L T idx gs (pe, ss, rc, started) =
    (if gs = [] then (pe, ss, rc, started) else (pe, if started then ss else idx, rc, True))"
  using assms
proof (induction gs arbitrary: idx ss started)
  case (Cons g gs)
  then have "\<not> idx + length g \<le> L" by (cases g) auto
  with Cons show ?case by simp
qed simp

lemma split_loop_middle:
  assumes "L \<le> T" "\<forall>g \<in> set gs. g \<noteq> []" "gs \<noteq> [] \<longrightarrow> L < idx + length (hd gs)"
    "rc + length gs \<le> USIZE_MAX"
  shows "\<exists>mid q. gs = mid @ q \<and>
    split_loop L T idx gs (pe, ss, rc, False) =
      (pe, if q = [] then ss else idx + length (concat mid), rc + length mid, q \<noteq> []) \<and>
    (q \<noteq> [] \<longrightarrow> T \<le> idx + length (concat mid)) \<and>
    (mid \<noteq> [] \<longrightarrow> idx + length (concat (butlast mid)) < T)"
  using assms
proof (induction gs arbitrary: idx rc)
  case (Cons g gs)
  show ?case
  proof (cases "T \<le> idx")
    case True
    with Cons.prems split_loop_suffix [of L T idx "g # gs" pe ss rc False] show ?thesis
      by (intro exI2 [of _ "[]" "g # gs"]) simp
  next
    case False
    have "gs \<noteq> [] \<longrightarrow> L < idx + length g + length (hd gs)" using Cons.prems(3) by simp
    with Cons.IH [of "idx + length g" "rc + 1"] Cons.prems obtain mid q where
      "gs = mid @ q"
      "split_loop L T (idx + length g) gs (pe, ss, rc + 1, False) =
         (pe, if q = [] then ss else idx + length g + length (concat mid), rc + 1 + length mid, q \<noteq> [])"
      "q \<noteq> [] \<longrightarrow> T \<le> idx + length g + length (concat mid)"
      "mid \<noteq> [] \<longrightarrow> idx + length g + length (concat (butlast mid)) < T"
      by auto
    with False Cons.prems show ?thesis
      by (intro exI2 [of _ "g # mid" q]) (auto simp: saturating_add_exact)
  qed
qed simp

lemma split_loop_prefix:
  assumes "idx \<le> L"
  shows "\<exists>p r. gs = p @ r \<and> idx + length (concat p) \<le> L \<and>
    (r \<noteq> [] \<longrightarrow> L < idx + length (concat p) + length (hd r)) \<and>
    split_loop L T idx gs (idx, ss, 0, False) =
      split_loop L T (idx + length (concat p)) r (idx + length (concat p), ss, 0, False)"
  using assms
proof (induction gs arbitrary: idx)
  case (Cons g gs)
  show ?case
  proof (cases "idx + length g \<le> L")
    case True
    from Cons.IH [OF True] obtain p r where
      "gs = p @ r" "idx + length g + length (concat p) \<le> L"
      "r \<noteq> [] \<longrightarrow> L < idx + length g + length (concat p) + length (hd r)"
      "split_loop L T (idx + length g) gs (idx + length g, ss, 0, False) =
         split_loop L T (idx + length g + length (concat p)) r
           (idx + length g + length (concat p), ss, 0, False)" by blast
    with True show ?thesis by (intro exI2 [of _ "g # p" r]) (simp add: add.assoc)
  next
    case False
    with Cons.prems show ?thesis by (intro exI2 [of _ "[]" "g # gs"]) simp
  qed
qed simp

lemma length_chars: "length (chars s) \<le> length s"
proof -
  have "length gs \<le> length (concat gs)" if "\<forall>g \<in> set gs. g \<noteq> []" for gs :: "string list"
    using that by (induction gs) (auto simp: Suc_le_eq neq_Nil_conv)
  from this [of "chars s"] chars_ne show ?thesis by simp
qed

lemma split_string_spec:
  assumes "left + right < length s" "length s \<le> USIZE_MAX"
  shows "\<exists>p mid q. chars s = p @ mid @ q \<and> mid \<noteq> [] \<and>
    length (concat p) \<le> left \<and> left < length (concat p) + length (hd mid) \<and>
    length (concat q) \<le> right \<and> right < length (last mid) + length (concat q) \<and>
    split_string s left right = (length mid, concat p, concat q)"
proof -
  define T where "T = length s - right"
  obtain p r where pr: "chars s = p @ r" "length (concat p) \<le> left"
      "r \<noteq> [] \<longrightarrow> left < length (concat p) + length (hd r)"
      "split_loop left T 0 (chars s) (0, length s, 0, False) =
         split_loop left T (length (concat p)) r (length (concat p), length s, 0, False)"
    using split_loop_prefix [where idx = 0 and L = left and gs = "chars s" and T = T and ss = "length s",
        OF le0, unfolded add_0] by blast
  have len: "length (concat p) + length (concat r) = length s"
    using arg_cong [OF pr(1), of "\<lambda>x. length (concat x)"] by simp
  have LT: "left \<le> T" using assms(1) by (simp add: T_def)
  have ne: "\<forall>g \<in> set r. g \<noteq> []" using chars_ne [of _ s] pr(1) by auto
  have "length r \<le> USIZE_MAX" using length_chars [of s] pr(1) assms(2) by simp
  then obtain mid q where mq: "r = mid @ q"
      "split_loop left T (length (concat p)) r (length (concat p), length s, 0, False) =
         (length (concat p), if q = [] then length s else length (concat p) + length (concat mid),
          length mid, q \<noteq> [])"
      "q \<noteq> [] \<longrightarrow> T \<le> length (concat p) + length (concat mid)"
      "mid \<noteq> [] \<longrightarrow> length (concat p) + length (concat (butlast mid)) < T"
    using split_loop_middle [where rc = 0 and ss = "length s", OF LT ne pr(3), unfolded add_0] by blast
  have q: "length (concat q) \<le> right" using mq(1,3) len T_def by (cases "q = []") auto
  have mid: "mid \<noteq> []" using mq(1) len pr(2) q assms(1) by auto
  then have "concat mid = concat (butlast mid) @ last mid"
    by (metis append_butlast_last_id concat.simps concat_append append_Nil2)
  then have last: "right < length (last mid) + length (concat q)"
    using mq(1,4) mid len T_def by simp
  have s: "s = concat p @ concat mid @ concat q"
    using arg_cong [OF pr(1), of concat] mq(1) by simp
  have cut: "take (length (concat p)) s = concat p"
    "drop (length (concat p) + length (concat mid)) s = concat q"
    by (simp_all add: arg_cong [OF s, of "take (length (concat p))"]
        arg_cong [OF s, of "drop (length (concat p) + length (concat mid))"])
  have "s \<noteq> []" using assms(1) by auto
  then have "split_string s left right = (length mid, concat p, concat q)"
    unfolding split_string_def T_def [symmetric] pr(4) mq(2) using cut len
    by (cases "q = []") (simp_all add: Let_def)
  with pr mq q mid last show ?thesis by (intro exI3 [of _ p mid q]) simp
qed

text \<open>
  C38. A text longer than its limit in bytes is cut between characters: what is kept is the longest
  run of whole characters from the start within half of the limit and the longest from the end within
  the rest of it, and the marker between them counts exactly the characters left out.
\<close>

theorem truncation_cuts_between_characters:
  assumes "0 < limit" and "limit < length s" and "length s \<le> USIZE_MAX"
  shows "\<exists>p mid q. chars s = p @ mid @ q \<and> mid \<noteq> [] \<and>
    length (concat p) \<le> limit div 2 \<and> limit div 2 < length (concat p) + length (hd mid) \<and>
    length (concat q) \<le> limit - limit div 2 \<and>
    limit - limit div 2 < length (last mid) + length (concat q) \<and>
    truncate_middle_chars s limit =
      concat p @ ellipsis @ decimal (length mid) @ '' chars truncated'' @ ellipsis @ concat q"
proof -
  have "limit div 2 + (limit - limit div 2) < length s" using assms(2) by simp
  from split_string_spec [OF this assms(3)] obtain p mid q where pmq:
    "chars s = p @ mid @ q" "mid \<noteq> []" "length (concat p) \<le> limit div 2"
    "limit div 2 < length (concat p) + length (hd mid)" "length (concat q) \<le> limit - limit div 2"
    "limit - limit div 2 < length (last mid) + length (concat q)"
    and split: "split_string s (limit div 2) (limit - limit div 2) = (length mid, concat p, concat q)"
    by blast
  have "s \<noteq> []" "limit \<noteq> 0" "\<not> length s \<le> limit" using assms by auto
  then have "truncate_middle_chars s limit =
      concat p @ ellipsis @ decimal (length mid) @ '' chars truncated'' @ ellipsis @ concat q"
    by (simp add: truncate_middle_chars_def truncate_with_byte_estimate_def split_budget_def Let_def split
        removed_units_def format_truncation_marker_def assemble_truncated_output_def)
  with pmq show ?thesis by blast
qed

theorem truncation_cuts_between_characters_witness:
  "(0::nat) < 4 \<and> 4 < length ''abcdefgh'' \<and> length ''abcdefgh'' \<le> USIZE_MAX \<and>
   (\<exists>p mid q. chars ''abcdefgh'' = p @ mid @ q \<and> mid \<noteq> [] \<and>
     truncate_middle_chars ''abcdefgh'' 4 =
       concat p @ ellipsis @ decimal (length mid) @ '' chars truncated'' @ ellipsis @ concat q)"
proof -
  have h: "(0::nat) < 4" "4 < length ''abcdefgh''" "length ''abcdefgh'' \<le> USIZE_MAX"
    by (simp_all add: USIZE_MAX_def)
  from truncation_cuts_between_characters [OF h] h show ?thesis by blast
qed

section \<open>Truncation of items\<close>

definition omission_note :: "nat \<Rightarrow> string list" where
  "omission_note n = (if n = 0 then [] else [''[omitted '' @ decimal n @ '' text items ...]''])"

definition with_budget :: "truncation_policy \<Rightarrow> nat \<Rightarrow> truncation_policy" where
  "with_budget policy n = (case policy of Bytes _ \<Rightarrow> Bytes n | Tokens _ \<Rightarrow> Tokens n)"

definition policy_limit :: "truncation_policy \<Rightarrow> nat" where
  "policy_limit policy = (case policy of Bytes n \<Rightarrow> n | Tokens n \<Rightarrow> n)"

abbreviation texts_of :: "content_item list \<Rightarrow> string list" where
  "texts_of \<equiv> List.map_filter text_of_item"

abbreviation others_of :: "content_item list \<Rightarrow> content_item list" where
  "others_of \<equiv> filter (\<lambda>item. text_of_item item = None)"

lemma texts_of_simps [simp]:
  "texts_of [] = []"
  "texts_of (InputText t # items) = t # texts_of items"
  "texts_of (InputImage u d # items) = texts_of items"
  "texts_of (EncryptedContent e # items) = texts_of items"
  by (simp_all add: List.map_filter_def)

lemma texts_of_append [simp]: "texts_of (a @ b) = texts_of a @ texts_of b"
  by (simp add: List.map_filter_def)

lemma truncated_text_ne: "s \<noteq> [] \<Longrightarrow> truncate_text s policy \<noteq> []"
  by (cases policy)
     (auto simp: truncate_middle_chars_def truncate_middle_with_token_budget_def Let_def
        truncate_with_byte_estimate_def format_truncation_marker_def assemble_truncated_output_def
        ellipsis_def split: prod.splits)

lemma item_cost_Nil [simp]: "item_cost policy [] = 0"
  by (simp add: item_cost_def approx_token_count_def saturating_add_def APPROX_BYTES_PER_TOKEN_def
      USIZE_MAX_def split: truncation_policy.splits)

lemma truncate_items_others: "others_of (fst (truncate_items policy n items)) = others_of items"
  by (induction policy n items rule: truncate_items.induct) (auto simp: Let_def split: prod.splits)

lemma truncate_items_0: "truncate_items policy 0 items = (others_of items, length (texts_of items))"
  by (induction policy "0::nat" items rule: truncate_items.induct) auto

lemma texts_of_others [simp]: "texts_of (others_of items) = []"
proof (induction items)
  case (Cons item items)
  then show ?case by (cases item) simp_all
qed simp

lemma truncate_items_texts:
  "\<exists>kept rest. texts_of items = kept @ rest \<and> sum_list (map (item_cost policy) kept) \<le> n \<and>
    (rest \<noteq> [] \<longrightarrow> sum_list (map (item_cost policy) kept) = n \<or>
                   n < sum_list (map (item_cost policy) kept) + item_cost policy (hd rest)) \<and>
    texts_of (fst (truncate_items policy n items)) @ omission_note (snd (truncate_items policy n items)) =
    kept @
     (if rest = [] then []
      else if sum_list (map (item_cost policy) kept) = n then omission_note (length rest)
      else truncate_text (hd rest) (with_budget policy (n - sum_list (map (item_cost policy) kept))) #
           omission_note (length (tl rest)))"
proof (induction items arbitrary: n)
  case Nil
  show ?case by (simp add: omission_note_def)
next
  case (Cons item items)
  have skipped:
    "texts_of (fst (truncate_items policy n (InputImage u d # items))) = texts_of (fst (truncate_items policy n items))"
    "snd (truncate_items policy n (InputImage u d # items)) = snd (truncate_items policy n items)"
    "texts_of (fst (truncate_items policy n (EncryptedContent e # items))) = texts_of (fst (truncate_items policy n items))"
    "snd (truncate_items policy n (EncryptedContent e # items)) = snd (truncate_items policy n items)"
    for u d e
    by (simp_all split: prod.splits)
  show ?case
  proof (cases item)
    case (InputText t)
    consider "n = 0" | "0 < n" "item_cost policy t \<le> n" | "0 < n" "n < item_cost policy t" by linarith
    then show ?thesis
    proof cases
      case 1
      then show ?thesis
        by (intro exI2 [of _ "[]" "texts_of (item # items)"])
           (simp add: InputText truncate_items_0)
    next
      case 2
      from Cons.IH [of "n - item_cost policy t"] obtain kept rest where
        "texts_of items = kept @ rest"
        "sum_list (map (item_cost policy) kept) \<le> n - item_cost policy t"
        "rest \<noteq> [] \<longrightarrow> sum_list (map (item_cost policy) kept) = n - item_cost policy t \<or>
           n - item_cost policy t < sum_list (map (item_cost policy) kept) + item_cost policy (hd rest)"
        "texts_of (fst (truncate_items policy (n - item_cost policy t) items)) @
           omission_note (snd (truncate_items policy (n - item_cost policy t) items)) =
         kept @ (if rest = [] then []
           else if sum_list (map (item_cost policy) kept) = n - item_cost policy t
           then omission_note (length rest)
           else truncate_text (hd rest)
                  (with_budget policy (n - item_cost policy t - sum_list (map (item_cost policy) kept))) #
                omission_note (length (tl rest)))" by blast
      with 2 show ?thesis
        by (intro exI2 [of _ "t # kept" rest]) (auto simp: InputText split: prod.splits)
    next
      case 3
      then have "t \<noteq> []" by auto
      with 3 show ?thesis
        by (intro exI2 [of _ "[]" "texts_of (item # items)"])
           (simp add: InputText truncate_items_0 truncated_text_ne Let_def with_budget_def)
    qed
  next
    case (InputImage u d)
    with Cons.IH [of n] show ?thesis by (simp only: skipped texts_of_simps content_item.simps)
  next
    case (EncryptedContent e)
    with Cons.IH [of n] show ?thesis by (simp only: skipped texts_of_simps content_item.simps)
  qed
qed

text \<open>
  C21. Truncating the items of a tool's answer keeps every image and every encrypted item, in order.
  Of the texts it keeps, unchanged, those that fit the budget one after the other; the first that does
  not fit is truncated to what is left of the budget, if anything is left, and the texts after it are
  replaced by one note that counts them.
\<close>

theorem truncated_items_keep_images:
  "\<exists>kept rest. let out = truncate_function_output_items_with_policy items policy;
                  used = sum_list (map (item_cost policy) kept) in
    others_of out = others_of items \<and> texts_of items = kept @ rest \<and>
    used \<le> policy_limit policy \<and>
    (rest = [] \<or> used = policy_limit policy \<or> policy_limit policy < used + item_cost policy (hd rest)) \<and>
    texts_of out = kept @
     (if rest = [] then []
      else if used = policy_limit policy then omission_note (length rest)
      else truncate_text (hd rest) (with_budget policy (policy_limit policy - used)) #
           omission_note (length (tl rest)))"
proof -
  define r where "r = truncate_items policy (policy_limit policy) items"
  define out where "out = truncate_function_output_items_with_policy items policy"
  have "out = fst r @ map InputText (omission_note (snd r))"
    by (cases policy) (auto simp: out_def r_def policy_limit_def omission_note_def
        truncate_function_output_items_with_policy_def split: prod.splits)
  moreover have "texts_of (map InputText ts) = ts" "others_of (map InputText ts) = []" for ts
    by (induction ts) simp_all
  ultimately have "texts_of out = texts_of (fst r) @ omission_note (snd r)"
      "others_of out = others_of items"
    using truncate_items_others by (simp_all add: r_def)
  moreover obtain kept rest where
    "texts_of items = kept @ rest" "sum_list (map (item_cost policy) kept) \<le> policy_limit policy"
    "rest \<noteq> [] \<longrightarrow> sum_list (map (item_cost policy) kept) = policy_limit policy \<or>
       policy_limit policy < sum_list (map (item_cost policy) kept) + item_cost policy (hd rest)"
    "texts_of (fst r) @ omission_note (snd r) = kept @
     (if rest = [] then []
      else if sum_list (map (item_cost policy) kept) = policy_limit policy then omission_note (length rest)
      else truncate_text (hd rest)
             (with_budget policy (policy_limit policy - sum_list (map (item_cost policy) kept))) #
           omission_note (length (tl rest)))"
    unfolding r_def using truncate_items_texts [of items policy "policy_limit policy"] by blast
  ultimately show ?thesis
    unfolding Let_def out_def [symmetric] by (intro exI2 [of _ kept rest] conjI) (simp_all only:, blast)
qed

section \<open>The marker can outgrow the limit\<close>

text \<open>The marker is not charged to the limit: a truncated text can be longer than the text itself.\<close>

lemma truncation_can_lengthen: "length (truncate_middle_chars ''ab'' 1) > length ''ab''"
  by (simp add: truncate_middle_chars_def truncate_with_byte_estimate_def split_budget_def split_string_def
      format_truncation_marker_def assemble_truncated_output_def ellipsis_def split: prod.splits)

end
