(* ===== verification/IpAddress.thy ===== *)
theory IpAddress
  imports Prelude "HOL-Library.Word"
begin

text \<open>
  IP addresses as the standard library of Rust has them (\<open>std::net\<close>), as far as the network proxy
  uses them: the parser of \<open>IpAddr\<close>, the predicates that classify an address, and the proxy's own
  classification (\<open>network-proxy/src/policy.rs\<close>), which is shown to be a list of address intervals.
\<close>

unbundle bit_operations_syntax

section \<open>Addresses\<close>

datatype ipv4_addr = Ipv4 "8 word" "8 word" "8 word" "8 word"

text \<open>An IPv6 address is its eight segments.\<close>

datatype ip_addr = V4 ipv4_addr | V6 "16 word list"

fun u32_from :: "ipv4_addr \<Rightarrow> 32 word" where
  "u32_from (Ipv4 a b c d) =
     push_bit 24 (ucast a) + push_bit 16 (ucast b) + push_bit 8 (ucast c) + ucast d"

fun v4_is_loopback :: "ipv4_addr \<Rightarrow> bool" where
  "v4_is_loopback (Ipv4 a _ _ _) \<longleftrightarrow> a = 127"

fun v4_is_private :: "ipv4_addr \<Rightarrow> bool" where
  "v4_is_private (Ipv4 a b _ _) \<longleftrightarrow>
     a = 10 \<or> (a = 172 \<and> 16 \<le> b \<and> b \<le> 31) \<or> (a = 192 \<and> b = 168)"

fun v4_is_link_local :: "ipv4_addr \<Rightarrow> bool" where
  "v4_is_link_local (Ipv4 a b _ _) \<longleftrightarrow> a = 169 \<and> b = 254"

fun v4_is_unspecified :: "ipv4_addr \<Rightarrow> bool" where
  "v4_is_unspecified (Ipv4 a b c d) \<longleftrightarrow> a = 0 \<and> b = 0 \<and> c = 0 \<and> d = 0"

fun v4_is_multicast :: "ipv4_addr \<Rightarrow> bool" where
  "v4_is_multicast (Ipv4 a _ _ _) \<longleftrightarrow> 224 \<le> a \<and> a \<le> 239"

fun v4_is_broadcast :: "ipv4_addr \<Rightarrow> bool" where
  "v4_is_broadcast (Ipv4 a b c d) \<longleftrightarrow> a = 255 \<and> b = 255 \<and> c = 255 \<and> d = 255"

definition v6_is_loopback :: "16 word list \<Rightarrow> bool" where
  "v6_is_loopback s \<longleftrightarrow> s = [0, 0, 0, 0, 0, 0, 0, 1]"

definition v6_is_unspecified :: "16 word list \<Rightarrow> bool" where
  "v6_is_unspecified s \<longleftrightarrow> s = [0, 0, 0, 0, 0, 0, 0, 0]"

definition v6_is_multicast :: "16 word list \<Rightarrow> bool" where
  "v6_is_multicast s \<longleftrightarrow> (hd s AND 0xFF00) = 0xFF00"

definition v6_is_unique_local :: "16 word list \<Rightarrow> bool" where
  "v6_is_unique_local s \<longleftrightarrow> (hd s AND 0xFE00) = 0xFC00"

definition v6_is_unicast_link_local :: "16 word list \<Rightarrow> bool" where
  "v6_is_unicast_link_local s \<longleftrightarrow> (hd s AND 0xFFC0) = 0xFE80"

text \<open>\<open>Ipv6Addr::to_ipv4\<close>: the addresses \<open>::a.b.c.d\<close> and \<open>::ffff:a.b.c.d\<close>.\<close>

fun to_ipv4 :: "16 word list \<Rightarrow> ipv4_addr option" where
  "to_ipv4 [s0, s1, s2, s3, s4, s5, ab, cd] =
     (if s0 = 0 \<and> s1 = 0 \<and> s2 = 0 \<and> s3 = 0 \<and> s4 = 0 \<and> (s5 = 0 \<or> s5 = 0xFFFF)
      then Some (Ipv4 (ucast (drop_bit 8 ab)) (ucast ab) (ucast (drop_bit 8 cd)) (ucast cd))
      else None)"
| "to_ipv4 _ = None"

fun ip_is_loopback :: "ip_addr \<Rightarrow> bool" where
  "ip_is_loopback (V4 ip) = v4_is_loopback ip"
| "ip_is_loopback (V6 s) = v6_is_loopback s"

section \<open>Parsing\<close>

definition hex_digit :: "char \<Rightarrow> int option" where
  "hex_digit c =
     (if is_ascii_digit c then Some (of_char c - 48)
      else let l = ascii_lower_char c in
        if is_ascii_hexdigit c then Some (of_char l - 87) else None)"

text \<open>\<open>char::to_digit\<close> in base 10 and 16.\<close>

definition to_digit :: "int \<Rightarrow> char \<Rightarrow> int option" where
  "to_digit radix c = option_filter (\<lambda>d. d < radix) (hex_digit c)"

text \<open>The loop of \<open>read_number\<close>: the number, how many digits it has and the rest of the input.\<close>

fun read_digits :: "int \<Rightarrow> int \<Rightarrow> nat \<Rightarrow> int \<Rightarrow> nat \<Rightarrow> string \<Rightarrow> (int \<times> nat \<times> string) option" where
  "read_digits radix largest max_digits result digit_count [] = Some (result, digit_count, [])"
| "read_digits radix largest max_digits result digit_count (c # cs) =
     (case to_digit radix c of
        None \<Rightarrow> Some (result, digit_count, c # cs)
      | Some digit \<Rightarrow>
          if result * radix + digit > largest \<or> Suc digit_count > max_digits then None
          else read_digits radix largest max_digits (result * radix + digit) (Suc digit_count) cs)"

definition read_number :: "int \<Rightarrow> int \<Rightarrow> nat \<Rightarrow> bool \<Rightarrow> string \<Rightarrow> (int \<times> string) option" where
  "read_number radix largest max_digits allow_zero_prefix s =
     (case read_digits radix largest max_digits 0 0 s of
        None \<Rightarrow> None
      | Some (result, digit_count, rest) \<Rightarrow>
          if digit_count = 0 then None
          else if \<not> allow_zero_prefix \<and> hd s = CHR ''0'' \<and> digit_count > 1 then None
          else Some (result, rest))"

definition read_separator ::
  "char \<Rightarrow> nat \<Rightarrow> (string \<Rightarrow> ('a \<times> string) option) \<Rightarrow> string \<Rightarrow> ('a \<times> string) option" where
  "read_separator sep index inner s =
     (if index = 0 then inner s
      else case s of [] \<Rightarrow> None | c # cs \<Rightarrow> if c = sep then inner cs else None)"

definition read_octet :: "nat \<Rightarrow> string \<Rightarrow> (int \<times> string) option" where
  "read_octet index s = read_separator CHR ''.'' index (read_number 10 255 3 False) s"

definition read_ipv4_addr :: "string \<Rightarrow> (ipv4_addr \<times> string) option" where
  "read_ipv4_addr s =
     Option.bind (read_octet 0 s) (\<lambda>(a, s).
     Option.bind (read_octet 1 s) (\<lambda>(b, s).
     Option.bind (read_octet 2 s) (\<lambda>(c, s).
     Option.bind (read_octet 3 s) (\<lambda>(d, s).
       Some (Ipv4 (of_int a) (of_int b) (of_int c) (of_int d), s)))))"

fun v4_segments :: "ipv4_addr \<Rightarrow> 16 word list" where
  "v4_segments (Ipv4 a b c d) = [push_bit 8 (ucast a) + ucast b, push_bit 8 (ucast c) + ucast d]"

text \<open>The groups from number \<open>i\<close> on, at most \<open>todo\<close> of them, and whether an IPv4 address ended them.\<close>

fun read_groups :: "nat \<Rightarrow> nat \<Rightarrow> string \<Rightarrow> 16 word list \<times> bool \<times> string" where
  "read_groups i 0 s = ([], False, s)"
| "read_groups i (Suc todo) s =
     (case (if 0 < todo then read_separator CHR '':'' i read_ipv4_addr s else None) of
        Some (v4, rest) \<Rightarrow> (v4_segments v4, True, rest)
      | None \<Rightarrow>
          (case read_separator CHR '':'' i (read_number 16 65535 4 True) s of
             None \<Rightarrow> ([], False, s)
           | Some (segment, rest) \<Rightarrow>
               (case read_groups (Suc i) todo rest of
                  (groups, ipv4, rest') \<Rightarrow> (of_int segment # groups, ipv4, rest'))))"

definition read_ipv6_addr :: "string \<Rightarrow> (16 word list \<times> string) option" where
  "read_ipv6_addr s =
     (case read_groups 0 8 s of
        (front, front_ipv4, rest) \<Rightarrow>
          if length front = 8 then Some (front, rest)
          else if front_ipv4 then None
          else
            (case strip_prefix ''::'' rest of
               None \<Rightarrow> None
             | Some rest' \<Rightarrow>
                 (case read_groups 0 (8 - (length front + 1)) rest' of
                    (back, _, rest'') \<Rightarrow>
                      Some (front @ replicate (8 - length back - length front) 0 @ back, rest''))))"

text \<open>\<open>str::parse::<IpAddr>\<close>: the whole string must be read.\<close>

definition parse_ip :: "string \<Rightarrow> ip_addr option" where
  "parse_ip s =
     (case read_ipv4_addr s of
        Some (v4, rest) \<Rightarrow> if rest = [] then Some (V4 v4) else None
      | None \<Rightarrow>
          (case read_ipv6_addr s of
             Some (v6, rest) \<Rightarrow> if rest = [] then Some (V6 v6) else None
           | None \<Rightarrow> None))"

section \<open>Public and non-public addresses\<close>

definition ipv4_in_cidr :: "ipv4_addr \<Rightarrow> ipv4_addr \<Rightarrow> nat \<Rightarrow> bool" where
  "ipv4_in_cidr ip base len =
     (let ip = u32_from ip; base = u32_from base;
          mask = (if len = 0 then 0 else push_bit (32 - len) (- 1 :: 32 word)) in
      (ip AND mask) = (base AND mask))"

definition is_non_public_ipv4 :: "ipv4_addr \<Rightarrow> bool" where
  "is_non_public_ipv4 ip \<longleftrightarrow>
     v4_is_loopback ip \<or> v4_is_private ip \<or> v4_is_link_local ip \<or> v4_is_unspecified ip \<or>
     v4_is_multicast ip \<or> v4_is_broadcast ip \<or>
     ipv4_in_cidr ip (Ipv4 0 0 0 0) 8 \<or>
     ipv4_in_cidr ip (Ipv4 100 64 0 0) 10 \<or>
     ipv4_in_cidr ip (Ipv4 192 0 0 0) 24 \<or>
     ipv4_in_cidr ip (Ipv4 192 0 2 0) 24 \<or>
     ipv4_in_cidr ip (Ipv4 198 18 0 0) 15 \<or>
     ipv4_in_cidr ip (Ipv4 198 51 100 0) 24 \<or>
     ipv4_in_cidr ip (Ipv4 203 0 113 0) 24 \<or>
     ipv4_in_cidr ip (Ipv4 240 0 0 0) 4"

definition is_non_public_ipv6 :: "16 word list \<Rightarrow> bool" where
  "is_non_public_ipv6 ip =
     (case to_ipv4 ip of
        Some v4 \<Rightarrow> is_non_public_ipv4 v4 \<or> v6_is_loopback ip
      | None \<Rightarrow>
          v6_is_loopback ip \<or> v6_is_unspecified ip \<or> v6_is_multicast ip \<or>
          v6_is_unique_local ip \<or> v6_is_unicast_link_local ip)"

fun is_non_public_ip :: "ip_addr \<Rightarrow> bool" where
  "is_non_public_ip (V4 ip) = is_non_public_ipv4 ip"
| "is_non_public_ip (V6 ip) = is_non_public_ipv6 ip"

section \<open>The intervals of non-public addresses\<close>

text \<open>The number of an address, and the first and last number of each non-public block.\<close>

fun ip_number :: "ipv4_addr \<Rightarrow> nat" where
  "ip_number (Ipv4 a b c d) = unat a * 2 ^ 24 + unat b * 2 ^ 16 + unat c * 2 ^ 8 + unat d"

definition dotted :: "nat \<Rightarrow> nat \<Rightarrow> nat \<Rightarrow> nat \<Rightarrow> nat" where
  "dotted a b c d = a * 2 ^ 24 + b * 2 ^ 16 + c * 2 ^ 8 + d"

definition non_public_blocks :: "(nat \<times> nat) list" where
  "non_public_blocks =
     [(dotted 0 0 0 0, dotted 0 255 255 255),
      (dotted 10 0 0 0, dotted 10 255 255 255),
      (dotted 100 64 0 0, dotted 100 127 255 255),
      (dotted 127 0 0 0, dotted 127 255 255 255),
      (dotted 169 254 0 0, dotted 169 254 255 255),
      (dotted 172 16 0 0, dotted 172 31 255 255),
      (dotted 192 0 0 0, dotted 192 0 0 255),
      (dotted 192 0 2 0, dotted 192 0 2 255),
      (dotted 192 168 0 0, dotted 192 168 255 255),
      (dotted 198 18 0 0, dotted 198 19 255 255),
      (dotted 198 51 100 0, dotted 198 51 100 255),
      (dotted 203 0 113 0, dotted 203 0 113 255),
      (dotted 224 0 0 0, dotted 255 255 255 255)]"

definition in_block :: "nat \<times> nat \<Rightarrow> nat \<Rightarrow> bool" where
  "in_block block n \<longleftrightarrow> fst block \<le> n \<and> n \<le> snd block"

definition in_blocks :: "(nat \<times> nat) list \<Rightarrow> nat \<Rightarrow> bool" where
  "in_blocks blocks n \<longleftrightarrow> list_ex (\<lambda>block. in_block block n) blocks"

lemma octet_bound: "unat (a :: 8 word) < 256"
  using unsigned_less [of a, where 'a = nat] by simp

lemma word_of_nat_unat_ucast: "word_of_nat (unat (a :: 8 word)) = (ucast a :: 32 word)"
  by transfer simp

lemma unat_u32_from: "unat (u32_from ip) = ip_number ip"
proof (cases ip)
  case (Ipv4 a b c d)
  have "u32_from ip = word_of_nat (ip_number ip)"
    by (simp add: Ipv4 push_bit_eq_mult word_of_nat_unat_ucast)
  moreover have "ip_number ip < 2 ^ 32"
    using octet_bound [of a] octet_bound [of b] octet_bound [of c] octet_bound [of d] by (simp add: Ipv4)
  ultimately show ?thesis by (simp add: unat_of_nat take_bit_nat_eq_self)
qed

text \<open>An address is in a block of \<open>32 - len\<close> free bits when it agrees with the base above them.\<close>

lemma drop_bit_and_mask: "drop_bit k (x AND push_bit k (- 1)) = drop_bit k x" for x :: "32 word"
  by (rule bit_word_eqI) (auto simp: bit_simps dest: bit_imp_le_length)

lemma and_mask_conv: "x AND push_bit k (- 1) = push_bit k (drop_bit k x)" for x :: "32 word"
  by (rule bit_word_eqI) (auto simp: bit_simps)

lemma and_mask_eq_iff:
  fixes x y :: "32 word"
  shows "(x AND push_bit k (- 1)) = (y AND push_bit k (- 1)) \<longleftrightarrow> unat x div 2 ^ k = unat y div 2 ^ k"
proof -
  have "(x AND push_bit k (- 1)) = (y AND push_bit k (- 1)) \<longleftrightarrow> drop_bit k x = drop_bit k y"
    by (metis and_mask_conv drop_bit_and_mask)
  also have "\<dots> \<longleftrightarrow> unat (drop_bit k x) = unat (drop_bit k y)" by (simp add: word_unat_eq_iff)
  also have "\<dots> \<longleftrightarrow> unat x div 2 ^ k = unat y div 2 ^ k"
    unfolding unat_drop_bit_eq by (simp only: drop_bit_eq_div)
  finally show ?thesis .
qed

lemma ipv4_in_cidr_iff:
  assumes "0 < len" "len \<le> 32"
  shows "ipv4_in_cidr ip base len \<longleftrightarrow> ip_number ip div 2 ^ (32 - len) = ip_number base div 2 ^ (32 - len)"
  using assms and_mask_eq_iff [of "u32_from ip" "32 - len" "u32_from base"]
  unfolding ipv4_in_cidr_def Let_def unat_u32_from by simp

lemma div_eq_iff_interval:
  fixes m n :: nat
  assumes "0 < k"
  shows "n div k = m div k \<longleftrightarrow> m div k * k \<le> n \<and> n \<le> m div k * k + (k - 1)"
proof
  assume "n div k = m div k"
  then show "m div k * k \<le> n \<and> n \<le> m div k * k + (k - 1)"
    using div_mult_mod_eq [of n k] mod_less_divisor [OF assms, of n] by simp
next
  assume "m div k * k \<le> n \<and> n \<le> m div k * k + (k - 1)"
  then have "n = m div k * k + (n - m div k * k)" "n - m div k * k < k" using assms by auto
  then show "n div k = m div k" by (metis div_mult_self3 assms div_less add.right_neutral nat_neq_iff)
qed

lemma cidr_interval:
  assumes "0 < len" "len \<le> 32"
  shows "ipv4_in_cidr ip base len \<longleftrightarrow>
    ip_number base div 2 ^ (32 - len) * 2 ^ (32 - len) \<le> ip_number ip \<and>
    ip_number ip \<le> ip_number base div 2 ^ (32 - len) * 2 ^ (32 - len) + (2 ^ (32 - len) - 1)"
  unfolding ipv4_in_cidr_iff [OF assms] by (rule div_eq_iff_interval) simp

lemma between_blocks:
  fixes k q r x y :: nat
  assumes "r < k"
  shows "x * k \<le> q * k + r \<and> q * k + r \<le> y * k + (k - 1) \<longleftrightarrow> x \<le> q \<and> q \<le> y"
proof -
  have q: "(q * k + r) div k = q" and k: "0 < k" using assms by simp_all
  have "x * k \<le> q * k + r \<longleftrightarrow> x \<le> q"
    using less_eq_div_iff_mult_less_eq [OF k, of x "q * k + r"] by (simp only: q)
  moreover have "q * k + r \<le> y * k + (k - 1) \<longleftrightarrow> q * k + r < Suc y * k" using k by auto
  moreover have "q * k + r < Suc y * k \<longleftrightarrow> q < Suc y"
    using div_less_iff_less_mult [OF k, of "q * k + r" "Suc y"] by (simp only: q)
  ultimately show ?thesis by (simp add: less_Suc_eq_le)
qed

lemma first_octet_interval:
  "dotted x 0 0 0 \<le> ip_number (Ipv4 a b c d) \<and> ip_number (Ipv4 a b c d) \<le> dotted y 255 255 255 \<longleftrightarrow>
   x \<le> unat a \<and> unat a \<le> y"
proof -
  have "unat b * 65536 + unat c * 256 + unat d < 16777216"
    using octet_bound [of b] octet_bound [of c] octet_bound [of d] by linarith
  from between_blocks [OF this, of x "unat a" y] show ?thesis by (simp add: dotted_def add.assoc)
qed

lemma two_octets_interval:
  assumes "x < 256" "y < 256"
  shows "dotted z x 0 0 \<le> ip_number (Ipv4 a b c d) \<and> ip_number (Ipv4 a b c d) \<le> dotted z y 255 255 \<longleftrightarrow>
    unat a = z \<and> x \<le> unat b \<and> unat b \<le> y"
proof -
  have r: "unat c * 256 + unat d < 65536" using octet_bound [of c] octet_bound [of d] by linarith
  have "z * 256 + x \<le> unat a * 256 + unat b \<and> unat a * 256 + unat b \<le> z * 256 + y \<longleftrightarrow>
      unat a = z \<and> x \<le> unat b \<and> unat b \<le> y"
    using assms octet_bound [of b] by (cases "unat a" z rule: linorder_cases) auto
  with between_blocks [OF r, of "z * 256 + x" "unat a * 256 + unat b" "z * 256 + y"] show ?thesis
    by (simp add: dotted_def add.assoc add_mult_distrib mult.commute)
qed

lemma octet_intervals:
  "v4_is_loopback ip \<longleftrightarrow> in_block (dotted 127 0 0 0, dotted 127 255 255 255) (ip_number ip)"
  "v4_is_private ip \<longleftrightarrow>
     in_block (dotted 10 0 0 0, dotted 10 255 255 255) (ip_number ip) \<or>
     in_block (dotted 172 16 0 0, dotted 172 31 255 255) (ip_number ip) \<or>
     in_block (dotted 192 168 0 0, dotted 192 168 255 255) (ip_number ip)"
  "v4_is_link_local ip \<longleftrightarrow> in_block (dotted 169 254 0 0, dotted 169 254 255 255) (ip_number ip)"
  "v4_is_multicast ip \<longleftrightarrow> in_block (dotted 224 0 0 0, dotted 239 255 255 255) (ip_number ip)"
  by (cases ip; simp only: in_block_def fst_conv snd_conv first_octet_interval two_octets_interval;
      auto simp: word_unat_eq_iff word_le_nat_alt two_octets_interval)+

lemma largest_octets:
  fixes a b c d :: nat
  assumes "a < 256" "b < 256" "c < 256" "d < 256"
    "a * 16777216 + b * 65536 + c * 256 + d = 4294967295"
  shows "a = 255 \<and> b = 255 \<and> c = 255 \<and> d = 255"
  by (intro conjI) (use assms in linarith)+

lemma single_addresses:
  "v4_is_unspecified ip \<longleftrightarrow> ip_number ip = 0"
  "v4_is_broadcast ip \<longleftrightarrow> ip_number ip = dotted 255 255 255 255"
proof -
  obtain a b c d where ip: "ip = Ipv4 a b c d" by (cases ip)
  have "ip_number ip = dotted 255 255 255 255 \<longleftrightarrow>
      unat a = 255 \<and> unat b = 255 \<and> unat c = 255 \<and> unat d = 255"
    using largest_octets [OF octet_bound octet_bound octet_bound octet_bound, of a b c d]
    by (auto simp: ip dotted_def)
  then show "v4_is_broadcast ip \<longleftrightarrow> ip_number ip = dotted 255 255 255 255"
    by (simp add: ip word_unat_eq_iff)
  show "v4_is_unspecified ip \<longleftrightarrow> ip_number ip = 0" by (auto simp: ip word_unat_eq_iff)
qed

lemma ip_number_bound: "ip_number ip \<le> dotted 255 255 255 255"
proof (cases ip)
  case (Ipv4 a b c d)
  then show ?thesis
    using octet_bound [of a] octet_bound [of b] octet_bound [of c] octet_bound [of d]
    by (simp add: dotted_def)
qed

lemma cidr_blocks:
  "ipv4_in_cidr ip (Ipv4 0 0 0 0) 8 \<longleftrightarrow> in_block (dotted 0 0 0 0, dotted 0 255 255 255) (ip_number ip)"
  "ipv4_in_cidr ip (Ipv4 100 64 0 0) 10 \<longleftrightarrow> in_block (dotted 100 64 0 0, dotted 100 127 255 255) (ip_number ip)"
  "ipv4_in_cidr ip (Ipv4 192 0 0 0) 24 \<longleftrightarrow> in_block (dotted 192 0 0 0, dotted 192 0 0 255) (ip_number ip)"
  "ipv4_in_cidr ip (Ipv4 192 0 2 0) 24 \<longleftrightarrow> in_block (dotted 192 0 2 0, dotted 192 0 2 255) (ip_number ip)"
  "ipv4_in_cidr ip (Ipv4 198 18 0 0) 15 \<longleftrightarrow> in_block (dotted 198 18 0 0, dotted 198 19 255 255) (ip_number ip)"
  "ipv4_in_cidr ip (Ipv4 198 51 100 0) 24 \<longleftrightarrow> in_block (dotted 198 51 100 0, dotted 198 51 100 255) (ip_number ip)"
  "ipv4_in_cidr ip (Ipv4 203 0 113 0) 24 \<longleftrightarrow> in_block (dotted 203 0 113 0, dotted 203 0 113 255) (ip_number ip)"
  "ipv4_in_cidr ip (Ipv4 240 0 0 0) 4 \<longleftrightarrow> in_block (dotted 240 0 0 0, dotted 255 255 255 255) (ip_number ip)"
  by (simp_all add: cidr_interval in_block_def dotted_def)

lemma multicast_and_reserved:
  fixes n :: nat
  shows "(in_block (dotted 224 0 0 0, dotted 239 255 255 255) n) \<or>
    (in_block (dotted 240 0 0 0, dotted 255 255 255 255) n) \<longleftrightarrow>
    in_block (dotted 224 0 0 0, dotted 255 255 255 255) n"
  by (auto simp: in_block_def dotted_def)

lemma list_ex_conv: "list_ex P (x # xs) \<longleftrightarrow> P x \<or> list_ex P xs" "list_ex P [] \<longleftrightarrow> False"
  by simp_all

lemma non_public_ipv4_blocks: "is_non_public_ipv4 ip \<longleftrightarrow> in_blocks non_public_blocks (ip_number ip)"
proof -
  have "ip_number ip = 0 \<longrightarrow> in_block (dotted 0 0 0 0, dotted 0 255 255 255) (ip_number ip)"
    "ip_number ip = dotted 255 255 255 255 \<longrightarrow>
       in_block (dotted 240 0 0 0, dotted 255 255 255 255) (ip_number ip)"
    by (simp_all add: in_block_def dotted_def)
  then show ?thesis
    unfolding is_non_public_ipv4_def octet_intervals single_addresses cidr_blocks in_blocks_def
      non_public_blocks_def list_ex_conv multicast_and_reserved [symmetric]
    by blast
qed

end
