(* ===== verification/NetPolicy.thy ===== *)
theory NetPolicy
  imports IpAddress ExecPolicy
begin

text \<open>
  The domain policy of the network proxy (\<open>network-proxy/src/policy.rs\<close>): normal forms of hosts and
  patterns, the expansion of a pattern into globs, and the comparison of patterns that constrains a
  user's allowlist by the managed one. The crates \<open>globset\<close> and \<open>url\<close> are parameters: whether a glob
  compiles and which hosts it matches, and what \<open>url::Host::parse\<close> makes of a host.
\<close>

record net_libs =
  glob_ok :: "string \<Rightarrow> bool"
  globset_ok :: "string list \<Rightarrow> bool"
  glob_match :: "string \<Rightarrow> string \<Rightarrow> bool"
  url_host :: "string \<Rightarrow> string option"

datatype net_error =
    HostIsEmpty
  | GlobalWildcardPattern
  | InvalidGlob string
  | InvalidGlobSet
  | InvalidSocketPath string
  | HooksNeedMitm
  | InvalidHook string
  | InvalidValue string
  | MitmCaError
  | ReloadFailed

section \<open>Hosts\<close>

definition split_once_str :: "string \<Rightarrow> string \<Rightarrow> (string \<times> string) option" where
  "split_once_str delimiter s =
     map_option (\<lambda>i. (take i s, drop (i + length delimiter) s)) (find_sub delimiter s)"

definition unscoped_ip_literal :: "string \<Rightarrow> string option" where
  "unscoped_ip_literal host =
     (case split_once CHR ''%'' host of
        None \<Rightarrow> None
      | Some (ip, _) \<Rightarrow> if parse_ip ip = None then None else Some ip)"

definition normalize_ip_literal :: "string \<Rightarrow> string option" where
  "normalize_ip_literal host =
     (if parse_ip host \<noteq> None then Some host
      else find_map (\<lambda>delimiter.
        case split_once_str delimiter host of
          None \<Rightarrow> None
        | Some (ip, scope) \<Rightarrow> if parse_ip ip \<noteq> None then Some (ip @ ''%'' @ scope) else None)
        [''%25'', ''%''])"

definition normalize_dns_host_or_ip_literal :: "string \<Rightarrow> string" where
  "normalize_dns_host_or_ip_literal host =
     (let host = trim_end_matches CHR ''.'' (to_ascii_lowercase host) in
      case normalize_ip_literal host of Some ip \<Rightarrow> ip | None \<Rightarrow> host)"

definition normalize_host :: "string \<Rightarrow> string" where
  "normalize_host host =
     (let host = trim host in
      case (if starts_with ''['' host then find_sub '']'' host else None) of
        Some fin \<Rightarrow> normalize_dns_host_or_ip_literal (drop 1 (take fin host))
      | None \<Rightarrow>
          if length (filter (\<lambda>b. b = CHR '':'') host) = 1
          then normalize_dns_host_or_ip_literal (hd (split_on CHR '':'' host))
          else normalize_dns_host_or_ip_literal host)"

definition host_parse :: "string \<Rightarrow> net_error + string" where
  "host_parse input =
     (let normalized = normalize_host input in
      if normalized = [] then Inl HostIsEmpty else Inr normalized)"

definition is_loopback_host :: "string \<Rightarrow> bool" where
  "is_loopback_host host =
     (let host = unwrap_or host (unscoped_ip_literal host) in
      if host = ''localhost'' then True
      else case parse_ip host of Some ip \<Rightarrow> ip_is_loopback ip | None \<Rightarrow> False)"

section \<open>Patterns\<close>

definition wildcard_prefix :: "string \<Rightarrow> string \<times> string" where
  "wildcard_prefix pattern =
     (case strip_prefix ''**.'' pattern of
        Some domain \<Rightarrow> (''**.'', domain)
      | None \<Rightarrow>
          (case strip_prefix ''*.'' pattern of
             Some domain \<Rightarrow> (''*.'', domain)
           | None \<Rightarrow> ([], pattern)))"

definition normalize_pattern :: "string \<Rightarrow> string" where
  "normalize_pattern pattern =
     (let pattern = trim pattern in
      if pattern = ''*'' then ''*''
      else case wildcard_prefix pattern of (pre, remainder) \<Rightarrow> pre @ normalize_host remainder)"

datatype domain_pattern = ApexAndSubdomains string | SubdomainsOnly string | Exact string

definition parse_domain :: "string \<Rightarrow> (string \<Rightarrow> domain_pattern) \<Rightarrow> domain_pattern" where
  "parse_domain domain mk =
     (let domain = trim domain in if domain = [] then Exact [] else mk domain)"

definition domain_pattern_parse :: "string \<Rightarrow> domain_pattern" where
  "domain_pattern_parse input =
     (let input = trim input in
      if input = [] then Exact []
      else case strip_prefix ''**.'' input of
             Some domain \<Rightarrow> parse_domain domain ApexAndSubdomains
           | None \<Rightarrow>
               (case strip_prefix ''*.'' input of
                  Some domain \<Rightarrow> parse_domain domain SubdomainsOnly
                | None \<Rightarrow> Exact input))"

definition parse_domain_for_constraints :: "net_libs \<Rightarrow> string \<Rightarrow> string" where
  "parse_domain_for_constraints libs domain =
     (let domain = trim_end_matches CHR ''.'' (trim domain) in
      if domain = [] then []
      else
        let host = (if starts_with ''['' domain \<and> ends_with '']'' domain
                    then drop 1 (take (length domain - 1) domain) else domain) in
        if CHR ''*'' \<in> set host \<or> CHR ''?'' \<in> set host \<or> CHR ''%'' \<in> set host then domain
        else case url_host libs host of Some h \<Rightarrow> h | None \<Rightarrow> [])"

definition parse_for_constraints :: "net_libs \<Rightarrow> string \<Rightarrow> domain_pattern" where
  "parse_for_constraints libs input =
     (let input = trim input in
      if input = [] then Exact []
      else case strip_prefix ''**.'' input of
             Some domain \<Rightarrow> ApexAndSubdomains (parse_domain_for_constraints libs domain)
           | None \<Rightarrow>
               (case strip_prefix ''*.'' input of
                  Some domain \<Rightarrow> SubdomainsOnly (parse_domain_for_constraints libs domain)
                | None \<Rightarrow> Exact (parse_domain_for_constraints libs input)))"

definition normalize_domain :: "string \<Rightarrow> string" where
  "normalize_domain domain = to_ascii_lowercase (trim_end_matches CHR ''.'' domain)"

definition domain_eq :: "string \<Rightarrow> string \<Rightarrow> bool" where
  "domain_eq left right \<longleftrightarrow> normalize_domain left = normalize_domain right"

definition is_subdomain_or_equal :: "string \<Rightarrow> string \<Rightarrow> bool" where
  "is_subdomain_or_equal child parent =
     (let child = normalize_domain child; parent = normalize_domain parent in
      if child = parent then True else ends_with (''.'' @ parent) child)"

definition is_strict_subdomain :: "string \<Rightarrow> string \<Rightarrow> bool" where
  "is_strict_subdomain child parent =
     (let child = normalize_domain child; parent = normalize_domain parent in
      child \<noteq> parent \<and> ends_with (''.'' @ parent) child)"

fun pattern_allows :: "domain_pattern \<Rightarrow> domain_pattern \<Rightarrow> bool" where
  "pattern_allows (Exact domain) (Exact candidate) = domain_eq candidate domain"
| "pattern_allows (Exact domain) _ = False"
| "pattern_allows (SubdomainsOnly domain) (Exact candidate) = is_strict_subdomain candidate domain"
| "pattern_allows (SubdomainsOnly domain) (SubdomainsOnly candidate) = is_subdomain_or_equal candidate domain"
| "pattern_allows (SubdomainsOnly domain) (ApexAndSubdomains candidate) = is_strict_subdomain candidate domain"
| "pattern_allows (ApexAndSubdomains domain) (Exact candidate) = is_subdomain_or_equal candidate domain"
| "pattern_allows (ApexAndSubdomains domain) (SubdomainsOnly candidate) = is_subdomain_or_equal candidate domain"
| "pattern_allows (ApexAndSubdomains domain) (ApexAndSubdomains candidate) = is_subdomain_or_equal candidate domain"

definition expand_domain_pattern :: "string \<Rightarrow> string list" where
  "expand_domain_pattern pattern =
     (case domain_pattern_parse pattern of
        Exact domain \<Rightarrow> [domain]
      | SubdomainsOnly domain \<Rightarrow> [''?*.'' @ domain]
      | ApexAndSubdomains domain \<Rightarrow> [domain, ''?*.'' @ domain])"

definition is_global_wildcard_domain_pattern :: "string \<Rightarrow> bool" where
  "is_global_wildcard_domain_pattern pattern \<longleftrightarrow>
     list_ex (\<lambda>candidate. candidate = ''*'') (expand_domain_pattern (normalize_pattern pattern))"

section \<open>Sets of globs\<close>

text \<open>A \<open>GlobSet\<close> is the list of the globs added to its builder; it matches when one of them does.\<close>

type_synonym glob_set = "string list"

definition globset_is_match :: "net_libs \<Rightarrow> glob_set \<Rightarrow> string \<Rightarrow> bool" where
  "globset_is_match libs globs host \<longleftrightarrow> list_ex (\<lambda>glob. glob_match libs glob host) globs"

datatype global_wildcard = AllowGlobal | RejectGlobal

fun add_candidates :: "net_libs \<Rightarrow> string list \<Rightarrow> glob_set \<Rightarrow> net_error + glob_set" where
  "add_candidates libs [] globs = Inr globs"
| "add_candidates libs (candidate # candidates) globs =
     (if candidate \<in> set globs then add_candidates libs candidates globs
      else if \<not> glob_ok libs candidate then Inl (InvalidGlob candidate)
      else add_candidates libs candidates (globs @ [candidate]))"

fun add_patterns :: "net_libs \<Rightarrow> global_wildcard \<Rightarrow> string list \<Rightarrow> glob_set \<Rightarrow> net_error + glob_set" where
  "add_patterns libs wildcard [] globs = Inr globs"
| "add_patterns libs wildcard (pattern # patterns) globs =
     (if wildcard = RejectGlobal \<and> is_global_wildcard_domain_pattern pattern then Inl GlobalWildcardPattern
      else try_bind (add_candidates libs (expand_domain_pattern (normalize_pattern pattern)) globs)
             (add_patterns libs wildcard patterns))"

definition compile_globset_with_policy ::
  "net_libs \<Rightarrow> string list \<Rightarrow> global_wildcard \<Rightarrow> net_error + glob_set" where
  "compile_globset_with_policy libs patterns wildcard =
     try_bind (add_patterns libs wildcard patterns []) (\<lambda>globs.
       if globset_ok libs globs then Inr globs else Inl InvalidGlobSet)"

definition compile_allowlist_globset :: "net_libs \<Rightarrow> string list \<Rightarrow> net_error + glob_set" where
  "compile_allowlist_globset libs patterns = compile_globset_with_policy libs patterns AllowGlobal"

definition compile_denylist_globset :: "net_libs \<Rightarrow> string list \<Rightarrow> net_error + glob_set" where
  "compile_denylist_globset libs patterns = compile_globset_with_policy libs patterns RejectGlobal"

definition globset_matches_host_or_unscoped :: "net_libs \<Rightarrow> glob_set \<Rightarrow> string \<Rightarrow> bool" where
  "globset_matches_host_or_unscoped libs globs host \<longleftrightarrow>
     globset_is_match libs globs host \<or>
     (case unscoped_ip_literal host of Some ip \<Rightarrow> globset_is_match libs globs ip | None \<Rightarrow> False)"

definition is_explicit_local_allowlisted :: "string list \<Rightarrow> string \<Rightarrow> bool" where
  "is_explicit_local_allowlisted allowed_domains host \<longleftrightarrow>
     list_ex (\<lambda>pattern.
       let pattern = trim pattern in
       if pattern = ''*'' \<or> starts_with ''*.'' pattern \<or> starts_with ''**.'' pattern then False
       else if CHR ''*'' \<in> set pattern \<or> CHR ''?'' \<in> set pattern then False
       else
         normalize_host pattern = host \<or>
         (case unscoped_ip_literal host of Some ip \<Rightarrow> normalize_host pattern = ip | None \<Rightarrow> False))
     allowed_domains"

section \<open>What compilation yields\<close>

lemma add_candidates_Inr:
  "add_candidates libs candidates globs = Inr globs' \<Longrightarrow> set globs' = set globs \<union> set candidates"
  by (induction candidates arbitrary: globs) (auto split: if_splits)

lemma add_patterns_Inr:
  "add_patterns libs wildcard patterns globs = Inr globs' \<Longrightarrow>
   set globs' = set globs \<union> (\<Union>p \<in> set patterns. set (expand_domain_pattern (normalize_pattern p)))"
proof (induction patterns arbitrary: globs)
  case (Cons p patterns)
  then obtain globs1 where
    "add_candidates libs (expand_domain_pattern (normalize_pattern p)) globs = Inr globs1"
    "add_patterns libs wildcard patterns globs1 = Inr globs'"
    by (auto simp: result_simps split: if_splits)
  with Cons.IH add_candidates_Inr show ?case by fastforce
qed simp

lemma compiled_globs:
  "compile_globset_with_policy libs patterns wildcard = Inr globs \<Longrightarrow>
   set globs = (\<Union>p \<in> set patterns. set (expand_domain_pattern (normalize_pattern p)))"
  using add_patterns_Inr [of libs wildcard patterns "[]"]
  by (auto simp: compile_globset_with_policy_def result_simps split: if_splits)

end
