(* ===== verification/MitmHook.thy ===== *)
theory MitmHook
  imports NetPolicy AbsolutePath
begin

text \<open>
  The hooks of the proxy on intercepted requests (\<open>network-proxy/src/mitm_hook.rs\<close>): validation and
  compilation of their configuration, and which hook a request meets. Header names and values, the
  globs of hooks and the decoding of query strings are of third-party crates and are parameters, as
  are the environment and the files that hold secrets. A \<open>BTreeMap\<close> of the configuration is the list
  of its entries in the order of the keys.
\<close>

record hook_libs =
  hook_glob_ok :: "bool \<Rightarrow> string \<Rightarrow> bool"
  hook_glob_match :: "bool \<Rightarrow> string \<Rightarrow> string \<Rightarrow> bool"
  header_name :: "string \<Rightarrow> string option"
  header_value_ok :: "string \<Rightarrow> bool"
  form_pairs :: "string \<Rightarrow> (string \<times> string) list"
  hook_host_os :: host_os

section \<open>Configuration\<close>

record injected_header_config =
  inj_name :: string
  secret_env_var :: "string option"
  secret_file :: "string option"
  inj_prefix :: "string option"

record mitm_hook_match_config =
  hk_methods :: "string list"
  hk_path_prefixes :: "string list"
  hk_query :: "(string \<times> string list) list"
  hk_headers :: "(string \<times> string list) list"
  hk_body :: "string option"

record mitm_hook_actions_config =
  cfg_strip_request_headers :: "string list"
  cfg_inject_request_headers :: "injected_header_config list"

record mitm_hook_config =
  hk_host :: string
  hk_match :: mitm_hook_match_config
  hk_actions :: mitm_hook_actions_config

section \<open>Compiled hooks\<close>

text \<open>A compiled glob is compared by its pattern.\<close>

datatype path_matcher = PathPrefix string | PathGlob string

datatype value_matcher = ExactValue string | ValueGlob string

datatype secret_source = EnvVar string | SecretFile abs_path

record resolved_injected_header =
  res_name :: string
  res_value :: string
  res_source :: secret_source

record mitm_hook_matcher =
  m_methods :: "string list"
  m_path_prefixes :: "path_matcher list"
  m_query :: "(string \<times> value_matcher list) list"
  m_headers :: "(string \<times> value_matcher list) list"

record mitm_hook_actions =
  strip_request_headers :: "string list"
  inject_request_headers :: "resolved_injected_header list"

record mitm_hook =
  h_host :: string
  h_matcher :: mitm_hook_matcher
  h_actions :: mitm_hook_actions

type_synonym mitm_hooks_by_host = "string \<Rightarrow> mitm_hook list option"

section \<open>Validation and compilation\<close>

datatype matcher_pattern = LiteralPattern string | GlobPattern string

definition parse_matcher_pattern :: "string \<Rightarrow> net_error + matcher_pattern" where
  "parse_matcher_pattern pattern =
     (case strip_prefix ''literal:'' pattern of
        Some literal \<Rightarrow> Inr (LiteralPattern literal)
      | None \<Rightarrow>
          (case strip_prefix ''pattern:'' pattern of
             None \<Rightarrow> Inr (LiteralPattern pattern)
           | Some glob \<Rightarrow>
               if glob = [] then Inl (InvalidHook ''glob pattern must not be empty'')
               else Inr (GlobPattern glob)))"

definition compile_glob_matcher :: "hook_libs \<Rightarrow> string \<Rightarrow> bool \<Rightarrow> net_error + string" where
  "compile_glob_matcher libs pattern literal_separator =
     (if hook_glob_ok libs literal_separator pattern then Inr pattern else Inl (InvalidGlob pattern))"

definition compile_path_matchers :: "hook_libs \<Rightarrow> string list \<Rightarrow> net_error + path_matcher list" where
  "compile_path_matchers libs path_prefixes =
     collect_results (\<lambda>pre.
       try_bind (parse_matcher_pattern pre) (\<lambda>p.
         case p of
           LiteralPattern pre \<Rightarrow>
             if pre = [] then Inl (InvalidHook ''path_prefixes must not contain empty entries'')
             else Inr (PathPrefix pre)
         | GlobPattern glob \<Rightarrow> try_bind (compile_glob_matcher libs glob True) (\<lambda>g. Inr (PathGlob g))))
     path_prefixes"

definition compile_value_matchers :: "hook_libs \<Rightarrow> string list \<Rightarrow> net_error + value_matcher list" where
  "compile_value_matchers libs values =
     collect_results (\<lambda>value.
       try_bind (parse_matcher_pattern value) (\<lambda>p.
         case p of
           LiteralPattern value \<Rightarrow> Inr (ExactValue value)
         | GlobPattern glob \<Rightarrow> try_bind (compile_glob_matcher libs glob False) (\<lambda>g. Inr (ValueGlob g))))
     values"

definition normalize_hook_host :: "string \<Rightarrow> net_error + string" where
  "normalize_hook_host host =
     (let normalized = normalize_host host in
      if normalized = [] then Inl (InvalidHook ''host must not be empty'')
      else if CHR ''*'' \<in> set normalized then Inl (InvalidHook ''exact hosts only'')
      else Inr normalized)"

definition ascii_upper_char :: "char \<Rightarrow> char" where
  "ascii_upper_char c =
     (if CHR ''a'' \<le> c \<and> c \<le> CHR ''z'' then char_of (of_char c - 32 :: nat) else c)"

definition normalize_methods :: "string list \<Rightarrow> net_error + string list" where
  "normalize_methods methods =
     collect_results (\<lambda>m.
       let normalized = map ascii_upper_char (trim m) in
       if normalized = [] then Inl (InvalidHook ''methods must not contain empty entries'')
       else Inr normalized) methods"

definition normalize_query_name :: "string \<Rightarrow> net_error + string" where
  "normalize_query_name name =
     (if name = [] then Inl (InvalidHook ''query keys must not be empty'') else Inr name)"

fun validate_query_constraints :: "hook_libs \<Rightarrow> (string \<times> string list) list \<Rightarrow> net_error + unit" where
  "validate_query_constraints libs [] = Inr ()"
| "validate_query_constraints libs ((name, values) # query) =
     try_bind (normalize_query_name name) (\<lambda>normalized.
       if normalized = [] then Inl (InvalidHook ''query keys must not be empty'')
       else if values = [] then Inl (InvalidHook ''at least one allowed value'')
       else try_bind (compile_value_matchers libs values) (\<lambda>_. validate_query_constraints libs query))"

definition parse_header_name :: "hook_libs \<Rightarrow> string \<Rightarrow> net_error + string" where
  "parse_header_name libs name = ok_or (InvalidHook ''invalid header name'') (header_name libs name)"

fun validate_header_constraints :: "hook_libs \<Rightarrow> (string \<times> string list) list \<Rightarrow> net_error + unit" where
  "validate_header_constraints libs [] = Inr ()"
| "validate_header_constraints libs ((name, values) # headers) =
     try_bind (parse_header_name libs name) (\<lambda>_.
       try_bind (compile_value_matchers libs values) (\<lambda>_. validate_header_constraints libs headers))"

fun validate_strip_request_headers :: "hook_libs \<Rightarrow> string list \<Rightarrow> net_error + unit" where
  "validate_strip_request_headers libs [] = Inr ()"
| "validate_strip_request_headers libs (name # names) =
     try_bind (parse_header_name libs name) (\<lambda>_. validate_strip_request_headers libs names)"

definition parse_secret_file :: "hook_libs \<Rightarrow> string \<Rightarrow> net_error + abs_path" where
  "parse_secret_file libs path =
     (if trim path = [] then Inl (InvalidHook ''secret_file must not be empty'')
      else if \<not> path_is_absolute path then Inl (InvalidHook ''secret_file must be an absolute path'')
      else ok_or (InvalidHook ''secret_file must be an absolute path'')
             (from_absolute_path (hook_host_os libs) path))"

fun validate_injected_headers :: "hook_libs \<Rightarrow> injected_header_config list \<Rightarrow> net_error + unit" where
  "validate_injected_headers libs [] = Inr ()"
| "validate_injected_headers libs (header # headers) =
     try_bind (parse_header_name libs (inj_name header)) (\<lambda>_.
     try_bind
       (case (secret_env_var header, secret_file header) of
          (Some env, None) \<Rightarrow>
            if trim env = [] then Inl (InvalidHook ''secret_env_var must not be empty'') else Inr ()
        | (None, Some path) \<Rightarrow> try_bind (parse_secret_file libs path) (\<lambda>_. Inr ())
        | _ \<Rightarrow> Inl (InvalidHook ''exactly one secret source''))
       (\<lambda>_. validate_injected_headers libs headers))"

text \<open>The body of the loop of \<open>validate_mitm_hook_config\<close>.\<close>

definition validate_hook :: "hook_libs \<Rightarrow> mitm_hook_config \<Rightarrow> net_error + unit" where
  "validate_hook libs hook =
     try_bind (normalize_hook_host (hk_host hook)) (\<lambda>host.
     try_bind (normalize_methods (hk_methods (hk_match hook))) (\<lambda>methods.
     if methods = [] then Inl (InvalidHook ''methods must not be empty'') else
     try_bind (compile_path_matchers libs (hk_path_prefixes (hk_match hook))) (\<lambda>path_prefixes.
     if path_prefixes = [] then Inl (InvalidHook ''path_prefixes must not be empty'') else
     if hk_body (hk_match hook) \<noteq> None then Inl (InvalidHook ''body is not yet supported'') else
     try_bind (validate_query_constraints libs (hk_query (hk_match hook))) (\<lambda>_.
     try_bind (validate_header_constraints libs (hk_headers (hk_match hook))) (\<lambda>_.
     try_bind (validate_strip_request_headers libs (cfg_strip_request_headers (hk_actions hook))) (\<lambda>_.
     try_bind (validate_injected_headers libs (cfg_inject_request_headers (hk_actions hook))) (\<lambda>_.
     if host = [] then Inl (InvalidHook ''host must not be empty'') else Inr ())))))))"

definition validate_mitm_hook_config :: "hook_libs \<Rightarrow> bool \<Rightarrow> mitm_hook_config list \<Rightarrow> net_error + unit" where
  "validate_mitm_hook_config libs mitm hooks =
     (if hooks = [] then Inr ()
      else if \<not> mitm then Inl HooksNeedMitm
      else try_bind (collect_results (validate_hook libs) hooks) (\<lambda>_. Inr ()))"

definition compile_injected_header ::
  "hook_libs \<Rightarrow> (string \<Rightarrow> string option) \<Rightarrow> (abs_path \<Rightarrow> string option) \<Rightarrow> injected_header_config \<Rightarrow>
   net_error + resolved_injected_header" where
  "compile_injected_header libs resolve_env_var read_secret_file header =
     try_bind (parse_header_name libs (inj_name header)) (\<lambda>name.
     try_bind
       (case (secret_env_var header, secret_file header) of
          (Some env, None) \<Rightarrow>
            try_bind (ok_or (InvalidHook ''missing environment variable'') (resolve_env_var env))
              (\<lambda>value. Inr (value, EnvVar env))
        | (None, Some path) \<Rightarrow>
            try_bind (parse_secret_file libs path) (\<lambda>p.
            try_bind (ok_or (InvalidHook ''failed to read secret file'') (read_secret_file p))
              (\<lambda>value. Inr (value, SecretFile p)))
        | _ \<Rightarrow> Inl (InvalidHook ''exactly one secret source''))
       (\<lambda>(secret, source).
          let value = unwrap_or [] (inj_prefix header) @ secret in
          if header_value_ok libs value
          then Inr \<lparr> res_name = name, res_value = value, res_source = source \<rparr>
          else Inl (InvalidHook ''invalid value for injected header'')))"

text \<open>The body of the loop of \<open>compile_mitm_hooks_with_resolvers\<close>.\<close>

definition compile_hook ::
  "hook_libs \<Rightarrow> (string \<Rightarrow> string option) \<Rightarrow> (abs_path \<Rightarrow> string option) \<Rightarrow> mitm_hook_config \<Rightarrow>
   net_error + mitm_hook" where
  "compile_hook libs resolve_env_var read_secret_file hook =
     try_bind (normalize_hook_host (hk_host hook)) (\<lambda>host.
     try_bind (normalize_methods (hk_methods (hk_match hook))) (\<lambda>methods.
     try_bind (compile_path_matchers libs (hk_path_prefixes (hk_match hook))) (\<lambda>path_prefixes.
     try_bind (collect_results (\<lambda>(name, values).
                 try_bind (normalize_query_name name) (\<lambda>n.
                 try_bind (compile_value_matchers libs values) (\<lambda>vs. Inr (n, vs))))
               (hk_query (hk_match hook))) (\<lambda>query.
     try_bind (collect_results (\<lambda>(name, values).
                 try_bind (parse_header_name libs name) (\<lambda>n.
                 try_bind (compile_value_matchers libs values) (\<lambda>vs. Inr (n, vs))))
               (hk_headers (hk_match hook))) (\<lambda>headers.
     try_bind (collect_results (parse_header_name libs)
               (cfg_strip_request_headers (hk_actions hook))) (\<lambda>strip.
     try_bind (collect_results (compile_injected_header libs resolve_env_var read_secret_file)
               (cfg_inject_request_headers (hk_actions hook))) (\<lambda>inject.
       Inr \<lparr> h_host = host,
              h_matcher = \<lparr> m_methods = methods, m_path_prefixes = path_prefixes, m_query = query,
                            m_headers = headers \<rparr>,
              h_actions = \<lparr> strip_request_headers = strip, inject_request_headers = inject \<rparr> \<rparr>)))))))"

definition push_hook :: "mitm_hook \<Rightarrow> mitm_hooks_by_host \<Rightarrow> mitm_hooks_by_host" where
  "push_hook hook hooks = hooks(h_host hook \<mapsto> unwrap_or [] (hooks (h_host hook)) @ [hook])"

definition compile_mitm_hooks_with_resolvers ::
  "hook_libs \<Rightarrow> bool \<Rightarrow> mitm_hook_config list \<Rightarrow> (string \<Rightarrow> string option) \<Rightarrow> (abs_path \<Rightarrow> string option) \<Rightarrow>
   net_error + mitm_hooks_by_host" where
  "compile_mitm_hooks_with_resolvers libs mitm hooks resolve_env_var read_secret_file =
     try_bind (validate_mitm_hook_config libs mitm hooks) (\<lambda>_.
     try_bind (collect_results (compile_hook libs resolve_env_var read_secret_file) hooks) (\<lambda>compiled.
       Inr (fold push_hook compiled Map.empty)))"

text \<open>\<open>compile_mitm_hooks\<close>: the environment, and files whose text is trimmed.\<close>

definition compile_mitm_hooks ::
  "hook_libs \<Rightarrow> (string \<Rightarrow> string option) \<Rightarrow> (abs_path \<Rightarrow> string option) \<Rightarrow> bool \<Rightarrow> mitm_hook_config list \<Rightarrow>
   net_error + mitm_hooks_by_host" where
  "compile_mitm_hooks libs env files mitm hooks =
     compile_mitm_hooks_with_resolvers libs mitm hooks env (\<lambda>path. map_option trim (files path))"

section \<open>Evaluation\<close>

text \<open>A header value is \<open>None\<close> when it is not visible ASCII (\<open>to_str\<close> fails).\<close>

record http_request =
  req_method :: string
  req_path :: string
  req_query :: "string option"
  req_headers :: "(string \<times> string option) list"

fun path_matcher_matches :: "hook_libs \<Rightarrow> path_matcher \<Rightarrow> string \<Rightarrow> bool" where
  "path_matcher_matches libs (PathPrefix pre) candidate = starts_with pre candidate"
| "path_matcher_matches libs (PathGlob glob) candidate = hook_glob_match libs True glob candidate"

fun value_matcher_matches :: "hook_libs \<Rightarrow> value_matcher \<Rightarrow> string \<Rightarrow> bool" where
  "value_matcher_matches libs (ExactValue value) candidate = (value = candidate)"
| "value_matcher_matches libs (ValueGlob glob) candidate = hook_glob_match libs False glob candidate"

definition path_matches :: "hook_libs \<Rightarrow> path_matcher list \<Rightarrow> string \<Rightarrow> bool" where
  "path_matches libs path_prefixes path = list_ex (\<lambda>m. path_matcher_matches libs m path) path_prefixes"

definition query_matches :: "hook_libs \<Rightarrow> (string \<times> value_matcher list) list \<Rightarrow> http_request \<Rightarrow> bool" where
  "query_matches libs constraints req =
     (if constraints = [] then True
      else
        let pairs = form_pairs libs (unwrap_or [] (req_query req)) in
        list_all (\<lambda>(name, allowed).
          list_ex (\<lambda>(n, candidate). n = name \<and> list_ex (\<lambda>v. value_matcher_matches libs v candidate) allowed)
            pairs) constraints)"

definition headers_match :: "hook_libs \<Rightarrow> (string \<times> value_matcher list) list \<Rightarrow> http_request \<Rightarrow> bool" where
  "headers_match libs constraints req =
     list_all (\<lambda>(name, allowed).
       let actual = map snd (filter (\<lambda>(n, _). n = name) (req_headers req)) in
       if actual = [] then False
       else if allowed = [] then True
       else list_ex (\<lambda>value.
              case value of None \<Rightarrow> False
              | Some candidate \<Rightarrow> list_ex (\<lambda>v. value_matcher_matches libs v candidate) allowed) actual)
     constraints"

definition hook_matches :: "hook_libs \<Rightarrow> mitm_hook \<Rightarrow> http_request \<Rightarrow> bool" where
  "hook_matches libs hook req =
     (if map ascii_upper_char (req_method req) \<notin> set (m_methods (h_matcher hook)) then False
      else if \<not> path_matches libs (m_path_prefixes (h_matcher hook)) (req_path req) then False
      else if \<not> query_matches libs (m_query (h_matcher hook)) req then False
      else headers_match libs (m_headers (h_matcher hook)) req)"

datatype hook_evaluation = NoHooksForHost | Matched mitm_hook_actions | HookedHostNoMatch

definition evaluate_mitm_hooks ::
  "hook_libs \<Rightarrow> mitm_hooks_by_host \<Rightarrow> string \<Rightarrow> http_request \<Rightarrow> hook_evaluation" where
  "evaluate_mitm_hooks libs hooks_by_host host req =
     (case hooks_by_host (normalize_host host) of
        None \<Rightarrow> NoHooksForHost
      | Some hooks \<Rightarrow>
          (case find (\<lambda>hook. hook_matches libs hook req) hooks of
             Some hook \<Rightarrow> Matched (h_actions hook)
           | None \<Rightarrow> HookedHostNoMatch))"

section \<open>Compiled hooks belong to exact hosts\<close>

lemma fold_push_hook:
  "fold push_hook compiled hooks host =
     (if \<exists>h \<in> set compiled. h_host h = host
      then Some (unwrap_or [] (hooks host) @ filter (\<lambda>h. h_host h = host) compiled) else hooks host)"
proof (induction compiled arbitrary: hooks)
  case (Cons h compiled)
  have step: "push_hook h hooks host =
      (if h_host h = host then Some (unwrap_or [] (hooks host) @ [h]) else hooks host)"
    by (auto simp: push_hook_def)
  show ?case unfolding fold_simps Cons step by auto
qed simp

lemma compile_hook_host:
  "compile_hook libs env files cfg = Inr hook \<Longrightarrow>
   h_host hook = normalize_host (hk_host cfg) \<and> h_host hook \<noteq> [] \<and> CHR ''*'' \<notin> set (h_host hook)"
  by (auto simp: compile_hook_def result_simps normalize_hook_host_def Let_def split: if_splits)

end
