(* ===== verification/NetConfig.thy ===== *)
theory NetConfig
  imports MitmHook
begin

text \<open>
  The settings of the network proxy (\<open>network-proxy/src/config.rs\<close>) and the check of a configuration
  against the constraints an administrator manages (\<open>network-proxy/src/state.rs\<close>). An error names the
  field it rejects; the rest of its message is not modelled. The parser \<open>url::Url\<close> is a parameter.
\<close>

section \<open>Permissions of domains\<close>

datatype network_domain_permission = DomainNone | DomainAllow | DomainDeny

fun permission_rank :: "network_domain_permission \<Rightarrow> nat" where
  "permission_rank DomainNone = 0"
| "permission_rank DomainAllow = 1"
| "permission_rank DomainDeny = 2"

text \<open>The derived \<open>Ord\<close>: the order of the variants.\<close>

instantiation network_domain_permission :: linorder
begin

definition less_eq_network_domain_permission :: "network_domain_permission \<Rightarrow> network_domain_permission \<Rightarrow> bool" where
  "less_eq_network_domain_permission a b \<longleftrightarrow> permission_rank a \<le> permission_rank b"

definition less_network_domain_permission :: "network_domain_permission \<Rightarrow> network_domain_permission \<Rightarrow> bool" where
  "less_network_domain_permission a b \<longleftrightarrow> permission_rank a < permission_rank b"

instance
proof
  fix a b :: network_domain_permission
  show "a \<le> b \<Longrightarrow> b \<le> a \<Longrightarrow> a = b"
    by (cases a; cases b) (simp_all add: less_eq_network_domain_permission_def)
qed (auto simp: less_eq_network_domain_permission_def less_network_domain_permission_def)

end

type_synonym domain_entry = "string \<times> network_domain_permission"

text \<open>The loop of \<open>effective_entries\<close>: the patterns in order and the strongest permission of each.\<close>

fun effective_loop ::
  "domain_entry list \<Rightarrow> string list \<Rightarrow> (string \<Rightarrow> network_domain_permission option) \<Rightarrow>
   string list \<times> (string \<Rightarrow> network_domain_permission option)" where
  "effective_loop [] order perms = (order, perms)"
| "effective_loop ((pattern, permission) # entries) order perms =
     effective_loop entries
       (if perms pattern = None then order @ [pattern] else order)
       (perms(pattern \<mapsto> (case perms pattern of None \<Rightarrow> permission
                           | Some p \<Rightarrow> if permission > p then permission else p)))"

fun remove_each ::
  "string list \<Rightarrow> (string \<Rightarrow> network_domain_permission option) \<Rightarrow> domain_entry list" where
  "remove_each [] perms = []"
| "remove_each (pattern # order) perms =
     (case perms pattern of
        None \<Rightarrow> remove_each order perms
      | Some permission \<Rightarrow> (pattern, permission) # remove_each order (perms(pattern := None)))"

definition effective_entries :: "domain_entry list \<Rightarrow> domain_entry list" where
  "effective_entries entries = (case effective_loop entries [] Map.empty of (order, perms) \<Rightarrow> remove_each order perms)"

section \<open>Settings\<close>

datatype network_unix_socket_permission = SocketAllow | SocketDeny

datatype network_mode = Limited | Full

record network_proxy_settings =
  enabled :: bool
  proxy_url :: string
  enable_socks5 :: bool
  socks_url :: string
  enable_socks5_udp :: bool
  allow_upstream_proxy :: bool
  dangerously_allow_non_loopback_proxy :: bool
  dangerously_allow_all_unix_sockets :: bool
  mode :: network_mode
  domains :: "domain_entry list option"
  unix_sockets :: "(string \<times> network_unix_socket_permission) list option"
  allow_local_binding :: bool
  mitm :: bool
  mitm_hooks :: "mitm_hook_config list"

definition default_settings :: network_proxy_settings where
  "default_settings =
     \<lparr> enabled = False, proxy_url = ''http://127.0.0.1:3128'', enable_socks5 = True,
       socks_url = ''http://127.0.0.1:8081'', enable_socks5_udp = True, allow_upstream_proxy = True,
       dangerously_allow_non_loopback_proxy = False, dangerously_allow_all_unix_sockets = False,
       mode = Full, domains = None, unix_sockets = None, allow_local_binding = False,
       mitm = False, mitm_hooks = [] \<rparr>"

definition domain_entries :: "network_proxy_settings \<Rightarrow> network_domain_permission \<Rightarrow> string list option" where
  "domain_entries cfg permission =
     option_filter (\<lambda>entries. entries \<noteq> [])
       (map_option (\<lambda>ds. map fst (filter (\<lambda>(_, p). p = permission) (effective_entries ds))) (domains cfg))"

definition allowed_domains :: "network_proxy_settings \<Rightarrow> string list option" where
  "allowed_domains cfg = domain_entries cfg DomainAllow"

definition denied_domains :: "network_proxy_settings \<Rightarrow> string list option" where
  "denied_domains cfg = domain_entries cfg DomainDeny"

definition allow_unix_sockets :: "network_proxy_settings \<Rightarrow> string list" where
  "allow_unix_sockets cfg =
     (case unix_sockets cfg of None \<Rightarrow> []
      | Some entries \<Rightarrow> map fst (filter (\<lambda>(_, p). p = SocketAllow) entries))"

definition non_empty :: "'a list \<Rightarrow> 'a list option" where
  "non_empty xs = (if xs = [] then None else Some xs)"

definition upsert_domain_permission ::
  "network_proxy_settings \<Rightarrow> string \<Rightarrow> network_domain_permission \<Rightarrow> (string \<Rightarrow> string) \<Rightarrow> network_proxy_settings" where
  "upsert_domain_permission cfg host permission norm_fn =
     (let entries = unwrap_or [] (domains cfg) in
      cfg\<lparr> domains := non_empty (filter (\<lambda>(pattern, _). norm_fn pattern \<noteq> norm_fn host) entries @
                                [(host, permission)]) \<rparr>)"

fun push_domain_entries ::
  "network_domain_permission \<Rightarrow> string list \<Rightarrow> domain_entry list \<Rightarrow> domain_entry list" where
  "push_domain_entries permission [] entries = entries"
| "push_domain_entries permission (entry # rest) entries =
     push_domain_entries permission rest
       (if (entry, permission) \<in> set entries then entries else entries @ [(entry, permission)])"

definition set_domain_entries ::
  "network_proxy_settings \<Rightarrow> string list \<Rightarrow> network_domain_permission \<Rightarrow> network_proxy_settings" where
  "set_domain_entries cfg new permission =
     cfg\<lparr> domains := non_empty (push_domain_entries permission new
            (filter (\<lambda>(_, p). p \<noteq> permission) (unwrap_or [] (domains cfg)))) \<rparr>"

definition set_allowed_domains :: "network_proxy_settings \<Rightarrow> string list \<Rightarrow> network_proxy_settings" where
  "set_allowed_domains cfg new = set_domain_entries cfg new DomainAllow"

definition set_denied_domains :: "network_proxy_settings \<Rightarrow> string list \<Rightarrow> network_proxy_settings" where
  "set_denied_domains cfg new = set_domain_entries cfg new DomainDeny"

text \<open>\<open>BTreeMap::insert\<close> on the ascending list of the entries.\<close>

fun btree_insert :: "string \<Rightarrow> 'v \<Rightarrow> (string \<times> 'v) list \<Rightarrow> (string \<times> 'v) list" where
  "btree_insert k v [] = [(k, v)]"
| "btree_insert k v ((k', v') # entries) =
     (if k < k' then (k, v) # (k', v') # entries
      else if k = k' then (k, v) # entries
      else (k', v') # btree_insert k v entries)"

definition set_unix_socket_entries ::
  "network_proxy_settings \<Rightarrow> string list \<Rightarrow> network_unix_socket_permission \<Rightarrow> network_proxy_settings" where
  "set_unix_socket_entries cfg new permission =
     cfg\<lparr> unix_sockets := non_empty (fold (\<lambda>entry. btree_insert entry permission) new
            (filter (\<lambda>(_, existing). existing \<noteq> permission) (unwrap_or [] (unix_sockets cfg)))) \<rparr>"

definition set_allow_unix_sockets :: "network_proxy_settings \<Rightarrow> string list \<Rightarrow> network_proxy_settings" where
  "set_allow_unix_sockets cfg new = set_unix_socket_entries cfg new SocketAllow"

fun allows_method :: "network_mode \<Rightarrow> string \<Rightarrow> bool" where
  "allows_method Full method = True"
| "allows_method Limited method = (method \<in> {''GET'', ''HEAD'', ''OPTIONS''})"

section \<open>The addresses the proxy listens on\<close>

type_synonym socket_addr = "ip_addr \<times> nat"

definition loopback_at :: "nat \<Rightarrow> socket_addr" where
  "loopback_at port = (V4 (Ipv4 127 0 0 1), port)"

definition clamp_non_loopback :: "socket_addr \<Rightarrow> bool \<Rightarrow> socket_addr" where
  "clamp_non_loopback addr allow_non_loopback =
     (if ip_is_loopback (fst addr) then addr
      else if allow_non_loopback then addr
      else loopback_at (snd addr))"

definition clamp_bind_addrs ::
  "socket_addr \<Rightarrow> socket_addr \<Rightarrow> network_proxy_settings \<Rightarrow> socket_addr \<times> socket_addr" where
  "clamp_bind_addrs http_addr socks_addr cfg =
     (let http_addr = clamp_non_loopback http_addr (dangerously_allow_non_loopback_proxy cfg);
          socks_addr = clamp_non_loopback socks_addr (dangerously_allow_non_loopback_proxy cfg) in
      if allow_unix_sockets cfg = [] \<and> \<not> dangerously_allow_all_unix_sockets cfg then (http_addr, socks_addr)
      else (loopback_at (snd http_addr), loopback_at (snd socks_addr)))"

datatype validated_unix_socket_path = Native abs_path | UnixStyleAbsolute string

definition validated_unix_socket_path_parse :: "host_os \<Rightarrow> string \<Rightarrow> net_error + validated_unix_socket_path" where
  "validated_unix_socket_path_parse os socket_path =
     (if path_is_absolute socket_path
      then try_bind (ok_or (InvalidSocketPath socket_path) (from_absolute_path os socket_path))
             (\<lambda>path. Inr (Native path))
      else if starts_with ''/'' socket_path then Inr (UnixStyleAbsolute socket_path)
      else Inl (InvalidSocketPath socket_path))"

definition validate_unix_socket_allowlist_paths :: "host_os \<Rightarrow> network_proxy_settings \<Rightarrow> net_error + unit" where
  "validate_unix_socket_allowlist_paths os cfg =
     try_bind (collect_results (validated_unix_socket_path_parse os) (allow_unix_sockets cfg)) (\<lambda>_. Inr ())"

text \<open>\<open>str::parse::<u16>\<close>: digits, after an optional plus sign, of a number below \<open>2 ^ 16\<close>.\<close>

definition parse_u16 :: "string \<Rightarrow> nat option" where
  "parse_u16 s =
     (let digits = (case strip_prefix ''+'' s of Some r \<Rightarrow> r | None \<Rightarrow> s) in
      if digits = [] \<or> \<not> list_all is_ascii_digit digits then None
      else option_filter (\<lambda>n. n < 65536) (Some (foldl (\<lambda>n c. n * 10 + (of_char c - 48)) 0 digits)))"

definition missing_host :: net_error where
  "missing_host = InvalidValue ''missing host in network proxy address''"

definition parse_host_port_fallback :: "string \<Rightarrow> nat \<Rightarrow> net_error + (string \<times> nat)" where
  "parse_host_port_fallback input default_port =
     (let without_scheme = (case split_once_str ''://'' input of Some (_, rest) \<Rightarrow> rest | None \<Rightarrow> input);
          host_port = hd (split_on CHR ''/'' without_scheme);
          host_port = (case rsplit_once CHR ''@'' host_port of Some (_, rest) \<Rightarrow> rest | None \<Rightarrow> host_port) in
      case (if starts_with ''['' host_port then find_sub '']'' host_port else None) of
        Some fin \<Rightarrow>
          let host = drop 1 (take fin host_port);
              port = unwrap_or default_port
                       (Option.bind (strip_prefix '':'' (drop (fin + 1) host_port)) parse_u16) in
          if host = [] then Inl missing_host else Inr (host, port)
      | None \<Rightarrow>
          (case (if length (filter (\<lambda>b. b = CHR '':'') host_port) = 1
                 then rsplit_once CHR '':'' host_port else None) of
             Some (host, port) \<Rightarrow>
               if host = [] then Inl missing_host else Inr (host, unwrap_or default_port (parse_u16 port))
           | None \<Rightarrow> if host_port = [] then Inl missing_host else Inr (host_port, default_port)))"

definition trim_brackets :: "string \<Rightarrow> string" where
  "trim_brackets s =
     rev (dropWhile (\<lambda>c. c = CHR ''['' \<or> c = CHR '']'') (rev
       (dropWhile (\<lambda>c. c = CHR ''['' \<or> c = CHR '']'') s)))"

text \<open>\<open>url_parse\<close> gives the host and the port of a URL that parses.\<close>

definition parse_host_port ::
  "(string \<Rightarrow> (string option \<times> nat option) option) \<Rightarrow> string \<Rightarrow> nat \<Rightarrow> net_error + (string \<times> nat)" where
  "parse_host_port url_parse url default_port =
     (let trimmed = trim url in
      if trimmed = [] then Inl missing_host
      else if (case parse_ip trimmed of Some (V6 _) \<Rightarrow> True | _ \<Rightarrow> False) \<and> \<not> starts_with ''['' trimmed
      then Inr (trimmed, default_port)
      else
        let candidate = (if str_contains ''://'' trimmed then trimmed else ''http://'' @ trimmed) in
        case url_parse candidate of
          Some (Some host, port) \<Rightarrow>
            let host = trim_brackets host in
            if host = [] then Inl missing_host else Inr (host, unwrap_or default_port port)
        | _ \<Rightarrow> parse_host_port_fallback trimmed default_port)"

definition resolve_addr ::
  "(string \<Rightarrow> (string option \<times> nat option) option) \<Rightarrow> string \<Rightarrow> nat \<Rightarrow> net_error + socket_addr" where
  "resolve_addr url_parse url default_port =
     try_bind (parse_host_port url_parse url default_port) (\<lambda>(host, port).
       let host = (if eq_ignore_ascii_case host ''localhost'' then ''127.0.0.1'' else host) in
       case parse_ip host of Some ip \<Rightarrow> Inr (ip, port) | None \<Rightarrow> Inr (loopback_at port))"

definition resolve_runtime ::
  "host_os \<Rightarrow> (string \<Rightarrow> (string option \<times> nat option) option) \<Rightarrow> network_proxy_settings \<Rightarrow>
   net_error + (socket_addr \<times> socket_addr)" where
  "resolve_runtime os url_parse cfg =
     try_bind (validate_unix_socket_allowlist_paths os cfg) (\<lambda>_.
     try_bind (resolve_addr url_parse (proxy_url cfg) 3128) (\<lambda>http_addr.
     try_bind (resolve_addr url_parse (socks_url cfg) 8081) (\<lambda>socks_addr.
       Inr (clamp_bind_addrs http_addr socks_addr cfg))))"

section \<open>Managed constraints\<close>

record network_proxy_constraints =
  max_enabled :: "bool option"
  max_mode :: "network_mode option"
  max_allow_upstream_proxy :: "bool option"
  max_allow_non_loopback_proxy :: "bool option"
  max_allow_all_unix_sockets :: "bool option"
  managed_allowed_domains :: "string list option"
  allowlist_expansion_enabled :: "bool option"
  managed_denied_domains :: "string list option"
  denylist_expansion_enabled :: "bool option"
  managed_allow_unix_sockets :: "string list option"
  max_allow_local_binding :: "bool option"

fun network_mode_rank :: "network_mode \<Rightarrow> nat" where
  "network_mode_rank Limited = 0"
| "network_mode_rank Full = 1"

definition ensure_value :: "bool \<Rightarrow> string \<Rightarrow> net_error + unit" where
  "ensure_value condition field_name = (if condition then Inr () else Inl (InvalidValue field_name))"

definition validate_non_global_wildcard_domain_patterns :: "string \<Rightarrow> string list \<Rightarrow> net_error + unit" where
  "validate_non_global_wildcard_domain_patterns field_name patterns =
     (case find is_global_wildcard_domain_pattern patterns of
        Some _ \<Rightarrow> Inl (InvalidValue field_name) | None \<Rightarrow> Inr ())"

definition lowercase_set :: "string list \<Rightarrow> string set" where
  "lowercase_set entries = set (map to_ascii_lowercase entries)"

text \<open>The check of the allowlist, with and without a fixed or growing managed list.\<close>

definition validate_allowed_domains ::
  "net_libs \<Rightarrow> network_proxy_settings \<Rightarrow> network_proxy_constraints \<Rightarrow> net_error + unit" where
  "validate_allowed_domains libs cfg constraints =
     (case managed_allowed_domains constraints of
        None \<Rightarrow> Inr ()
      | Some managed \<Rightarrow>
          try_bind (validate_non_global_wildcard_domain_patterns ''network.allowed_domains'' managed) (\<lambda>_.
            let candidate = unwrap_or [] (allowed_domains cfg);
                overrides = lowercase_set (unwrap_or [] (denied_domains cfg)) in
            case allowlist_expansion_enabled constraints of
              Some True \<Rightarrow>
                ensure_value (lowercase_set managed - lowercase_set candidate - overrides = {})
                  ''network.allowed_domains''
            | Some False \<Rightarrow>
                ensure_value (lowercase_set candidate = lowercase_set managed - overrides)
                  ''network.allowed_domains''
            | None \<Rightarrow>
                ensure_value
                  (filter (\<lambda>entry. \<not> list_ex (\<lambda>m. pattern_allows m (parse_for_constraints libs entry))
                             (map (parse_for_constraints libs) managed)) candidate = [])
                  ''network.allowed_domains''))"

definition validate_denied_domains ::
  "network_proxy_settings \<Rightarrow> network_proxy_constraints \<Rightarrow> net_error + unit" where
  "validate_denied_domains cfg constraints =
     (case managed_denied_domains constraints of
        None \<Rightarrow> Inr ()
      | Some managed \<Rightarrow>
          try_bind (validate_non_global_wildcard_domain_patterns ''network.denied_domains'' managed) (\<lambda>_.
            let candidate = lowercase_set (unwrap_or [] (denied_domains cfg)) in
            case denylist_expansion_enabled constraints of
              Some False \<Rightarrow> ensure_value (candidate = lowercase_set managed) ''network.denied_domains''
            | _ \<Rightarrow> ensure_value (lowercase_set managed - candidate = {}) ''network.denied_domains''))"

definition validate_policy_against_constraints ::
  "net_libs \<Rightarrow> hook_libs \<Rightarrow> network_proxy_settings \<Rightarrow> network_proxy_constraints \<Rightarrow> net_error + unit" where
  "validate_policy_against_constraints libs hlibs cfg constraints =
     try_bind (map_err (\<lambda>_. InvalidValue ''network.mitm_hooks'')
                 (validate_mitm_hook_config hlibs (mitm cfg) (mitm_hooks cfg))) (\<lambda>_.
     try_bind (validate_non_global_wildcard_domain_patterns ''network.denied_domains''
                 (unwrap_or [] (denied_domains cfg))) (\<lambda>_.
     try_bind (case max_enabled constraints of None \<Rightarrow> Inr ()
               | Some m \<Rightarrow> ensure_value (\<not> (enabled cfg \<and> \<not> m)) ''network.enabled'') (\<lambda>_.
     try_bind (case max_mode constraints of None \<Rightarrow> Inr ()
               | Some m \<Rightarrow> ensure_value (\<not> network_mode_rank (mode cfg) > network_mode_rank m) ''network.mode'') (\<lambda>_.
     try_bind (ensure_value (\<not> (max_allow_upstream_proxy constraints = Some False \<and> allow_upstream_proxy cfg))
                 ''network.allow_upstream_proxy'') (\<lambda>_.
     try_bind (ensure_value (\<not> (max_allow_non_loopback_proxy constraints = Some False \<and>
                                 dangerously_allow_non_loopback_proxy cfg))
                 ''network.dangerously_allow_non_loopback_proxy'') (\<lambda>_.
     try_bind (ensure_value (\<not> (dangerously_allow_all_unix_sockets cfg \<and>
                                 \<not> unwrap_or (managed_allow_unix_sockets constraints = None)
                                     (max_allow_all_unix_sockets constraints)))
                 ''network.dangerously_allow_all_unix_sockets'') (\<lambda>_.
     try_bind (case max_allow_local_binding constraints of None \<Rightarrow> Inr ()
               | Some m \<Rightarrow> ensure_value (\<not> (allow_local_binding cfg \<and> \<not> m)) ''network.allow_local_binding'') (\<lambda>_.
     try_bind (validate_allowed_domains libs cfg constraints) (\<lambda>_.
     try_bind (validate_denied_domains cfg constraints) (\<lambda>_.
     case managed_allow_unix_sockets constraints of None \<Rightarrow> Inr ()
     | Some managed \<Rightarrow>
         ensure_value (filter (\<lambda>entry. to_ascii_lowercase entry \<notin> lowercase_set managed)
                         (allow_unix_sockets cfg) = []) ''network.allow_unix_sockets''))))))))))"

section \<open>Effective permissions\<close>

text \<open>The strongest permission an entry list gives a pattern.\<close>

definition strongest :: "domain_entry list \<Rightarrow> string \<Rightarrow> network_domain_permission option" where
  "strongest entries pattern =
     (let ps = map snd (filter (\<lambda>(q, _). q = pattern) entries) in
      if ps = [] then None else Some (Max (set ps)))"

lemma effective_loop_spec:
  "effective_loop entries order perms = (order', perms') \<Longrightarrow> distinct order \<Longrightarrow> set order = dom perms \<Longrightarrow>
   distinct order' \<and> set order' = dom perms' \<and>
   (\<forall>q. perms' q = (case strongest entries q of None \<Rightarrow> perms q
                    | Some p \<Rightarrow> Some (case perms q of None \<Rightarrow> p | Some p0 \<Rightarrow> max p0 p)))"
proof (induction entries order perms rule: effective_loop.induct)
  case (1 order perms)
  then show ?case by (simp add: strongest_def)
next
  case (2 pattern permission entries order perms)
  define order1 where "order1 = (if perms pattern = None then order @ [pattern] else order)"
  define perms1 where "perms1 = perms(pattern \<mapsto> (case perms pattern of None \<Rightarrow> permission
                           | Some p \<Rightarrow> if permission > p then permission else p))"
  have run: "effective_loop entries order1 perms1 = (order', perms')"
    using 2(2) unfolding effective_loop.simps order1_def perms1_def .
  have "distinct order1" "set order1 = dom perms1"
    using 2(3,4) by (auto simp: order1_def perms1_def domIff)
  from 2(1) [folded order1_def perms1_def, OF run this]
  have IH: "distinct order' \<and> set order' = dom perms'"
    "\<And>q. perms' q = (case strongest entries q of None \<Rightarrow> perms1 q
        | Some p \<Rightarrow> Some (case perms1 q of None \<Rightarrow> p | Some p0 \<Rightarrow> max p0 p))" by auto
  have step: "strongest ((pattern, permission) # entries) q =
      (if q = pattern then Some (case strongest entries q of None \<Rightarrow> permission | Some p \<Rightarrow> max permission p)
       else strongest entries q)" for q
    by (simp add: strongest_def Let_def del: set_filter set_map)
  have perms1: "perms1 q = (if q = pattern then Some (case perms q of None \<Rightarrow> permission
      | Some p \<Rightarrow> max p permission) else perms q)" for q
    by (simp add: perms1_def max_def less_le split: option.splits)
  have "perms' q = (case strongest ((pattern, permission) # entries) q of None \<Rightarrow> perms q
      | Some p \<Rightarrow> Some (case perms q of None \<Rightarrow> p | Some p0 \<Rightarrow> max p0 p))" for q
    unfolding IH(2) step perms1
    by (cases "q = pattern"; cases "strongest entries q"; cases "perms q") (simp_all add: max.assoc)
  with IH(1) show ?case by blast
qed

lemma remove_each_conv:
  "distinct order \<Longrightarrow> set order \<subseteq> dom perms \<Longrightarrow> remove_each order perms = map (\<lambda>q. (q, the (perms q))) order"
proof (induction order arbitrary: perms)
  case (Cons q order)
  then obtain p where p: "perms q = Some p" by auto
  with Cons have "remove_each order (perms(q := None)) = map (\<lambda>r. (r, the ((perms(q := None)) r))) order"
    by (intro Cons.IH) auto
  also have "\<dots> = map (\<lambda>r. (r, the (perms r))) order" using Cons.prems(1) by auto
  finally show ?case using p by simp
qed simp

lemma effective_entries_spec:
  "distinct (map fst (effective_entries entries))"
  "(q, p) \<in> set (effective_entries entries) \<longleftrightarrow> strongest entries q = Some p"
proof -
  obtain order perms where l: "effective_loop entries [] Map.empty = (order, perms)" by fastforce
  from effective_loop_spec [OF l] have s: "distinct order" "set order = dom perms"
    "\<And>q. perms q = strongest entries q" by (auto split: option.splits)
  have e: "effective_entries entries = map (\<lambda>q. (q, the (perms q))) order"
    using remove_each_conv s(1,2) by (simp add: effective_entries_def l)
  show "distinct (map fst (effective_entries entries))" using s(1) by (simp add: e comp_def)
  show "(q, p) \<in> set (effective_entries entries) \<longleftrightarrow> strongest entries q = Some p"
    using s(2,3) by (force simp: e)
qed

lemma domain_entries_mem:
  "q \<in> set (unwrap_or [] (domain_entries cfg p)) \<longleftrightarrow> strongest (unwrap_or [] (domains cfg)) q = Some p"
proof (cases "domains cfg")
  case None
  then show ?thesis by (simp add: domain_entries_def strongest_def)
next
  case (Some ds)
  have "unwrap_or [] (domain_entries cfg p) = map fst (filter (\<lambda>(_, r). r = p) (effective_entries ds))"
    by (simp add: domain_entries_def Some option_filter_conv)
  with effective_entries_spec(2) [of q p ds] Some show ?thesis by force
qed

section \<open>Setting the lists\<close>

text \<open>A \<open>BTreeMap\<close> has ascending keys.\<close>

definition ascending :: "(string \<times> 'v) list \<Rightarrow> bool" where
  "ascending entries \<longleftrightarrow> sorted_wrt (<) (map fst entries)"

lemma btree_insert_keys: "fst ` set (btree_insert k v entries) = insert k (fst ` set entries)"
  by (induction k v entries rule: btree_insert.induct) auto

lemma btree_insert_ascending: "ascending entries \<Longrightarrow> ascending (btree_insert k v entries)"
proof (induction k v entries rule: btree_insert.induct)
  case (2 k v k' v' entries)
  have "x \<in> fst ` set (btree_insert k v entries) \<Longrightarrow> x = k \<or> x \<in> fst ` set entries" for x
    by (simp add: btree_insert_keys)
  with 2 show ?case by (fastforce simp: ascending_def)
qed (simp add: ascending_def)

lemma btree_insert_mem:
  "ascending entries \<Longrightarrow>
   (q, p) \<in> set (btree_insert k v entries) \<longleftrightarrow> (if q = k then p = v else (q, p) \<in> set entries)"
  by (induction k v entries rule: btree_insert.induct) (auto simp: ascending_def)

lemma fold_insert_mem:
  "ascending entries \<Longrightarrow>
   (q, p) \<in> set (fold (\<lambda>k. btree_insert k v) new entries) \<longleftrightarrow> (if q \<in> set new then p = v else (q, p) \<in> set entries)"
  by (induction new arbitrary: entries) (auto simp: btree_insert_ascending btree_insert_mem)

text \<open>The allowed sockets are exactly the ones that were set, whatever was allowed or denied before.\<close>

lemma allow_unix_sockets_set:
  assumes "ascending (unwrap_or [] (unix_sockets cfg))"
  shows "set (allow_unix_sockets (set_allow_unix_sockets cfg new)) = set new"
proof -
  let ?kept = "filter (\<lambda>(_, existing). existing \<noteq> SocketAllow) (unwrap_or [] (unix_sockets cfg))"
  let ?entries = "fold (\<lambda>k. btree_insert k SocketAllow) new ?kept"
  have "ascending ?kept" using assms by (simp add: ascending_def sorted_wrt_map sorted_wrt_filter)
  then have "(q, SocketAllow) \<in> set ?entries \<longleftrightarrow> q \<in> set new" for q by (simp add: fold_insert_mem)
  moreover have "set (allow_unix_sockets (set_allow_unix_sockets cfg new)) = {q. (q, SocketAllow) \<in> set ?entries}"
    by (force simp: allow_unix_sockets_def set_allow_unix_sockets_def set_unix_socket_entries_def non_empty_def)
  ultimately show ?thesis by simp
qed

lemma unwrap_non_empty [simp]: "unwrap_or [] (non_empty xs) = xs"
  by (simp add: non_empty_def)

lemma push_domain_entries_mem:
  "e \<in> set (push_domain_entries permission new entries) \<longleftrightarrow>
   e \<in> set entries \<or> (fst e \<in> set new \<and> snd e = permission)"
  by (induction permission new entries rule: push_domain_entries.induct) auto

lemma strongest_deny: "strongest entries q = Some DomainDeny \<longleftrightarrow> (q, DomainDeny) \<in> set entries"
proof -
  have top: "p \<le> DomainDeny" for p by (cases p) (simp_all add: less_eq_network_domain_permission_def)
  let ?ps = "map snd (filter (\<lambda>(r, _). r = q) entries)"
  have "DomainDeny \<in> set ?ps \<longleftrightarrow> (q, DomainDeny) \<in> set entries" by force
  moreover have "?ps \<noteq> [] \<Longrightarrow> Max (set ?ps) = DomainDeny \<longleftrightarrow> DomainDeny \<in> set ?ps"
    using top by (metis List.finite_set Max_eq_iff set_empty)
  ultimately show ?thesis by (cases "?ps = []") (auto simp: strongest_def Let_def)
qed

text \<open>The denied domains are exactly the ones that were set: a denial is the strongest permission.\<close>

lemma denied_domains_set: "set (unwrap_or [] (denied_domains (set_denied_domains cfg new))) = set new"
  by (auto simp: denied_domains_def domain_entries_mem strongest_deny set_denied_domains_def
      set_domain_entries_def push_domain_entries_mem)

end
