(* ===== verification/NetRuntime.thy ===== *)
theory NetRuntime
  imports NetConfig
begin

text \<open>
  The live state of the network proxy (\<open>network-proxy/src/runtime.rs\<close>, \<open>build_config_state\<close> of
  \<open>state.rs\<close>), its decision on a request (\<open>network_policy.rs\<close>) and its check of the address it
  connects to (\<open>connect_policy.rs\<close>). The reloader is the list of what its next checks find; when the
  list is used up, no reload is needed. The operations that read the state, release the lock and
  take it again for writing get the writes of other tasks in between as a list, one for each of
  their attempts. The resolver, secrets, canonical paths and the certificate authority are
  parameters. Logging is not modelled.
\<close>

datatype dns_result = Resolved "ip_addr list" | LookupError | LookupTimeout

record net_world =
  nw_libs :: net_libs
  nw_hook_libs :: hook_libs
  nw_env :: "string \<Rightarrow> string option"
  nw_files :: "abs_path \<Rightarrow> string option"
  nw_ca_ok :: bool
  nw_dns :: "string \<Rightarrow> nat \<Rightarrow> dns_result"
  nw_canonicalize :: "abs_path \<Rightarrow> abs_path option"

section \<open>State\<close>

datatype host_block_reason = Denied | NotAllowed | NotAllowedLocal

fun block_reason_str :: "host_block_reason \<Rightarrow> string" where
  "block_reason_str Denied = ''denied''"
| "block_reason_str NotAllowed = ''not_allowed''"
| "block_reason_str NotAllowedLocal = ''not_allowed_local''"

datatype host_block_decision = Allowed | Blocked host_block_reason

record blocked_request =
  br_host :: string
  br_reason :: string
  br_client :: "string option"
  br_method :: "string option"
  br_mode :: "network_mode option"
  br_protocol :: string
  br_decision :: "string option"
  br_source :: "string option"
  br_port :: "nat option"
  br_timestamp :: int

text \<open>The part of \<open>MitmState\<close> that comes from the configuration.\<close>

record mitm_upstream_config =
  up_allow_upstream_proxy :: bool
  up_allow_local_binding :: bool

record config_state =
  cs_config :: network_proxy_settings
  cs_allow_set :: glob_set
  cs_deny_set :: glob_set
  cs_mitm :: "mitm_upstream_config option"
  cs_mitm_hooks :: mitm_hooks_by_host
  cs_constraints :: network_proxy_constraints
  cs_blocked :: "blocked_request list"
  cs_blocked_total :: nat

definition mitm_state_new :: "net_world \<Rightarrow> mitm_upstream_config \<Rightarrow> net_error + mitm_upstream_config" where
  "mitm_state_new w upstream = (if nw_ca_ok w then Inr upstream else Inl MitmCaError)"

definition build_config_state ::
  "net_world \<Rightarrow> network_proxy_settings \<Rightarrow> network_proxy_constraints \<Rightarrow> net_error + config_state" where
  "build_config_state w cfg constraints =
     try_bind (validate_unix_socket_allowlist_paths (hook_host_os (nw_hook_libs w)) cfg) (\<lambda>_.
     try_bind (validate_non_global_wildcard_domain_patterns ''network.denied_domains''
                 (unwrap_or [] (denied_domains cfg))) (\<lambda>_.
     try_bind (compile_denylist_globset (nw_libs w) (unwrap_or [] (denied_domains cfg))) (\<lambda>deny_set.
     try_bind (compile_allowlist_globset (nw_libs w) (unwrap_or [] (allowed_domains cfg))) (\<lambda>allow_set.
     try_bind (compile_mitm_hooks (nw_hook_libs w) (nw_env w) (nw_files w) (mitm cfg) (mitm_hooks cfg)) (\<lambda>hooks.
     try_bind (if mitm cfg
               then try_bind (mitm_state_new w \<lparr> up_allow_upstream_proxy = allow_upstream_proxy cfg,
                                                up_allow_local_binding = allow_local_binding cfg \<rparr>)
                      (\<lambda>m. Inr (Some m))
               else Inr None) (\<lambda>m.
       Inr \<lparr> cs_config = cfg, cs_allow_set = allow_set, cs_deny_set = deny_set, cs_mitm = m,
              cs_mitm_hooks = hooks, cs_constraints = constraints, cs_blocked = [],
              cs_blocked_total = 0 \<rparr>))))))"

record net_proxy =
  np_state :: config_state
  np_reloads :: "(net_error + config_state option) list"

type_synonym 'a proxy_result = "(net_error + 'a) \<times> net_proxy"

section \<open>Reloading\<close>

text \<open>
  A reload is one step here. The source reads the blocked requests under the read lock and writes the
  new state under a later write lock, so a request that another task records in between is lost there.
\<close>

definition reload_if_needed :: "net_proxy \<Rightarrow> unit proxy_result" where
  "reload_if_needed p =
     (case np_reloads p of
        [] \<Rightarrow> (Inr (), p)
      | found # later \<Rightarrow>
          let p = p\<lparr> np_reloads := later \<rparr> in
          case found of
            Inl e \<Rightarrow> (Inl e, p)
          | Inr None \<Rightarrow> (Inr (), p)
          | Inr (Some new_state) \<Rightarrow>
              (Inr (), p\<lparr> np_state := new_state\<lparr> cs_blocked := cs_blocked (np_state p),
                                              cs_blocked_total := cs_blocked_total (np_state p) \<rparr> \<rparr>))"

definition after_reload :: "net_proxy \<Rightarrow> (net_proxy \<Rightarrow> 'a proxy_result) \<Rightarrow> 'a proxy_result" where
  "after_reload p f = (case reload_if_needed p of (Inl e, p) \<Rightarrow> (Inl e, p) | (Inr _, p) \<Rightarrow> f p)"

text \<open>\<open>reloaded\<close> is what \<open>reload_now\<close> returns.\<close>

definition force_reload :: "net_error + config_state \<Rightarrow> net_proxy \<Rightarrow> unit proxy_result" where
  "force_reload reloaded p =
     (case reloaded of
        Inr new_state \<Rightarrow> (Inr (), p\<lparr> np_state := new_state\<lparr> cs_blocked := cs_blocked (np_state p) \<rparr> \<rparr>)
      | Inl e \<Rightarrow> (Inl e, p))"

definition replace_config_state :: "config_state \<Rightarrow> net_proxy \<Rightarrow> unit proxy_result" where
  "replace_config_state new_state p =
     after_reload p (\<lambda>p.
       (Inr (), p\<lparr> np_state := new_state\<lparr> cs_blocked := cs_blocked (np_state p),
                                       cs_blocked_total := cs_blocked_total (np_state p) \<rparr> \<rparr>))"

definition current_cfg :: "net_proxy \<Rightarrow> network_proxy_settings proxy_result" where
  "current_cfg p = after_reload p (\<lambda>p. (Inr (cs_config (np_state p)), p))"

definition current_patterns :: "net_proxy \<Rightarrow> (string list \<times> string list) proxy_result" where
  "current_patterns p =
     after_reload p (\<lambda>p. (Inr (unwrap_or [] (allowed_domains (cs_config (np_state p))),
                               unwrap_or [] (denied_domains (cs_config (np_state p)))), p))"

definition method_allowed :: "string \<Rightarrow> net_proxy \<Rightarrow> bool proxy_result" where
  "method_allowed method p = after_reload p (\<lambda>p. (Inr (allows_method (mode (cs_config (np_state p))) method), p))"

definition local_binding_allowed :: "net_proxy \<Rightarrow> bool proxy_result" where
  "local_binding_allowed p = after_reload p (\<lambda>p. (Inr (allow_local_binding (cs_config (np_state p))), p))"

section \<open>The decision on a host\<close>

definition host_resolves_to_non_public_ip :: "net_world \<Rightarrow> string \<Rightarrow> nat \<Rightarrow> bool" where
  "host_resolves_to_non_public_ip w host port =
     (case parse_ip host of
        Some ip \<Rightarrow> is_non_public_ip ip
      | None \<Rightarrow>
          (case nw_dns w host port of
             Resolved addrs \<Rightarrow> list_ex is_non_public_ip addrs
           | LookupError \<Rightarrow> True
           | LookupTimeout \<Rightarrow> True))"

definition is_local_literal :: "string \<Rightarrow> bool" where
  "is_local_literal host =
     (if is_loopback_host host then True
      else case parse_ip (unwrap_or host (unscoped_ip_literal host)) of
             Some ip \<Rightarrow> is_non_public_ip ip
           | None \<Rightarrow> False)"

text \<open>The decision of \<open>host_blocked\<close> once the state is read.\<close>

definition decide_host :: "net_world \<Rightarrow> config_state \<Rightarrow> string \<Rightarrow> nat \<Rightarrow> host_block_decision" where
  "decide_host w st host port =
     (case host_parse host of
        Inl _ \<Rightarrow> Blocked NotAllowed
      | Inr host \<Rightarrow>
          if globset_matches_host_or_unscoped (nw_libs w) (cs_deny_set st) host then Blocked Denied
          else
            let listed = allowed_domains (cs_config st);
                is_allowlisted = globset_matches_host_or_unscoped (nw_libs w) (cs_allow_set st) host;
                verdict = (if listed = None \<or> \<not> is_allowlisted then Blocked NotAllowed else Allowed) in
            if \<not> allow_local_binding (cs_config st)
            then
              if is_local_literal host
              then (if \<not> is_explicit_local_allowlisted (unwrap_or [] listed) host
                    then Blocked NotAllowedLocal else verdict)
              else if host_resolves_to_non_public_ip w host port then Blocked NotAllowedLocal
              else verdict
            else verdict)"

definition host_blocked :: "net_world \<Rightarrow> string \<Rightarrow> nat \<Rightarrow> net_proxy \<Rightarrow> host_block_decision proxy_result" where
  "host_blocked w host port p = after_reload p (\<lambda>p. (Inr (decide_host w (np_state p) host port), p))"

datatype network_protocol = Http | HttpsConnect | Socks5Tcp | Socks5Udp

datatype network_policy_decision = PolicyDeny | PolicyAsk

datatype network_decision_source = BaselinePolicy | ModeGuard | ProxyState | Decider

record network_policy_request =
  nr_protocol :: network_protocol
  nr_host :: string
  nr_port :: nat
  nr_client_addr :: "string option"
  nr_method :: "string option"
  nr_command :: "string option"
  nr_exec_policy_hint :: "string option"

datatype network_decision =
    NetworkAllow
  | NetworkDeny string network_decision_source network_policy_decision

definition deny_with_source :: "string \<Rightarrow> network_decision_source \<Rightarrow> network_decision" where
  "deny_with_source reason source =
     NetworkDeny (if reason = [] then ''policy_denied'' else reason) source PolicyDeny"

definition ask_with_source :: "string \<Rightarrow> network_decision_source \<Rightarrow> network_decision" where
  "ask_with_source reason source =
     NetworkDeny (if reason = [] then ''policy_denied'' else reason) source PolicyAsk"

fun map_decider_decision :: "network_decision \<Rightarrow> network_decision" where
  "map_decider_decision NetworkAllow = NetworkAllow"
| "map_decider_decision (NetworkDeny reason _ decision) = NetworkDeny reason Decider decision"

definition evaluate_host_policy ::
  "net_world \<Rightarrow> (network_policy_request \<Rightarrow> network_decision) option \<Rightarrow> network_policy_request \<Rightarrow> net_proxy \<Rightarrow>
   network_decision proxy_result" where
  "evaluate_host_policy w decider request p =
     (case host_blocked w (nr_host request) (nr_port request) p of
        (Inl e, p) \<Rightarrow> (Inl e, p)
      | (Inr host_decision, p) \<Rightarrow>
          (Inr (case host_decision of
                  Allowed \<Rightarrow> NetworkAllow
                | Blocked NotAllowed \<Rightarrow>
                    (case decider of
                       Some decide \<Rightarrow> map_decider_decision (decide request)
                     | None \<Rightarrow> deny_with_source (block_reason_str NotAllowed) BaselinePolicy)
                | Blocked reason \<Rightarrow> deny_with_source (block_reason_str reason) BaselinePolicy), p))"

section \<open>The connection\<close>

text \<open>
  A connector checks the address it is about to connect to: a non-public one needs local binding,
  read from the live state or fixed when the connector was made. A request that carries the address
  of an upstream proxy goes through that proxy and is not checked.
\<close>

datatype target_policy = FixedBinding bool | StateBinding

datatype connect_outcome = TargetRejected | ConnectAttempted | UpstreamAttempted

definition target_allow_local_binding :: "target_policy \<Rightarrow> net_proxy \<Rightarrow> bool proxy_result" where
  "target_allow_local_binding policy p =
     (case policy of
        FixedBinding allowed \<Rightarrow> (Inr allowed, p)
      | StateBinding \<Rightarrow> local_binding_allowed p)"

definition connect_target :: "target_policy \<Rightarrow> socket_addr \<Rightarrow> net_proxy \<Rightarrow> connect_outcome proxy_result" where
  "connect_target policy addr p =
     (case target_allow_local_binding policy p of
        (Inl e, p) \<Rightarrow> (Inl e, p)
      | (Inr allowed, p) \<Rightarrow>
          (Inr (if \<not> allowed \<and> is_non_public_ip (fst addr) then TargetRejected else ConnectAttempted), p))"

definition connector_serve ::
  "target_policy \<Rightarrow> string option \<Rightarrow> socket_addr \<Rightarrow> net_proxy \<Rightarrow> connect_outcome proxy_result" where
  "connector_serve policy proxy_address addr p =
     (case proxy_address of
        Some _ \<Rightarrow> (Inr UpstreamAttempted, p)
      | None \<Rightarrow> connect_target policy addr p)"

section \<open>Blocked requests\<close>

definition MAX_BLOCKED_EVENTS :: nat where
  "MAX_BLOCKED_EVENTS = 200"

definition U64_MAX :: nat where
  "U64_MAX = 2 ^ 64 - 1"

fun pop_blocked :: "'a list \<Rightarrow> 'a list" where
  "pop_blocked [] = []"
| "pop_blocked (x # xs) = (if length (x # xs) > MAX_BLOCKED_EVENTS then pop_blocked xs else x # xs)"

definition record_blocked :: "blocked_request \<Rightarrow> net_proxy \<Rightarrow> unit proxy_result" where
  "record_blocked entry p =
     after_reload p (\<lambda>p.
       let st = np_state p in
       (Inr (), p\<lparr> np_state := st\<lparr> cs_blocked := pop_blocked (cs_blocked st @ [entry]),
                                 cs_blocked_total := min (cs_blocked_total st + 1) U64_MAX \<rparr> \<rparr>))"

definition blocked_snapshot :: "net_proxy \<Rightarrow> blocked_request list proxy_result" where
  "blocked_snapshot p = after_reload p (\<lambda>p. (Inr (cs_blocked (np_state p)), p))"

definition drain_blocked :: "net_proxy \<Rightarrow> blocked_request list proxy_result" where
  "drain_blocked p =
     after_reload p (\<lambda>p.
       (Inr (cs_blocked (np_state p)), p\<lparr> np_state := (np_state p)\<lparr> cs_blocked := [] \<rparr> \<rparr>))"

section \<open>Unix sockets\<close>

fun socket_listed :: "net_world \<Rightarrow> abs_path \<Rightarrow> string list \<Rightarrow> bool" where
  "socket_listed w requested [] = False"
| "socket_listed w requested (allowed # more_allowed) =
     (case validated_unix_socket_path_parse (hook_host_os (nw_hook_libs w)) allowed of
        Inr (Native path) \<Rightarrow>
          if path = requested then True
          else if nw_canonicalize w requested \<noteq> None \<and> nw_canonicalize w path = nw_canonicalize w requested
          then True
          else socket_listed w requested more_allowed
      | _ \<Rightarrow> socket_listed w requested more_allowed)"

definition is_unix_socket_allowed :: "net_world \<Rightarrow> string \<Rightarrow> net_proxy \<Rightarrow> bool proxy_result" where
  "is_unix_socket_allowed w path p =
     after_reload p (\<lambda>p.
       let cfg = cs_config (np_state p) in
       (Inr (if \<not> os_macos (hook_host_os (nw_hook_libs w)) then False
             else if \<not> path_is_absolute path then False
             else if dangerously_allow_all_unix_sockets cfg then True
             else case from_absolute_path (hook_host_os (nw_hook_libs w)) path of
                    None \<Rightarrow> False
                  | Some requested \<Rightarrow> socket_listed w requested (allow_unix_sockets cfg)), p))"

section \<open>Updates\<close>

text \<open>\<open>others\<close> are the writes of other tasks between the read and the write of each attempt.\<close>

fun set_network_mode ::
  "net_world \<Rightarrow> (config_state \<Rightarrow> config_state) list \<Rightarrow> network_mode \<Rightarrow> net_proxy \<Rightarrow> unit proxy_result" where
  "set_network_mode w others new_mode p =
     (case reload_if_needed p of
        (Inl e, p) \<Rightarrow> (Inl e, p)
      | (Inr _, p) \<Rightarrow>
          let read = np_state p in
          case validate_policy_against_constraints (nw_libs w) (nw_hook_libs w)
                 ((cs_config read)\<lparr> mode := new_mode \<rparr>) (cs_constraints read) of
            Inl e \<Rightarrow> (Inl e, p)
          | Inr _ \<Rightarrow>
              (case others of
                 [] \<Rightarrow> (Inr (), p\<lparr> np_state := read\<lparr> cs_config := (cs_config read)\<lparr> mode := new_mode \<rparr> \<rparr> \<rparr>)
               | other # later \<Rightarrow>
                   let guard = other read in
                   if cs_constraints guard \<noteq> cs_constraints read
                   then set_network_mode w later new_mode (p\<lparr> np_state := guard \<rparr>)
                   else (Inr (), p\<lparr> np_state := guard\<lparr> cs_config := (cs_config guard)\<lparr> mode := new_mode \<rparr> \<rparr> \<rparr>)))"

declare set_network_mode.simps [simp del]

datatype domain_list_kind = AllowList | DenyList

fun list_permission :: "domain_list_kind \<Rightarrow> network_domain_permission" where
  "list_permission AllowList = DomainAllow"
| "list_permission DenyList = DomainDeny"

fun list_entries :: "domain_list_kind \<Rightarrow> network_proxy_settings \<Rightarrow> string list" where
  "list_entries AllowList cfg = unwrap_or [] (allowed_domains cfg)"
| "list_entries DenyList cfg = unwrap_or [] (denied_domains cfg)"

fun opposite_entries :: "domain_list_kind \<Rightarrow> network_proxy_settings \<Rightarrow> string list" where
  "opposite_entries AllowList cfg = unwrap_or [] (denied_domains cfg)"
| "opposite_entries DenyList cfg = unwrap_or [] (allowed_domains cfg)"

text \<open>The state an attempt of \<open>update_domain_list\<close> wants to write; \<open>None\<close> when nothing has to change.\<close>

definition updated_domain_state ::
  "net_world \<Rightarrow> string \<Rightarrow> domain_list_kind \<Rightarrow> config_state \<Rightarrow> net_error + config_state option" where
  "updated_domain_state w host target read =
     (let cfg = cs_config read in
      if list_ex (\<lambda>entry. normalize_host entry = host) (list_entries target cfg) \<and>
         \<not> list_ex (\<lambda>entry. normalize_host entry = host) (opposite_entries target cfg)
      then Inr None
      else
        let candidate = upsert_domain_permission cfg host (list_permission target) normalize_host in
        try_bind (validate_policy_against_constraints (nw_libs w) (nw_hook_libs w) candidate (cs_constraints read)) (\<lambda>_.
        try_bind (build_config_state w candidate (cs_constraints read)) (\<lambda>new_state.
          Inr (Some (new_state\<lparr> cs_blocked := cs_blocked read, cs_blocked_total := cs_blocked_total read \<rparr>)))))"

fun update_loop ::
  "net_world \<Rightarrow> (config_state \<Rightarrow> config_state) list \<Rightarrow> string \<Rightarrow> domain_list_kind \<Rightarrow> net_proxy \<Rightarrow> unit proxy_result" where
  "update_loop w others host target p =
     (case reload_if_needed p of
        (Inl e, p) \<Rightarrow> (Inl e, p)
      | (Inr _, p) \<Rightarrow>
          let read = np_state p in
          case updated_domain_state w host target read of
            Inl e \<Rightarrow> (Inl e, p)
          | Inr None \<Rightarrow> (Inr (), p)
          | Inr (Some new_state) \<Rightarrow>
              (case others of
                 [] \<Rightarrow> (Inr (), p\<lparr> np_state := new_state \<rparr>)
               | other # later \<Rightarrow>
                   let guard = other read in
                   if cs_constraints guard \<noteq> cs_constraints read \<or> cs_config guard \<noteq> cs_config read
                   then update_loop w later host target (p\<lparr> np_state := guard \<rparr>)
                   else (Inr (), p\<lparr> np_state := new_state \<rparr>)))"

declare update_loop.simps [simp del]

definition update_domain_list ::
  "net_world \<Rightarrow> (config_state \<Rightarrow> config_state) list \<Rightarrow> string \<Rightarrow> domain_list_kind \<Rightarrow> net_proxy \<Rightarrow> unit proxy_result" where
  "update_domain_list w others host target p =
     (case host_parse host of Inl e \<Rightarrow> (Inl e, p) | Inr host \<Rightarrow> update_loop w others host target p)"

definition add_allowed_domain ::
  "net_world \<Rightarrow> (config_state \<Rightarrow> config_state) list \<Rightarrow> string \<Rightarrow> net_proxy \<Rightarrow> unit proxy_result" where
  "add_allowed_domain w others host p = update_domain_list w others host AllowList p"

definition add_denied_domain ::
  "net_world \<Rightarrow> (config_state \<Rightarrow> config_state) list \<Rightarrow> string \<Rightarrow> net_proxy \<Rightarrow> unit proxy_result" where
  "add_denied_domain w others host p = update_domain_list w others host DenyList p"

definition evaluate_mitm_hook_request ::
  "net_world \<Rightarrow> string \<Rightarrow> http_request \<Rightarrow> net_proxy \<Rightarrow> hook_evaluation proxy_result" where
  "evaluate_mitm_hook_request w host req p =
     after_reload p (\<lambda>p. (Inr (evaluate_mitm_hooks (nw_hook_libs w) (cs_mitm_hooks (np_state p)) host req), p))"

definition host_has_mitm_hooks :: "string \<Rightarrow> net_proxy \<Rightarrow> bool proxy_result" where
  "host_has_mitm_hooks host p =
     after_reload p (\<lambda>p. (Inr (cs_mitm_hooks (np_state p) (normalize_host host) \<noteq> None), p))"

end
