(* ===== verification/NetPolicy_Props.thy ===== *)
theory NetPolicy_Props
  imports NetConfig
begin

text \<open>
  What the managed allowlist of the network proxy binds. For entries that are host names, with or
  without a wildcard prefix, a configuration that passes the check allows only hosts the managed list
  allows; an entry with a port and a wildcard in it passes the check and allows another host.
\<close>

section \<open>Host names\<close>

definition dns_char :: "char \<Rightarrow> bool" where
  "dns_char c \<longleftrightarrow> is_ascii_alphanumeric c \<or> c = CHR ''-''"

text \<open>A host name whose last label starts with a letter and that has no encoded label.\<close>

definition dns_name :: "string \<Rightarrow> bool" where
  "dns_name d \<longleftrightarrow>
     list_all (\<lambda>label. label \<noteq> [] \<and> list_all dns_char label \<and>
                       \<not> starts_with ''xn--'' (to_ascii_lowercase label)) (split_on CHR ''.'' d) \<and>
     is_ascii_alphabetic (hd (last (split_on CHR ''.'' d)))"

definition visible :: "char \<Rightarrow> bool" where
  "visible c \<longleftrightarrow> (let n = of_char c :: nat in 33 \<le> n \<and> n \<le> 126)"

lemma whitespace_invisible: "is_whitespace g \<Longrightarrow> \<not> visible (hd g)"
proof -
  have "list_all (\<lambda>g. \<not> visible (hd g)) whitespace_chars" by code_simp
  then show "is_whitespace g \<Longrightarrow> \<not> visible (hd g)" by (auto simp: is_whitespace_def list_all_iff)
qed

lemma trim_visible:
  assumes "\<And>c. c \<in> set s \<Longrightarrow> visible c"
  shows "trim s = s"
proof (rule trim_id)
  fix g assume g: "g \<in> set (chars s)"
  then have "hd g \<in> set (concat (chars s))"
    using chars_ne [OF g] hd_in_set [of g] by (simp only: set_concat) blast
  then have "hd g \<in> set s" by simp
  then show "\<not> is_whitespace g" using assms whitespace_invisible by blast
qed

lemma split_on_ends:
  assumes "[] \<notin> set (split_on c s)"
  shows "s \<noteq> []" "hd s \<noteq> c" "last s \<noteq> c"
proof -
  show "s \<noteq> []" using assms by auto
  then show "hd s \<noteq> c" using assms by (cases s) auto
  have "[] \<in> set (tl (split_on c (t @ [c])))" for t
    by (induction t) (auto split: list.splits dest: list.set_sel(2) [rotated])
  then have "[] \<in> set (split_on c (t @ [c]))" for t by (meson list.set_sel(2) split_on_nonempty)
  then show "last s \<noteq> c" using assms \<open>s \<noteq> []\<close> by (metis append_butlast_last_id)
qed

lemma split_on_chars: "x \<in> set s \<Longrightarrow> x = c \<or> (\<exists>seg \<in> set (split_on c s). x \<in> set seg)"
  by (induction s) (auto split: list.splits)

lemma dns_name_chars: "dns_name d \<Longrightarrow> x \<in> set d \<Longrightarrow> dns_char x \<or> x = CHR ''.''"
  using split_on_chars [of x d "CHR ''.''"] by (auto simp: dns_name_def list_all_iff)

definition dns_text :: "string \<Rightarrow> bool" where
  "dns_text s \<longleftrightarrow> (\<forall>x \<in> set s. dns_char x \<or> x = CHR ''.'')"

lemma dns_name_text: "dns_name d \<Longrightarrow> dns_text d"
  using dns_name_chars by (auto simp: dns_text_def)

lemma dns_name_ends:
  assumes "dns_name d"
  shows "d \<noteq> []" "hd d \<noteq> CHR ''.''" "last d \<noteq> CHR ''.''"
  using assms by (auto simp: dns_name_def list_all_iff intro!: split_on_ends)

lemma dns_char_cases: "dns_char x \<or> x = CHR ''.'' \<Longrightarrow>
  visible x \<and> x \<noteq> CHR ''%'' \<and> x \<noteq> CHR '':'' \<and> x \<noteq> CHR ''['' \<and> x \<noteq> CHR ''*'' \<and> x \<noteq> CHR ''?''"
  by (auto simp: dns_char_def visible_def is_ascii_alphanumeric_def is_ascii_alphabetic_def
      is_ascii_digit_def Let_def)

lemma dns_text_visible: "dns_text s \<Longrightarrow> x \<in> set s \<Longrightarrow> visible x"
  using dns_char_cases by (auto simp: dns_text_def)

lemma dns_text_free:
  assumes "dns_text s"
  shows "CHR ''%'' \<notin> set s" "CHR '':'' \<notin> set s" "CHR ''['' \<notin> set s" "CHR ''*'' \<notin> set s" "CHR ''?'' \<notin> set s"
  using assms dns_char_cases unfolding dns_text_def by blast+

lemma dns_char_lower: "dns_char (ascii_lower_char x) \<longleftrightarrow> dns_char x"
  by (auto simp: dns_char_def ascii_lower_char_def is_ascii_alphanumeric_def is_ascii_alphabetic_def
      is_ascii_digit_def Let_def)

lemma lower_dot: "ascii_lower_char x = CHR ''.'' \<longleftrightarrow> x = CHR ''.''"
  by (auto simp: ascii_lower_char_def Let_def split: if_splits
      dest!: arg_cong [where f = "of_char :: char \<Rightarrow> nat"])

lemma lower_lower [simp]: "to_ascii_lowercase (to_ascii_lowercase s) = to_ascii_lowercase s"
  by (simp add: to_ascii_lowercase_def ascii_lower_char_def Let_def)

lemma lower_append [simp]: "to_ascii_lowercase (a @ b) = to_ascii_lowercase a @ to_ascii_lowercase b"
  by (simp add: to_ascii_lowercase_def)

lemma lower_eq_Nil [simp]: "to_ascii_lowercase s = [] \<longleftrightarrow> s = []"
  by (simp add: to_ascii_lowercase_def)

lemma lower_dns_chars: "dns_name d \<Longrightarrow> dns_text (to_ascii_lowercase d)"
  by (auto simp: to_ascii_lowercase_def dns_char_lower lower_dot dns_text_def dest: dns_name_chars)

lemma trim_end_matches_id: "s = [] \<or> last s \<noteq> c \<Longrightarrow> trim_end_matches c s = s"
  by (cases s rule: rev_cases) (simp_all add: trim_end_matches_def)

lemma lower_dns_ends:
  assumes "dns_name d"
  shows "to_ascii_lowercase d \<noteq> []" "hd (to_ascii_lowercase d) \<noteq> CHR ''.''" "last (to_ascii_lowercase d) \<noteq> CHR ''.''"
  using dns_name_ends [OF assms] by (auto simp: to_ascii_lowercase_def hd_map last_map lower_dot)

section \<open>Entries of the lists\<close>

text \<open>An entry is a host name after one of the prefixes the patterns have.\<close>

datatype wildcard = NoWildcard | SubWildcard | ApexWildcard

fun wildcard_text :: "wildcard \<Rightarrow> string" where
  "wildcard_text NoWildcard = []"
| "wildcard_text SubWildcard = ''*.''"
| "wildcard_text ApexWildcard = ''**.''"

fun wildcard_pattern :: "wildcard \<Rightarrow> string \<Rightarrow> domain_pattern" where
  "wildcard_pattern NoWildcard = Exact"
| "wildcard_pattern SubWildcard = SubdomainsOnly"
| "wildcard_pattern ApexWildcard = ApexAndSubdomains"

definition plain_entry :: "string \<Rightarrow> bool" where
  "plain_entry e \<longleftrightarrow> dns_name (snd (wildcard_prefix e))"

lemma plain_entryE:
  assumes "plain_entry e"
  obtains k d where "dns_name d" "e = wildcard_text k @ d"
proof -
  obtain pre d where w: "wildcard_prefix e = (pre, d)" by fastforce
  have "\<exists>k. e = wildcard_text k @ d"
    using w by (auto simp: wildcard_prefix_def strip_prefix_Some split: option.splits
        intro: exI [of _ ApexWildcard] exI [of _ SubWildcard] exI [of _ NoWildcard])
  with assms w that show ?thesis by (auto simp: plain_entry_def)
qed

lemma no_wildcard_prefix:
  assumes "s \<noteq> []" "hd s \<noteq> CHR ''*''"
  shows "strip_prefix ''**.'' s = None" "strip_prefix ''*.'' s = None"
  using assms by (cases s; simp)+

lemma hd_dns:
  assumes "dns_text s" "s \<noteq> []"
  shows "hd s \<noteq> CHR ''*''" "hd s \<noteq> CHR ''[''"
  using dns_text_free [OF assms(1)] hd_in_set [OF assms(2)] by auto

lemma wildcard_prefix_text:
  assumes "s \<noteq> []" "hd s \<noteq> CHR ''*''"
  shows "wildcard_prefix (wildcard_text k @ s) = (wildcard_text k, s)"
  by (cases k) (simp_all add: wildcard_prefix_def no_wildcard_prefix [OF assms])

lemma trim_wildcard:
  assumes "dns_text s"
  shows "trim (wildcard_text k @ s) = wildcard_text k @ s"
proof (rule trim_visible)
  have "list_all visible (wildcard_text k)" by (cases k) (simp_all add: visible_def Let_def)
  then show "visible c" if "c \<in> set (wildcard_text k @ s)" for c
    using that dns_text_visible [OF assms] by (auto simp: list_all_iff)
qed

lemma dns_name_trim: "dns_name d \<Longrightarrow> trim d = d"
  using trim_wildcard [OF dns_name_text, of d NoWildcard] by simp

lemma normalize_ip_literal_id:
  assumes "CHR ''%'' \<notin> set s"
  shows "(case normalize_ip_literal s of Some ip \<Rightarrow> ip | None \<Rightarrow> s) = s"
proof -
  have "\<not> str_contains ''%25'' s" "\<not> str_contains ''%'' s"
    using assms by (auto simp: str_contains_iff)
  then have "find_sub ''%25'' s = None" "find_sub ''%'' s = None" by (simp_all only: str_contains_def not_not)
  then show ?thesis by (simp add: normalize_ip_literal_def split_once_str_def)
qed

lemma normalize_dns_id:
  assumes "dns_name d"
  shows "normalize_dns_host_or_ip_literal d = to_ascii_lowercase d"
proof -
  have "CHR ''%'' \<notin> set (to_ascii_lowercase d)"
    by (rule dns_text_free [OF lower_dns_chars [OF assms]])
  then show ?thesis
    using lower_dns_ends [OF assms] normalize_ip_literal_id
    by (simp add: normalize_dns_host_or_ip_literal_def trim_end_matches_id Let_def)
qed

lemma normalize_host_dns:
  assumes "dns_name d"
  shows "normalize_host d = to_ascii_lowercase d"
proof -
  have c: "dns_text d" using assms by (rule dns_name_text)
  have "d \<noteq> []" using dns_name_ends [OF assms] by blast
  with hd_dns(2) [OF c] have "\<not> starts_with ''['' d" by (auto simp: starts_with_iff)
  moreover have "filter (\<lambda>b. b = CHR '':'') d = []"
    using dns_text_free(2) [OF c] by (auto simp: filter_empty_conv)
  ultimately show ?thesis
    by (simp add: normalize_host_def dns_name_trim [OF assms] normalize_dns_id [OF assms] Let_def)
qed

lemma entry_not_star: "dns_name d \<Longrightarrow> wildcard_text k @ d \<noteq> ''*''"
  using dns_name_ends [of d] hd_dns [OF dns_name_text, of d] by (cases k) auto

lemma normalize_pattern_entry:
  assumes "dns_name d"
  shows "normalize_pattern (wildcard_text k @ d) = wildcard_text k @ to_ascii_lowercase d"
proof -
  have c: "dns_text d" using assms by (rule dns_name_text)
  have d: "d \<noteq> []" "hd d \<noteq> CHR ''*''" using dns_name_ends(1) [OF assms] hd_dns [OF c] by auto
  show ?thesis
    unfolding normalize_pattern_def Let_def trim_wildcard [OF c] wildcard_prefix_text [OF d]
    using entry_not_star [OF assms] normalize_host_dns [OF assms] by simp
qed

lemma domain_pattern_parse_entry:
  assumes "dns_text s" "s \<noteq> []"
  shows "domain_pattern_parse (wildcard_text k @ s) = wildcard_pattern k s"
proof -
  have "trim s = s" using trim_wildcard [OF assms(1), of NoWildcard] by simp
  with assms(2) show ?thesis
    unfolding domain_pattern_parse_def Let_def trim_wildcard [OF assms(1)]
    by (cases k) (simp_all add: no_wildcard_prefix hd_dns [OF assms] parse_domain_def Let_def)
qed

text \<open>The crate \<open>url\<close> lower-cases a host name.\<close>

definition url_laws :: "net_libs \<Rightarrow> bool" where
  "url_laws libs \<longleftrightarrow> (\<forall>d. dns_name d \<longrightarrow> url_host libs d = Some (to_ascii_lowercase d))"

lemma parse_for_constraints_entry:
  assumes "url_laws libs" "dns_name d"
  shows "parse_for_constraints libs (wildcard_text k @ d) = wildcard_pattern k (to_ascii_lowercase d)"
proof -
  have c: "dns_text d" using assms(2) by (rule dns_name_text)
  have d: "d \<noteq> []" "hd d \<noteq> CHR ''*''" "hd d \<noteq> CHR ''[''"
    using dns_name_ends(1) [OF assms(2)] hd_dns [OF c] by auto
  have "CHR ''*'' \<notin> set d" "CHR ''?'' \<notin> set d" "CHR ''%'' \<notin> set d"
    using dns_text_free [OF c] by auto
  moreover have "\<not> starts_with ''['' d" using d by (auto simp: starts_with_iff)
  ultimately have "parse_domain_for_constraints libs d = to_ascii_lowercase d"
    using assms d dns_name_ends(3) [OF assms(2)]
    by (simp add: parse_domain_for_constraints_def dns_name_trim trim_end_matches_id url_laws_def Let_def)
  with d show ?thesis
    unfolding parse_for_constraints_def Let_def trim_wildcard [OF c]
    by (cases k) (simp_all add: no_wildcard_prefix)
qed

section \<open>What a pattern matches\<close>

text \<open>
  The documented matching of the globs a pattern expands to, without regard to case: a host name
  matches itself, and \<open>?*.d\<close> a host that ends in \<open>.d\<close> after at least one character.
\<close>

definition glob_laws :: "net_libs \<Rightarrow> bool" where
  "glob_laws libs \<longleftrightarrow>
     (\<forall>d h. dns_name d \<longrightarrow>
        (glob_match libs d h \<longleftrightarrow> to_ascii_lowercase h = to_ascii_lowercase d) \<and>
        (glob_match libs (''?*.'' @ d) h \<longleftrightarrow>
           (\<exists>x. x \<noteq> [] \<and> to_ascii_lowercase h = x @ ''.'' @ to_ascii_lowercase d)))"

fun wildcard_hosts :: "wildcard \<Rightarrow> string \<Rightarrow> string \<Rightarrow> bool" where
  "wildcard_hosts NoWildcard d h \<longleftrightarrow> h = d"
| "wildcard_hosts SubWildcard d h \<longleftrightarrow> (\<exists>x. x \<noteq> [] \<and> h = x @ ''.'' @ d)"
| "wildcard_hosts ApexWildcard d h \<longleftrightarrow> h = d \<or> (\<exists>x. x \<noteq> [] \<and> h = x @ ''.'' @ d)"

lemma split_on_lower:
  "split_on CHR ''.'' (to_ascii_lowercase d) = map to_ascii_lowercase (split_on CHR ''.'' d)"
  by (induction d) (auto simp: to_ascii_lowercase_def lower_dot split: list.splits)

lemma alphabetic_lower: "is_ascii_alphabetic (ascii_lower_char x) \<longleftrightarrow> is_ascii_alphabetic x"
  by (auto simp: ascii_lower_char_def is_ascii_alphabetic_def Let_def)

lemma dns_name_lower: "dns_name d \<Longrightarrow> dns_name (to_ascii_lowercase d)"
proof -
  assume d: "dns_name d"
  then have ne: "last (split_on CHR ''.'' d) \<noteq> []" using split_on_nonempty
    by (auto simp: dns_name_def list_all_iff)
  have l: "list_all dns_char (to_ascii_lowercase l) \<longleftrightarrow> list_all dns_char l" for l
    by (simp add: to_ascii_lowercase_def list.pred_map comp_def dns_char_lower)
  have "hd (last (map to_ascii_lowercase (split_on CHR ''.'' d))) = ascii_lower_char (hd (last (split_on CHR ''.'' d)))"
    using ne by (simp add: last_map to_ascii_lowercase_def hd_map)
  then show ?thesis
    using d by (simp add: dns_name_def split_on_lower list.pred_map comp_def l alphabetic_lower)
qed

lemma entry_matches:
  assumes "glob_laws libs" "dns_name d"
  shows "globset_is_match libs (expand_domain_pattern (normalize_pattern (wildcard_text k @ d))) h \<longleftrightarrow>
    wildcard_hosts k (to_ascii_lowercase d) (to_ascii_lowercase h)"
proof -
  have "expand_domain_pattern (wildcard_text k @ to_ascii_lowercase d) =
      (case k of NoWildcard \<Rightarrow> [to_ascii_lowercase d] | SubWildcard \<Rightarrow> [''?*.'' @ to_ascii_lowercase d]
       | ApexWildcard \<Rightarrow> [to_ascii_lowercase d, ''?*.'' @ to_ascii_lowercase d])"
    using domain_pattern_parse_entry [OF lower_dns_chars [OF assms(2)] lower_dns_ends(1) [OF assms(2)], of k]
    by (cases k) (simp_all add: expand_domain_pattern_def)
  moreover have "glob_match libs (to_ascii_lowercase d) h \<longleftrightarrow> to_ascii_lowercase h = to_ascii_lowercase d"
    "glob_match libs (''?*.'' @ to_ascii_lowercase d) h \<longleftrightarrow>
       (\<exists>x. x \<noteq> [] \<and> to_ascii_lowercase h = x @ ''.'' @ to_ascii_lowercase d)"
    using assms(1) dns_name_lower [OF assms(2)] by (simp_all add: glob_laws_def)
  ultimately show ?thesis
    unfolding normalize_pattern_entry [OF assms(2)]
    by (cases k) (simp_all add: globset_is_match_def)
qed

lemma normalize_domain_lower: "dns_name d \<Longrightarrow> normalize_domain (to_ascii_lowercase d) = to_ascii_lowercase d"
  by (simp add: normalize_domain_def trim_end_matches_id lower_dns_ends)

text \<open>The comparison of patterns is sound: the hosts of the candidate are hosts of the managed pattern.\<close>

lemma allows_sound:
  assumes "dns_name m" "dns_name d"
    and "pattern_allows (wildcard_pattern j (to_ascii_lowercase m)) (wildcard_pattern k (to_ascii_lowercase d))"
    and "wildcard_hosts k (to_ascii_lowercase d) h"
  shows "wildcard_hosts j (to_ascii_lowercase m) h"
proof -
  define c p where "c = to_ascii_lowercase d" and "p = to_ascii_lowercase m"
  have norm: "normalize_domain c = c" "normalize_domain p = p"
    using assms(1,2) by (simp_all add: c_def p_def normalize_domain_lower)
  have c: "c \<noteq> []" "hd c \<noteq> CHR ''.''" using lower_dns_ends [OF assms(2)] by (simp_all add: c_def)
  have below: "\<exists>y. y \<noteq> [] \<and> c = y @ ''.'' @ p" if "ends_with (''.'' @ p) c"
  proof -
    from that obtain y where y: "c = y @ ''.'' @ p" by (auto simp: ends_with_iff)
    with c have "y \<noteq> []" by auto
    with y show ?thesis by blast
  qed
  have up: "\<exists>z. z \<noteq> [] \<and> x @ ''.'' @ y @ ''.'' @ p = z @ ''.'' @ p" if "x \<noteq> []" for x y
    using that by (intro exI [of _ "x @ ''.'' @ y"]) simp
  show ?thesis
    using assms(3,4) below up unfolding c_def [symmetric] p_def [symmetric]
    by (cases j; cases k)
       (auto simp: domain_eq_def is_subdomain_or_equal_def is_strict_subdomain_def norm Let_def split: if_splits)
qed

lemma compiled_match:
  "compile_globset_with_policy libs patterns wildcard = Inr globs \<Longrightarrow>
   globset_is_match libs globs h \<longleftrightarrow>
   (\<exists>e \<in> set patterns. globset_is_match libs (expand_domain_pattern (normalize_pattern e)) h)"
  by (drule compiled_globs) (simp add: globset_is_match_def list_ex_iff)

text \<open>
  C10. A configuration that passes the check against a managed allowlist, which neither is fixed nor
  may grow, allows only hosts that the managed list allows: every host matched by its compiled
  allowlist is matched by the compiled managed list. The entries of both lists are host names, alone
  or after one of the prefixes \<open>*.\<close> and \<open>**.\<close>; the globs match as documented, and the URL parser
  lower-cases host names.
\<close>

theorem managed_allowlist_binds:
  assumes "glob_laws libs" and "url_laws libs"
    and "managed_allowed_domains constraints = Some managed"
    and "allowlist_expansion_enabled constraints = None"
    and "validate_policy_against_constraints libs hlibs cfg constraints = Inr ()"
    and "list_all plain_entry managed" and "list_all plain_entry (unwrap_or [] (allowed_domains cfg))"
    and "compile_allowlist_globset libs (unwrap_or [] (allowed_domains cfg)) = Inr user_set"
    and "compile_allowlist_globset libs managed = Inr managed_set"
    and "globset_is_match libs user_set host"
  shows "globset_is_match libs managed_set host"
proof -
  have "validate_allowed_domains libs cfg constraints = Inr ()"
    using assms(5) by (auto simp: validate_policy_against_constraints_def result_simps)
  then have ok: "\<exists>m \<in> set managed. pattern_allows (parse_for_constraints libs m) (parse_for_constraints libs e)"
    if "e \<in> set (unwrap_or [] (allowed_domains cfg))" for e
    using that assms(3,4)
    by (auto simp: validate_allowed_domains_def result_simps ensure_value_def Let_def filter_empty_conv
        list_ex_iff split: if_splits)
  from assms(8,10) obtain e where e: "e \<in> set (unwrap_or [] (allowed_domains cfg))"
      "globset_is_match libs (expand_domain_pattern (normalize_pattern e)) host"
    unfolding compile_allowlist_globset_def using compiled_match by blast
  with ok obtain m where m: "m \<in> set managed"
      "pattern_allows (parse_for_constraints libs m) (parse_for_constraints libs e)" by blast
  have "plain_entry e" "plain_entry m" using assms(6,7) e m by (auto simp: list_all_iff)
  then obtain j mm k d where entries: "dns_name mm" "m = wildcard_text j @ mm" "dns_name d" "e = wildcard_text k @ d"
    by (metis plain_entryE)
  have "wildcard_hosts j (to_ascii_lowercase mm) (to_ascii_lowercase host)"
    using allows_sound [OF entries(1,3)] m(2) e(2)
    unfolding entries(2,4) parse_for_constraints_entry [OF assms(2) entries(1)]
      parse_for_constraints_entry [OF assms(2) entries(3)] entry_matches [OF assms(1) entries(3)] by blast
  then have "globset_is_match libs (expand_domain_pattern (normalize_pattern m)) host"
    unfolding entries(2) entry_matches [OF assms(1) entries(1)] .
  with m(1) assms(9) show ?thesis unfolding compile_allowlist_globset_def using compiled_match by blast
qed

text \<open>A matcher with the documented behaviour on the globs of host names.\<close>

definition sample_libs :: net_libs where
  "sample_libs =
     \<lparr> glob_ok = (\<lambda>_. True), globset_ok = (\<lambda>_. True),
       glob_match = (\<lambda>glob h.
         case strip_prefix ''?*.'' glob of
           Some d \<Rightarrow> (case strip_suffix (''.'' @ to_ascii_lowercase d) (to_ascii_lowercase h) of
                        Some x \<Rightarrow> x \<noteq> [] | None \<Rightarrow> False)
         | None \<Rightarrow> to_ascii_lowercase h = to_ascii_lowercase glob),
       url_host = (\<lambda>d. Some (to_ascii_lowercase d)) \<rparr>"

lemma sample_laws: "glob_laws sample_libs" "url_laws sample_libs"
proof -
  have "strip_prefix ''?*.'' d = None" if "dns_name d" for d
    using dns_text_free(5) [OF dns_name_text [OF that]] dns_name_ends(1) [OF that] by (cases d) auto
  then show "glob_laws sample_libs"
    by (auto simp: glob_laws_def sample_libs_def strip_suffix_Some split: option.splits)
  show "url_laws sample_libs" by (simp add: url_laws_def sample_libs_def)
qed

definition no_constraints :: network_proxy_constraints where
  "no_constraints =
     \<lparr> max_enabled = None, max_mode = None, max_allow_upstream_proxy = None,
       max_allow_non_loopback_proxy = None, max_allow_all_unix_sockets = None,
       managed_allowed_domains = None, allowlist_expansion_enabled = None,
       managed_denied_domains = None, denylist_expansion_enabled = None,
       managed_allow_unix_sockets = None, max_allow_local_binding = None \<rparr>"

definition sample_hook_libs :: hook_libs where
  "sample_hook_libs =
     \<lparr> hook_glob_ok = (\<lambda>_ _. True), hook_glob_match = (\<lambda>_ p s. p = s),
       header_name = (\<lambda>n. Some (to_ascii_lowercase n)), header_value_ok = (\<lambda>_. True),
       form_pairs = (\<lambda>_. []), hook_host_os = sample_host None \<rparr>"

definition settings_allowing :: "string list \<Rightarrow> network_proxy_settings" where
  "settings_allowing patterns = default_settings\<lparr> domains := Some (map (\<lambda>p. (p, DomainAllow)) patterns) \<rparr>"

definition constraints_managing :: "string list \<Rightarrow> network_proxy_constraints" where
  "constraints_managing patterns = no_constraints\<lparr> managed_allowed_domains := Some patterns \<rparr>"

theorem managed_allowlist_binds_witness:
  "validate_policy_against_constraints sample_libs sample_hook_libs (settings_allowing [''API.example.com''])
     (constraints_managing [''*.example.com'']) = Inr () \<and>
   globset_is_match sample_libs [''?*.example.com''] ''api.example.com''"
proof -
  let ?cfg = "settings_allowing [''API.example.com'']"
  let ?constraints = "constraints_managing [''*.example.com'']"
  have 1: "managed_allowed_domains ?constraints = Some [''*.example.com'']"
    "allowlist_expansion_enabled ?constraints = None"
    by (simp_all add: constraints_managing_def no_constraints_def)
  have 2: "unwrap_or [] (allowed_domains ?cfg) = [''API.example.com'']" by code_simp
  have 3: "validate_policy_against_constraints sample_libs sample_hook_libs ?cfg ?constraints = Inr ()"
    by code_simp
  have 4: "list_all plain_entry [''*.example.com'']" "list_all plain_entry [''API.example.com'']"
    by code_simp+
  have 5: "compile_allowlist_globset sample_libs [''API.example.com''] = Inr [''api.example.com'']"
    "compile_allowlist_globset sample_libs [''*.example.com''] = Inr [''?*.example.com'']"
    "globset_is_match sample_libs [''api.example.com''] ''api.example.com''"
    by code_simp+
  show ?thesis
    using managed_allowlist_binds [OF sample_laws 1 3, unfolded 2, OF 4 5] 3 by blast
qed

section \<open>An entry that escapes the managed list\<close>

lemma port_entry:
  assumes "dns_name a" and "dns_name d"
  defines "e \<equiv> a @ '':*.'' @ d"
  shows "trim e = e" "e \<noteq> []" "hd e \<noteq> CHR ''*''" "\<not> starts_with ''['' e" "last e \<noteq> CHR ''.''"
proof -
  have a: "a \<noteq> []" "hd a \<noteq> CHR ''*''" "hd a \<noteq> CHR ''[''"
    using dns_name_ends(1) [OF assms(1)] hd_dns [OF dns_name_text [OF assms(1)]] by auto
  then show "e \<noteq> []" "hd e \<noteq> CHR ''*''" by (simp_all add: e_def)
  show "\<not> starts_with ''['' e" using a by (cases a) (auto simp: e_def starts_with_iff)
  show "last e \<noteq> CHR ''.''" using dns_name_ends [OF assms(2)] by (simp add: e_def)
  have "visible (CHR '':'')" "visible (CHR ''*'')" "visible (CHR ''.'')" by code_simp+
  then show "trim e = e"
    using dns_text_visible [OF dns_name_text [OF assms(1)]] dns_text_visible [OF dns_name_text [OF assms(2)]]
    by (intro trim_visible) (auto simp: e_def)
qed

lemma port_entry_checked:
  assumes "dns_name a" and "dns_name d"
  shows "pattern_allows (SubdomainsOnly (to_ascii_lowercase d)) (parse_for_constraints libs (a @ '':*.'' @ d))"
proof -
  let ?e = "a @ '':*.'' @ d"
  note e = port_entry [OF assms]
  have "parse_for_constraints libs ?e = Exact ?e"
    using no_wildcard_prefix [OF e(2,3)] e
    by (simp add: parse_for_constraints_def parse_domain_for_constraints_def trim_end_matches_id Let_def)
  moreover have "to_ascii_lowercase '':*.'' = '':*.''" by code_simp
  then have "normalize_domain ?e = (to_ascii_lowercase a @ '':*'') @ ''.'' @ to_ascii_lowercase d"
    using e(5) by (simp add: normalize_domain_def trim_end_matches_id del: append_Cons)
  ultimately show ?thesis
    using normalize_domain_lower [OF assms(2)] by (auto simp: is_strict_subdomain_def ends_with_iff Let_def)
qed

lemma port_entry_compiled:
  assumes "dns_name a" and "dns_name d"
  shows "expand_domain_pattern (normalize_pattern (a @ '':*.'' @ d)) = [to_ascii_lowercase a]"
proof -
  let ?e = "a @ '':*.'' @ d"
  note e = port_entry [OF assms]
  have "length (filter (\<lambda>b. b = CHR '':'') ?e) = 1" "split_on CHR '':'' ?e = a # split_on CHR '':'' (''*.'' @ d)"
    using dns_text_free(2) [OF dns_name_text [OF assms(1)]] dns_text_free(2) [OF dns_name_text [OF assms(2)]]
    by (auto simp: filter_empty_conv split_on_append)
  then have "normalize_host ?e = to_ascii_lowercase a"
    using e(1,4) normalize_dns_id [OF assms(1)] by (simp add: normalize_host_def Let_def)
  moreover have "?e \<noteq> ''*''" using e(2,3) by (cases a) auto
  ultimately have "normalize_pattern ?e = to_ascii_lowercase a"
    using e(1) no_wildcard_prefix [OF e(2,3)] by (simp add: normalize_pattern_def wildcard_prefix_def Let_def)
  then show ?thesis
    using domain_pattern_parse_entry [OF lower_dns_chars [OF assms(1)] lower_dns_ends(1) [OF assms(1)], of NoWildcard]
    by (simp add: expand_domain_pattern_def)
qed

text \<open>
  C34. The check of the allowlist compares an entry that contains a wildcard as it is written, while the
  compiled list drops everything after a single colon. So for any two host names \<open>a\<close> and \<open>d\<close> the entry
  \<open>a:*.d\<close> passes the check against the managed list \<open>*.d\<close>, and what it allows is the host \<open>a\<close>.
\<close>

theorem managed_allowlist_bypassed:
  assumes "dns_name a" and "dns_name d" and "url_laws libs"
    and "managed_allowed_domains constraints = Some [''*.'' @ d]"
    and "allowlist_expansion_enabled constraints = None"
    and "allowed_domains cfg = Some [a @ '':*.'' @ d]"
  shows "validate_allowed_domains libs cfg constraints = Inr () \<and>
    expand_domain_pattern (normalize_pattern (a @ '':*.'' @ d)) = [to_ascii_lowercase a]"
proof -
  have "parse_for_constraints libs (''*.'' @ d) = SubdomainsOnly (to_ascii_lowercase d)"
    using parse_for_constraints_entry [OF assms(3,2), of SubWildcard] by simp
  moreover have "\<not> is_global_wildcard_domain_pattern (''*.'' @ d)"
    using normalize_pattern_entry [OF assms(2), of SubWildcard]
      domain_pattern_parse_entry [OF lower_dns_chars [OF assms(2)] lower_dns_ends(1) [OF assms(2)], of SubWildcard]
    by (simp add: is_global_wildcard_domain_pattern_def expand_domain_pattern_def)
  ultimately have "validate_allowed_domains libs cfg constraints = Inr ()"
    using assms(4-6) port_entry_checked [OF assms(1,2)]
    by (simp add: validate_allowed_domains_def validate_non_global_wildcard_domain_patterns_def ensure_value_def Let_def)
  with port_entry_compiled [OF assms(1,2)] show ?thesis by blast
qed

theorem managed_allowlist_bypassed_witness:
  "validate_allowed_domains sample_libs (settings_allowing [''evil.com:*.example.com''])
     (constraints_managing [''*.example.com'']) = Inr () \<and>
   expand_domain_pattern (normalize_pattern ''evil.com:*.example.com'') = [''evil.com'']"
proof -
  have 1: "dns_name ''evil.com''" "dns_name ''example.com''" by code_simp+
  have 2: "managed_allowed_domains (constraints_managing [''*.example.com'']) = Some [''*.'' @ ''example.com'']"
    "allowlist_expansion_enabled (constraints_managing [''*.example.com'']) = None"
    "allowed_domains (settings_allowing [''evil.com:*.example.com'']) = Some [''evil.com'' @ '':*.'' @ ''example.com'']"
    by code_simp+
  have "to_ascii_lowercase ''evil.com'' = ''evil.com''" by code_simp
  then show ?thesis using managed_allowlist_bypassed [OF 1 sample_laws(2) 2] by simp
qed

end
