(* ===== verification/NetRuntime_Props.thy ===== *)
theory NetRuntime_Props
  imports NetRuntime NetPolicy_Props
begin

text \<open>
  What the network proxy guarantees: which addresses it takes for public, what an allowed request has
  passed, that its compiled lists follow its configuration through every operation, that denying a
  domain takes effect, where it listens, and which requests a hook touches.
\<close>

section \<open>Public addresses\<close>

text \<open>
  The reference is the list the code means: an IPv4 address outside the listed blocks; an IPv6 address
  that embeds a public IPv4 address, or embeds none and does not start with a segment of the unique
  local, link-local or multicast ranges. It is not the set of globally routable addresses.
\<close>

fun public_addr :: "ip_addr \<Rightarrow> bool" where
  "public_addr (V4 ip) \<longleftrightarrow> \<not> in_blocks non_public_blocks (ip_number ip)"
| "public_addr (V6 s) =
     (case to_ipv4 s of
        Some ip \<Rightarrow> \<not> in_blocks non_public_blocks (ip_number ip)
      | None \<Rightarrow> \<not> in_blocks [(0xFC00, 0xFDFF), (0xFE80, 0xFEBF), (0xFF00, 0xFFFF)] (unat (hd s)))"

lemma and_mask16_iff:
  fixes x y :: "16 word"
  assumes "m = push_bit k (- 1)"
  shows "(x AND m) = (y AND m) \<longleftrightarrow> unat y div 2 ^ k * 2 ^ k \<le> unat x \<and> unat x \<le> unat y div 2 ^ k * 2 ^ k + (2 ^ k - 1)"
proof -
  have "drop_bit k (z AND push_bit k (- 1)) = drop_bit k z" for z :: "16 word"
    by (rule bit_word_eqI) (auto simp: bit_simps dest: bit_imp_le_length)
  moreover have "z AND push_bit k (- 1) = push_bit k (drop_bit k z)" for z :: "16 word"
    by (rule bit_word_eqI) (auto simp: bit_simps)
  ultimately have "(x AND m) = (y AND m) \<longleftrightarrow> drop_bit k x = drop_bit k y" unfolding assms by metis
  also have "\<dots> \<longleftrightarrow> unat x div 2 ^ k = unat y div 2 ^ k"
    unfolding word_unat_eq_iff unat_drop_bit_eq by (simp only: drop_bit_eq_div)
  finally show ?thesis using div_eq_iff_interval [of "2 ^ k" "unat x" "unat y"] by simp
qed

lemma segment_ranges:
  "v6_is_unique_local s \<longleftrightarrow> in_block (0xFC00, 0xFDFF) (unat (hd s))"
  "v6_is_unicast_link_local s \<longleftrightarrow> in_block (0xFE80, 0xFEBF) (unat (hd s))"
  "v6_is_multicast s \<longleftrightarrow> in_block (0xFF00, 0xFFFF) (unat (hd s))"
proof -
  have "(0xFE00 :: 16 word) = push_bit 9 (- 1)" "(0xFFC0 :: 16 word) = push_bit 6 (- 1)"
    "(0xFF00 :: 16 word) = push_bit 8 (- 1)" by code_simp+
  from and_mask16_iff [OF this(1), of "hd s" "0xFC00"] and_mask16_iff [OF this(2), of "hd s" "0xFE80"]
    and_mask16_iff [OF this(3), of "hd s" "0xFF00"]
  show "v6_is_unique_local s \<longleftrightarrow> in_block (0xFC00, 0xFDFF) (unat (hd s))"
    "v6_is_unicast_link_local s \<longleftrightarrow> in_block (0xFE80, 0xFEBF) (unat (hd s))"
    "v6_is_multicast s \<longleftrightarrow> in_block (0xFF00, 0xFFFF) (unat (hd s))"
    by (simp_all add: v6_is_unique_local_def v6_is_unicast_link_local_def v6_is_multicast_def in_block_def)
qed

lemma embedded_loopback:
  "v6_is_loopback s \<Longrightarrow> to_ipv4 s = Some (Ipv4 0 0 0 1)"
  "v6_is_unspecified s \<Longrightarrow> to_ipv4 s = Some (Ipv4 0 0 0 0)"
  by (simp_all add: v6_is_loopback_def v6_is_unspecified_def)

lemma non_public_iff_listed: "is_non_public_ip ip \<longleftrightarrow> \<not> public_addr ip"
proof (cases ip)
  case (V4 a)
  then show ?thesis by (simp add: non_public_ipv4_blocks)
next
  case (V6 s)
  show ?thesis
  proof (cases "to_ipv4 s")
    case None
    then have "\<not> v6_is_loopback s" "\<not> v6_is_unspecified s" using embedded_loopback by fastforce+
    with None show ?thesis by (auto simp: V6 is_non_public_ipv6_def segment_ranges in_blocks_def)
  next
    case (Some v4)
    have "v6_is_loopback s \<Longrightarrow> is_non_public_ipv4 v4"
      using embedded_loopback(1) [of s] Some
      by (simp add: non_public_ipv4_blocks in_blocks_def non_public_blocks_def in_block_def dotted_def)
    with Some show ?thesis by (auto simp: V6 is_non_public_ipv6_def non_public_ipv4_blocks)
  qed
qed

text \<open>Addresses of reserved IPv6 ranges: site-local, documentation, discard-only.\<close>

definition unlisted_reserved :: "16 word list list" where
  "unlisted_reserved =
     [[0xFEC0, 0, 0, 0, 0, 0, 0, 1], [0x2001, 0x0DB8, 0, 0, 0, 0, 0, 1], [0x0100, 0, 0, 0, 0, 0, 0, 1]]"

text \<open>
  C31. The proxy's classification, a mix of the standard library's predicates and masks, is exactly
  membership in the listed intervals of addresses. The list is shorter than what the comment in the
  code announces, everything that is not globally routable: a site-local, a documentation and a
  discard-only IPv6 address count as public.
\<close>

theorem non_public_is_listed:
  "(is_non_public_ip ip \<longleftrightarrow> \<not> public_addr ip) \<and> list_all (\<lambda>s. \<not> is_non_public_ip (V6 s)) unlisted_reserved"
proof
  show "list_all (\<lambda>s. \<not> is_non_public_ip (V6 s)) unlisted_reserved" by code_simp
qed (rule non_public_iff_listed)

section \<open>Allowed requests\<close>

lemma public_iff: "\<not> is_non_public_ip ip \<longleftrightarrow> public_addr ip"
  by (simp add: non_public_iff_listed)

lemma unscoped_parses: "unscoped_ip_literal h = Some ip \<Longrightarrow> parse_ip ip \<noteq> None"
  by (auto simp: unscoped_ip_literal_def split: option.splits if_splits)

lemma resolved_public:
  assumes "\<not> host_resolves_to_non_public_ip w h port"
  shows "parse_ip h = None \<longrightarrow> (\<exists>addrs. nw_dns w h port = Resolved addrs \<and> list_all (\<lambda>ip. \<not> is_non_public_ip ip) addrs)"
  using assms
  by (auto simp: host_resolves_to_non_public_ip_def list_ex_iff list_all_iff split: dns_result.splits option.splits)

lemma explicit_entry:
  assumes "is_explicit_local_allowlisted entries h"
  shows "\<exists>e \<in> set entries. CHR ''*'' \<notin> set (trim e) \<and> CHR ''?'' \<notin> set (trim e) \<and>
    (normalize_host (trim e) = h \<or> unscoped_ip_literal h = Some (normalize_host (trim e)))"
  using assms
  by (auto simp: is_explicit_local_allowlisted_def list_ex_iff Let_def split: if_splits option.splits)

lemma decide_host_passed:
  assumes "decide_host w st host port = Allowed \<or> decide_host w st host port = Blocked NotAllowed"
    and "host_parse host = Inr h"
  shows "\<not> globset_matches_host_or_unscoped (nw_libs w) (cs_deny_set st) h \<and>
    (allow_local_binding (cs_config st) \<or>
     (if is_local_literal h
      then is_explicit_local_allowlisted (unwrap_or [] (allowed_domains (cs_config st))) h
      else \<not> host_resolves_to_non_public_ip w h port)) \<and>
    (decide_host w st host port = Allowed \<longrightarrow>
       allowed_domains (cs_config st) \<noteq> None \<and>
       globset_matches_host_or_unscoped (nw_libs w) (cs_allow_set st) h)"
  using assms
  by (cases "allowed_domains (cs_config st)") (auto simp: decide_host_def Let_def split: if_splits)

lemma evaluate_allow:
  assumes "evaluate_host_policy w decider request p = (Inr NetworkAllow, p')"
  shows "decide_host w (np_state p') (nr_host request) (nr_port request) = Allowed \<or>
    decide_host w (np_state p') (nr_host request) (nr_port request) = Blocked NotAllowed \<and>
    (\<exists>decide. decider = Some decide \<and> decide request = NetworkAllow)"
proof -
  have "map_decider_decision d = NetworkAllow \<longleftrightarrow> d = NetworkAllow" for d by (cases d) auto
  then show ?thesis
    using assms
    by (auto simp: evaluate_host_policy_def host_blocked_def after_reload_def deny_with_source_def
        split: prod.splits sum.splits host_block_decision.splits host_block_reason.splits option.splits)
qed

text \<open>The names of the local machine: \<open>localhost\<close> and the addresses that are not public.\<close>

definition local_name :: "string \<Rightarrow> bool" where
  "local_name h \<longleftrightarrow> h = ''localhost'' \<or>
     (case parse_ip (unwrap_or h (unscoped_ip_literal h)) of Some ip \<Rightarrow> \<not> public_addr ip | None \<Rightarrow> False)"

lemma loopback_not_public: "ip_is_loopback ip \<Longrightarrow> \<not> public_addr ip"
  unfolding non_public_iff_listed [symmetric]
  by (cases ip) (auto simp: is_non_public_ipv4_def is_non_public_ipv6_def split: option.splits)

lemma local_literal_iff: "is_local_literal h \<longleftrightarrow> local_name h"
proof -
  have "unscoped_ip_literal ''localhost'' = None" "parse_ip ''localhost'' = None" by code_simp+
  then have "unwrap_or h (unscoped_ip_literal h) = ''localhost'' \<longleftrightarrow> h = ''localhost''"
    using unscoped_parses [of h] by (cases "unscoped_ip_literal h") auto
  then show ?thesis
    using loopback_not_public
    by (auto simp: is_local_literal_def local_name_def is_loopback_host_def non_public_iff_listed Let_def
        split: option.splits)
qed

text \<open>
  C7. A request the proxy allows has passed every check, on the state it was decided in. No denied
  pattern matches its host. Unless local binding is allowed, a local name is named in the allowlist
  without a wildcard, and any other host, listed or not, is a public address or a name whose lookup
  succeeded with public addresses only. And the allowlist matches it, or the decider allowed it. The
  decider alone allows only a request whose host is empty.
\<close>

theorem allowed_requests_are_vetted:
  assumes "evaluate_host_policy w decider request p = (Inr NetworkAllow, p')"
  defines "st \<equiv> np_state p'"
    and "decided \<equiv> \<exists>decide. decider = Some decide \<and> decide request = NetworkAllow"
  shows "case host_parse (nr_host request) of
    Inl _ \<Rightarrow> decided
  | Inr h \<Rightarrow>
      \<not> globset_matches_host_or_unscoped (nw_libs w) (cs_deny_set st) h \<and>
      (allow_local_binding (cs_config st) \<or>
       (if local_name h
        then \<exists>e \<in> set (unwrap_or [] (allowed_domains (cs_config st))).
          CHR ''*'' \<notin> set (trim e) \<and> CHR ''?'' \<notin> set (trim e) \<and>
          (normalize_host (trim e) = h \<or> unscoped_ip_literal h = Some (normalize_host (trim e)))
        else case parse_ip h of
          Some ip \<Rightarrow> public_addr ip
        | None \<Rightarrow> \<exists>addrs. nw_dns w h (nr_port request) = Resolved addrs \<and> list_all public_addr addrs)) \<and>
      (allowed_domains (cs_config st) \<noteq> None \<and>
       globset_matches_host_or_unscoped (nw_libs w) (cs_allow_set st) h \<or> decided)"
proof (cases "host_parse (nr_host request)")
  case (Inl e)
  then have "decide_host w st (nr_host request) (nr_port request) \<noteq> Allowed" by (simp add: decide_host_def)
  with Inl evaluate_allow [OF assms(1)] show ?thesis by (simp add: st_def decided_def)
next
  case (Inr h)
  have d: "decide_host w st (nr_host request) (nr_port request) = Allowed \<or>
      decide_host w st (nr_host request) (nr_port request) = Blocked NotAllowed \<and> decided"
    using evaluate_allow [OF assms(1)] by (simp add: st_def decided_def)
  then have "decide_host w st (nr_host request) (nr_port request) = Allowed \<or>
      decide_host w st (nr_host request) (nr_port request) = Blocked NotAllowed" by blast
  note passed = decide_host_passed [OF this Inr]
  have public: "case parse_ip h of
      Some ip \<Rightarrow> public_addr ip
    | None \<Rightarrow> \<exists>addrs. nw_dns w h (nr_port request) = Resolved addrs \<and> list_all public_addr addrs"
    if "\<not> host_resolves_to_non_public_ip w h (nr_port request)"
    using resolved_public [OF that] that
    by (auto simp: public_iff host_resolves_to_non_public_ip_def non_public_iff_listed split: option.splits)
  show ?thesis
  proof (cases "is_local_literal h")
    case True
    with passed d explicit_entry show ?thesis
      unfolding Inr sum.case local_literal_iff [symmetric] by auto
  next
    case False
    with passed d public show ?thesis unfolding Inr sum.case local_literal_iff [symmetric] by auto
  qed
qed

definition sample_world :: net_world where
  "sample_world =
     \<lparr> nw_libs = sample_libs, nw_hook_libs = sample_hook_libs, nw_env = (\<lambda>_. None), nw_files = (\<lambda>_. None),
       nw_ca_ok = True, nw_dns = (\<lambda>_ _. Resolved [V4 (Ipv4 93 184 216 34)]), nw_canonicalize = Some \<rparr>"

definition sample_proxy :: "network_proxy_settings \<Rightarrow> glob_set \<Rightarrow> net_proxy" where
  "sample_proxy cfg allow_set =
     \<lparr> np_state = \<lparr> cs_config = cfg, cs_allow_set = allow_set, cs_deny_set = [], cs_mitm = None,
                    cs_mitm_hooks = Map.empty, cs_constraints = no_constraints, cs_blocked = [],
                    cs_blocked_total = 0 \<rparr>,
       np_reloads = [] \<rparr>"

definition sample_request :: "string \<Rightarrow> network_policy_request" where
  "sample_request host =
     \<lparr> nr_protocol = Http, nr_host = host, nr_port = 443, nr_client_addr = None, nr_method = None,
       nr_command = None, nr_exec_policy_hint = None \<rparr>"

lemma sample_evaluate:
  "decide_host sample_world (np_state (sample_proxy cfg allow_set)) host 443 = Allowed \<Longrightarrow>
   evaluate_host_policy sample_world None (sample_request host) (sample_proxy cfg allow_set) =
     (Inr NetworkAllow, sample_proxy cfg allow_set)"
  by (simp add: evaluate_host_policy_def host_blocked_def after_reload_def reload_if_needed_def
      sample_proxy_def sample_request_def)

theorem allowed_requests_are_vetted_witness:
  "evaluate_host_policy sample_world None (sample_request ''api.example.com'')
     (sample_proxy (settings_allowing [''*.example.com'']) [''?*.example.com'']) =
     (Inr NetworkAllow, sample_proxy (settings_allowing [''*.example.com'']) [''?*.example.com'']) \<and>
   globset_matches_host_or_unscoped sample_libs [''?*.example.com''] ''api.example.com'' \<and>
   (\<exists>addrs. nw_dns sample_world ''api.example.com'' 443 = Resolved addrs \<and> list_all public_addr addrs)"
proof -
  have "decide_host sample_world (np_state (sample_proxy (settings_allowing [''*.example.com'']) [''?*.example.com'']))
      ''api.example.com'' 443 = Allowed" by code_simp
  from sample_evaluate [OF this] have e: "evaluate_host_policy sample_world None (sample_request ''api.example.com'')
     (sample_proxy (settings_allowing [''*.example.com'']) [''?*.example.com'']) =
     (Inr NetworkAllow, sample_proxy (settings_allowing [''*.example.com'']) [''?*.example.com''])" .
  have h: "host_parse (nr_host (sample_request ''api.example.com'')) = Inr ''api.example.com''" by code_simp
  have "\<not> local_name ''api.example.com''" "parse_ip ''api.example.com'' = None"
    "\<not> allow_local_binding (settings_allowing [''*.example.com''])" by code_simp+
  with allowed_requests_are_vetted [OF e] e show ?thesis
    unfolding h by (simp add: sample_proxy_def sample_world_def sample_request_def)
qed

section \<open>Where the proxy listens\<close>

lemma clamp_bind_loopback:
  assumes "clamp_bind_addrs h s cfg = (http_addr, socks_addr)"
    and "\<not> (dangerously_allow_non_loopback_proxy cfg \<and> allow_unix_sockets cfg = [] \<and>
            \<not> dangerously_allow_all_unix_sockets cfg)"
  shows "ip_is_loopback (fst http_addr) \<and> ip_is_loopback (fst socks_addr)"
proof -
  have l: "ip_is_loopback (fst (loopback_at port))" for port by (simp add: loopback_at_def)
  then have "ip_is_loopback (fst (clamp_non_loopback h False))" "ip_is_loopback (fst (clamp_non_loopback s False))"
    by (simp_all add: clamp_non_loopback_def)
  with l assms show ?thesis by (auto simp: clamp_bind_addrs_def Let_def split: if_splits)
qed

text \<open>
  C33. Both listeners of the proxy are on loopback addresses, unless the configuration allows other
  addresses and enables no Unix socket.
\<close>

theorem proxy_listens_on_loopback:
  assumes "resolve_runtime os url_parse cfg = Inr (http_addr, socks_addr)"
  shows "ip_is_loopback (fst http_addr) \<and> ip_is_loopback (fst socks_addr) \<or>
    dangerously_allow_non_loopback_proxy cfg \<and> allow_unix_sockets cfg = [] \<and>
    \<not> dangerously_allow_all_unix_sockets cfg"
proof -
  from assms obtain h s where "clamp_bind_addrs h s cfg = (http_addr, socks_addr)"
    by (auto simp: resolve_runtime_def try_bind_Inr)
  then show ?thesis using clamp_bind_loopback by blast
qed

theorem proxy_listens_on_loopback_witness:
  "resolve_runtime (sample_host None) (\<lambda>_. Some (Some ''10.0.0.7'', Some 80)) default_settings =
     Inr (loopback_at 80, loopback_at 80) \<and> ip_is_loopback (fst (loopback_at 80))"
proof -
  have r: "resolve_runtime (sample_host None) (\<lambda>_. Some (Some ''10.0.0.7'', Some 80)) default_settings =
     Inr (loopback_at 80, loopback_at 80)" by code_simp
  from proxy_listens_on_loopback [OF r] r show ?thesis by (simp add: default_settings_def)
qed

section \<open>Hooks\<close>

lemma collect_results_mem:
  "collect_results f xs = Inr ys \<Longrightarrow> y \<in> set ys \<Longrightarrow> \<exists>x \<in> set xs. f x = Inr y"
  unfolding collect_results_Inr by (induction rule: list_all2_induct) auto

text \<open>
  C32. The actions of a hook, which add secrets to a request, are taken only when interception is on
  and only for a host that some hook of the configuration names exactly, up to normalisation; they are
  the compiled actions of that hook, and the request matches it.
\<close>

theorem secrets_go_to_the_named_host:
  assumes "compile_mitm_hooks libs env files intercept hooks = Inr by_host"
    and "evaluate_mitm_hooks libs by_host host req = Matched actions"
  shows "intercept \<and>
    (\<exists>cfg \<in> set hooks. \<exists>hook.
       compile_hook libs env (\<lambda>path. map_option trim (files path)) cfg = Inr hook \<and>
       normalize_host (hk_host cfg) = normalize_host host \<and> CHR ''*'' \<notin> set (normalize_host host) \<and>
       hook_matches libs hook req \<and> actions = h_actions hook)"
proof -
  from assms(1) obtain compiled where c:
    "validate_mitm_hook_config libs intercept hooks = Inr ()"
    "collect_results (compile_hook libs env (\<lambda>path. map_option trim (files path))) hooks = Inr compiled"
    "by_host = fold push_hook compiled Map.empty"
    by (auto simp: compile_mitm_hooks_def compile_mitm_hooks_with_resolvers_def result_simps)
  from assms(2) obtain hs hook where h: "by_host (normalize_host host) = Some hs"
    "find (\<lambda>hook. hook_matches libs hook req) hs = Some hook" "actions = h_actions hook"
    by (auto simp: evaluate_mitm_hooks_def split: option.splits)
  then have hook: "hook \<in> set hs" "hook_matches libs hook req" by (auto simp: find_Some_iff)
  have comp: "hook \<in> set compiled" "h_host hook = normalize_host host"
    using h(1) hook(1) by (auto simp: c(3) fold_push_hook split: if_splits)
  from collect_results_mem [OF c(2) comp(1)] obtain cfg where
    cfg: "cfg \<in> set hooks" "compile_hook libs env (\<lambda>path. map_option trim (files path)) cfg = Inr hook" by blast
  have intercept using c(1) cfg(1) by (auto simp: validate_mitm_hook_config_def split: if_splits)
  moreover have "normalize_host (hk_host cfg) = normalize_host host" "CHR ''*'' \<notin> set (normalize_host host)"
    using compile_hook_host [OF cfg(2)] unfolding comp(2) by metis+
  ultimately show ?thesis using cfg hook(2) h(3) by blast
qed

definition sample_hook :: mitm_hook_config where
  "sample_hook =
     \<lparr> hk_host = ''API.example.com'',
       hk_match = \<lparr> hk_methods = [''post''], hk_path_prefixes = [''/v1/''], hk_query = [], hk_headers = [],
                    hk_body = None \<rparr>,
       hk_actions = \<lparr> cfg_strip_request_headers = [''Authorization''],
                      cfg_inject_request_headers =
                        [\<lparr> inj_name = ''Authorization'', secret_env_var = Some ''TOKEN'', secret_file = None,
                           inj_prefix = Some ''Bearer '' \<rparr>] \<rparr> \<rparr>"

definition sample_actions :: mitm_hook_actions where
  "sample_actions =
     \<lparr> strip_request_headers = [''authorization''],
       inject_request_headers =
         [\<lparr> res_name = ''authorization'', res_value = ''Bearer s3'', res_source = EnvVar ''TOKEN'' \<rparr>] \<rparr>"

definition sample_post :: http_request where
  "sample_post = \<lparr> req_method = ''POST'', req_path = ''/v1/items'', req_query = None, req_headers = [] \<rparr>"

theorem secrets_go_to_the_named_host_witness:
  "\<exists>by_host.
     compile_mitm_hooks sample_hook_libs (\<lambda>n. if n = ''TOKEN'' then Some ''s3'' else None) (\<lambda>_. None) True [sample_hook] =
       Inr by_host \<and>
     evaluate_mitm_hooks sample_hook_libs by_host ''api.example.com:443'' sample_post = Matched sample_actions \<and>
     normalize_host (hk_host sample_hook) = normalize_host ''api.example.com:443''"
proof -
  let ?r = "compile_mitm_hooks sample_hook_libs (\<lambda>n. if n = ''TOKEN'' then Some ''s3'' else None) (\<lambda>_. None) True [sample_hook]"
  have "case ?r of Inl _ \<Rightarrow> False
      | Inr b \<Rightarrow> evaluate_mitm_hooks sample_hook_libs b ''api.example.com:443'' sample_post = Matched sample_actions"
    by code_simp
  then obtain b where b: "?r = Inr b"
    "evaluate_mitm_hooks sample_hook_libs b ''api.example.com:443'' sample_post = Matched sample_actions"
    by (cases ?r) auto
  from secrets_go_to_the_named_host [OF b] have "normalize_host (hk_host sample_hook) = normalize_host ''api.example.com:443''"
    by (simp only: list.set) blast
  with b show ?thesis by blast
qed

end
