(* ===== verification/NetState_Props.thy ===== *)
theory NetState_Props
  imports NetRuntime_Props
begin

text \<open>
  The live state of the network proxy over time: through every operation, reload and interleaved write
  the compiled lists are those of the configuration in force and the buffer of blocked requests stays
  bounded; and a domain that is denied at run time is blocked from then on.
\<close>

section \<open>Consistent states\<close>

definition sets_follow :: "net_world \<Rightarrow> config_state \<Rightarrow> bool" where
  "sets_follow w st \<longleftrightarrow>
     compile_denylist_globset (nw_libs w) (unwrap_or [] (denied_domains (cs_config st))) = Inr (cs_deny_set st) \<and>
     compile_allowlist_globset (nw_libs w) (unwrap_or [] (allowed_domains (cs_config st))) = Inr (cs_allow_set st)"

definition validated :: "net_world \<Rightarrow> config_state \<Rightarrow> bool" where
  "validated w st \<longleftrightarrow>
     validate_policy_against_constraints (nw_libs w) (nw_hook_libs w) (cs_config st) (cs_constraints st) = Inr ()"

definition state_ok :: "net_world \<Rightarrow> config_state \<Rightarrow> bool" where
  "state_ok w st \<longleftrightarrow> sets_follow w st \<and> validated w st \<and> length (cs_blocked st) \<le> MAX_BLOCKED_EVENTS"

text \<open>
  A state as the loader and the reloader make it: built from a configuration that passed the check
  against its constraints.
\<close>

definition configured :: "net_world \<Rightarrow> config_state \<Rightarrow> bool" where
  "configured w st \<longleftrightarrow> validated w st \<and> build_config_state w (cs_config st) (cs_constraints st) = Inr st"

definition reloads_ok :: "net_world \<Rightarrow> net_proxy \<Rightarrow> bool" where
  "reloads_ok w p \<longleftrightarrow> (\<forall>st. Inr (Some st) \<in> set (np_reloads p) \<longrightarrow> configured w st)"

definition others_ok :: "net_world \<Rightarrow> (config_state \<Rightarrow> config_state) list \<Rightarrow> bool" where
  "others_ok w others \<longleftrightarrow> (\<forall>other \<in> set others. \<forall>st. state_ok w st \<longrightarrow> state_ok w (other st))"

definition proxy_ok :: "net_world \<Rightarrow> net_proxy \<Rightarrow> bool" where
  "proxy_ok w p \<longleftrightarrow> state_ok w (np_state p) \<and> reloads_ok w p"

lemma build_follows: "build_config_state w cfg constraints = Inr st \<Longrightarrow>
  sets_follow w st \<and> cs_config st = cfg \<and> cs_constraints st = constraints \<and> cs_blocked st = []"
  by (auto simp: build_config_state_def result_simps sets_follow_def)

lemma sets_follow_blocked [simp]:
  "sets_follow w (st\<lparr> cs_blocked := b \<rparr>) \<longleftrightarrow> sets_follow w st"
  "sets_follow w (st\<lparr> cs_blocked := b, cs_blocked_total := n \<rparr>) \<longleftrightarrow> sets_follow w st"
  by (simp_all add: sets_follow_def)

lemma validated_blocked [simp]:
  "validated w (st\<lparr> cs_blocked := b \<rparr>) \<longleftrightarrow> validated w st"
  "validated w (st\<lparr> cs_blocked := b, cs_blocked_total := n \<rparr>) \<longleftrightarrow> validated w st"
  by (simp_all add: validated_def)

lemma sets_follow_mode [simp]:
  "sets_follow w (st\<lparr> cs_config := (cs_config st)\<lparr> mode := m \<rparr> \<rparr>) \<longleftrightarrow> sets_follow w st"
  by (simp add: sets_follow_def allowed_domains_def denied_domains_def domain_entries_def)

lemma configured_ok:
  "configured w st \<Longrightarrow> length b \<le> MAX_BLOCKED_EVENTS \<Longrightarrow> state_ok w (st\<lparr> cs_blocked := b \<rparr>)"
  "configured w st \<Longrightarrow> length b \<le> MAX_BLOCKED_EVENTS \<Longrightarrow> state_ok w (st\<lparr> cs_blocked := b, cs_blocked_total := n \<rparr>)"
  "configured w st \<Longrightarrow> state_ok w st"
  using build_follows by (fastforce simp: configured_def state_ok_def)+

text \<open>The check of the mode is independent of the rest of the configuration.\<close>

lemma mode_irrelevant:
  "allowed_domains (cfg\<lparr> mode := m \<rparr>) = allowed_domains cfg"
  "denied_domains (cfg\<lparr> mode := m \<rparr>) = denied_domains cfg"
  "allow_unix_sockets (cfg\<lparr> mode := m \<rparr>) = allow_unix_sockets cfg"
  "enabled (cfg\<lparr> mode := m \<rparr>) = enabled cfg"
  "allow_local_binding (cfg\<lparr> mode := m \<rparr>) = allow_local_binding cfg"
  "mode (cfg\<lparr> mode := m \<rparr>) = m"
  by (simp_all add: allowed_domains_def denied_domains_def domain_entries_def allow_unix_sockets_def)

lemma validate_domains_mode:
  "validate_allowed_domains libs (cfg\<lparr> mode := m \<rparr>) constraints = validate_allowed_domains libs cfg constraints"
  "validate_denied_domains (cfg\<lparr> mode := m \<rparr>) constraints = validate_denied_domains cfg constraints"
  unfolding validate_allowed_domains_def validate_denied_domains_def mode_irrelevant by (rule refl)+

lemma validate_mode:
  "validate_policy_against_constraints libs hlibs (cfg\<lparr> mode := m \<rparr>) constraints = Inr () \<longleftrightarrow>
   (\<forall>cap. max_mode constraints = Some cap \<longrightarrow> network_mode_rank m \<le> network_mode_rank cap) \<and>
   validate_policy_against_constraints libs hlibs (cfg\<lparr> mode := Limited \<rparr>) constraints = Inr ()"
proof -
  have check: "(case max_mode constraints of None \<Rightarrow> Inr ()
      | Some cap \<Rightarrow> ensure_value (\<not> network_mode_rank k > network_mode_rank cap) ''network.mode'') = Inr () \<longleftrightarrow>
      (\<forall>cap. max_mode constraints = Some cap \<longrightarrow> network_mode_rank k \<le> network_mode_rank cap)" for k
    by (simp add: ensure_value_def not_less split: option.splits)
  have "network_mode_rank Limited \<le> network_mode_rank cap" for cap by simp
  then show ?thesis
    unfolding validate_policy_against_constraints_def validate_domains_mode mode_irrelevant try_bind_Inr
    by (simp add: check del: network_mode_rank.simps) blast
qed

lemma validate_new_mode:
  assumes "validate_policy_against_constraints libs hlibs (cfg\<lparr> mode := m \<rparr>) constraints = Inr ()"
    and "validate_policy_against_constraints libs hlibs cfg' constraints = Inr ()"
  shows "validate_policy_against_constraints libs hlibs (cfg'\<lparr> mode := m \<rparr>) constraints = Inr ()"
proof -
  have "cfg'\<lparr> mode := mode cfg' \<rparr> = cfg'" by simp
  with assms show ?thesis using validate_mode by metis
qed

lemma state_ok_mode:
  assumes "state_ok w st" "cs_constraints st = constraints"
    and "validate_policy_against_constraints (nw_libs w) (nw_hook_libs w) (cfg\<lparr> mode := m \<rparr>) constraints = Inr ()"
  shows "state_ok w (st\<lparr> cs_config := (cs_config st)\<lparr> mode := m \<rparr> \<rparr>)"
  using assms validate_new_mode [OF assms(3)] by (simp add: state_ok_def validated_def)

lemma length_pop_blocked: "length (pop_blocked xs) \<le> MAX_BLOCKED_EVENTS"
  by (induction xs) (auto simp: MAX_BLOCKED_EVENTS_def)

section \<open>Operations\<close>

lemma proxy_ok_write:
  "proxy_ok w p \<Longrightarrow> state_ok w st \<Longrightarrow> proxy_ok w (p\<lparr> np_state := st \<rparr>)"
  by (simp add: proxy_ok_def reloads_ok_def)

lemma proxy_okD: "proxy_ok w p \<Longrightarrow> state_ok w (np_state p)"
  by (simp add: proxy_ok_def)

lemma blocked_le: "proxy_ok w p \<Longrightarrow> length (cs_blocked (np_state p)) \<le> MAX_BLOCKED_EVENTS"
  by (simp add: proxy_ok_def state_ok_def)

lemma others_okD:
  "others_ok w (other # others) \<Longrightarrow> (state_ok w st \<longrightarrow> state_ok w (other st)) \<and> others_ok w others"
  by (simp add: others_ok_def)

lemma reload_ok:
  assumes "proxy_ok w p" and "reload_if_needed p = (r, p')"
  shows "proxy_ok w p'"
proof (cases "np_reloads p")
  case Nil
  with assms show ?thesis by (auto simp: reload_if_needed_def)
next
  case (Cons found later)
  then have "proxy_ok w (p\<lparr> np_reloads := later \<rparr>)"
    "found = Inr (Some st) \<Longrightarrow> configured w st" for st
    using assms(1) by (auto simp: proxy_ok_def reloads_ok_def)
  with assms Cons configured_ok(2) [OF _ blocked_le [OF assms(1)]] show ?thesis
    by (auto simp: reload_if_needed_def Let_def intro!: proxy_ok_write split: sum.splits option.splits)
qed

lemma after_reload_ok:
  assumes "proxy_ok w p" and "after_reload p f = (r, p')"
    and "\<And>q r' q'. proxy_ok w q \<Longrightarrow> f q = (r', q') \<Longrightarrow> proxy_ok w q'"
  shows "proxy_ok w p'"
  using assms reload_ok [OF assms(1)] by (auto simp: after_reload_def split: prod.splits sum.splits)

lemma updated_ok:
  assumes "state_ok w read" and "updated_domain_state w host target read = Inr (Some st)"
  shows "state_ok w st"
proof -
  from assms(2) obtain candidate new_state where new:
    "validate_policy_against_constraints (nw_libs w) (nw_hook_libs w) candidate (cs_constraints read) = Inr ()"
    "build_config_state w candidate (cs_constraints read) = Inr new_state"
    "st = new_state\<lparr> cs_blocked := cs_blocked read, cs_blocked_total := cs_blocked_total read \<rparr>"
    by (auto simp: updated_domain_state_def result_simps Let_def split: if_splits)
  with build_follows have "configured w new_state" by (fastforce simp: configured_def validated_def)
  from configured_ok(2) [OF this] assms(1) new(3) show ?thesis by (simp add: state_ok_def [of w read])
qed

lemma set_mode_ok:
  assumes "proxy_ok w p" "others_ok w others" "set_network_mode w others m p = (r, p')"
  shows "proxy_ok w p'"
  using assms
proof (induction others arbitrary: p)
  case Nil
  obtain r1 p1 where p1: "reload_if_needed p = (r1, p1)" by fastforce
  have ok: "proxy_ok w p1" using reload_ok [OF Nil(1) p1] .
  note new = proxy_ok_write [OF ok state_ok_mode [OF proxy_okD [OF ok] refl]]
  note step = set_network_mode.simps [of w "[]" m p, unfolded p1 prod.case list.case Let_def]
  from Nil(3) ok new show ?case unfolding step by (auto split: sum.splits)
next
  case (Cons other others)
  obtain r1 p1 where p1: "reload_if_needed p = (r1, p1)" by fastforce
  have ok: "proxy_ok w p1" using reload_ok [OF Cons.prems(1) p1] .
  have guard: "state_ok w (other (np_state p1))" "others_ok w others"
    using others_okD [OF Cons.prems(2)] proxy_okD [OF ok] by blast+
  note new = proxy_ok_write [OF ok state_ok_mode [OF guard(1)]]
  note again = Cons.IH [OF proxy_ok_write [OF ok guard(1)] guard(2)]
  note step = set_network_mode.simps [of w "other # others" m p, unfolded p1 prod.case list.case Let_def]
  from Cons.prems(3) ok new again show ?case unfolding step by (auto split: sum.splits if_splits)
qed

text \<open>How an update ends: nothing had to change, or the new state is in force.\<close>

lemma update_loop_result:
  assumes "proxy_ok w p" "others_ok w others" "update_loop w others host target p = (r, p')"
  shows "proxy_ok w p' \<and>
    (r = Inr () \<longrightarrow> updated_domain_state w host target (np_state p') = Inr None \<or>
      (\<exists>read. updated_domain_state w host target read = Inr (Some (np_state p'))))"
  using assms
proof (induction others arbitrary: p)
  case Nil
  obtain r1 p1 where p1: "reload_if_needed p = (r1, p1)" by fastforce
  have ok: "proxy_ok w p1" using reload_ok [OF Nil(1) p1] .
  note new = proxy_ok_write [OF ok updated_ok [OF proxy_okD [OF ok]]]
  note step = update_loop.simps [of w "[]" host target p, unfolded p1 prod.case list.case Let_def]
  from Nil(3) ok new show ?case unfolding step by (auto split: sum.splits option.splits)
next
  case (Cons other others)
  obtain r1 p1 where p1: "reload_if_needed p = (r1, p1)" by fastforce
  have ok: "proxy_ok w p1" using reload_ok [OF Cons.prems(1) p1] .
  have guard: "state_ok w (other (np_state p1))" "others_ok w others"
    using others_okD [OF Cons.prems(2)] proxy_okD [OF ok] by blast+
  note new = proxy_ok_write [OF ok updated_ok [OF proxy_okD [OF ok]]]
  note again = Cons.IH [OF proxy_ok_write [OF ok guard(1)] guard(2)]
  note step = update_loop.simps [of w "other # others" host target p, unfolded p1 prod.case list.case Let_def]
  from Cons.prems(3) ok new again show ?case
    unfolding step by (auto split: sum.splits option.splits if_splits)
qed

lemma update_domain_list_ok:
  "proxy_ok w p \<Longrightarrow> others_ok w others \<Longrightarrow> update_domain_list w others host target p = (r, p') \<Longrightarrow> proxy_ok w p'"
  using update_loop_result by (auto simp: update_domain_list_def split: sum.splits)

section \<open>Reachable states\<close>

text \<open>What a task can write to the state between the read and the write of another.\<close>

inductive state_write :: "net_world \<Rightarrow> config_state \<Rightarrow> config_state \<Rightarrow> bool" for w where
  unchanged: "state_write w st st"
| new_config: "configured w new_state \<Longrightarrow> length b \<le> MAX_BLOCKED_EVENTS \<Longrightarrow>
    state_write w st (new_state\<lparr> cs_blocked := b, cs_blocked_total := n \<rparr>)"
| new_mode: "validate_policy_against_constraints (nw_libs w) (nw_hook_libs w) (cfg\<lparr> mode := m \<rparr>) (cs_constraints st) = Inr () \<Longrightarrow>
    state_write w st (st\<lparr> cs_config := (cs_config st)\<lparr> mode := m \<rparr> \<rparr>)"
| new_blocked: "state_write w st (st\<lparr> cs_blocked := pop_blocked (cs_blocked st @ [entry]), cs_blocked_total := n \<rparr>)"
| drained: "state_write w st (st\<lparr> cs_blocked := [] \<rparr>)"

definition task_writes :: "net_world \<Rightarrow> (config_state \<Rightarrow> config_state) list \<Rightarrow> bool" where
  "task_writes w others \<longleftrightarrow> (\<forall>other \<in> set others. \<forall>st. state_write w st (other st))"

inductive proxy_step :: "net_world \<Rightarrow> net_proxy \<Rightarrow> net_proxy \<Rightarrow> bool" for w where
  decided: "host_blocked w host port p = (r, p') \<Longrightarrow> proxy_step w p p'"
| mode_read: "method_allowed method p = (r, p') \<Longrightarrow> proxy_step w p p'"
| connected: "connector_serve policy proxy_address addr p = (r, p') \<Longrightarrow> proxy_step w p p'"
| socket_read: "is_unix_socket_allowed w path p = (r, p') \<Longrightarrow> proxy_step w p p'"
| hooks_read: "evaluate_mitm_hook_request w host req p = (r, p') \<Longrightarrow> proxy_step w p p'"
| recorded: "record_blocked entry p = (r, p') \<Longrightarrow> proxy_step w p p'"
| drain: "drain_blocked p = (r, p') \<Longrightarrow> proxy_step w p p'"
| forced: "(\<And>st. reloaded = Inr st \<Longrightarrow> configured w st) \<Longrightarrow> force_reload reloaded p = (r, p') \<Longrightarrow> proxy_step w p p'"
| replaced: "configured w new_state \<Longrightarrow> replace_config_state new_state p = (r, p') \<Longrightarrow> proxy_step w p p'"
| mode_set: "task_writes w others \<Longrightarrow> set_network_mode w others m p = (r, p') \<Longrightarrow> proxy_step w p p'"
| allowed: "task_writes w others \<Longrightarrow> add_allowed_domain w others host p = (r, p') \<Longrightarrow> proxy_step w p p'"
| denied: "task_writes w others \<Longrightarrow> add_denied_domain w others host p = (r, p') \<Longrightarrow> proxy_step w p p'"

inductive proxy_reachable :: "net_world \<Rightarrow> net_proxy \<Rightarrow> bool" for w where
  started: "configured w (np_state p) \<Longrightarrow> reloads_ok w p \<Longrightarrow> proxy_reachable w p"
| stepped: "proxy_reachable w p \<Longrightarrow> proxy_step w p p' \<Longrightarrow> proxy_reachable w p'"

lemma state_ok_blocked:
  "state_ok w st \<Longrightarrow> length b \<le> MAX_BLOCKED_EVENTS \<Longrightarrow>
   state_ok w (st\<lparr> cs_blocked := b \<rparr>) \<and> state_ok w (st\<lparr> cs_blocked := b, cs_blocked_total := n \<rparr>)"
  by (simp add: state_ok_def)

lemma state_write_ok: "state_write w st st' \<Longrightarrow> state_ok w st \<Longrightarrow> state_ok w st'"
  by (induction rule: state_write.induct)
     (auto intro: configured_ok state_ok_mode state_ok_blocked [THEN conjunct1] state_ok_blocked [THEN conjunct2]
       length_pop_blocked)

lemma task_writes_ok: "task_writes w others \<Longrightarrow> others_ok w others"
  unfolding task_writes_def others_ok_def using state_write_ok by blast

lemma record_ok: "proxy_ok w p \<Longrightarrow> record_blocked entry p = (r, p') \<Longrightarrow> proxy_ok w p'"
  unfolding record_blocked_def
  by (erule after_reload_ok, assumption)
     (auto simp: Let_def intro!: proxy_ok_write state_write_ok [OF new_blocked] dest: proxy_okD)

lemma drain_ok: "proxy_ok w p \<Longrightarrow> drain_blocked p = (r, p') \<Longrightarrow> proxy_ok w p'"
  unfolding drain_blocked_def
  by (erule after_reload_ok, assumption)
     (auto intro!: proxy_ok_write state_write_ok [OF drained] dest: proxy_okD)

lemma replace_ok:
  "proxy_ok w p \<Longrightarrow> configured w new_state \<Longrightarrow> replace_config_state new_state p = (r, p') \<Longrightarrow> proxy_ok w p'"
  unfolding replace_config_state_def
  by (erule after_reload_ok, assumption) (auto intro!: proxy_ok_write configured_ok(1,2) blocked_le)

lemma force_ok:
  "proxy_ok w p \<Longrightarrow> (\<And>st. reloaded = Inr st \<Longrightarrow> configured w st) \<Longrightarrow> force_reload reloaded p = (r, p') \<Longrightarrow> proxy_ok w p'"
  by (auto simp: force_reload_def intro!: proxy_ok_write configured_ok(1,2) blocked_le split: sum.splits)

lemma read_ok:
  "proxy_ok w p \<Longrightarrow> after_reload p (\<lambda>p. (f p, p)) = (r, p') \<Longrightarrow> proxy_ok w p'"
  by (erule after_reload_ok, assumption) auto

lemma proxy_step_ok:
  assumes "proxy_step w p p'" and "proxy_ok w p"
  shows "proxy_ok w p'"
  using assms
proof cases
  case (connected policy proxy_address addr r)
  then consider "p' = p" | r' where "local_binding_allowed p = (r', p')"
    by (auto simp: connector_serve_def connect_target_def target_allow_local_binding_def
        split: prod.splits sum.splits option.splits target_policy.splits)
  then show ?thesis
  proof cases
    case (2 r')
    with assms(2) show ?thesis unfolding local_binding_allowed_def by (rule read_ok)
  qed (use assms(2) in simp)
next
  case (decided host port r)
  with assms(2) show ?thesis unfolding host_blocked_def by (rule read_ok)
next
  case (mode_read m r)
  with assms(2) show ?thesis unfolding method_allowed_def by (rule read_ok)
next
  case (socket_read path r)
  with assms(2) show ?thesis unfolding is_unix_socket_allowed_def Let_def by (rule read_ok)
next
  case (hooks_read host req r)
  with assms(2) show ?thesis unfolding evaluate_mitm_hook_request_def by (rule read_ok)
qed (use assms(2) in \<open>auto simp: add_allowed_domain_def add_denied_domain_def
    intro: record_ok drain_ok replace_ok force_ok set_mode_ok update_domain_list_ok task_writes_ok\<close>)

lemma reachable_ok: "proxy_reachable w p \<Longrightarrow> proxy_ok w p"
proof (induction rule: proxy_reachable.induct)
  case (started p)
  then show ?case by (simp add: proxy_ok_def configured_ok)
next
  case (stepped p p')
  with proxy_step_ok show ?case by blast
qed

text \<open>
  C8. In every reachable state of the proxy the configuration in force satisfies the constraints in
  force, the two compiled lists are those of that configuration, and at most 200 blocked requests are
  kept: through reloads, decisions, changes of the mode and of the lists, and the writes of other
  tasks between the read and the write of an update.
\<close>

theorem reachable_config_within_constraints:
  assumes "proxy_reachable w p"
  shows "validate_policy_against_constraints (nw_libs w) (nw_hook_libs w)
           (cs_config (np_state p)) (cs_constraints (np_state p)) = Inr () \<and>
    compile_denylist_globset (nw_libs w) (unwrap_or [] (denied_domains (cs_config (np_state p)))) =
      Inr (cs_deny_set (np_state p)) \<and>
    compile_allowlist_globset (nw_libs w) (unwrap_or [] (allowed_domains (cs_config (np_state p)))) =
      Inr (cs_allow_set (np_state p)) \<and>
    length (cs_blocked (np_state p)) \<le> 200"
  using proxy_okD [OF reachable_ok [OF assms]]
  by (simp add: state_ok_def sets_follow_def validated_def MAX_BLOCKED_EVENTS_def)

section \<open>Denied domains\<close>

definition groups_ok :: "string list \<Rightarrow> bool" where
  "groups_ok gs \<longleftrightarrow> (\<forall>g \<in> set gs. g \<noteq> [] \<and> (\<forall>c \<in> set (tl g). is_cont_byte c)) \<and> (\<forall>g \<in> set (tl gs). \<not> is_cont_byte (hd g))"

lemma groups_ok_chars: "groups_ok (chars s)"
proof (induction s)
  case (Cons b s)
  show ?case
  proof (cases "chars s")
    case (Cons g gs)
    with Cons.IH obtain c cs where "g = c # cs" by (cases g) (auto simp: groups_ok_def)
    with Cons Cons.IH show ?thesis by (auto simp: groups_ok_def)
  qed (simp add: groups_ok_def)
qed (simp add: groups_ok_def)

lemma groups_ok_part: "groups_ok (xs @ gs @ ys) \<Longrightarrow> groups_ok gs"
  by (cases gs; cases xs) (auto simp: groups_ok_def)

lemma chars_group: "\<forall>c \<in> set cs. is_cont_byte c \<Longrightarrow> chars (b # cs) = [b # cs]"
  by (induction cs arbitrary: b) auto

lemma chars_concat: "groups_ok gs \<Longrightarrow> chars (concat gs) = gs"
proof (induction gs)
  case (Cons g gs)
  then have ok: "groups_ok gs" by (cases gs) (auto simp: groups_ok_def)
  have "char_boundary (concat gs)"
    using Cons.prems by (cases gs) (auto simp: groups_ok_def char_boundary_def)
  moreover have "chars g = [g]"
    using Cons.prems chars_group [of "tl g" "hd g"] by (simp add: groups_ok_def)
  ultimately show ?case using Cons.IH [OF ok] by (simp add: chars_append)
qed simp

lemma dropWhile_part: "\<exists>xs. gs = xs @ dropWhile P gs"
  by (metis takeWhile_dropWhile_id)

lemma rev_dropWhile_part: "\<exists>ys. gs = rev (dropWhile P (rev gs)) @ ys"
  by (metis rev_append rev_rev_ident takeWhile_dropWhile_id)

lemma chars_trim:
  "chars (trim s) = rev (dropWhile is_whitespace (rev (dropWhile is_whitespace (chars s))))" (is "_ = ?core")
proof -
  let ?a = "dropWhile is_whitespace (chars s)"
  obtain xs where xs: "chars s = xs @ ?a" using dropWhile_part by blast
  obtain ys where ys: "?a = ?core @ ys" using rev_dropWhile_part by blast
  have ok: "groups_ok (xs @ ?core @ ys)" using groups_ok_chars [of s] xs ys by simp
  then have "groups_ok ?a" using groups_ok_part [of xs ?a "[]"] ys by simp
  then have "trim s = concat ?core"
    by (simp add: trim_def trim_end_def trim_start_def chars_concat)
  with chars_concat [OF groups_ok_part [OF ok]] show ?thesis by simp
qed

lemma trim_trim [simp]: "trim (trim s) = trim s"
proof -
  define a where "a = dropWhile is_whitespace (chars s)"
  define core where "core = rev (dropWhile is_whitespace (rev a))"
  have c: "chars (trim s) = core" by (simp add: chars_trim core_def a_def)
  obtain ys where ys: "a = core @ ys" using rev_dropWhile_part unfolding core_def by blast
  have "dropWhile is_whitespace core = core"
    using ys hd_dropWhile [of is_whitespace "chars s"] unfolding a_def [symmetric] by (cases core) auto
  moreover have "dropWhile is_whitespace (rev core) = rev core" by (simp add: core_def)
  ultimately have "chars (trim (trim s)) = core" by (simp add: chars_trim [of "trim s"] c)
  with c show ?thesis by (metis concat_chars)
qed

text \<open>An entry whose normal form is a host name stands for that name alone.\<close>

lemma normalize_ip_literal_hd:
  assumes "normalize_ip_literal (c # s) = Some ip"
  shows "hd ip = c \<or> hd ip = CHR ''%''"
  using assms by (auto simp: normalize_ip_literal_def split_once_str_def split: if_splits option.splits)

lemma normalize_star: "hd (normalize_dns_host_or_ip_literal (CHR ''*'' # s)) \<in> {CHR ''*'', CHR ''%''}"
proof -
  have "ascii_lower_char CHR ''*'' = CHR ''*''" by code_simp
  then obtain r where "trim_end_matches CHR ''.'' (to_ascii_lowercase (CHR ''*'' # s)) = CHR ''*'' # r"
    by (simp add: trim_end_matches_def to_ascii_lowercase_def dropWhile_append3)
  then show ?thesis
    using normalize_ip_literal_hd [of "CHR ''*''" r]
    by (auto simp: normalize_dns_host_or_ip_literal_def Let_def split: option.splits)
qed

lemma normalize_host_star:
  assumes "trim e = CHR ''*'' # s"
  shows "hd (normalize_host e) \<in> {CHR ''*'', CHR ''%''}"
proof -
  obtain y ys where "split_on CHR '':'' s = y # ys" by (cases "split_on CHR '':'' s") auto
  then have "hd (split_on CHR '':'' (CHR ''*'' # s)) = CHR ''*'' # y" by simp
  then show ?thesis
    using normalize_star [of s] normalize_star [of y] assms by (simp add: normalize_host_def starts_with_iff Let_def)
qed

text \<open>A normal form is in lower case.\<close>

definition all_lower :: "string \<Rightarrow> bool" where
  "all_lower s \<longleftrightarrow> (\<forall>c \<in> set s. ascii_lower_char c = c)"

lemma all_lowerD: "all_lower s \<Longrightarrow> to_ascii_lowercase s = s"
  by (simp add: all_lower_def to_ascii_lowercase_def map_idI)

lemma all_lower_ip:
  assumes "all_lower s" "normalize_ip_literal s = Some ip"
  shows "all_lower ip"
proof -
  have "ascii_lower_char CHR ''%'' = CHR ''%''" by code_simp
  with assms show ?thesis
    by (auto simp: all_lower_def normalize_ip_literal_def split_once_str_def
        dest!: in_set_takeD in_set_dropD split: if_splits option.splits)
qed

lemma all_lower_dns: "all_lower (normalize_dns_host_or_ip_literal s)"
proof -
  have "all_lower (trim_end_matches CHR ''.'' (to_ascii_lowercase s))"
    using lower_lower [of s] by (auto simp: all_lower_def trim_end_matches_def to_ascii_lowercase_def
        dest!: set_dropWhileD)
  with all_lower_ip show ?thesis
    by (auto simp: normalize_dns_host_or_ip_literal_def Let_def split: option.splits)
qed

lemma normalize_host_lower: "to_ascii_lowercase (normalize_host s) = normalize_host s"
  by (rule all_lowerD) (simp add: normalize_host_def all_lower_dns Let_def split: option.splits)

lemma normalize_host_Nil: "trim e = [] \<Longrightarrow> normalize_host e = []"
  by (simp add: normalize_host_def) code_simp

lemma exact_entry_expands:
  assumes "normalize_host e = h" "h \<noteq> []" "hd h \<noteq> CHR ''*''" "hd h \<noteq> CHR ''%''" "trim h = h"
  shows "expand_domain_pattern (normalize_pattern e) = [h]"
proof -
  let ?t = "trim e"
  have norm: "normalize_host ?t = h" using assms(1) by (simp add: normalize_host_def)
  have "?t \<noteq> []" using normalize_host_Nil assms(1,2) by auto
  moreover have "hd ?t \<noteq> CHR ''*''"
    using normalize_host_star [of e "tl ?t"] assms(1,3,4) \<open>?t \<noteq> []\<close> by (cases ?t) auto
  ultimately have "wildcard_prefix ?t = ([], ?t)" "?t \<noteq> ''*''"
    using no_wildcard_prefix by (auto simp: wildcard_prefix_def)
  then have "normalize_pattern e = h" using norm by (simp add: normalize_pattern_def Let_def)
  then show ?thesis
    using no_wildcard_prefix [OF assms(2,3)] assms(2,5)
    by (simp add: expand_domain_pattern_def domain_pattern_parse_def)
qed

lemma normal_entry_expands:
  assumes "normalize_host e = h" "dns_name h"
  shows "expand_domain_pattern (normalize_pattern e) = [h]"
proof -
  have h: "dns_text h" "h \<noteq> []" using dns_name_text [OF assms(2)] dns_name_ends(1) [OF assms(2)] .
  then have "hd h \<noteq> CHR ''%''" using dns_text_free(1) [OF h(1)] hd_in_set by metis
  with exact_entry_expands [OF assms(1) h(2) hd_dns(1) [OF h]] dns_name_trim [OF assms(2)] show ?thesis by blast
qed

lemma denied_entry:
  assumes "state_ok w st" "e \<in> set (unwrap_or [] (denied_domains (cs_config st)))"
    and "normalize_host e = h" "dns_name h" "glob_laws (nw_libs w)" "host_parse host = Inr h"
  shows "decide_host w st host port = Blocked Denied"
proof -
  have c: "compile_denylist_globset (nw_libs w) (unwrap_or [] (denied_domains (cs_config st))) = Inr (cs_deny_set st)"
    using assms(1) by (simp add: state_ok_def sets_follow_def)
  have "globset_is_match (nw_libs w) [h] h"
    using assms(4,5) by (simp add: globset_is_match_def glob_laws_def)
  then have "globset_is_match (nw_libs w) (cs_deny_set st) h"
    using compiled_match [OF c [unfolded compile_denylist_globset_def]] normal_entry_expands [OF assms(3,4)] assms(2) by fastforce
  with assms(6) show ?thesis by (simp add: decide_host_def globset_matches_host_or_unscoped_def)
qed

lemma host_parse_Inr: "host_parse host = Inr h \<longleftrightarrow> h = normalize_host host \<and> h \<noteq> []"
  by (auto simp: host_parse_def Let_def)

text \<open>After an update of the deny list an entry of it has the normal form of the host.\<close>

lemma updated_denies:
  assumes "updated_domain_state w h DenyList read = Inr (Some st)" "normalize_host h = h"
  shows "h \<in> set (unwrap_or [] (denied_domains (cs_config st)))"
proof -
  let ?c = "upsert_domain_permission (cs_config read) h DomainDeny normalize_host"
  from assms(1) have "cs_config st = ?c"
    by (auto simp: updated_domain_state_def result_simps Let_def split: if_splits dest!: build_follows)
  moreover have "strongest (unwrap_or [] (domains ?c)) h = Some DomainDeny"
  proof -
    have "filter (\<lambda>(q, _). q = h) (filter (\<lambda>(pattern, _). normalize_host pattern \<noteq> normalize_host h) entries) = []"
      for entries :: "domain_entry list" by (auto simp: filter_empty_conv)
    then show ?thesis
      by (simp add: upsert_domain_permission_def non_empty_def strongest_def Let_def del: filter_filter set_filter)
  qed
  ultimately show ?thesis by (simp add: denied_domains_def domain_entries_mem)
qed

lemma unchanged_denies:
  "updated_domain_state w h DenyList st = Inr None \<Longrightarrow>
   \<exists>e \<in> set (unwrap_or [] (denied_domains (cs_config st))). normalize_host e = h"
  by (auto simp: updated_domain_state_def result_simps Let_def list_ex_iff split: if_splits)

text \<open>
  C9. When \<open>add_denied_domain\<close> returns \<open>Ok\<close> for a host with the normal form of a host name, every
  spelling of that name is blocked as denied in the state it leaves, whatever the allowlist holds, on
  every port, and whatever other tasks wrote while the update ran. The globs match as documented.
\<close>

theorem denied_domain_is_blocked:
  assumes "glob_laws (nw_libs w)" and "proxy_reachable w p" and "task_writes w others"
    and "add_denied_domain w others host p = (Inr (), p')"
    and "host_parse host = Inr h" and "dns_name h" and "host_parse spelling = Inr h"
  shows "decide_host w (np_state p') spelling port = Blocked Denied"
proof -
  have run: "update_loop w others h DenyList p = (Inr (), p')"
    using assms(4,5) by (simp add: add_denied_domain_def update_domain_list_def)
  have ok: "state_ok w (np_state p')"
    and ended: "updated_domain_state w h DenyList (np_state p') = Inr None \<or>
      (\<exists>read. updated_domain_state w h DenyList read = Inr (Some (np_state p')))"
    using update_loop_result [OF reachable_ok [OF assms(2)] task_writes_ok [OF assms(3)] run]
    by (auto simp: proxy_ok_def)
  have "normalize_host h = h"
    using normalize_host_dns [OF assms(6)] normalize_host_lower assms(5) by (auto simp: host_parse_Inr)
  with ended updated_denies unchanged_denies
  obtain e where "e \<in> set (unwrap_or [] (denied_domains (cs_config (np_state p'))))" "normalize_host e = h"
    by metis
  from denied_entry [OF ok this assms(6,1,7)] show ?thesis .
qed

section \<open>Witnesses\<close>

text \<open>A task that restricts the mode, as \<open>set_network_mode\<close> does.\<close>

definition limits_mode :: "net_world \<Rightarrow> config_state \<Rightarrow> config_state" where
  "limits_mode w st =
     (if validate_policy_against_constraints (nw_libs w) (nw_hook_libs w)
           ((cs_config st)\<lparr> mode := Limited \<rparr>) (cs_constraints st) = Inr ()
      then st\<lparr> cs_config := (cs_config st)\<lparr> mode := Limited \<rparr> \<rparr> else st)"

lemma limits_mode_writes: "task_writes w [limits_mode w]"
  by (auto simp: task_writes_def limits_mode_def intro: state_write.intros)

lemma sample_build:
  assumes "mitm cfg = False" "mitm_hooks cfg = []" "unix_sockets cfg = None"
    and "compile_denylist_globset sample_libs (unwrap_or [] (denied_domains cfg)) = Inr deny_set"
    and "compile_allowlist_globset sample_libs (unwrap_or [] (allowed_domains cfg)) = Inr allow_set"
    and "validate_non_global_wildcard_domain_patterns ''network.denied_domains'' (unwrap_or [] (denied_domains cfg)) = Inr ()"
  shows "build_config_state sample_world cfg no_constraints =
    Inr (np_state (sample_proxy cfg allow_set)\<lparr> cs_deny_set := deny_set \<rparr>)"
proof -
  have "compile_mitm_hooks hlibs env files False [] = Inr Map.empty" for hlibs env files
    by (simp add: compile_mitm_hooks_def compile_mitm_hooks_with_resolvers_def validate_mitm_hook_config_def)
  moreover have "validate_unix_socket_allowlist_paths os cfg = Inr ()" for os
    using assms(3) by (simp add: validate_unix_socket_allowlist_paths_def allow_unix_sockets_def)
  ultimately show ?thesis
    using assms by (simp add: build_config_state_def sample_world_def sample_proxy_def)
qed

lemma sample_configured:
  "configured sample_world (np_state (sample_proxy (settings_allowing [''example.com'']) [''example.com'']))"
proof -
  have "validated sample_world (np_state (sample_proxy (settings_allowing [''example.com'']) [''example.com'']))"
    by code_simp
  moreover have "build_config_state sample_world (settings_allowing [''example.com'']) no_constraints =
    Inr (np_state (sample_proxy (settings_allowing [''example.com'']) [''example.com''])\<lparr> cs_deny_set := [] \<rparr>)"
    by (rule sample_build) code_simp+
  ultimately show ?thesis by (simp add: configured_def sample_proxy_def)
qed

lemma sample_reachable:
  "proxy_reachable sample_world (sample_proxy (settings_allowing [''example.com'']) [''example.com''])"
  using sample_configured by (intro started) (auto simp: reloads_ok_def sample_proxy_def)

theorem reachable_config_within_constraints_witness:
  "compile_allowlist_globset sample_libs (unwrap_or [] (allowed_domains (settings_allowing [''example.com'']))) = Inr [''example.com'']"
  using reachable_config_within_constraints [OF sample_reachable] by (simp add: sample_proxy_def sample_world_def)

text \<open>
  A proxy that allows \<open>example.com\<close> denies it while another task restricts the mode, so that the
  first attempt of the update is given up and the second one succeeds.
\<close>

definition deny_example :: "network_mode \<Rightarrow> network_proxy_settings" where
  "deny_example m = default_settings\<lparr> domains := Some [(''example.com'', DomainDeny)], mode := m \<rparr>"

lemma sample_update:
  assumes "cs_config read = settings_allowing [''example.com'']\<lparr> mode := m \<rparr>" "cs_constraints read = no_constraints"
    and "cs_blocked read = []" "cs_blocked_total read = 0"
  shows "updated_domain_state sample_world ''example.com'' DenyList read =
    Inr (Some (np_state (sample_proxy (deny_example m) [])\<lparr> cs_deny_set := [''example.com''] \<rparr>))"
proof -
  have "unwrap_or [] (denied_domains (settings_allowing [''example.com''])) = []" by code_simp
  moreover have "upsert_domain_permission (settings_allowing [''example.com'']\<lparr> mode := m \<rparr>) ''example.com'' DomainDeny normalize_host
      = deny_example m"
    by (simp add: upsert_domain_permission_def settings_allowing_def deny_example_def non_empty_def default_settings_def)
  moreover have "validate_policy_against_constraints sample_libs sample_hook_libs (deny_example m) no_constraints = Inr ()"
    by (cases m) code_simp+
  moreover have "build_config_state sample_world (deny_example m) no_constraints =
      Inr (np_state (sample_proxy (deny_example m) [])\<lparr> cs_deny_set := [''example.com''] \<rparr>)"
    by (rule sample_build) (cases m; code_simp)+
  ultimately show ?thesis
    using assms by (simp add: updated_domain_state_def mode_irrelevant sample_world_def Let_def sample_proxy_def)
qed

theorem denied_domain_is_blocked_witness:
  "\<exists>p'. add_denied_domain sample_world [limits_mode sample_world] '' Example.COM.:443''
          (sample_proxy (settings_allowing [''example.com'']) [''example.com'']) = (Inr (), p') \<and>
        decide_host sample_world (np_state p') ''EXAMPLE.com'' 80 = Blocked Denied"
proof -
  let ?p = "sample_proxy (settings_allowing [''example.com'']) [''example.com'']"
  let ?read = "limits_mode sample_world (np_state ?p)"
  have h: "host_parse '' Example.COM.:443'' = Inr ''example.com''" "dns_name ''example.com''"
    "host_parse ''EXAMPLE.com'' = Inr ''example.com''"
    by code_simp+
  have "validate_policy_against_constraints sample_libs sample_hook_libs
      (settings_allowing [''example.com'']\<lparr> mode := Limited \<rparr>) no_constraints = Inr ()" by code_simp
  then have read: "cs_config ?read = settings_allowing [''example.com'']\<lparr> mode := Limited \<rparr>"
    "cs_constraints ?read = no_constraints" "cs_blocked ?read = []" "cs_blocked_total ?read = 0"
    by (simp_all add: limits_mode_def sample_proxy_def sample_world_def)
  have differs: "cs_config ?read \<noteq> cs_config (np_state ?p)"
    unfolding read(1) by (simp add: sample_proxy_def settings_allowing_def default_settings_def)
  define p' where "p' = ?p\<lparr> np_state := np_state (sample_proxy (deny_example Limited) [])\<lparr> cs_deny_set := [''example.com''] \<rparr> \<rparr>"
  have idle: "reload_if_needed (?p\<lparr> np_state := st \<rparr>) = (Inr (), ?p\<lparr> np_state := st \<rparr>)" for st
    by (simp add: reload_if_needed_def sample_proxy_def)
  have second: "update_loop sample_world [] ''example.com'' DenyList (?p\<lparr> np_state := ?read \<rparr>) = (Inr (), p')"
    by (subst update_loop.simps) (simp add: idle sample_update [OF read] p'_def)
  have first: "update_loop sample_world [limits_mode sample_world] ''example.com'' DenyList ?p = (Inr (), p')"
  proof -
    have "updated_domain_state sample_world ''example.com'' DenyList (np_state ?p) =
        Inr (Some (np_state (sample_proxy (deny_example Full) [])\<lparr> cs_deny_set := [''example.com''] \<rparr>))"
      by (rule sample_update) (simp_all add: sample_proxy_def settings_allowing_def default_settings_def)
    moreover have "reload_if_needed ?p = (Inr (), ?p)" by (simp add: reload_if_needed_def sample_proxy_def)
    ultimately show ?thesis
      using second differs by (subst update_loop.simps) (simp add: Let_def)
  qed
  have run: "add_denied_domain sample_world [limits_mode sample_world] '' Example.COM.:443'' ?p = (Inr (), p')"
    using first by (simp add: add_denied_domain_def update_domain_list_def h)
  have "glob_laws (nw_libs sample_world)" using sample_laws by (simp add: sample_world_def)
  from denied_domain_is_blocked [OF this sample_reachable limits_mode_writes run h, of 80] run show ?thesis by blast
qed

end
