(* ===== verification/NetConnect_Props.thy ===== *)
theory NetConnect_Props
  imports NetState_Props
begin

text \<open>
  The address a request connects to: an entry of the allowlist that names a local address makes the
  decision on the host a positive one and does not open the direct connection to it.
\<close>

section \<open>The text of an address\<close>

text \<open>It consists of hexadecimal digits, dots and colons.\<close>

definition ip_char :: "char \<Rightarrow> bool" where
  "ip_char c \<longleftrightarrow> is_ascii_hexdigit c \<or> c = CHR ''.'' \<or> c = CHR '':''"

definition reads :: "string \<Rightarrow> string \<Rightarrow> bool" where
  "reads s rest \<longleftrightarrow> (\<exists>used. s = used @ rest \<and> list_all ip_char used)"

lemma reads_refl: "reads s s"
  by (simp add: reads_def)

lemma reads_trans: "reads s t \<Longrightarrow> reads t u \<Longrightarrow> reads s u"
  unfolding reads_def by (metis append.assoc list_all_append)

lemma reads_Cons: "ip_char c \<Longrightarrow> reads cs rest \<Longrightarrow> reads (c # cs) rest"
  unfolding reads_def by (metis append_Cons list.pred_inject(2))

lemma to_digit_ip: "to_digit radix c = Some d \<Longrightarrow> ip_char c"
  by (auto simp: to_digit_def hex_digit_def ip_char_def is_ascii_hexdigit_def Let_def split: if_splits)

lemma reads_digits: "read_digits radix largest m r n s = Some (r', n', rest) \<Longrightarrow> reads s rest"
  by (induction radix largest m r n s rule: read_digits.induct)
     (auto simp: reads_refl split: option.splits if_splits intro: reads_Cons to_digit_ip)

lemma reads_number: "read_number radix largest m z s = Some (n, rest) \<Longrightarrow> reads s rest"
  by (auto simp: read_number_def split: option.splits prod.splits if_splits intro: reads_digits)

lemma reads_separator:
  assumes "read_separator sep i inner s = Some (x, rest)" "sep = CHR ''.'' \<or> sep = CHR '':''"
    and "\<And>s. inner s = Some (x, rest) \<Longrightarrow> reads s rest"
  shows "reads s rest"
  using assms by (auto simp: read_separator_def ip_char_def split: if_splits list.splits intro: reads_Cons)

lemma reads_octet: "read_octet i s = Some (n, rest) \<Longrightarrow> reads s rest"
  unfolding read_octet_def by (erule reads_separator) (auto intro: reads_number)

lemma reads_ipv4: "read_ipv4_addr s = Some (ip, rest) \<Longrightarrow> reads s rest"
  by (auto simp: read_ipv4_addr_def bind_eq_Some_conv dest!: reads_octet intro: reads_trans)

lemma reads_groups: "read_groups i todo s = (gs, v4, rest) \<Longrightarrow> reads s rest"
proof (induction i todo s arbitrary: gs v4 rest rule: read_groups.induct)
  case (2 i todo s)
  show ?case
  proof (cases "if 0 < todo then read_separator CHR '':'' i read_ipv4_addr s else None")
    case (Some found)
    obtain ip r where "found = (ip, r)" by fastforce
    with Some 2(2) have "read_separator CHR '':'' i read_ipv4_addr s = Some (ip, rest)" by (auto split: if_splits)
    then show ?thesis by (rule reads_separator) (auto intro: reads_ipv4)
  next
    case None
    show ?thesis
    proof (cases "read_separator CHR '':'' i (read_number 16 65535 4 True) s")
      case none: None
      with None 2(2) show ?thesis by (simp add: reads_refl)
    next
      case (Some found)
      obtain n r where found: "found = (n, r)" by fastforce
      obtain gs' v' r' where rec: "read_groups (Suc i) todo r = (gs', v', r')" by (metis prod_cases3)
      with None Some found 2(2) have "r' = rest" by simp
      with 2(1) [OF None Some [unfolded found] refl rec] have "reads r rest" by simp
      moreover have "reads s r"
        using Some [unfolded found] by (rule reads_separator) (auto intro: reads_number)
      ultimately show ?thesis using reads_trans by blast
    qed
  qed
qed (simp add: reads_refl)

lemma reads_ipv6:
  assumes "read_ipv6_addr s = Some (ip, rest)"
  shows "reads s rest"
proof -
  obtain front v4 r where f: "read_groups 0 8 s = (front, v4, r)" by (metis prod_cases3)
  have colons: "reads (''::'' @ u) u" for u by (simp add: reads_def ip_char_def)
  from assms f consider "r = rest"
    | u gs v where "r = ''::'' @ u" "read_groups 0 (8 - (length front + 1)) u = (gs, v, rest)"
    by (auto simp: read_ipv6_addr_def strip_prefix_Some split: if_splits option.splits prod.splits)
  then have "reads r rest"
    by cases (use colons reads_refl reads_trans reads_groups in blast)+
  with reads_groups [OF f] show ?thesis by (rule reads_trans)
qed

lemma parse_ip_chars:
  assumes "parse_ip s = Some ip"
  shows "list_all ip_char s"
proof -
  have "reads s []"
    using assms by (auto simp: parse_ip_def split: option.splits prod.splits if_splits intro: reads_ipv4 reads_ipv6)
  then show ?thesis by (simp add: reads_def)
qed

lemma parse_ip_ne: "parse_ip s = Some ip \<Longrightarrow> s \<noteq> []"
proof -
  have "parse_ip [] = None" by code_simp
  then show "parse_ip s = Some ip \<Longrightarrow> s \<noteq> []" by auto
qed

lemma ip_char_cases:
  "ip_char c \<Longrightarrow> visible c \<and> c \<noteq> CHR ''%'' \<and> c \<noteq> CHR ''*'' \<and> c \<noteq> CHR ''?''"
  by (auto simp: ip_char_def visible_def is_ascii_hexdigit_def is_ascii_digit_def Let_def)

lemma split_once_none: "c \<notin> set s \<Longrightarrow> split_once c s = None"
  by (induction s) auto

section \<open>Listed local addresses\<close>

text \<open>A glob without special characters matches its own text; an address has none.\<close>

definition address_globs :: "net_libs \<Rightarrow> bool" where
  "address_globs libs \<longleftrightarrow> (\<forall>s. list_all ip_char s \<longrightarrow> glob_match libs s s)"

lemma listed_address_allowed:
  assumes "address_globs (nw_libs w)" "state_ok w st"
    and "e \<in> set (unwrap_or [] (allowed_domains (cs_config st)))" "CHR ''*'' \<notin> set e" "CHR ''?'' \<notin> set e"
    and "host_parse e = Inr h" "host_parse host = Inr h" "parse_ip h = Some ip" "\<not> public_addr ip"
    and "\<not> globset_matches_host_or_unscoped (nw_libs w) (cs_deny_set st) h"
  shows "decide_host w st host port = Allowed"
proof -
  have chars: "list_all ip_char h" "h \<noteq> []" using assms(8) parse_ip_chars parse_ip_ne by blast+
  then have c: "visible c \<and> c \<noteq> CHR ''%'' \<and> c \<noteq> CHR ''*''" if "c \<in> set h" for c
    using that ip_char_cases by (auto simp: list_all_iff)
  then have "CHR ''%'' \<notin> set h" by blast
  then have "local_name h"
    using assms(8,9) by (simp add: local_name_def unscoped_ip_literal_def split_once_none)
  have e: "normalize_host e = h" using assms(6) by (simp add: host_parse_Inr)
  have "expand_domain_pattern (normalize_pattern e) = [h]"
    using exact_entry_expands [OF e chars(2)] c hd_in_set [OF chars(2)] trim_visible [of h] by blast
  moreover have "globset_is_match (nw_libs w) [h] h"
    using assms(1) chars(1) by (simp add: globset_is_match_def address_globs_def)
  moreover have "compile_globset_with_policy (nw_libs w) (unwrap_or [] (allowed_domains (cs_config st))) AllowGlobal =
      Inr (cs_allow_set st)"
    using assms(2) by (simp add: state_ok_def sets_follow_def compile_allowlist_globset_def)
  ultimately have "globset_is_match (nw_libs w) (cs_allow_set st) h"
    using compiled_match assms(3) by fastforce
  moreover have "is_explicit_local_allowlisted (unwrap_or [] (allowed_domains (cs_config st))) h"
  proof -
    have "CHR ''*'' \<notin> set (trim e)" "CHR ''?'' \<notin> set (trim e)" using assms(4,5) set_trim_subset [of e] by auto
    moreover have "normalize_host (trim e) = h" using e by (simp add: normalize_host_def)
    ultimately show ?thesis
      unfolding is_explicit_local_allowlisted_def list_ex_iff Let_def
      by (intro bexI [OF _ assms(3)]) (auto simp: starts_with_iff)
  qed
  moreover have "allowed_domains (cs_config st) \<noteq> None" using assms(3) by (cases "allowed_domains (cs_config st)") auto
  ultimately show ?thesis
    using assms(7,10) \<open>local_name h\<close>
    by (auto simp: decide_host_def globset_matches_host_or_unscoped_def local_literal_iff Let_def)
qed

text \<open>
  C35. Naming a local address in the allowlist does not make it reachable. In every reachable state in
  which local binding is not allowed, a request for an address that is not public, that an entry names
  without a wildcard and that no denied pattern matches, is allowed by the decision on the host; and
  the connector that reads the same state rejects the direct connection to it. A connection through an
  upstream proxy is not checked.
\<close>

theorem listed_local_address_is_unreachable:
  assumes "address_globs (nw_libs w)" and "proxy_reachable w p" and "np_reloads p = []"
    and "\<not> allow_local_binding (cs_config (np_state p))"
    and "e \<in> set (unwrap_or [] (allowed_domains (cs_config (np_state p))))"
    and "CHR ''*'' \<notin> set e" and "CHR ''?'' \<notin> set e" and "host_parse e = Inr h"
    and "host_parse host = Inr h" and "parse_ip h = Some ip" and "\<not> public_addr ip"
    and "\<not> globset_matches_host_or_unscoped (nw_libs w) (cs_deny_set (np_state p)) h"
  shows "host_blocked w host port p = (Inr Allowed, p) \<and>
    connector_serve StateBinding None (ip, port) p = (Inr TargetRejected, p) \<and>
    connector_serve StateBinding (Some upstream) (ip, port) p = (Inr UpstreamAttempted, p)"
proof -
  have "decide_host w (np_state p) host port = Allowed"
    using listed_address_allowed [OF assms(1) proxy_okD [OF reachable_ok [OF assms(2)]] assms(5-12)] .
  then show ?thesis
    using assms(3,4,11) non_public_iff_listed [of ip]
    by (simp add: host_blocked_def connector_serve_def connect_target_def target_allow_local_binding_def
        local_binding_allowed_def after_reload_def reload_if_needed_def)
qed

lemma sample_address_globs: "address_globs (nw_libs sample_world)"
proof -
  have "strip_prefix ''?*.'' s = None" if "list_all ip_char s" for s
    using that ip_char_cases by (cases s) auto
  then show ?thesis by (simp add: address_globs_def sample_world_def sample_libs_def)
qed

definition loopback_proxy :: net_proxy where
  "loopback_proxy = sample_proxy (settings_allowing ['' 127.0.0.1:8080'']) [''127.0.0.1'']"

lemma loopback_reachable: "proxy_reachable sample_world loopback_proxy"
proof -
  let ?cfg = "settings_allowing ['' 127.0.0.1:8080'']"
  have "validate_policy_against_constraints sample_libs sample_hook_libs ?cfg no_constraints = Inr ()" by code_simp
  then have "validated sample_world (np_state loopback_proxy)"
    by (simp add: validated_def loopback_proxy_def sample_proxy_def sample_world_def)
  moreover have "build_config_state sample_world ?cfg no_constraints =
      Inr (np_state (sample_proxy ?cfg [''127.0.0.1''])\<lparr> cs_deny_set := [] \<rparr>)"
    by (rule sample_build) code_simp+
  ultimately have "configured sample_world (np_state loopback_proxy)"
    by (simp add: configured_def loopback_proxy_def sample_proxy_def)
  then show ?thesis by (intro started) (auto simp: reloads_ok_def loopback_proxy_def sample_proxy_def)
qed

theorem listed_local_address_is_unreachable_witness:
  "host_blocked sample_world ''127.0.0.1.'' 8080 loopback_proxy = (Inr Allowed, loopback_proxy) \<and>
   connector_serve StateBinding None (V4 (Ipv4 127 0 0 1), 8080) loopback_proxy = (Inr TargetRejected, loopback_proxy)"
proof -
  let ?e = "'' 127.0.0.1:8080''"
  have 1: "np_reloads loopback_proxy = []" "\<not> allow_local_binding (cs_config (np_state loopback_proxy))"
    by (simp_all add: loopback_proxy_def sample_proxy_def settings_allowing_def default_settings_def)
  have "unwrap_or [] (allowed_domains (settings_allowing [?e])) = [?e]" by code_simp
  then have 2: "?e \<in> set (unwrap_or [] (allowed_domains (cs_config (np_state loopback_proxy))))"
    by (simp add: loopback_proxy_def sample_proxy_def)
  have 3: "CHR ''*'' \<notin> set ?e" "CHR ''?'' \<notin> set ?e" by simp_all
  have 4: "host_parse ?e = Inr ''127.0.0.1''" "host_parse ''127.0.0.1.'' = Inr ''127.0.0.1''"
    "parse_ip ''127.0.0.1'' = Some (V4 (Ipv4 127 0 0 1))"
    by code_simp+
  have 5: "\<not> public_addr (V4 (Ipv4 127 0 0 1))"
    by (simp add: in_blocks_def non_public_blocks_def in_block_def dotted_def)
  have "unscoped_ip_literal ''127.0.0.1'' = None" by code_simp
  then have 6: "\<not> globset_matches_host_or_unscoped (nw_libs sample_world) (cs_deny_set (np_state loopback_proxy)) ''127.0.0.1''"
    by (simp add: globset_matches_host_or_unscoped_def globset_is_match_def loopback_proxy_def sample_proxy_def)
  from listed_local_address_is_unreachable [OF sample_address_globs loopback_reachable 1 2 3 4 5 6, of 8080] show ?thesis by blast
qed

end
