(* ===== verification/Spec2Isabelle.thy ===== *)
theory Spec2Isabelle
  imports EnvManager_Props Provision_Props EnvSwitch_Props EnvStatus_Props PatchParser_Sound PatchPreview StreamPlan
    PolicyFile PolicyBuild OutputText_Props NetConnect_Props
begin

text \<open>
  A model of the parts of the coding agent under \<open>src/codex-rs\<close> that decide where a command runs,
  whether it runs, and what a patch does to the files; of the text parsers between the model's
  answer and the screen; and of the remote environments this fork adds with its \<open>env_switch\<close> tool.

  \<^bold>\<open>The parts and how they interact.\<close> A turn of the agent has a list of environments. The tool
  \<open>env_switch\<close> builds a launcher, a chain of ssh and docker hops, provisions a binary behind it,
  registers the environment with the environment manager and moves the thread's cursor to it; later
  tool calls resolve their environment through the cursor, and \<open>env_status\<close> reports what they would
  use. A shell command is first split into plain commands over the syntax tree of its script; each
  one is looked up in the execution policy, which is loaded from rules files and overlaid with the
  rules of \<open>requirements.toml\<close>; commands no rule matches are classified by the lists of safe and
  dangerous commands; together this gives the requirement to run, to ask or to refuse, and an
  approved amendment goes back into the policy and its file. A patch is parsed incrementally,
  previewed for approval, and applied to a file system. The text of an answer passes a citation
  parser and a plan parser while it streams; the output of a process passes a bounded buffer and is
  truncated before the model sees it. A command that uses the network goes through a local proxy,
  which decides on each host by lists of domains that an administrator can constrain.

  \<^bold>\<open>Conventions.\<close> A Rust \<open>String\<close> is its UTF-8 bytes, a HOL \<open>string\<close>; \<open>chars\<close> groups the bytes
  into characters. \<open>Result\<close> is a sum with the error on the left and \<open>?\<close> is \<open>try_bind\<close>; error messages
  are constructors of an error datatype. A panic is \<open>None\<close>. Absolute paths are lists of normal
  components. Hash maps are association lists or maps, and where their order could show, the order
  is an argument. State is passed explicitly as records. Answers of the operating system, of remote
  machines, of the network and of third-party libraries (the Starlark interpreter, tree-sitter, JSON
  and shell quoting, the diff printer) are parameters or fields of world records; what the proofs
  need of them is a hypothesis of the theorem. Loops are recursion: structural, or \<open>function\<close> with
  a measure; the one loop that can run forever, the inline tag parser's with an empty tag, is a
  \<open>partial_function\<close>, and \<open>inline_push_returns\<close> shows that it returns for every parser the
  constructor accepts. The loops of the proxy that try an update again after another task has written
  are recursion over the list of those writes. No bound or fuel is chosen anywhere.

  \<^bold>\<open>Theories.\<close>
  \<^item> \<open>Prelude\<close>: the Rust string library on bytes (\<open>split\<close>, \<open>lines\<close>, \<open>trim\<close>, \<open>find\<close> and their laws),
    results and options. \<open>Utf8\<close>: \<open>str::from_utf8\<close>, lossy decoding, character boundaries.
  \<^item> \<open>Launcher\<close> (\<open>exec-server/src/provision/launcher.rs\<close>): hops, ids, quoting, argument vectors.
    Lemmas: the shell reads a quoted word back; the argument vector of any hop chain delivers the
    inner command; ids parse back.
  \<^item> \<open>World\<close>, \<open>Provision\<close>, \<open>Provision_Props\<close> (\<open>exec-server/src/provision/\<close>): probing, version
    policies, download, verification and installation, with the trace of external actions. Lemmas:
    what a run returns and which actions of this very run it rests on, that only bytes of a package
    verified in the run are streamed, that no path escapes the install script.
  \<^item> \<open>Bounded_Map\<close>, \<open>EnvManager\<close>, \<open>EnvManager_Props\<close> (\<open>exec-server/src/environment.rs\<close> and the two
    providers): the registry and its capped per-thread maps, whose contract is the locale
    \<open>capped_store\<close>. Lemmas: the invariant under any interleaving of calls (\<open>manager_step\<close>), that a
    configured manager is usable, that snapshots do not depend on hash order.
  \<^item> \<open>AbsolutePath\<close> (\<open>utils/absolute-path\<close>), \<open>FsSandbox\<close> (\<open>protocol/src/permissions.rs\<close>),
    \<open>ShellDetect\<close> (\<open>shell-command/src/shell_detect.rs\<close>, \<open>core/src/shell.rs\<close>).
  \<^item> \<open>EnvSwitch\<close>, \<open>EnvSwitch_Props\<close>, \<open>EnvStatus\<close>, \<open>EnvStatus_Props\<close> (\<open>core/src/tools/handlers\<close>,
    \<open>core/src/environment_selection.rs\<close>): the handlers over the manager and the world. Lemmas: what a
    switch selects, what a failure leaves, isolation of threads, agreement of status and calls on the
    environment and the directory.
  \<^item> \<open>PatchParser\<close>, \<open>PatchParser_Props\<close>, \<open>PatchParser_Sound\<close> (\<open>apply-patch/src/parser.rs\<close>,
    \<open>streaming_parser.rs\<close>): the incremental parser. Lemmas: independence of chunks, both round trips.
  \<^item> \<open>PatchApply\<close>, \<open>PatchApply_Props\<close>, \<open>PatchDelta\<close>, \<open>PatchPreview\<close> (\<open>apply-patch/src/lib.rs\<close>,
    \<open>seek_sequence.rs\<close>, \<open>invocation.rs\<close>): searching, splicing, effects on files, delta and preview.
    Lemmas: the loop that replaces lines is a splice and stays in range; an exact delta is what
    happened, over a file system with the stated laws; the preview is what happens.
  \<^item> \<open>StreamText\<close>, \<open>StreamText_Props\<close>, \<open>StreamPlan\<close> (\<open>utils/stream-parser\<close>): the parsers of the
    answer's text; the locale \<open>text_stream\<close> is their contract. Lemmas: chunks may be cut anywhere.
  \<^item> \<open>CommandSafety\<close>, \<open>CommandSafety_Props\<close> (\<open>shell-command/src/bash.rs\<close> and \<open>command_safety\<close>):
    scripts over the syntax tree, safe and dangerous commands. Lemmas: the walk sees every node; a
    safe script is plain and not dangerous.
  \<^item> \<open>ExecPolicy\<close>, \<open>ExecPolicy_Props\<close>, \<open>PolicyFile\<close> (\<open>execpolicy/src\<close>): rules, builtins of rules
    files, evaluation, network domains, appending to a file; the locale \<open>rule_store\<close> is the contract
    of the rule store. Lemmas: the check is the strictest rule of a store whose rules stand under
    their program; hosts are normalised; a file keeps its lines.
  \<^item> \<open>ExecApproval\<close>, \<open>ExecApproval_Props\<close>, \<open>ExecAmend\<close>, \<open>ExecRequirements\<close>,
    \<open>PolicyBuild\<close> (\<open>core/src/exec_policy.rs\<close>, \<open>config/src/requirements_exec_policy.rs\<close>): loading, the requirement
    for a command, amendments, requirements. Lemmas: the overall decision is the strictest of the
    parts; what skipping and asking mean; that approvals run out; that requirements bind, and that a
    rules file with a syntax error lifts them; that a policy, however it was built (\<open>built_from\<close>),
    decides by the strictest rule as written in the files it was built from.
  \<^item> \<open>OutputText\<close>, \<open>OutputText_Props\<close> (\<open>core/src/unified_exec/head_tail_buffer.rs\<close>,
    \<open>utils/string/src/truncate.rs\<close>, \<open>utils/output-truncation\<close>): the buffer that keeps the head and
    the tail of an output, and the truncation of texts and of the items of an answer. Lemmas: what the
    buffer holds after any chunks; truncation cuts between characters and counts what it leaves out;
    images survive; a truncated text can be longer than its input.
  \<^item> \<open>IpAddress\<close> (the part of \<open>std::net\<close> the proxy uses, and its test for non-public addresses),
    \<open>NetPolicy\<close>, \<open>NetPolicy_Props\<close> (\<open>network-proxy/src/policy.rs\<close>): hosts, patterns and their
    comparison. \<open>MitmHook\<close> (\<open>mitm_hook.rs\<close>): hooks on intercepted requests. \<open>NetConfig\<close>
    (\<open>config.rs\<close>, \<open>state.rs\<close>): the settings and the check against managed constraints. Lemmas: what
    the managed allowlist binds, and the entry that escapes it.
  \<^item> \<open>NetRuntime\<close>, \<open>NetRuntime_Props\<close>, \<open>NetState_Props\<close>, \<open>NetConnect_Props\<close> (\<open>runtime.rs\<close>, \<open>network_policy.rs\<close>,
    \<open>connect_policy.rs\<close>): the live state, reloads and updates, the decision on a request and the check
    of the address it connects to. The
    steps of the proxy are the relation \<open>proxy_step\<close>, the writes of other tasks \<open>state_write\<close>.
    Lemmas: what an allowed request has passed; where the proxy listens; where secrets go; every
    reachable configuration is within its constraints; a denied domain stays blocked; a listed local
    address is not reached directly.

  \<^bold>\<open>What is not modelled, and why.\<close> Of the modelled files: the Windows and macOS branches of
  conditional compilation; logging and tracing; the texts of error messages; serialisation by serde;
  the concurrency inside an operation, whose calls are taken one at a time under the locks the code
  holds, except for the proxy's updates, which release their lock between reading and writing; a reload
  of the proxy, which does so too, is one step. Of the
  parts only called: tree-sitter, Starlark, the diff printer, glob and URL matching, HTTP, name
  resolution and the processes. Not modelled at all: the terminal user interface and the command
  line (rendering and argument parsing), the app servers and their protocols (message plumbing over
  sockets), login, telemetry and the clients of web services (network protocols of other parties),
  the stores of threads, rollouts and state (databases), the operating-system sandboxes, the HTTP,
  SOCKS and TLS servers around the proxy's decisions and their certificates, pseudo-terminals,
  plug-ins, skills, hooks, memories and model-context servers, and the agent's own turn loop, whose
  behaviour is a conversation with a remote model.
\<close>

end
